(* ===== verification/Prelude.thy ===== *)
theory Prelude
  imports Complex_Main "HOL-Library.FSet"
begin

text \<open>
  Shared vocabulary of the development.

  The runtime is compiled with the lint \<^verbatim>\<open>clippy::arithmetic-side-effects = "deny"\<close>
  (\<^verbatim>\<open>Cargo.toml\<close>), so its integers are only ever combined by the checked, saturating and
  casting operations of Rust.  An unsigned integer is a \<open>nat\<close> and a signed one an \<open>int\<close>; the
  width is written out in the operation, as its largest value, wherever the operation depends
  on it.  Results are values of a sum type, \<open>Inl\<close> the error, so that an early return of the
  source (\<^verbatim>\<open>?\<close>, \<^verbatim>\<open>ensure!\<close>, \<^verbatim>\<open>return Err\<close>) is a branch of the model.
\<close>

section \<open>Machine integers\<close>

definition U8_MAX :: nat where "U8_MAX = 255"
definition U16_MAX :: nat where "U16_MAX = 65535"
definition U32_MAX :: nat where "U32_MAX = 4294967295"
definition U64_MAX :: nat where "U64_MAX = 18446744073709551615"
definition U128_MAX :: nat where "U128_MAX = 2 ^ 128 - 1"
definition U256_MAX :: nat where "U256_MAX = 2 ^ 256 - 1"
definition I64_MAX :: int where "I64_MAX = 9223372036854775807"
definition I64_MIN :: int where "I64_MIN = - 9223372036854775808"

definition checked_add :: "nat \<Rightarrow> nat \<Rightarrow> nat \<Rightarrow> nat option" where
  "checked_add m a b = (if a + b \<le> m then Some (a + b) else None)"

definition checked_sub :: "nat \<Rightarrow> nat \<Rightarrow> nat option" where
  "checked_sub a b = (if b \<le> a then Some (a - b) else None)"

definition checked_mul :: "nat \<Rightarrow> nat \<Rightarrow> nat \<Rightarrow> nat option" where
  "checked_mul m a b = (if a * b \<le> m then Some (a * b) else None)"

definition checked_div :: "nat \<Rightarrow> nat \<Rightarrow> nat option" where
  "checked_div a b = (if b = 0 then None else Some (a div b))"

definition checked_pow :: "nat \<Rightarrow> nat \<Rightarrow> nat \<Rightarrow> nat option" where
  "checked_pow m a e = (if a ^ e \<le> m then Some (a ^ e) else None)"

definition saturating_add :: "nat \<Rightarrow> nat \<Rightarrow> nat \<Rightarrow> nat" where
  "saturating_add m a b = min m (a + b)"

definition saturating_sub :: "nat \<Rightarrow> nat \<Rightarrow> nat" where
  "saturating_sub a b = (if b \<le> a then a - b else 0)"

definition saturating_mul :: "nat \<Rightarrow> nat \<Rightarrow> nat \<Rightarrow> nat" where
  "saturating_mul m a b = min m (a * b)"

definition checked_add_i64 :: "int \<Rightarrow> int \<Rightarrow> int option" where
  "checked_add_i64 a b = (if I64_MIN \<le> a + b \<and> a + b \<le> I64_MAX then Some (a + b) else None)"

definition checked_sub_i64 :: "int \<Rightarrow> int \<Rightarrow> int option" where
  "checked_sub_i64 a b = (if I64_MIN \<le> a - b \<and> a - b \<le> I64_MAX then Some (a - b) else None)"

definition saturating_sub_i64 :: "int \<Rightarrow> int \<Rightarrow> int" where
  "saturating_sub_i64 a b = max I64_MIN (min I64_MAX (a - b))"

definition I128_MAX :: int where "I128_MAX = 2 ^ 127 - 1"
definition I128_MIN :: int where "I128_MIN = - (2 ^ 127)"

definition saturating_sub_i128 :: "int \<Rightarrow> int \<Rightarrow> int" where
  "saturating_sub_i128 a b = max I128_MIN (min I128_MAX (a - b))"

definition in_i64 :: "int \<Rightarrow> bool" where
  "in_i64 e \<longleftrightarrow> I64_MIN \<le> e \<and> e \<le> I64_MAX"

text \<open>The cast \<^verbatim>\<open>x as i64\<close> of a \<^verbatim>\<open>u64\<close>: two's complement reinterpretation.\<close>

definition u64_as_i64 :: "nat \<Rightarrow> int" where
  "u64_as_i64 x = (if int x \<le> I64_MAX then int x else int x - 2 ^ 64)"

text \<open>Negation of an \<^verbatim>\<open>i64\<close>: in a release build the negation of the least value wraps to itself.\<close>

definition neg_i64 :: "int \<Rightarrow> int" where
  "neg_i64 x = (if x = I64_MIN then I64_MIN else - x)"

text \<open>\<^verbatim>\<open>i64::unsigned_abs\<close>, and the cast \<^verbatim>\<open>x as u64\<close> of an \<^verbatim>\<open>i64\<close>.\<close>

definition unsigned_abs :: "int \<Rightarrow> nat" where
  "unsigned_abs x = nat \<bar>x\<bar>"

definition i64_as_u64 :: "int \<Rightarrow> nat" where
  "i64_as_u64 x = (if 0 \<le> x then nat x else nat (x + 2 ^ 64))"

named_theorems int_ops \<open>definitions of the checked and saturating integer operations\<close>
named_theorems int_bounds \<open>the extreme values of the integer types\<close>

lemmas [int_ops] = checked_add_def checked_sub_def checked_mul_def checked_div_def
  checked_pow_def saturating_add_def saturating_sub_def saturating_mul_def
  checked_add_i64_def checked_sub_i64_def saturating_sub_i64_def saturating_sub_i128_def

lemmas [int_bounds] = U8_MAX_def U16_MAX_def U32_MAX_def U64_MAX_def U128_MAX_def U256_MAX_def
  I64_MAX_def I64_MIN_def I128_MAX_def I128_MIN_def

lemma saturating_sub_eq [simp]: "saturating_sub a b = a - b"
  by (simp add: saturating_sub_def)

lemma saturating_add_le: "saturating_add m a b \<le> m"
  by (simp add: saturating_add_def)

lemma saturating_add_exact: "a + b \<le> m \<Longrightarrow> saturating_add m a b = a + b"
  by (simp add: saturating_add_def)

lemma saturating_mul_exact: "a * b \<le> m \<Longrightarrow> saturating_mul m a b = a * b"
  by (simp add: saturating_mul_def)

lemma checked_add_Some_iff: "checked_add m a b = Some c \<longleftrightarrow> a + b \<le> m \<and> c = a + b"
  by (auto simp: checked_add_def)

lemma checked_sub_Some_iff: "checked_sub a b = Some c \<longleftrightarrow> b \<le> a \<and> c = a - b"
  by (auto simp: checked_sub_def)

lemma checked_mul_Some_iff: "checked_mul m a b = Some c \<longleftrightarrow> a * b \<le> m \<and> c = a * b"
  by (auto simp: checked_mul_def)

section \<open>Results\<close>

definition unwrap_or :: "'a option \<Rightarrow> 'a \<Rightarrow> 'a" where
  "unwrap_or x d = (case x of None \<Rightarrow> d | Some v \<Rightarrow> v)"

lemma unwrap_or_simps [simp]: "unwrap_or None d = d" "unwrap_or (Some v) d = v"
  by (simp_all add: unwrap_or_def)

definition ok_or :: "'a option \<Rightarrow> 'e \<Rightarrow> 'e + 'a" where
  "ok_or x e = (case x of None \<Rightarrow> Inl e | Some v \<Rightarrow> Inr v)"

definition bind_result :: "'e + 'a \<Rightarrow> ('a \<Rightarrow> 'e + 'b) \<Rightarrow> 'e + 'b" where
  "bind_result r f = (case r of Inl e \<Rightarrow> Inl e | Inr v \<Rightarrow> f v)"

definition ensure :: "bool \<Rightarrow> 'e \<Rightarrow> 'e + unit" where
  "ensure c e = (if c then Inr () else Inl e)"

lemma ok_or_simps [simp]: "ok_or None e = Inl e" "ok_or (Some v) e = Inr v"
  by (simp_all add: ok_or_def)

lemma bind_result_simps [simp]: "bind_result (Inl e) f = Inl e" "bind_result (Inr v) f = f v"
  by (simp_all add: bind_result_def)

lemma ok_or_Inr_iff: "ok_or x e = Inr v \<longleftrightarrow> x = Some v"
  by (cases x) auto

lemma bind_result_Inr_iff: "bind_result r f = Inr w \<longleftrightarrow> (\<exists>v. r = Inr v \<and> f v = Inr w)"
  by (cases r) auto

lemma ensure_Inr_iff: "ensure c e = Inr u \<longleftrightarrow> c"
  by (simp add: ensure_def)

lemma bind_ensure: "bind_result (ensure c e) f = (if c then f () else Inl e)"
  by (simp add: ensure_def)

named_theorems result_iffs \<open>when a composed result is a success\<close>

lemmas [result_iffs] = ok_or_Inr_iff bind_result_Inr_iff ensure_Inr_iff

section \<open>Weights\<close>

text \<open>The operations of the framework's \<^verbatim>\<open>Weight\<close> and the runtime's \<^verbatim>\<open>DbWeight\<close>.\<close>

record 'w weight_ops =
  reads :: "nat \<Rightarrow> 'w"
  writes :: "nat \<Rightarrow> 'w"
  reads_writes :: "nat \<Rightarrow> nat \<Rightarrow> 'w"
  weight_zero :: 'w
  weight_add :: "'w \<Rightarrow> 'w \<Rightarrow> 'w"
  weight_sub :: "'w \<Rightarrow> 'w \<Rightarrow> 'w"
  all_lte :: "'w \<Rightarrow> 'w \<Rightarrow> bool"

section \<open>Loops that may fail\<close>

fun fold_result :: "('x \<Rightarrow> 's \<Rightarrow> 'e + 's) \<Rightarrow> 'x list \<Rightarrow> 's \<Rightarrow> 'e + 's" where
  "fold_result f [] s = Inr s"
| "fold_result f (x # xs) s = bind_result (f x s) (fold_result f xs)"

lemma fold_result_total: "(\<And>x s. x \<in> set xs \<Longrightarrow> f x s = Inr (g x s)) \<Longrightarrow> fold_result f xs s = Inr (fold g xs s)"
  by (induction xs arbitrary: s) auto

lemma fold_result_inv:
  assumes "fold_result f xs s = Inr s'" "I s" "\<And>x s s'. x \<in> set xs \<Longrightarrow> I s \<Longrightarrow> f x s = Inr s' \<Longrightarrow> I s'"
  shows "I s'"
  using assms by (induction xs arbitrary: s) (auto simp: bind_result_Inr_iff)

section \<open>Sums over finite sets of keys\<close>

lemma sum_update_split:
  fixes f :: "'k \<Rightarrow> 'v::comm_monoid_add"
  assumes "finite K"
  shows "(\<Sum>x\<in>insert k K. f x) = f k + (\<Sum>x\<in>K - {k}. f x)"
  using assms by (simp add: sum.insert_remove)

end
