(* ===== verification/Safe_Float.thy ===== *)
theory Safe_Float
  imports Prelude
begin

text \<open>
  The decimal floating point type of the share pools, \<^verbatim>\<open>SafeFloat\<close> of
  \<^verbatim>\<open>src/primitives/share-pool/src/lib.rs\<close>: a \<^verbatim>\<open>u128\<close> mantissa and an \<^verbatim>\<open>i64\<close> exponent of ten.
  Intermediate results are \<^verbatim>\<open>U256\<close> integers, here a \<open>nat\<close> whose operations carry the bound
  \<open>U256_MAX\<close>.  The two loops of \<^verbatim>\<open>normalize\<close> are the functions \<open>scale_down\<close> and \<open>scale_up\<close>,
  total by a measure.  The lemmas relate every operation to exact arithmetic on
  \<open>sf_val\<close>, the real number a value stands for: which way it rounds and by how much.
\<close>

section \<open>Definitions\<close>

definition SAFE_FLOAT_MAX :: nat where "SAFE_FLOAT_MAX = 1000000000000000000000"
definition SAFE_FLOAT_MAX_EXP :: int where "SAFE_FLOAT_MAX_EXP = 21"

record SafeFloat =
  mantissa :: nat
  exponent :: int

definition cappow10 :: "nat \<Rightarrow> nat" where
  "cappow10 e =
     (if e > saturating_add U64_MAX (nat SAFE_FLOAT_MAX_EXP) 1
      then saturating_mul U128_MAX SAFE_FLOAT_MAX 10
      else if e = 0 then 1
      else unwrap_or (checked_pow U256_MAX 10 e) 0)"

definition zero_sf :: SafeFloat where
  "zero_sf = \<lparr>mantissa = 0, exponent = 0\<rparr>"

definition is_zero :: "SafeFloat \<Rightarrow> bool" where
  "is_zero x \<longleftrightarrow> mantissa x = 0"

text \<open>The first loop of \<^verbatim>\<open>normalize\<close>: divide by ten while the mantissa is too large.\<close>

function scale_down :: "nat \<Rightarrow> int \<Rightarrow> (nat \<times> int) option" where
  "scale_down m e =
     (if m > SAFE_FLOAT_MAX then
        (case checked_div m 10 of
           None \<Rightarrow> None
         | Some m' \<Rightarrow>
             (case checked_add_i64 e 1 of
                None \<Rightarrow> None
              | Some e' \<Rightarrow> scale_down m' e'))
      else Some (m, e))"
  by pat_completeness auto
termination
  by (relation "measure (\<lambda>(m, e). m)") (auto simp: checked_div_def SAFE_FLOAT_MAX_def)

text \<open>
  The second loop: multiply by ten while the mantissa is too small.  For a mantissa of zero the
  loop ends only by underflow of the exponent; \<^verbatim>\<open>normalize\<close> never enters it with zero.
\<close>

function scale_up :: "nat \<Rightarrow> int \<Rightarrow> (nat \<times> int) option" where
  "scale_up m e =
     (if m \<le> unwrap_or (checked_div SAFE_FLOAT_MAX 10) 0 then
        (case checked_mul U256_MAX m 10 of
           None \<Rightarrow> None
         | Some m' \<Rightarrow>
             (case checked_sub_i64 e 1 of
                None \<Rightarrow> None
              | Some e' \<Rightarrow> scale_up m' e'))
      else Some (m, e))"
  by pat_completeness auto
termination
  by (relation "measure (\<lambda>(m, e). if m = 0 then nat (e - I64_MIN) else Suc SAFE_FLOAT_MAX - m)")
    (auto simp: checked_div_def checked_mul_def checked_sub_i64_def SAFE_FLOAT_MAX_def
      split: if_splits)

declare scale_down.simps [simp del] scale_up.simps [simp del]

text \<open>\<^verbatim>\<open>normalize\<close> returns the updated value and whether it succeeded.\<close>

definition normalize_sf :: "SafeFloat \<Rightarrow> nat \<Rightarrow> int \<Rightarrow> SafeFloat \<times> bool" where
  "normalize_sf self new_mantissa new_exponent =
     (if new_mantissa = 0 then (self\<lparr>mantissa := 0, exponent := 0\<rparr>, True)
      else
        (case scale_down new_mantissa new_exponent of
           None \<Rightarrow> (self, False)
         | Some (m, e) \<Rightarrow>
             (case scale_up m e of
                None \<Rightarrow> (self, False)
              | Some (m', e') \<Rightarrow>
                  (self\<lparr>mantissa := m' mod 2 ^ 128, exponent := e'\<rparr>, True))))"

text \<open>The idiom that ends every operation: normalize into a fresh zero, or give up.\<close>

definition normalized_result :: "nat \<Rightarrow> int \<Rightarrow> SafeFloat option" where
  "normalized_result m e =
     (let (safe_float, ok) = normalize_sf zero_sf m e in if ok then Some safe_float else None)"

definition new_sf :: "nat \<Rightarrow> int \<Rightarrow> SafeFloat option" where
  "new_sf m e = (if m > SAFE_FLOAT_MAX then None else normalized_result m e)"

definition div_sf :: "SafeFloat \<Rightarrow> SafeFloat \<Rightarrow> SafeFloat option" where
  "div_sf x a =
     (let maybe_m1_scaled = checked_mul U256_MAX (mantissa x) SAFE_FLOAT_MAX;
          m2 = mantissa a;
          new_exponent =
            saturating_sub_i128 (saturating_sub_i128 (exponent x) (exponent a)) SAFE_FLOAT_MAX_EXP
      in if new_exponent > I64_MAX \<or> new_exponent < I64_MIN then None
         else
           (case maybe_m1_scaled of
              None \<Rightarrow> None
            | Some m1_scaled \<Rightarrow>
                (case checked_div m1_scaled m2 of
                   None \<Rightarrow> None
                 | Some new_mantissa \<Rightarrow> normalized_result new_mantissa new_exponent)))"

definition add_sf :: "SafeFloat \<Rightarrow> SafeFloat \<Rightarrow> SafeFloat option" where
  "add_sf x a =
     (if is_zero x then Some a
      else if is_zero a then Some x
      else
        (let (new_mantissa, new_exponent) =
           (if exponent x \<ge> exponent a then
              (let exp_diff = saturating_sub_i64 (exponent x) (exponent a);
                   m1 = mantissa x;
                   m2 = unwrap_or (checked_div (mantissa a) (cappow10 (nat exp_diff))) 0
               in (saturating_add U256_MAX m1 m2, exponent x))
            else
              (let exp_diff = saturating_sub_i64 (exponent a) (exponent x);
                   m1 = unwrap_or (checked_div (mantissa x) (cappow10 (nat exp_diff))) 0;
                   m2 = mantissa a
               in (saturating_add U256_MAX m1 m2, exponent a)))
         in normalized_result new_mantissa new_exponent))"

definition sub_sf :: "SafeFloat \<Rightarrow> SafeFloat \<Rightarrow> SafeFloat option" where
  "sub_sf x a =
     (if is_zero x \<and> is_zero a then Some zero_sf
      else if is_zero x then None
      else if is_zero a then Some x
      else
        (let (new_mantissa, new_exponent) =
           (if exponent x \<ge> exponent a then
              (let exp_diff = saturating_sub_i64 (exponent x) (exponent a);
                   m1 = mantissa x;
                   m2 = unwrap_or (checked_div (mantissa a) (cappow10 (nat exp_diff))) 0
               in (saturating_sub m1 m2, exponent x))
            else
              (let exp_diff = saturating_sub_i64 (exponent a) (exponent x);
                   m1 = unwrap_or (checked_div (mantissa x) (cappow10 (nat exp_diff))) 0;
                   m2 = mantissa a
               in (saturating_sub m1 m2, exponent a)))
         in normalized_result new_mantissa new_exponent))"

text \<open>The closure \<^verbatim>\<open>scale\<close> of \<^verbatim>\<open>sub_exact_floor\<close>.\<close>

definition scale_to :: "int \<Rightarrow> SafeFloat \<Rightarrow> nat option" where
  "scale_to e v =
     (case checked_sub_i64 (exponent v) e of
        None \<Rightarrow> None
      | Some shift \<Rightarrow>
          (case checked_pow U256_MAX 10 (i64_as_u64 shift) of
             None \<Rightarrow> None
           | Some factor \<Rightarrow> checked_mul U256_MAX (mantissa v) factor))"

definition sub_exact_floor :: "SafeFloat \<Rightarrow> SafeFloat \<Rightarrow> SafeFloat option" where
  "sub_exact_floor x a =
     (if is_zero a then Some x
      else if is_zero x then None
      else
        (let e = min (exponent x) (exponent a) in
         case scale_to e x of
           None \<Rightarrow> None
         | Some minuend \<Rightarrow>
             (case scale_to e a of
                None \<Rightarrow> None
              | Some subtrahend \<Rightarrow>
                  (case checked_sub minuend subtrahend of
                     None \<Rightarrow> None
                   | Some difference \<Rightarrow> normalized_result difference e))))"

definition mul_div :: "SafeFloat \<Rightarrow> SafeFloat \<Rightarrow> SafeFloat \<Rightarrow> SafeFloat option" where
  "mul_div x a b =
     (if mantissa b = 0 then None
      else
        (let self_a_mantissa = unwrap_or (checked_mul U256_MAX (mantissa x) (mantissa a)) 0
         in case checked_add_i64 (exponent x) (exponent a) of
              None \<Rightarrow> None
            | Some self_a_exponent \<Rightarrow>
                (case checked_sub_i64 self_a_exponent (exponent b) of
                   None \<Rightarrow> None
                 | Some new_exponent \<Rightarrow>
                     normalized_result
                       (unwrap_or (checked_div self_a_mantissa (mantissa b)) 0) new_exponent)))"

definition gt_sf :: "SafeFloat \<Rightarrow> SafeFloat \<Rightarrow> bool" where
  "gt_sf x a =
     (if is_zero x then False
      else if is_zero a then True
      else if exponent x = exponent a then mantissa x > mantissa a
      else if exponent x > exponent a then
        (if saturating_sub_i64 (exponent x) (exponent a) > 1 then True
         else saturating_mul U256_MAX 10 (mantissa x) > mantissa a)
      else
        (if saturating_sub_i64 (exponent a) (exponent x) > 1 then False
         else mantissa x > saturating_mul U256_MAX 10 (mantissa a)))"

text \<open>Conversions: \<^verbatim>\<open>u64::from(&SafeFloat)\<close>, \<^verbatim>\<open>SafeFloat::from(u64)\<close> and \<^verbatim>\<open>SafeFloat::from(U64F64)\<close>.\<close>

definition u64_of_sf :: "SafeFloat \<Rightarrow> nat" where
  "u64_of_sf v =
     (if exponent v = 0 then (if mantissa v \<le> U64_MAX then mantissa v else U64_MAX)
      else
        (let scale = cappow10 (unsigned_abs (exponent v));
             q = (if exponent v > 0 then saturating_mul U256_MAX (mantissa v) scale
                  else unwrap_or (checked_div (mantissa v) scale) 0)
         in if q = 0 then 0 else if q \<le> U64_MAX then q else U64_MAX))"

definition sf_of_u64 :: "nat \<Rightarrow> SafeFloat" where
  "sf_of_u64 v = unwrap_or (new_sf v 0) zero_sf"

text \<open>A \<^verbatim>\<open>U64F64\<close> is read through \<^verbatim>\<open>to_bits\<close> only; the model is its 128 bits.\<close>

type_synonym U64F64_bits = nat

definition sf_of_u64f64 :: "U64F64_bits \<Rightarrow> SafeFloat" where
  "sf_of_u64f64 bits =
     (let int_part = bits div 2 ^ 64;
          frac = bits mod 2 ^ 64
      in if bits = 0 then zero_sf
         else
           (let safe_int = unwrap_or (new_sf int_part 0) zero_sf;
                safe_frac_num = unwrap_or (new_sf frac 0) zero_sf;
                safe_two64 = unwrap_or (new_sf (2 ^ 64) 0) zero_sf;
                safe_frac = unwrap_or (div_sf safe_frac_num safe_two64) zero_sf
            in unwrap_or (add_sf safe_int safe_frac) zero_sf))"

section \<open>The real number a value stands for\<close>

definition sf_val :: "SafeFloat \<Rightarrow> real" where
  "sf_val x = real (mantissa x) * 10 powi (exponent x)"

definition normalized :: "SafeFloat \<Rightarrow> bool" where
  "normalized x \<longleftrightarrow> in_i64 (exponent x) \<and>
     (mantissa x = 0 \<and> exponent x = 0 \<or>
      SAFE_FLOAT_MAX div 10 < mantissa x \<and> mantissa x \<le> SAFE_FLOAT_MAX)"

definition exp_bounded :: "SafeFloat \<Rightarrow> bool" where
  "exp_bounded x \<longleftrightarrow> \<bar>exponent x\<bar> \<le> 2 ^ 60"

lemma sf_val_nonneg [simp]: "0 \<le> sf_val x"
  by (simp add: sf_val_def)

lemma sf_val_zero_iff: "sf_val x = 0 \<longleftrightarrow> is_zero x"
  by (simp add: sf_val_def is_zero_def)

lemma sf_val_is_zero [simp]: "is_zero x \<Longrightarrow> sf_val x = 0"
  by (simp add: sf_val_zero_iff)

lemma sf_val_pos_iff: "0 < sf_val x \<longleftrightarrow> \<not> is_zero x"
  using sf_val_zero_iff[of x] sf_val_nonneg[of x] by (metis less_eq_real_def less_irrefl)

lemma is_zero_zero_sf [simp]: "is_zero zero_sf" "sf_val zero_sf = 0" "normalized zero_sf"
  by (simp_all add: is_zero_def zero_sf_def sf_val_def normalized_def in_i64_def int_bounds)

lemma normalized_zero_iff: "normalized x \<Longrightarrow> is_zero x \<longleftrightarrow> x = zero_sf"
  by (auto simp: normalized_def is_zero_def zero_sf_def SAFE_FLOAT_MAX_def)

lemma powi_shift: "(10::real) powi (e + int k) = 10 powi e * 10 ^ k"
  by (simp add: power_int_add)

lemma powi_shift_down: "(10::real) powi (e - int k) * 10 ^ k = 10 powi e"
  using powi_shift[of "e - int k" k] by simp

section \<open>The normalization loops\<close>

lemma scale_down_Some:
  "scale_down m e = Some (m', e') \<Longrightarrow>
   m' \<le> SAFE_FLOAT_MAX \<and> (\<exists>k. m' = m div 10 ^ k \<and> e' = e + int k \<and>
     (k > 0 \<longrightarrow> SAFE_FLOAT_MAX div 10 \<le> m') \<and> (k > 0 \<longrightarrow> e' \<le> I64_MAX \<and> I64_MIN \<le> e') \<and> (\<forall>j<k. SAFE_FLOAT_MAX < m div 10 ^ j))"
proof (induction m e rule: scale_down.induct)
  case (1 m e)
  show ?case
  proof (cases "m > SAFE_FLOAT_MAX")
    case False
    with 1(2) show ?thesis by (auto simp: scale_down.simps[of m e] intro: exI[of _ 0])
  next
    case True
    with 1(2) have rec: "scale_down (m div 10) (e + 1) = Some (m', e')"
      and rng: "I64_MIN \<le> e + 1" "e + 1 \<le> I64_MAX"
      by (auto simp: scale_down.simps[of m e] checked_div_def checked_add_i64_def split: if_splits)
    from 1(1)[OF True, of "m div 10" "e + 1"] rec rng
    obtain k where k: "m' \<le> SAFE_FLOAT_MAX" "m' = m div 10 div 10 ^ k" "e' = e + 1 + int k"
      "k > 0 \<longrightarrow> SAFE_FLOAT_MAX div 10 \<le> m'" "k > 0 \<longrightarrow> e' \<le> I64_MAX \<and> I64_MIN \<le> e'"
      "\<forall>j<k. SAFE_FLOAT_MAX < m div 10 div 10 ^ j"
      by (auto simp: checked_div_def checked_add_i64_def)
    have "SAFE_FLOAT_MAX < m div 10 ^ j" if "j < Suc k" for j
      using that k(6) True by (cases j) (auto simp: div_mult2_eq)
    moreover have "SAFE_FLOAT_MAX div 10 \<le> m div 10" using True by (simp add: div_le_mono)
    ultimately show ?thesis using k rng True
      by (intro conjI exI[of _ "Suc k"]) (auto simp: div_mult2_eq)
  qed
qed

lemma scale_down_total:
  "m \<le> SAFE_FLOAT_MAX * 10 ^ n \<Longrightarrow> I64_MIN \<le> e \<Longrightarrow> e + int n \<le> I64_MAX \<Longrightarrow>
   \<exists>r. scale_down m e = Some r"
proof (induction n arbitrary: m e)
  case 0
  then show ?case by (simp add: scale_down.simps[of m e])
next
  case (Suc n)
  then have "m div 10 \<le> SAFE_FLOAT_MAX * 10 ^ n" by simp
  with Suc show ?case
    using Suc.IH[of "m div 10" "e + 1"]
    by (auto simp: scale_down.simps[of m e] checked_div_def checked_add_i64_def)
qed

lemma scale_up_Some:
  "scale_up m e = Some (m', e') \<Longrightarrow>
   SAFE_FLOAT_MAX div 10 < m' \<and> (\<exists>k. m' = m * 10 ^ k \<and> e' = e - int k \<and>
     (k > 0 \<longrightarrow> m' \<le> SAFE_FLOAT_MAX) \<and> (k > 0 \<longrightarrow> e' \<le> I64_MAX \<and> I64_MIN \<le> e') \<and>
     (k > 0 \<longrightarrow> m \<le> SAFE_FLOAT_MAX div 10) \<and> (m = SAFE_FLOAT_MAX div 10 \<longrightarrow> k \<le> 1))"
proof (induction m e rule: scale_up.induct)
  case (1 m e)
  have min: "unwrap_or (checked_div SAFE_FLOAT_MAX 10) 0 = SAFE_FLOAT_MAX div 10"
    by (simp add: checked_div_def)
  show ?case
  proof (cases "m \<le> SAFE_FLOAT_MAX div 10")
    case False
    with 1(2) show ?thesis
      by (auto simp: scale_up.simps[of m e] min intro: exI[of _ 0])
  next
    case True
    with 1(2) have rec: "scale_up (m * 10) (e - 1) = Some (m', e')"
      and rng: "I64_MIN \<le> e - 1" "e - 1 \<le> I64_MAX" "m * 10 \<le> U256_MAX"
      by (auto simp: scale_up.simps[of m e] min checked_mul_def checked_sub_i64_def split: if_splits)
    from 1(1)[of "m * 10" "e - 1"] rec rng True
    obtain k where k: "SAFE_FLOAT_MAX div 10 < m'" "m' = m * 10 * 10 ^ k" "e' = e - 1 - int k"
      "k > 0 \<longrightarrow> m' \<le> SAFE_FLOAT_MAX" "k > 0 \<longrightarrow> e' \<le> I64_MAX \<and> I64_MIN \<le> e'"
      "k > 0 \<longrightarrow> m * 10 \<le> SAFE_FLOAT_MAX div 10"
      by (auto simp: min checked_mul_def checked_sub_i64_def)
    have "m * 10 \<le> SAFE_FLOAT_MAX" using True by (simp add: SAFE_FLOAT_MAX_def)
    moreover have "k = 0" if "m = SAFE_FLOAT_MAX div 10"
      using k(6) that by (auto simp: SAFE_FLOAT_MAX_def)
    ultimately show ?thesis using k rng True
      by (intro conjI exI[of _ "Suc k"]) (auto)
  qed
qed

lemma scale_up_total:
  "SAFE_FLOAT_MAX div 10 < m * 10 ^ n \<Longrightarrow> I64_MIN + int n \<le> e \<Longrightarrow> e \<le> I64_MAX \<Longrightarrow>
   \<exists>r. scale_up m e = Some r"
proof (induction n arbitrary: m e)
  case 0
  then show ?case by (simp add: scale_up.simps[of m e] checked_div_def)
next
  case (Suc n)
  show ?case
  proof (cases "m \<le> SAFE_FLOAT_MAX div 10")
    case False
    then show ?thesis by (simp add: scale_up.simps[of m e] checked_div_def)
  next
    case True
    then have "m * 10 \<le> U256_MAX" by (simp add: SAFE_FLOAT_MAX_def U256_MAX_def)
    with Suc True show ?thesis
      using Suc.IH[of "m * 10" "e - 1"]
      by (auto simp: scale_up.simps[of m e] checked_div_def checked_mul_def checked_sub_i64_def
          mult.assoc)
  qed
qed


lemma normalized_result_Some:
  assumes "normalized_result m e = Some x" and "in_i64 e"
  shows "normalized x"
    and "\<exists>k. sf_val x = real (m div 10 ^ k) * 10 powi (e + int k) \<and>
      (\<forall>j<k. SAFE_FLOAT_MAX < m div 10 ^ j) \<and> (m \<noteq> 0 \<longrightarrow> exponent x \<le> e + int k) \<and>
      (k > 0 \<longrightarrow> e + int k \<le> exponent x + 1)"
proof -
  have "normalized x \<and> (\<exists>k. sf_val x = real (m div 10 ^ k) * 10 powi (e + int k) \<and>
      (\<forall>j<k. SAFE_FLOAT_MAX < m div 10 ^ j) \<and> (m \<noteq> 0 \<longrightarrow> exponent x \<le> e + int k) \<and>
      (k > 0 \<longrightarrow> e + int k \<le> exponent x + 1))"
  proof (cases "m = 0")
    case True
    with assms(1) have "x = zero_sf"
      by (auto simp: normalized_result_def normalize_sf_def zero_sf_def)
    with True show ?thesis by (auto intro: exI[of _ 0])
  next
    case False
    with assms(1) obtain m1 e1 m2 e2 where sd: "scale_down m e = Some (m1, e1)"
      and su: "scale_up m1 e1 = Some (m2, e2)"
      and x: "x = zero_sf\<lparr>mantissa := m2 mod 2 ^ 128, exponent := e2\<rparr>"
      by (auto simp: normalized_result_def normalize_sf_def split: option.splits prod.splits)
    from scale_down_Some[OF sd] obtain k where k: "m1 \<le> SAFE_FLOAT_MAX" "m1 = m div 10 ^ k"
      "e1 = e + int k" "k > 0 \<longrightarrow> SAFE_FLOAT_MAX div 10 \<le> m1"
      "k > 0 \<longrightarrow> e1 \<le> I64_MAX \<and> I64_MIN \<le> e1" "\<forall>j<k. SAFE_FLOAT_MAX < m div 10 ^ j"
      by blast
    from scale_up_Some[OF su] obtain j where j: "SAFE_FLOAT_MAX div 10 < m2" "m2 = m1 * 10 ^ j"
      "e2 = e1 - int j" "j > 0 \<longrightarrow> m2 \<le> SAFE_FLOAT_MAX" "j > 0 \<longrightarrow> e2 \<le> I64_MAX \<and> I64_MIN \<le> e2"
      "j > 0 \<longrightarrow> m1 \<le> SAFE_FLOAT_MAX div 10" "m1 = SAFE_FLOAT_MAX div 10 \<longrightarrow> j \<le> 1"
      by blast
    have m2: "m2 \<le> SAFE_FLOAT_MAX" using k(1) j(2,4) by (cases "j = 0") auto
    then have "m2 mod 2 ^ 128 = m2" by (simp add: SAFE_FLOAT_MAX_def)
    then have xm: "mantissa x = m2" "exponent x = e2" using x by simp_all
    have "in_i64 e2" using k(3,5) j(3,5) assms(2) by (cases "j = 0"; cases "k = 0") (auto simp: in_i64_def)
    then have "normalized x" using xm j(1) m2 by (simp add: normalized_def)
    moreover have "sf_val x = real (m div 10 ^ k) * 10 powi (e + int k)"
      using powi_shift_down[of e1 j] by (simp add: sf_val_def xm j(2,3) k(2,3) mult.commute)
    moreover have "k > 0 \<longrightarrow> j \<le> 1" using k(4) j(6,7) by (cases "j = 0") auto
    then have "k > 0 \<longrightarrow> e + int k \<le> exponent x + 1" using xm j(3) k(3) by simp
    moreover have "exponent x \<le> e + int k" using xm j(3) k(3) by simp
    ultimately show ?thesis using k(6) by blast
  qed
  then show "normalized x" and "\<exists>k. sf_val x = real (m div 10 ^ k) * 10 powi (e + int k) \<and>
      (\<forall>j<k. SAFE_FLOAT_MAX < m div 10 ^ j) \<and> (m \<noteq> 0 \<longrightarrow> exponent x \<le> e + int k) \<and>
      (k > 0 \<longrightarrow> e + int k \<le> exponent x + 1)" by blast+
qed

lemma div_pow_le: "real (m div 10 ^ k) * 10 powi (e + int k) \<le> real m * 10 powi e"
proof -
  have "real (m div 10 ^ k) * 10 ^ k \<le> real m"
    by (metis div_times_less_eq_dividend of_nat_le_iff of_nat_mult of_nat_numeral of_nat_power)
  then have "real (m div 10 ^ k) * 10 ^ k * 10 powi e \<le> real m * 10 powi e"
    by (intro mult_right_mono) auto
  then show ?thesis by (simp add: powi_shift mult_ac)
qed

lemma normalized_result_le:
  assumes "normalized_result m e = Some x" and "in_i64 e"
  shows "sf_val x \<le> real m * 10 powi e"
  using normalized_result_Some(2)[OF assms] div_pow_le by metis

text \<open>Normalization is exact when the digits it drops are zeros.\<close>

lemma normalized_result_exact:
  assumes "normalized_result (m * 10 ^ s) e = Some x" and "in_i64 e" and "m \<le> SAFE_FLOAT_MAX"
  shows "sf_val x = real m * 10 ^ s * 10 powi e"
proof -
  from normalized_result_Some(2)[OF assms(1,2)] obtain k where
    k: "sf_val x = real (m * 10 ^ s div 10 ^ k) * 10 powi (e + int k)"
    "\<forall>j<k. SAFE_FLOAT_MAX < m * 10 ^ s div 10 ^ j" by blast
  have "k \<le> s"
  proof (rule ccontr)
    assume "\<not> k \<le> s"
    then have "SAFE_FLOAT_MAX < m * 10 ^ s div 10 ^ s" using k(2) by (meson not_le)
    then show False using assms(3) by simp
  qed
  then obtain d where s: "s = k + d" by (auto simp: le_iff_add)
  then have "m * 10 ^ s div 10 ^ k = m * 10 ^ d" by (simp add: power_add)
  then show ?thesis using k(1) by (simp add: s power_add powi_shift)
qed

lemma normalized_result_exact0:
  assumes "normalized_result m e = Some x" and "in_i64 e" and "m \<le> SAFE_FLOAT_MAX"
  shows "sf_val x = real m * 10 powi e"
  using normalized_result_exact[of m 0 e x] assms by simp

lemma normalized_result_total:
  assumes "m \<le> U256_MAX" and "I64_MIN + 21 \<le> e" and "e + 57 \<le> I64_MAX"
  shows "\<exists>x. normalized_result m e = Some x"
proof (cases "m = 0")
  case True
  then show ?thesis by (simp add: normalized_result_def normalize_sf_def)
next
  case False
  have "m \<le> SAFE_FLOAT_MAX * 10 ^ 57" using assms(1) by (simp add: U256_MAX_def SAFE_FLOAT_MAX_def)
  with scale_down_total[of m 57 e] assms(2,3) obtain m1 e1 where sd: "scale_down m e = Some (m1, e1)"
    by auto
  from scale_down_Some[OF sd] obtain k where k: "m1 = m div 10 ^ k" "e1 = e + int k"
    "k > 0 \<longrightarrow> SAFE_FLOAT_MAX div 10 \<le> m1" "k > 0 \<longrightarrow> e1 \<le> I64_MAX \<and> I64_MIN \<le> e1" by blast
  have "m1 \<noteq> 0" using k False by (cases "k = 0") (auto simp: SAFE_FLOAT_MAX_def)
  then have "SAFE_FLOAT_MAX div 10 < m1 * 10 ^ 21" by (simp add: SAFE_FLOAT_MAX_def)
  then have "\<exists>r. scale_up m1 e1 = Some r"
    using assms(2,3) k(2,4) by (intro scale_up_total[of m1 21 e1]) (cases "k = 0"; simp)+
  with sd False show ?thesis
    by (auto simp: normalized_result_def normalize_sf_def)
qed


section \<open>Rounding of the operations\<close>

lemma cappow10_small: "e \<le> 22 \<Longrightarrow> cappow10 e = 10 ^ e"
proof -
  assume "e \<le> 22"
  then have "(10::nat) ^ e \<le> 10 ^ 22" by (intro power_increasing) auto
  then have "(10::nat) ^ e \<le> U256_MAX" by (simp add: U256_MAX_def)
  with \<open>e \<le> 22\<close> show ?thesis
    by (simp add: cappow10_def int_ops SAFE_FLOAT_MAX_EXP_def U64_MAX_def)
qed

lemma cappow10_large: "22 < e \<Longrightarrow> cappow10 e = 10 ^ 22"
  by (simp add: cappow10_def int_ops SAFE_FLOAT_MAX_EXP_def U64_MAX_def U128_MAX_def
      SAFE_FLOAT_MAX_def)

lemma cappow10_div:
  assumes "m \<le> SAFE_FLOAT_MAX"
  shows "unwrap_or (checked_div m (cappow10 e)) 0 = m div 10 ^ e"
proof (cases "e \<le> 22")
  case True
  then show ?thesis by (simp add: cappow10_small checked_div_def)
next
  case False
  then have "(10::nat) ^ 22 \<le> 10 ^ e" by (intro power_increasing) auto
  then have "m < 10 ^ e" and "m < 10 ^ 22" using assms by (simp_all add: SAFE_FLOAT_MAX_def)
  then show ?thesis using False by (simp add: cappow10_large checked_div_def)
qed

lemma saturating_diff_nat:
  assumes "in_i64 a" "in_i64 b" "b \<le> a"
  shows "m \<le> SAFE_FLOAT_MAX \<Longrightarrow>
    m div 10 ^ nat (saturating_sub_i64 a b) = m div 10 ^ nat (a - b)"
proof (cases "a - b \<le> I64_MAX")
  case True
  then show ?thesis using assms by (simp add: saturating_sub_i64_def max_def min_def I64_MIN_def)
next
  case False
  assume m: "m \<le> SAFE_FLOAT_MAX"
  have big: "m div 10 ^ n = 0" if "22 \<le> n" for n
  proof -
    from that have "(10::nat) ^ 22 \<le> 10 ^ n" by (intro power_increasing) auto
    with m show ?thesis by (simp add: SAFE_FLOAT_MAX_def)
  qed
  have "22 \<le> nat (saturating_sub_i64 a b)"
    using False by (simp add: saturating_sub_i64_def I64_MIN_def I64_MAX_def)
  moreover have "22 \<le> nat (a - b)" using False by (simp add: I64_MAX_def)
  ultimately show ?thesis by (simp only: big)
qed

lemma normalized_mantissa_le: "normalized x \<Longrightarrow> mantissa x \<le> SAFE_FLOAT_MAX"
  by (auto simp: normalized_def)

lemma normalized_mantissa_gt: "normalized x \<Longrightarrow> \<not> is_zero x \<Longrightarrow> SAFE_FLOAT_MAX div 10 < mantissa x"
  by (auto simp: normalized_def is_zero_def)

lemma normalized_in_i64: "normalized x \<Longrightarrow> in_i64 (exponent x)"
  by (simp add: normalized_def)

lemmas normalizedD = normalized_mantissa_le normalized_mantissa_gt normalized_in_i64

text \<open>The operands of \<open>add_sf\<close> and \<open>sub_sf\<close> after alignment to the larger exponent.\<close>

definition aligned :: "SafeFloat \<Rightarrow> int \<Rightarrow> nat" where
  "aligned x e = mantissa x div 10 ^ nat (e - exponent x)"

lemma div_le_MAX [simp]: "m \<le> SAFE_FLOAT_MAX \<Longrightarrow> m div k \<le> SAFE_FLOAT_MAX"
  using div_le_dividend le_trans by blast

lemma saturating_add_mantissas:
  "m \<le> SAFE_FLOAT_MAX \<Longrightarrow> n \<le> SAFE_FLOAT_MAX \<Longrightarrow> saturating_add U256_MAX m n = m + n"
  by (simp add: saturating_add_def SAFE_FLOAT_MAX_def U256_MAX_def)

lemma add_sf_eq:
  assumes "normalized x" "normalized a" "\<not> is_zero x" "\<not> is_zero a"
  shows "add_sf x a = (let e = max (exponent x) (exponent a) in
           normalized_result (aligned x e + aligned a e) e)"
  using assms
  by (auto simp: add_sf_def aligned_def cappow10_div saturating_diff_nat normalizedD Let_def max_def
      saturating_add_mantissas)


lemma sub_sf_eq:
  assumes "normalized x" "normalized a" "\<not> is_zero x" "\<not> is_zero a"
  shows "sub_sf x a = (let e = max (exponent x) (exponent a) in
           normalized_result (aligned x e - aligned a e) e)"
  using assms
  by (auto simp: sub_sf_def aligned_def cappow10_div saturating_diff_nat normalizedD Let_def max_def)

lemma powi_less: "e < e' \<Longrightarrow> 10 * (10::real) powi e \<le> 10 powi e'"
proof -
  assume "e < e'"
  then have "(10::real) powi (e + 1) \<le> 10 powi e'" by (intro power_int_increasing) auto
  then show ?thesis by (simp add: power_int_add)
qed

lemma aligned_le: "exponent x \<le> e \<Longrightarrow> real (aligned x e) * 10 powi e \<le> sf_val x"
  using div_pow_le[of "mantissa x" "nat (e - exponent x)" "exponent x"]
  by (simp add: aligned_def sf_val_def)

lemma aligned_self: "aligned x (exponent x) = mantissa x"
  by (simp add: aligned_def)

lemma sf_val_less_exponent:
  assumes "normalized x" "normalized a" "\<not> is_zero a" "exponent x < exponent a"
  shows "sf_val x < sf_val a"
proof -
  have "sf_val x \<le> real SAFE_FLOAT_MAX * 10 powi exponent x"
    using normalizedD(1)[OF assms(1)] by (simp add: sf_val_def mult_right_mono)
  also have "\<dots> = real (SAFE_FLOAT_MAX div 10) * (10 * 10 powi exponent x)"
    by (simp add: SAFE_FLOAT_MAX_def)
  also have "\<dots> \<le> real (SAFE_FLOAT_MAX div 10) * 10 powi exponent a"
    using powi_less[OF assms(4)] by (intro mult_left_mono) auto
  also have "\<dots> < sf_val a"
    using normalizedD(2)[OF assms(2,3)] by (simp add: sf_val_def)
  finally show ?thesis .
qed

theorem gt_sf_iff:
  assumes "normalized x" "normalized a"
  shows "gt_sf x a \<longleftrightarrow> sf_val a < sf_val x"
proof -
  consider "is_zero x" | "\<not> is_zero x" "is_zero a"
    | "\<not> is_zero x" "\<not> is_zero a" "exponent x = exponent a"
    | "\<not> is_zero x" "\<not> is_zero a" "exponent a < exponent x"
    | "\<not> is_zero x" "\<not> is_zero a" "exponent x < exponent a" by linarith
  then show ?thesis
  proof cases
    case 1
    then show ?thesis by (simp add: gt_sf_def not_less)
  next
    case 2
    then show ?thesis by (simp add: gt_sf_def sf_val_pos_iff)
  next
    case 3
    then show ?thesis by (auto simp: gt_sf_def sf_val_def)
  next
    case 4
    have "mantissa a < saturating_mul U256_MAX 10 (mantissa x)"
      using normalizedD(1)[OF assms(2)] normalizedD(2)[OF assms(1) 4(1)]
      by (simp add: saturating_mul_def SAFE_FLOAT_MAX_def U256_MAX_def)
    then show ?thesis using 4 sf_val_less_exponent[OF assms(2,1) 4(1,3)] by (simp add: gt_sf_def)
  next
    case 5
    have "\<not> saturating_mul U256_MAX 10 (mantissa a) < mantissa x"
      using normalizedD(1)[OF assms(1)] normalizedD(2)[OF assms(2) 5(2)]
      by (simp add: saturating_mul_def SAFE_FLOAT_MAX_def U256_MAX_def)
    then show ?thesis using 5 sf_val_less_exponent[OF assms(1,2) 5(2,3)] by (simp add: gt_sf_def)
  qed
qed


text \<open>Addition rounds towards zero and never loses an operand.\<close>

lemma add_sf_Some:
  assumes "normalized x" "normalized a" "add_sf x a = Some r"
  shows "normalized r" "sf_val r \<le> sf_val x + sf_val a" "sf_val x \<le> sf_val r" "sf_val a \<le> sf_val r"
proof -
  have "normalized r \<and> sf_val r \<le> sf_val x + sf_val a \<and> sf_val x \<le> sf_val r \<and> sf_val a \<le> sf_val r"
  proof (cases "is_zero x \<or> is_zero a")
    case True
    with assms show ?thesis by (auto simp: add_sf_def split: if_splits)
  next
    case False
    define e where "e = max (exponent x) (exponent a)"
    have e: "exponent x \<le> e" "exponent a \<le> e" "in_i64 e"
      using assms normalizedD(3) by (auto simp: e_def max_def)
    have nr: "normalized_result (aligned x e + aligned a e) e = Some r"
      using assms False by (simp add: add_sf_eq e_def Let_def)
    have up: "sf_val r \<le> sf_val x + sf_val a"
      using normalized_result_le[OF nr e(3)] aligned_le[OF e(1)] aligned_le[OF e(2)]
      by (simp add: algebra_simps)
    obtain k where k: "sf_val r = real ((aligned x e + aligned a e) div 10 ^ k) * 10 powi (e + int k)"
      "\<forall>j<k. SAFE_FLOAT_MAX < (aligned x e + aligned a e) div 10 ^ j"
      using normalized_result_Some(2)[OF nr e(3)] by blast
    have al: "aligned y e \<le> SAFE_FLOAT_MAX" if "normalized y" for y
      using normalizedD(1)[OF that] by (simp add: aligned_def)
    have low: "real (aligned y e) * 10 powi e \<le> sf_val r" if y: "y = x \<or> y = a" for y
    proof (cases "k = 0")
      case True
      then show ?thesis using k(1) y by (auto intro!: mult_right_mono)
    next
      case False
      let ?s = "aligned x e + aligned a e"
      have s2: "?s \<le> 2 * SAFE_FLOAT_MAX" using al[OF assms(1)] al[OF assms(2)] by simp
      have "k \<le> 1"
      proof (rule ccontr)
        assume "\<not> k \<le> 1"
        then have "SAFE_FLOAT_MAX < ?s div 10" using k(2)[rule_format, of 1] by simp
        with s2 show False by (simp add: SAFE_FLOAT_MAX_def)
      qed
      with False have "k = 1" by simp
      have "SAFE_FLOAT_MAX < ?s" using k(2) False by force
      then have "SAFE_FLOAT_MAX \<le> ?s div 10 * 10" by (simp add: SAFE_FLOAT_MAX_def)
      then have "aligned y e \<le> ?s div 10 * 10" using al[of y] y assms(1,2) by (auto intro: le_trans)
      then have "real (aligned y e) \<le> real (?s div 10) * 10" by linarith
      then have "real (aligned y e) * 10 powi e \<le> real (?s div 10) * 10 * 10 powi e"
        by (intro mult_right_mono) auto
      then show ?thesis using k(1) \<open>k = 1\<close> powi_shift[of e 1] by (simp add: mult_ac)
    qed
    have "sf_val x \<le> sf_val r \<and> sf_val a \<le> sf_val r"
    proof (cases "exponent x" "exponent a" rule: linorder_cases)
      case less
      then show ?thesis
        using low[of a] sf_val_less_exponent[OF assms(1,2)] False
        by (simp add: e_def aligned_def sf_val_def max_def)
    next
      case equal
      then show ?thesis using low[of x] low[of a] by (simp add: e_def aligned_def sf_val_def)
    next
      case greater
      then show ?thesis
        using low[of x] sf_val_less_exponent[OF assms(2,1)] False
        by (simp add: e_def aligned_def sf_val_def max_def)
    qed
    then show ?thesis using up normalized_result_Some(1)[OF nr e(3)] by blast
  qed
  then show "normalized r" "sf_val r \<le> sf_val x + sf_val a" "sf_val x \<le> sf_val r" "sf_val a \<le> sf_val r"
    by blast+
qed

text \<open>
  Subtraction drops the digits of the subtrahend below the granularity of the minuend, so it
  can only err upwards; it is exact when those digits are zeros.
\<close>

lemma sub_sf_Some:
  assumes "normalized x" "normalized a" "sub_sf x a = Some r"
  shows "normalized r" "sf_val x - sf_val a \<le> sf_val r"
    "\<exists>j \<le> mantissa x. sf_val r = sf_val x - real j * 10 powi exponent x"
    "\<lbrakk>sf_val a = real j * 10 powi g; exponent x \<le> g; sf_val a \<le> sf_val x\<rbrakk>
      \<Longrightarrow> sf_val r = sf_val x - sf_val a"
proof -
  have "normalized r \<and> sf_val x - sf_val a \<le> sf_val r \<and>
    (\<exists>j \<le> mantissa x. sf_val r = sf_val x - real j * 10 powi exponent x) \<and>
    (\<forall>j g. sf_val a = real j * 10 powi g \<longrightarrow> exponent x \<le> g \<longrightarrow> sf_val a \<le> sf_val x \<longrightarrow>
      sf_val r = sf_val x - sf_val a)"
  proof (cases "is_zero x \<or> is_zero a")
    case True
    with assms show ?thesis
      by (auto simp: sub_sf_def split: if_splits intro: exI[of _ 0])
  next
    case False
    define e where "e = max (exponent x) (exponent a)"
    have e: "exponent x \<le> e" "exponent a \<le> e" "in_i64 e"
      using assms normalizedD(3) by (auto simp: e_def max_def)
    have nr: "normalized_result (aligned x e - aligned a e) e = Some r"
      using assms False by (simp add: sub_sf_eq e_def Let_def)
    have "aligned x e - aligned a e \<le> SAFE_FLOAT_MAX"
      using normalizedD(1)[OF assms(1)] by (simp add: aligned_def le_diff_conv trans_le_add1)
    then have val: "sf_val r = real (aligned x e - aligned a e) * 10 powi e"
      using normalized_result_exact0[OF nr e(3)] by simp
    note n = normalized_result_Some(1)[OF nr e(3)]
    show ?thesis
    proof (cases "exponent a \<le> exponent x")
      case True
      then have ex: "e = exponent x" "aligned x e = mantissa x"
        by (simp_all add: e_def aligned_self max_def)
      let ?A = "aligned a e"
      have xv: "sf_val x = real (mantissa x) * 10 powi exponent x" by (simp add: sf_val_def)
      have rv: "sf_val r = sf_val x - real (min ?A (mantissa x)) * 10 powi exponent x"
        by (cases "?A \<le> mantissa x") (auto simp: val ex(1) aligned_self xv algebra_simps min_def)
      moreover have "real (min ?A (mantissa x)) * 10 powi e \<le> real ?A * 10 powi e"
        by (intro mult_right_mono) auto
      then have "sf_val x - sf_val a \<le> sf_val r"
        using aligned_le[OF e(2)] rv unfolding ex(1) by linarith
      moreover have "sf_val r = sf_val x - sf_val a"
        if g: "sf_val a = real j * 10 powi g" "exponent x \<le> g" and le: "sf_val a \<le> sf_val x" for j g
      proof -
        define J where "J = j * 10 ^ nat (g - e)"
        have J: "sf_val a = real J * 10 powi e"
          using g ex powi_shift[of e "nat (g - e)"] by (simp add: J_def mult_ac)
        have "real (mantissa a) * 10 powi exponent a = real (J * 10 ^ nat (e - exponent a)) * 10 powi exponent a"
          using J e(2) powi_shift[of "exponent a" "nat (e - exponent a)"]
          by (simp add: sf_val_def mult_ac)
        then have "mantissa a = J * 10 ^ nat (e - exponent a)"
          by (metis mult_right_cancel of_nat_eq_iff power_int_eq_0_iff zero_neq_numeral)
        then have A: "?A = J" by (simp add: aligned_def)
        moreover have "J \<le> mantissa x" using le J ex by (simp add: sf_val_def)
        ultimately show ?thesis using rv J ex by (simp add: min_def)
      qed
      ultimately show ?thesis using n by (auto intro!: exI[of _ "min ?A (mantissa x)"])
    next
      case False2: False
      then have ex: "e = exponent a" "aligned a e = mantissa a"
        by (simp_all add: e_def aligned_self max_def)
      have less: "sf_val x < sf_val a"
        using sf_val_less_exponent[OF assms(1,2)] False False2 by simp
      have "real (aligned x e) * 10 powi e < real (mantissa a) * 10 powi e"
        using aligned_le[OF e(1)] less unfolding ex(1) sf_val_def by linarith
      then have "aligned x e \<le> aligned a e" using ex by simp
      then have "sf_val r = 0" using val by simp
      then show ?thesis using n less by (auto simp: sf_val_def intro!: exI[of _ "mantissa x"])
    qed
  qed
  then show "normalized r" "sf_val x - sf_val a \<le> sf_val r"
    "\<exists>j \<le> mantissa x. sf_val r = sf_val x - real j * 10 powi exponent x"
    "\<lbrakk>sf_val a = real j * 10 powi g; exponent x \<le> g; sf_val a \<le> sf_val x\<rbrakk>
      \<Longrightarrow> sf_val r = sf_val x - sf_val a" by blast+
qed

lemma scale_to_Some:
  assumes "scale_to e v = Some n" "e \<le> exponent v"
  shows "real n * 10 powi e = sf_val v"
proof -
  from assms have "n = mantissa v * 10 ^ nat (exponent v - e)"
    by (auto simp: scale_to_def int_ops i64_as_u64_def split: option.splits if_splits)
  then show ?thesis
    using assms(2) powi_shift[of e "nat (exponent v - e)"] by (simp add: sf_val_def mult_ac)
qed

lemma scale_to_total:
  assumes "e \<le> exponent v" "exponent v - e \<le> 55" "normalized v"
  shows "\<exists>n. scale_to e v = Some n"
proof -
  let ?s = "nat (exponent v - e)"
  have s: "checked_sub_i64 (exponent v) e = Some (exponent v - e)"
    using assms(1,2) by (simp add: checked_sub_i64_def I64_MIN_def I64_MAX_def)
  have "(10::nat) ^ ?s \<le> 10 ^ 55" using assms by (intro power_increasing) auto
  moreover from this have "mantissa v * 10 ^ ?s \<le> SAFE_FLOAT_MAX * 10 ^ 55"
    using normalizedD(1)[OF assms(3)] by (intro mult_le_mono) auto
  ultimately have "(10::nat) ^ ?s \<le> U256_MAX" "mantissa v * 10 ^ ?s \<le> U256_MAX"
    by (simp_all add: SAFE_FLOAT_MAX_def U256_MAX_def)
  then show ?thesis
    using s assms(1) by (simp add: scale_to_def checked_pow_def checked_mul_def i64_as_u64_def)
qed

text \<open>\<open>sub_exact_floor\<close> never exceeds the true difference, and equals it when it is representable.\<close>

lemma sub_exact_floor_Some:
  assumes "normalized x" "normalized a" "sub_exact_floor x a = Some r"
  shows "normalized r" "sf_val r \<le> sf_val x - sf_val a"
    "\<lbrakk>sf_val x - sf_val a = real j * 10 powi exponent x; j \<le> SAFE_FLOAT_MAX\<rbrakk>
      \<Longrightarrow> sf_val r = sf_val x - sf_val a"
proof -
  have "normalized r \<and> sf_val r \<le> sf_val x - sf_val a \<and>
    (\<forall>j. sf_val x - sf_val a = real j * 10 powi exponent x \<longrightarrow> j \<le> SAFE_FLOAT_MAX \<longrightarrow>
      sf_val r = sf_val x - sf_val a)"
  proof (cases "is_zero a")
    case True
    with assms show ?thesis by (auto simp: sub_exact_floor_def)
  next
    case False
    define e where "e = min (exponent x) (exponent a)"
    have e: "e \<le> exponent x" "e \<le> exponent a" "in_i64 e"
      using assms normalizedD(3) by (auto simp: e_def min_def)
    from assms(3) False obtain m s where ms: "scale_to e x = Some m" "scale_to e a = Some s"
      "s \<le> m" "normalized_result (m - s) e = Some r"
      by (auto simp: sub_exact_floor_def e_def Let_def checked_sub_def
          split: if_splits option.splits)
    have diff: "real (m - s) * 10 powi e = sf_val x - sf_val a"
      using scale_to_Some[OF ms(1) e(1)] scale_to_Some[OF ms(2) e(2)] ms(3)
      by (simp add: algebra_simps)
    have "sf_val r = sf_val x - sf_val a"
      if j: "sf_val x - sf_val a = real j * 10 powi exponent x" "j \<le> SAFE_FLOAT_MAX" for j
    proof -
      have "real (m - s) * 10 powi e = real (j * 10 ^ nat (exponent x - e)) * 10 powi e"
        using diff j e(1) powi_shift[of e "nat (exponent x - e)"] by (simp add: mult_ac)
      then have ms': "m - s = j * 10 ^ nat (exponent x - e)"
        by (metis mult_right_cancel of_nat_eq_iff power_int_eq_0_iff zero_neq_numeral)
      from normalized_result_exact[OF ms(4)[unfolded ms'] e(3) j(2)] diff ms'
      show ?thesis by simp
    qed
    then show ?thesis
      using normalized_result_Some(1)[OF ms(4) e(3)] normalized_result_le[OF ms(4) e(3)] diff by auto
  qed
  then show "normalized r" "sf_val r \<le> sf_val x - sf_val a"
    "\<lbrakk>sf_val x - sf_val a = real j * 10 powi exponent x; j \<le> SAFE_FLOAT_MAX\<rbrakk>
      \<Longrightarrow> sf_val r = sf_val x - sf_val a" by blast+
qed

lemma sub_exact_floor_total:
  assumes "normalized x" "normalized a" "sf_val a \<le> sf_val x" "exponent x - exponent a \<le> 55"
    "I64_MIN + 100 \<le> exponent a" "exponent x + 100 \<le> I64_MAX" "I64_MIN + 100 \<le> exponent x"
  shows "\<exists>r. sub_exact_floor x a = Some r"
proof (cases "is_zero a")
  case True
  then show ?thesis by (simp add: sub_exact_floor_def)
next
  case False
  then have nz: "\<not> is_zero x"
    using assms(3) sf_val_pos_iff[of a] by auto
  have ea: "exponent a \<le> exponent x"
  proof (rule ccontr)
    assume "\<not> exponent a \<le> exponent x"
    then have "sf_val x < sf_val a" using sf_val_less_exponent[OF assms(1,2) False] by simp
    with assms(3) show False by simp
  qed
  then have e: "min (exponent x) (exponent a) = exponent a" by simp
  obtain m where m: "scale_to (exponent a) x = Some m"
    using scale_to_total[OF ea assms(4,1)] by blast
  obtain s where s: "scale_to (exponent a) a = Some s"
    using scale_to_total[of "exponent a" a] assms(2) by auto
  have "real s * 10 powi exponent a \<le> real m * 10 powi exponent a"
    using scale_to_Some[OF m ea] scale_to_Some[OF s] assms(3) by simp
  then have "s \<le> m" by simp
  moreover have "m \<le> U256_MAX" using m
    by (auto simp: scale_to_def checked_mul_def split: option.splits if_splits)
  then have "\<exists>r. normalized_result (m - s) (exponent a) = Some r"
    using assms(5,6) ea by (intro normalized_result_total) auto
  ultimately show ?thesis
    using False nz m s e by (auto simp: sub_exact_floor_def checked_sub_def)
qed


text \<open>\<open>mul_div\<close> rounds towards zero.\<close>

lemma mul_div_Some:
  assumes "normalized x" "normalized a" "normalized b" "mul_div x a b = Some r"
  shows "normalized r" "sf_val r \<le> sf_val x * sf_val a / sf_val b" "\<not> is_zero b"
proof -
  let ?e = "exponent x + exponent a - exponent b"
  let ?q = "mantissa x * mantissa a div mantissa b"
  have "mantissa x * mantissa a \<le> SAFE_FLOAT_MAX * SAFE_FLOAT_MAX"
    using normalizedD(1)[OF assms(1)] normalizedD(1)[OF assms(2)] by (rule mult_le_mono)
  then have "mantissa x * mantissa a \<le> U256_MAX" by (simp add: SAFE_FLOAT_MAX_def U256_MAX_def)
  then have nr: "normalized_result ?q ?e = Some r" and e: "in_i64 ?e" and b: "mantissa b \<noteq> 0"
    using assms(4)
    by (auto simp: mul_div_def checked_mul_def checked_div_def checked_add_i64_def
        checked_sub_i64_def in_i64_def Let_def split: if_splits option.splits)
  show "normalized r" using normalized_result_Some(1)[OF nr e] .
  show "\<not> is_zero b" using b by (simp add: is_zero_def)
  have pe: "(10::real) powi ?e = 10 powi exponent x * 10 powi exponent a / 10 powi exponent b"
    by (simp add: power_int_add power_int_diff)
  have "sf_val r \<le> real ?q * 10 powi ?e" using normalized_result_le[OF nr e] .
  also have "\<dots> \<le> (real (mantissa x) * real (mantissa a) / real (mantissa b)) * 10 powi ?e"
  proof (rule mult_right_mono)
    show "real ?q \<le> real (mantissa x) * real (mantissa a) / real (mantissa b)"
      using of_nat_div_le_of_nat[of "mantissa x * mantissa a" "mantissa b", where 'a = real] by simp
  qed simp
  also have "\<dots> = sf_val x * sf_val a / sf_val b"
    by (simp add: sf_val_def pe)
  finally show "sf_val r \<le> sf_val x * sf_val a / sf_val b" .
qed

text \<open>The conversion to \<^verbatim>\<open>u64\<close> is the saturated integer part.\<close>

lemma floor_div_real: "\<lfloor>real m / 10 ^ k\<rfloor> = int (m div 10 ^ k)"
  using floor_divide_of_nat_eq[of m "10 ^ k", where 'a = real] by simp

lemma u64_of_sf_floor:
  assumes "normalized v"
  shows "u64_of_sf v = min U64_MAX (nat \<lfloor>sf_val v\<rfloor>)"
proof (cases "exponent v" "0::int" rule: linorder_cases)
  case equal
  then show ?thesis by (simp add: u64_of_sf_def sf_val_def min_def)
next
  case less
  define k where "k = nat (- exponent v)"
  have ek: "exponent v = - int k" "unsigned_abs (exponent v) = k"
    using less by (simp_all add: k_def unsigned_abs_def)
  have "sf_val v = real (mantissa v) / 10 ^ k"
    by (simp add: sf_val_def ek power_int_minus field_simps)
  then have "\<lfloor>sf_val v\<rfloor> = int (mantissa v div 10 ^ k)" by (simp add: floor_div_real)
  then show ?thesis
    using less ek cappow10_div[OF normalizedD(1)[OF assms], of k]
    by (simp add: u64_of_sf_def Let_def min_def)
next
  case greater
  define k where "k = nat (exponent v)"
  have ek: "exponent v = int k" "unsigned_abs (exponent v) = k" "k > 0"
    using greater by (simp_all add: k_def unsigned_abs_def)
  have "sf_val v = real (mantissa v * 10 ^ k)" by (simp add: sf_val_def ek)
  then have v: "nat \<lfloor>sf_val v\<rfloor> = mantissa v * 10 ^ k" by (simp only: floor_of_nat nat_int)
  show ?thesis
  proof (cases "k \<le> 22")
    case True
    have "(10::nat) ^ k \<le> 10 ^ 22" using True by (intro power_increasing) auto
    then have "mantissa v * 10 ^ k \<le> SAFE_FLOAT_MAX * 10 ^ 22"
      using normalizedD(1)[OF assms] by (intro mult_le_mono) auto
    then have "mantissa v * 10 ^ k \<le> U256_MAX" by (simp add: SAFE_FLOAT_MAX_def U256_MAX_def)
    then have "saturating_mul U256_MAX (mantissa v) (cappow10 k) = mantissa v * 10 ^ k"
      using True by (simp add: cappow10_small saturating_mul_exact)
    then show ?thesis using greater ek v by (simp add: u64_of_sf_def Let_def min_def)
  next
    case False
    have m: "SAFE_FLOAT_MAX div 10 < mantissa v"
      using normalizedD(2)[OF assms] assms greater by (auto simp: normalized_def is_zero_def)
    have "saturating_mul U256_MAX (mantissa v) (cappow10 k) > U64_MAX"
      using m False by (simp add: cappow10_large saturating_mul_def U256_MAX_def U64_MAX_def
          SAFE_FLOAT_MAX_def)
    moreover have "U64_MAX < mantissa v" using m by (simp add: SAFE_FLOAT_MAX_def U64_MAX_def)
    then have "U64_MAX < mantissa v * 10 ^ k" by (rule less_le_trans) simp
    ultimately show ?thesis using greater ek v
      by (simp add: u64_of_sf_def Let_def min_def)
  qed
qed

text \<open>Integers up to the largest mantissa are represented exactly.\<close>

lemma new_sf_exact:
  assumes "m \<le> SAFE_FLOAT_MAX"
  shows "\<exists>x. new_sf m 0 = Some x \<and> normalized x \<and> sf_val x = real m"
proof -
  have "m \<le> U256_MAX" using assms by (simp add: SAFE_FLOAT_MAX_def U256_MAX_def)
  then obtain x where x: "normalized_result m 0 = Some x"
    using normalized_result_total[of m 0] by (auto simp: I64_MIN_def I64_MAX_def)
  have "in_i64 0" by (simp add: in_i64_def I64_MIN_def I64_MAX_def)
  then show ?thesis
    using x assms normalized_result_Some(1)[OF x] normalized_result_exact0[OF x]
    by (simp add: new_sf_def)
qed

lemma u64_le_safe_float_max: "n \<le> U64_MAX \<Longrightarrow> n \<le> SAFE_FLOAT_MAX"
  by (simp add: U64_MAX_def SAFE_FLOAT_MAX_def)

lemma sf_of_u64_exact:
  assumes "n \<le> U64_MAX"
  shows "normalized (sf_of_u64 n)" "sf_val (sf_of_u64 n) = real n"
  using new_sf_exact[OF u64_le_safe_float_max[OF assms]] by (auto simp: sf_of_u64_def)

lemma u64_of_sf_of_u64: "n \<le> U64_MAX \<Longrightarrow> u64_of_sf (sf_of_u64 n) = n"
  by (simp add: u64_of_sf_floor sf_of_u64_exact)

section \<open>Properties\<close>

text \<open>
  the comparison \<^verbatim>\<open>gt\<close> of two normalized values, which aligns exponents and may saturate on the
  way, decides the order of the numbers they stand for.
\<close>

lemma gt_sf_order:
  assumes "normalized x" "normalized a"
  shows "gt_sf x a \<longleftrightarrow> sf_val a < sf_val x"
  using assms by (rule gt_sf_iff)

text \<open>
  C37: the direction in which each operation on normalized values rounds.  A sum is at least either
  operand and at most the exact sum; a plain difference is at least the exact one; the exact-floor
  difference and the quotient of a product are at most the exact result.  Every result is
  normalized again.
\<close>

theorem rounding_directions:
  assumes "normalized x" "normalized a" "normalized b"
  shows "(add_sf x a = Some r \<longrightarrow>
      normalized r \<and> max (sf_val x) (sf_val a) \<le> sf_val r \<and> sf_val r \<le> sf_val x + sf_val a) \<and>
    (sub_sf x a = Some r \<longrightarrow> normalized r \<and> sf_val x - sf_val a \<le> sf_val r \<and> sf_val r \<le> sf_val x) \<and>
    (sub_exact_floor x a = Some r \<longrightarrow> normalized r \<and> sf_val r \<le> sf_val x - sf_val a) \<and>
    (mul_div x a b = Some r \<longrightarrow> normalized r \<and> sf_val r \<le> sf_val x * sf_val a / sf_val b)"
proof (intro conjI impI)
  assume "sub_sf x a = Some r"
  then show "sf_val r \<le> sf_val x" using sub_sf_Some(3)[OF assms(1,2)] by auto
qed (use add_sf_Some[OF assms(1,2)] sub_sf_Some(1,2)[OF assms(1,2)] sub_exact_floor_Some(1,2)[OF assms(1,2)]
    mul_div_Some(1,2)[OF assms] in auto)

text \<open>
  C40: the two loops of \<^verbatim>\<open>normalize\<close> end and succeed for every \<^verbatim>\<open>U256\<close> mantissa whose exponent is not
  at the edge of \<^verbatim>\<open>i64\<close>, and the result is normalized and never above the number it came from.
\<close>

theorem normalize_succeeds:
  assumes "m \<le> U256_MAX" "I64_MIN + 21 \<le> e" "e + 57 \<le> I64_MAX"
  shows "\<exists>x. normalized_result m e = Some x \<and> normalized x \<and> sf_val x \<le> real m * 10 powi e"
proof -
  have "in_i64 e" using assms(2,3) by (simp add: in_i64_def)
  then show ?thesis
    using normalized_result_total[OF assms] normalized_result_Some(1) normalized_result_le by blast
qed

text \<open>
  the conversion to \<^verbatim>\<open>u64\<close> is the integer part of the number, saturated at the largest \<^verbatim>\<open>u64\<close>.
\<close>

lemma u64_of_sf_is_floor:
  assumes "normalized v"
  shows "u64_of_sf v = min U64_MAX (nat \<lfloor>sf_val v\<rfloor>)"
  using assms by (rule u64_of_sf_floor)

section \<open>The properties on concrete values\<close>

definition ex_sf :: SafeFloat where
  "ex_sf = \<lparr>mantissa = 500000000000000000000, exponent = -18\<rparr>"

definition ex_sf_small :: SafeFloat where
  "ex_sf_small = \<lparr>mantissa = 300000000000000000000, exponent = -19\<rparr>"

lemma ex_sf_normalized: "normalized ex_sf" "normalized ex_sf_small"
  by (simp_all add: ex_sf_def ex_sf_small_def normalized_def in_i64_def I64_MIN_def I64_MAX_def SAFE_FLOAT_MAX_def)

lemma ex_sf_val: "sf_val ex_sf = 500" "sf_val ex_sf_small = 30"
  by (simp_all add: ex_sf_def ex_sf_small_def sf_val_def power_int_def power_divide)

theorem rounding_directions_witness:
  "\<exists>r. sub_sf ex_sf ex_sf_small = Some r \<and> 470 \<le> sf_val r \<and> sf_val r \<le> 500"
proof -
  have "\<exists>r. sub_sf ex_sf ex_sf_small = Some r"
    using normalized_result_total[of "500000000000000000000 - 30000000000000000000" "-18"]
    by (simp add: sub_sf_def ex_sf_def ex_sf_small_def is_zero_def saturating_sub_i64_def checked_div_def
        cappow10_def U64_MAX_def U128_MAX_def U256_MAX_def I64_MAX_def I64_MIN_def SAFE_FLOAT_MAX_EXP_def saturating_add_def checked_pow_def)
  then show ?thesis
    using rounding_directions[OF ex_sf_normalized ex_sf_normalized(1)] by (auto simp: ex_sf_val)
qed

theorem normalize_succeeds_witness: "\<exists>x. normalized_result 12345 0 = Some x \<and> normalized x \<and> sf_val x \<le> 12345"
  using normalize_succeeds[of 12345 0] by (simp add: U256_MAX_def I64_MIN_def I64_MAX_def)

end
