(* ===== verification/Share_Pool.thy ===== *)
theory Share_Pool
  imports Safe_Float
begin

text \<open>
  The share pool of \<^verbatim>\<open>src/primitives/share-pool/src/lib.rs\<close>: a value \<open>V\<close> shared by members who
  hold shares of a denominator \<open>D\<close>.  The trait \<^verbatim>\<open>SharePoolDataOperations\<close>, through which the pool
  reads and writes its storage, is the record \<open>SharePoolDataOperations\<close> of functions over an
  abstract storage \<open>'s\<close>; its documented contract is the locale \<open>share_pool_data\<close>.  The methods of
  \<^verbatim>\<open>SharePool\<close> are functions of that record, and the pool's accounting invariant (the shares of
  all members together never exceed the denominator) is proved from the contract alone.
\<close>

section \<open>The storage interface\<close>

record ('s, 'k) SharePoolDataOperations =
  get_shared_value :: "'s \<Rightarrow> nat"
  get_share :: "'s \<Rightarrow> 'k \<Rightarrow> SafeFloat"
  try_get_share :: "'s \<Rightarrow> 'k \<Rightarrow> unit + SafeFloat"
  get_denominator :: "'s \<Rightarrow> SafeFloat"
  set_shared_value :: "'s \<Rightarrow> nat \<Rightarrow> 's"
  set_share :: "'s \<Rightarrow> 'k \<Rightarrow> SafeFloat \<Rightarrow> 's"
  set_denominator :: "'s \<Rightarrow> SafeFloat \<Rightarrow> 's"

section \<open>Operations of the pool\<close>

definition has_members :: "('s, 'k) SharePoolDataOperations \<Rightarrow> 's \<Rightarrow> bool" where
  "has_members ops s \<longleftrightarrow> \<not> is_zero (get_denominator ops s)"

definition try_credit_sole_member ::
    "('s, 'k) SharePoolDataOperations \<Rightarrow> 's \<Rightarrow> 'k \<Rightarrow> nat \<Rightarrow> 's \<times> bool" where
  "try_credit_sole_member ops s key amount =
     (if amount = 0 then (s, True)
      else
        (let value = get_shared_value ops s in
         if value = 0 then (s, False)
         else
           (let denominator = get_denominator ops s in
            if is_zero denominator \<or> try_get_share ops s key \<noteq> Inr denominator then (s, False)
            else
              (case checked_add U64_MAX value amount of
                 None \<Rightarrow> (s, False)
               | Some new_value \<Rightarrow> (set_shared_value ops s new_value, True)))))"

definition try_get_value_from_parts :: "nat \<Rightarrow> SafeFloat \<Rightarrow> SafeFloat \<Rightarrow> nat option" where
  "try_get_value_from_parts shared_value current_share denominator =
     (case new_sf shared_value 0 of
        None \<Rightarrow> None
      | Some shared_value_sf \<Rightarrow>
          map_option (\<lambda>v. min (u64_of_sf v) shared_value)
            (mul_div shared_value_sf current_share denominator))"

definition get_value :: "('s, 'k) SharePoolDataOperations \<Rightarrow> 's \<Rightarrow> 'k \<Rightarrow> nat" where
  "get_value ops s key =
     unwrap_or
       (try_get_value_from_parts (get_shared_value ops s) (get_share ops s key)
         (get_denominator ops s)) 0"

definition get_value_from_shares ::
    "('s, 'k) SharePoolDataOperations \<Rightarrow> 's \<Rightarrow> SafeFloat \<Rightarrow> nat" where
  "get_value_from_shares ops s current_share =
     unwrap_or
       (try_get_value_from_parts (get_shared_value ops s) current_share (get_denominator ops s)) 0"

definition try_get_value :: "('s, 'k) SharePoolDataOperations \<Rightarrow> 's \<Rightarrow> 'k \<Rightarrow> unit + nat" where
  "try_get_value ops s key =
     (case try_get_share ops s key of Inr _ \<Rightarrow> Inr (get_value ops s key) | Inl i \<Rightarrow> Inl i)"

definition update_value_for_all :: "('s, 'k) SharePoolDataOperations \<Rightarrow> 's \<Rightarrow> int \<Rightarrow> 's" where
  "update_value_for_all ops s update =
     (let shared_value = get_shared_value ops s in
      set_shared_value ops s
        (if update \<ge> 0 then saturating_add U64_MAX shared_value (i64_as_u64 update)
         else saturating_sub shared_value (i64_as_u64 (neg_i64 update))))"

definition get_shares_per_update :: "int \<Rightarrow> nat \<Rightarrow> SafeFloat \<Rightarrow> SafeFloat" where
  "get_shares_per_update update shared_value denominator =
     (let shared_value_sf = unwrap_or (new_sf shared_value 0) zero_sf;
          update_sf = unwrap_or (new_sf (unsigned_abs update) 0) zero_sf
      in unwrap_or (mul_div update_sf denominator shared_value_sf) zero_sf)"

definition sim_update_value_for_one :: "('s, 'k) SharePoolDataOperations \<Rightarrow> 's \<Rightarrow> int \<Rightarrow> bool" where
  "sim_update_value_for_one ops s update =
     (let shared_value = get_shared_value ops s;
          denominator = get_denominator ops s
      in if mantissa denominator = 0 \<or> (update > 0 \<and> shared_value = 0) then True
         else \<not> is_zero (get_shares_per_update update shared_value denominator))"

definition withdrawal_drains_member ::
    "nat \<Rightarrow> nat \<Rightarrow> SafeFloat \<Rightarrow> SafeFloat \<Rightarrow> nat \<Rightarrow> SafeFloat \<Rightarrow> SafeFloat \<Rightarrow> bool" where
  "withdrawal_drains_member magnitude shared_value current_share denominator
       updated_shared_value new_current_share new_denominator =
     (if try_get_value_from_parts shared_value current_share denominator = Some magnitude then True
      else try_get_value_from_parts updated_shared_value new_current_share new_denominator = Some 0)"

text \<open>
  The two branches of \<^verbatim>\<open>update_value_for_one\<close> that move the denominator and the member's share,
  each a pair \<open>(new_denominator, new_current_share)\<close>.
\<close>

definition deposit_shares :: "SafeFloat \<Rightarrow> SafeFloat \<Rightarrow> SafeFloat \<Rightarrow> SafeFloat \<times> SafeFloat" where
  "deposit_shares denominator current_share shares_per_update =
     (let new_denominator = unwrap_or (add_sf denominator shares_per_update) denominator;
          denominator_gain =
            (case sub_exact_floor new_denominator denominator of
               Some gain \<Rightarrow> gain
             | None \<Rightarrow> unwrap_or (sub_sf new_denominator denominator) zero_sf);
          new_current_share = unwrap_or (add_sf current_share denominator_gain) current_share
      in (new_denominator, new_current_share))"

definition withdraw_shares :: "SafeFloat \<Rightarrow> SafeFloat \<Rightarrow> SafeFloat \<Rightarrow> SafeFloat \<times> SafeFloat" where
  "withdraw_shares denominator current_share shares_per_update =
     (let new_denominator = unwrap_or (sub_sf denominator shares_per_update) denominator;
          denominator_loss =
            (case sub_exact_floor denominator new_denominator of
               Some loss \<Rightarrow> loss
             | None \<Rightarrow> unwrap_or (sub_sf denominator new_denominator) zero_sf)
      in if gt_sf denominator_loss current_share
         then (unwrap_or (sub_sf denominator current_share) zero_sf, zero_sf)
         else (new_denominator, unwrap_or (sub_sf current_share denominator_loss) zero_sf))"

definition moved_shares :: "int \<Rightarrow> nat \<Rightarrow> SafeFloat \<Rightarrow> SafeFloat \<Rightarrow> SafeFloat \<times> SafeFloat" where
  "moved_shares update shared_value denominator current_share =
     (let shares_per_update = get_shares_per_update update shared_value denominator
      in if update > 0 then deposit_shares denominator current_share shares_per_update
         else withdraw_shares denominator current_share shares_per_update)"

text \<open>
  What is written after a withdrawal: nothing when the pool is emptied, and no dust of a member
  that has been drained.
\<close>

definition settled_shares ::
    "int \<Rightarrow> nat \<Rightarrow> SafeFloat \<Rightarrow> SafeFloat \<Rightarrow> SafeFloat \<times> SafeFloat \<Rightarrow> SafeFloat \<times> SafeFloat" where
  "settled_shares update shared_value denominator current_share moved =
     (let (new_denominator, new_current_share) = moved;
          magnitude = unsigned_abs update;
          updated_shared_value =
            (if update \<ge> 0 then saturating_add U64_MAX shared_value magnitude
             else saturating_sub shared_value magnitude)
      in if update < 0 \<and> updated_shared_value = 0 then (zero_sf, zero_sf)
         else if update < 0 \<and> \<not> is_zero new_current_share \<and>
           withdrawal_drains_member magnitude shared_value current_share denominator
             updated_shared_value new_current_share new_denominator
         then
           (case sub_sf new_denominator new_current_share of
              Some denominator_without_dust \<Rightarrow> (denominator_without_dust, zero_sf)
            | None \<Rightarrow> moved)
         else moved)"

definition update_value_for_one ::
    "('s, 'k) SharePoolDataOperations \<Rightarrow> 's \<Rightarrow> 'k \<Rightarrow> int \<Rightarrow> 's" where
  "update_value_for_one ops s0 key update =
     (let shared_value = get_shared_value ops s0;
          denominator0 = get_denominator ops s0;
          magnitude = unsigned_abs update;
          (s, denominator) =
            (if update > 0 \<and> shared_value = 0 \<and> \<not> is_zero denominator0
             then (set_denominator ops s0 zero_sf, zero_sf)
             else (s0, denominator0));
          s' =
            (if is_zero denominator then
               (if update > 0 then
                  (let update_float = unwrap_or (new_sf magnitude 0) zero_sf
                   in set_share ops (set_denominator ops s update_float) key update_float)
                else s)
             else
               (let current_share = get_share ops s key;
                    moved = moved_shares update shared_value denominator current_share;
                    (new_denominator, new_current_share) =
                      settled_shares update shared_value denominator current_share moved
                in set_share ops (set_denominator ops s new_denominator) key new_current_share))
      in update_value_for_all ops s' update)"

section \<open>Totality of the arithmetic on bounded exponents\<close>

lemma add_sf_total:
  assumes "normalized x" "normalized a" "exp_bounded x" "exp_bounded a"
  shows "\<exists>r. add_sf x a = Some r"
proof (cases "is_zero x \<or> is_zero a")
  case True
  then show ?thesis by (auto simp: add_sf_def)
next
  case False
  let ?e = "max (exponent x) (exponent a)"
  have "aligned y e \<le> SAFE_FLOAT_MAX" if "normalized y" for y e
    using normalizedD(1)[OF that] by (simp add: aligned_def)
  from this[OF assms(1), of ?e] this[OF assms(2), of ?e]
  have "aligned x ?e + aligned a ?e \<le> U256_MAX" by (simp add: SAFE_FLOAT_MAX_def U256_MAX_def)
  then show ?thesis
    using False assms
    by (auto simp: add_sf_eq Let_def exp_bounded_def max_def I64_MIN_def I64_MAX_def
        intro!: normalized_result_total)
qed

lemma sub_sf_total:
  assumes "normalized x" "normalized a" "exp_bounded x" "exp_bounded a" "\<not> is_zero x \<or> is_zero a"
  shows "\<exists>r. sub_sf x a = Some r"
proof (cases "is_zero x \<or> is_zero a")
  case True
  with assms(5) show ?thesis by (auto simp: sub_sf_def)
next
  case False
  let ?e = "max (exponent x) (exponent a)"
  have "aligned x ?e \<le> SAFE_FLOAT_MAX"
    using normalizedD(1)[OF assms(1)] by (simp add: aligned_def)
  then have "aligned x ?e - aligned a ?e \<le> U256_MAX" by (simp add: SAFE_FLOAT_MAX_def U256_MAX_def)
  then show ?thesis
    using False assms
    by (auto simp: sub_sf_eq Let_def exp_bounded_def max_def I64_MIN_def I64_MAX_def
        intro!: normalized_result_total)
qed

text \<open>Two normalized values whose ratio is below \<open>10 ^ n\<close> have exponents at most \<open>n + 1\<close> apart.\<close>

lemma exponent_gap:
  assumes "normalized x" "normalized a" "\<not> is_zero x" "sf_val x \<le> sf_val a * 10 ^ n"
  shows "exponent x \<le> exponent a + int n + 1"
proof (rule ccontr)
  assume "\<not> exponent x \<le> exponent a + int n + 1"
  then have "exponent a + int n + 1 < exponent x" by simp
  then have "10 * (10::real) powi (exponent a + int (n + 1)) \<le> 10 powi exponent x"
    using powi_less[of "exponent a + int (n + 1)" "exponent x"] by simp
  then have p: "100 * (10 ^ n * (10::real) powi exponent a) \<le> 10 powi exponent x"
    unfolding powi_shift by (simp add: mult_ac)
  have "real (SAFE_FLOAT_MAX div 10) * 10 powi exponent x \<le> sf_val x"
    using normalizedD(2)[OF assms(1,3)] by (simp add: sf_val_def)
  also have "\<dots> \<le> sf_val a * 10 ^ n" by (rule assms(4))
  also have "\<dots> \<le> real SAFE_FLOAT_MAX * 10 powi exponent a * 10 ^ n"
    using normalizedD(1)[OF assms(2)] by (intro mult_right_mono) (simp_all add: sf_val_def)
  finally have "real (SAFE_FLOAT_MAX div 10) * 10 powi exponent x
      \<le> real SAFE_FLOAT_MAX * (10 ^ n * 10 powi exponent a)" by (simp add: mult_ac)
  moreover have "real (SAFE_FLOAT_MAX div 10) * (100 * (10 ^ n * (10::real) powi exponent a))
      \<le> real (SAFE_FLOAT_MAX div 10) * 10 powi exponent x"
    using p by (intro mult_left_mono) auto
  moreover have "0 < (10::real) ^ n * 10 powi exponent a" by simp
  ultimately show False by (simp add: SAFE_FLOAT_MAX_def)
qed

section \<open>What a deposit and a withdrawal do to the shares\<close>

text \<open>
  The member never gains more shares than the denominator gains, and never loses fewer than the
  denominator loses.
\<close>

lemma deposit_shares_bound:
  assumes D: "normalized D" "\<not> is_zero D" "exp_bounded D" and S: "normalized S"
    and P: "normalized P" "sf_val P \<le> sf_val D * 10 ^ 20"
    and res: "deposit_shares D S P = (D', S')"
  shows "normalized D'" "normalized S'" "sf_val D \<le> sf_val D'" "sf_val S \<le> sf_val S'"
    "sf_val S' - sf_val S \<le> sf_val D' - sf_val D"
proof -
  have D': "D' = unwrap_or (add_sf D P) D"
    using res by (simp add: deposit_shares_def Let_def)
  have nD': "normalized D'" and mono: "sf_val D \<le> sf_val D'" and up: "sf_val D' \<le> sf_val D + sf_val P"
    using D' add_sf_Some[OF D(1) P(1)] D(1) by (cases "add_sf D P"; auto)+
  have nz: "\<not> is_zero D'"
    using mono D(2) sf_val_pos_iff[of D] sf_val_pos_iff[of D'] by auto
  have "sf_val D' \<le> sf_val D * (1 + 10 ^ 20)"
    using up P(2) by (simp add: algebra_simps)
  also have "\<dots> \<le> sf_val D * 10 ^ 21" by (intro mult_left_mono) auto
  finally have "sf_val D' \<le> sf_val D * 10 ^ 21" .
  from exponent_gap[OF nD' D(1) nz this] have gap: "exponent D' \<le> exponent D + 22" by simp
  have ge: "exponent D \<le> exponent D'"
  proof (rule ccontr)
    assume "\<not> exponent D \<le> exponent D'"
    then have "sf_val D' < sf_val D" using sf_val_less_exponent[OF nD' D(1,2)] by simp
    with mono show False by simp
  qed
  have "\<exists>g. sub_exact_floor D' D = Some g"
    using D gap ge by (intro sub_exact_floor_total nD' D mono)
      (auto simp: exp_bounded_def I64_MIN_def I64_MAX_def)
  then obtain g where g: "sub_exact_floor D' D = Some g" ..
  note gain = sub_exact_floor_Some(1,2)[OF nD' D(1) g]
  have S': "S' = unwrap_or (add_sf S g) S"
    using res g D' by (simp add: deposit_shares_def Let_def)
  have "normalized S' \<and> sf_val S \<le> sf_val S' \<and> sf_val S' \<le> sf_val S + (sf_val D' - sf_val D)"
  proof (cases "add_sf S g")
    case None
    with S' S mono show ?thesis by simp
  next
    case (Some r)
    with S' add_sf_Some[OF S gain(1) Some] gain(2) show ?thesis by simp
  qed
  with nD' mono show "normalized D'" "normalized S'" "sf_val D \<le> sf_val D'" "sf_val S \<le> sf_val S'"
    "sf_val S' - sf_val S \<le> sf_val D' - sf_val D" by auto
qed

lemma withdraw_shares_bound:
  assumes D: "normalized D" "\<not> is_zero D" "exp_bounded D" and S: "normalized S" "exp_bounded S"
    and P: "normalized P" and le: "sf_val S \<le> sf_val D"
    and res: "withdraw_shares D S P = (D', S')"
  shows "normalized D'" "normalized S'" "sf_val S' \<le> sf_val S"
    "sf_val S' - sf_val S \<le> sf_val D' - sf_val D"
proof -
  define N where "N = unwrap_or (sub_sf D P) D"
  have "normalized N \<and> (\<exists>j \<le> mantissa D. sf_val N = sf_val D - real j * 10 powi exponent D)"
  proof (cases "sub_sf D P")
    case None
    then show ?thesis using D(1) by (auto simp: N_def intro!: exI[of _ 0])
  next
    case (Some r)
    then show ?thesis using sub_sf_Some(1,3)[OF D(1) P Some] by (simp add: N_def)
  qed
  then obtain j where N: "normalized N" and j: "j \<le> mantissa D"
    "sf_val N = sf_val D - real j * 10 powi exponent D" by blast
  have NleD: "sf_val N \<le> sf_val D" using j(2) by simp
  have "\<exists>l. sub_exact_floor D N = Some l"
  proof (cases "is_zero N")
    case True
    then show ?thesis by (simp add: sub_exact_floor_def)
  next
    case False
    have "sf_val N = real (mantissa D - j) * 10 powi exponent D"
      using j by (simp add: sf_val_def algebra_simps)
    moreover have "mantissa D - j \<noteq> 0"
      using False sf_val_pos_iff[of N] calculation by auto
    ultimately have "10 powi exponent D \<le> sf_val N"
      by (cases "mantissa D - j") (auto simp: algebra_simps)
    then have "real SAFE_FLOAT_MAX * 10 powi exponent D \<le> real SAFE_FLOAT_MAX * sf_val N"
      by (intro mult_left_mono) auto
    moreover have "sf_val D \<le> real SAFE_FLOAT_MAX * 10 powi exponent D"
      using normalizedD(1)[OF D(1)] by (simp add: sf_val_def)
    ultimately have "sf_val D \<le> sf_val N * 10 ^ 21"
      by (simp add: SAFE_FLOAT_MAX_def mult.commute)
    from exponent_gap[OF D(1) N D(2) this] have "exponent D \<le> exponent N + 22" by simp
    then show ?thesis
      using D(3) NleD by (intro sub_exact_floor_total D N NleD)
        (auto simp: exp_bounded_def I64_MIN_def I64_MAX_def)
  qed
  then obtain l where l: "sub_exact_floor D N = Some l" ..
  have nl: "normalized l" using sub_exact_floor_Some(1)[OF D(1) N l] .
  have "j \<le> SAFE_FLOAT_MAX" using j(1) normalizedD(1)[OF D(1)] by simp
  with sub_exact_floor_Some(3)[OF D(1) N l, of j] j(2)
  have L: "sf_val l = sf_val D - sf_val N" "sf_val l = real j * 10 powi exponent D" by simp_all
  have "normalized D' \<and> normalized S' \<and> sf_val S' \<le> sf_val S \<and>
      sf_val S' - sf_val S \<le> sf_val D' - sf_val D"
  proof (cases "gt_sf l S")
    case True
    with res l have eq: "D' = unwrap_or (sub_sf D S) zero_sf" "S' = zero_sf"
      by (auto simp: withdraw_shares_def N_def Let_def)
    obtain r where r: "sub_sf D S = Some r" using sub_sf_total[OF D(1) S(1) D(3) S(2)] D(2) by blast
    show ?thesis using eq r sub_sf_Some(1,2)[OF D(1) S(1) r] by simp
  next
    case False
    then have lS: "sf_val l \<le> sf_val S" using gt_sf_iff[OF nl S(1)] by simp
    from res l False have eq: "D' = N" "S' = unwrap_or (sub_sf S l) zero_sf"
      by (auto simp: withdraw_shares_def N_def Let_def)
    show ?thesis
    proof (cases "is_zero S")
      case True
      then have "is_zero l" using lS sf_val_pos_iff[of l] by auto
      then have "S' = zero_sf" using True eq(2) by (simp add: sub_sf_def)
      then show ?thesis using True eq(1) N L \<open>is_zero l\<close> by simp
    next
      case nzS: False
      have eS: "exponent S \<le> exponent D"
      proof (rule ccontr)
        assume "\<not> exponent S \<le> exponent D"
        then have "sf_val D < sf_val S" using sf_val_less_exponent[OF D(1) S(1) nzS] by simp
        with le show False by simp
      qed
      show ?thesis
      proof (cases "sub_sf S l")
        case None
        then have "S' = zero_sf" using eq by simp
        then show ?thesis using eq N L lS by simp
      next
        case (Some r)
        from sub_sf_Some(1)[OF S(1) nl Some] sub_sf_Some(4)[OF S(1) nl Some L(2) eS lS]
        show ?thesis using eq N L Some lS sf_val_nonneg[of l] by simp
      qed
    qed
  qed
  then show "normalized D'" "normalized S'" "sf_val S' \<le> sf_val S"
    "sf_val S' - sf_val S \<le> sf_val D' - sf_val D" by blast+
qed


section \<open>Quotes\<close>

lemma try_get_value_from_parts_bound:
  assumes "try_get_value_from_parts V S D = Some v" "normalized S" "normalized D" "V \<le> U64_MAX"
  shows "real v \<le> real V * sf_val S / sf_val D" "v \<le> V"
proof -
  obtain x where x: "new_sf V 0 = Some x" "normalized x" "sf_val x = real V"
    using new_sf_exact[OF u64_le_safe_float_max[OF assms(4)]] by blast
  with assms(1) obtain r where r: "mul_div x S D = Some r" "v = min (u64_of_sf r) V"
    by (auto simp: try_get_value_from_parts_def)
  note md = mul_div_Some[OF x(2) assms(2,3) r(1)]
  have "v \<le> nat \<lfloor>sf_val r\<rfloor>" using r(2) u64_of_sf_floor[OF md(1)] by simp
  then have "real v \<le> real (nat \<lfloor>sf_val r\<rfloor>)" by (rule of_nat_mono)
  also have "\<dots> \<le> sf_val r" by (rule of_nat_floor) simp
  finally have "real v \<le> sf_val r" .
  with md(2) x(3) show "real v \<le> real V * sf_val S / sf_val D" by simp
  show "v \<le> V" using r(2) by simp
qed

text \<open>A member that owns the whole denominator is quoted exactly the whole value.\<close>

lemma mul_div_self:
  assumes "normalized x" "normalized D" "\<not> is_zero D" "exp_bounded x" "exp_bounded D"
  shows "\<exists>r. mul_div x D D = Some r \<and> normalized r \<and> sf_val r = sf_val x"
proof -
  have e: "in_i64 (exponent x)" "in_i64 (exponent x + exponent D)"
    using assms(4,5) by (auto simp: exp_bounded_def in_i64_def I64_MIN_def I64_MAX_def)
  have "mantissa x * mantissa D \<le> SAFE_FLOAT_MAX * SAFE_FLOAT_MAX"
    using normalizedD(1)[OF assms(1)] normalizedD(1)[OF assms(2)] by (rule mult_le_mono)
  then have m: "mantissa x * mantissa D \<le> U256_MAX" by (simp add: SAFE_FLOAT_MAX_def U256_MAX_def)
  have D0: "mantissa D \<noteq> 0" using assms(3) by (simp add: is_zero_def)
  have "mul_div x D D = normalized_result (mantissa x) (exponent x)"
    using m e D0 by (simp add: mul_div_def checked_mul_def checked_div_def checked_add_i64_def
        checked_sub_i64_def in_i64_def)
  moreover have "\<exists>r. normalized_result (mantissa x) (exponent x) = Some r"
    using assms(4) normalizedD(1)[OF assms(1)]
    by (intro normalized_result_total)
      (auto simp: exp_bounded_def I64_MIN_def I64_MAX_def SAFE_FLOAT_MAX_def U256_MAX_def)
  moreover from this obtain r where r: "normalized_result (mantissa x) (exponent x) = Some r" ..
  moreover have "sf_val r = sf_val x"
    using normalized_result_exact0[OF r e(1) normalizedD(1)[OF assms(1)]]
    by (simp only: sf_val_def[of x])
  ultimately show ?thesis using normalized_result_Some(1)[OF r e(1)] by auto
qed

lemma new_sf_exp_bounded:
  assumes "V \<le> SAFE_FLOAT_MAX" "new_sf V 0 = Some x"
  shows "exp_bounded x"
proof -
  have nx: "normalized x" and vx: "sf_val x = real V"
    using new_sf_exact[OF assms(1)] assms(2) by auto
  show ?thesis
  proof (cases "is_zero x")
    case True
    then show ?thesis using nx by (simp add: normalized_zero_iff exp_bounded_def zero_sf_def)
  next
    case False
    define one where "one = \<lparr>mantissa = SAFE_FLOAT_MAX, exponent = - 21\<rparr>"
    have one: "normalized one" "sf_val one = 1" "\<not> is_zero one"
      by (simp_all add: one_def normalized_def sf_val_def is_zero_def in_i64_def I64_MIN_def
          I64_MAX_def SAFE_FLOAT_MAX_def power_int_minus)
    have "1 \<le> V" using False vx sf_val_pos_iff[of x] by simp
    then have "sf_val one \<le> sf_val x * 10 ^ 0" "sf_val x \<le> sf_val one * 10 ^ 21"
      using assms(1) one(2) vx by (simp_all add: SAFE_FLOAT_MAX_def)
    from exponent_gap[OF one(1) nx one(3) this(1)] exponent_gap[OF nx one(1) False this(2)]
    show ?thesis by (simp add: exp_bounded_def one_def)
  qed
qed

lemma quote_sole_member:
  assumes "V \<le> U64_MAX" "normalized D" "\<not> is_zero D" "exp_bounded D"
  shows "try_get_value_from_parts V D D = Some V"
proof -
  obtain x where x: "new_sf V 0 = Some x" "normalized x" "sf_val x = real V"
    using new_sf_exact[OF u64_le_safe_float_max[OF assms(1)]] by blast
  obtain r where r: "mul_div x D D = Some r" "normalized r" "sf_val r = sf_val x"
    using mul_div_self[OF x(2) assms(2,3) _ assms(4)]
      new_sf_exp_bounded[OF u64_le_safe_float_max[OF assms(1)] x(1)] by blast
  have "u64_of_sf r = V" using u64_of_sf_floor[OF r(2)] r(3) x(3) assms(1) by simp
  then show ?thesis using x(1) r(1) by (simp add: try_get_value_from_parts_def)
qed

text \<open>The shares bought or sold by an update stay within twenty digits of the denominator.\<close>

lemma get_shares_per_update_bound:
  assumes "normalized D" "in_i64 update" "V \<le> U64_MAX"
  shows "normalized (get_shares_per_update update V D)"
    "0 < V \<Longrightarrow> sf_val (get_shares_per_update update V D) \<le> sf_val D * 10 ^ 20"
proof -
  have u: "unsigned_abs update \<le> U64_MAX" "unsigned_abs update \<le> 10 ^ 20"
    using assms(2) by (auto simp: unsigned_abs_def in_i64_def I64_MIN_def I64_MAX_def U64_MAX_def)
  obtain x where x: "new_sf (unsigned_abs update) 0 = Some x" "normalized x"
    "sf_val x = real (unsigned_abs update)"
    using new_sf_exact[OF u64_le_safe_float_max[OF u(1)]] by blast
  obtain y where y: "new_sf V 0 = Some y" "normalized y" "sf_val y = real V"
    using new_sf_exact[OF u64_le_safe_float_max[OF assms(3)]] by blast
  have eq: "get_shares_per_update update V D = unwrap_or (mul_div x D y) zero_sf"
    by (simp add: get_shares_per_update_def x(1) y(1))
  have "normalized (get_shares_per_update update V D) \<and> (0 < V \<longrightarrow>
    sf_val (get_shares_per_update update V D) \<le> sf_val D * 10 ^ 20)"
  proof (cases "mul_div x D y")
    case None
    then show ?thesis by (simp add: eq)
  next
    case (Some r)
    note md = mul_div_Some[OF x(2) assms(1) y(2) Some]
    have "sf_val r \<le> sf_val D * 10 ^ 20" if "0 < V"
    proof -
      have "sf_val x * sf_val D / sf_val y \<le> sf_val x * sf_val D / 1"
        using that y(3) by (intro divide_left_mono) auto
      also have "\<dots> \<le> 10 ^ 20 * sf_val D"
        using x(3) u(2) by (simp add: mult_right_mono)
      finally show ?thesis using md(2) by (simp add: mult.commute)
    qed
    then show ?thesis using md(1) Some eq by simp
  qed
  then show "normalized (get_shares_per_update update V D)"
    "0 < V \<Longrightarrow> sf_val (get_shares_per_update update V D) \<le> sf_val D * 10 ^ 20" by blast+
qed


lemma moved_shares_bound:
  assumes D: "normalized D" "\<not> is_zero D" "exp_bounded D" and S: "normalized S" "exp_bounded S"
    and le: "sf_val S \<le> sf_val D" and u: "in_i64 update" and V: "V \<le> U64_MAX"
    and pos: "update > 0 \<Longrightarrow> 0 < V"
    and res: "moved_shares update V D S = (D', S')"
  shows "normalized D' \<and> normalized S' \<and> sf_val S' - sf_val S \<le> sf_val D' - sf_val D"
proof (cases "update > 0")
  case True
  note P = get_shares_per_update_bound[OF D(1) u V]
  show ?thesis
    using res True deposit_shares_bound[OF D S(1) P(1) P(2)[OF pos[OF True]]]
    by (simp add: moved_shares_def Let_def)
next
  case False
  then show ?thesis
    using res withdraw_shares_bound[OF D S get_shares_per_update_bound(1)[OF D(1) u V] le]
    by (simp add: moved_shares_def Let_def)
qed

lemma settled_shares_bound:
  assumes "normalized D1" "normalized S1" "sf_val S1 - sf_val S \<le> sf_val D1 - sf_val D"
    and res: "settled_shares update V D S (D1, S1) = (D', S')"
  shows "D' = zero_sf \<and> S' = zero_sf \<or>
    normalized D' \<and> normalized S' \<and> sf_val S' - sf_val S \<le> sf_val D' - sf_val D"
proof (cases "sub_sf D1 S1")
  case None
  with assms show ?thesis by (auto simp: settled_shares_def Let_def split: if_splits)
next
  case (Some w)
  then show ?thesis
    using assms sub_sf_Some(1,2)[OF assms(1,2) Some]
    by (auto simp: settled_shares_def Let_def split: if_splits)
qed

section \<open>The contract of the storage, and what the pool guarantees on it\<close>

text \<open>
  The accounting invariant of the source: the shares of any members together never exceed the
  denominator.
\<close>

definition shares_backed :: "('s, 'k) SharePoolDataOperations \<Rightarrow> 's \<Rightarrow> bool" where
  "shares_backed ops s \<longleftrightarrow> (\<forall>K. finite K \<longrightarrow>
     (\<Sum>k\<in>K. sf_val (get_share ops s k)) \<le> sf_val (get_denominator ops s))"

definition pool_ok :: "('s, 'k) SharePoolDataOperations \<Rightarrow> ('s \<Rightarrow> bool) \<Rightarrow> 's \<Rightarrow> bool" where
  "pool_ok ops invar s \<longleftrightarrow> invar s \<and> normalized (get_denominator ops s) \<and>
     (\<forall>k. normalized (get_share ops s k)) \<and> shares_backed ops s"

text \<open>
  The laws of \<^verbatim>\<open>SharePoolDataOperations\<close>.  \<open>closings_left\<close> counts how often the storage can still
  open or close the pool; the law that closing retires every share is promised while it is
  positive.
\<close>

locale share_pool_data =
  fixes ops :: "('s, 'k) SharePoolDataOperations"
    and invar :: "'s \<Rightarrow> bool"
    and closings_left :: "'s \<Rightarrow> nat"
  assumes shared_value_u64: "invar s \<Longrightarrow> get_shared_value ops s \<le> U64_MAX"
    and share_of_try: "invar s \<Longrightarrow>
      get_share ops s k = (case try_get_share ops s k of Inr x \<Rightarrow> x | Inl _ \<Rightarrow> zero_sf)"
    and inv_set_shared_value: "invar s \<Longrightarrow> v \<le> U64_MAX \<Longrightarrow> invar (set_shared_value ops s v)"
    and inv_set_share: "invar s \<Longrightarrow> normalized x \<Longrightarrow> invar (set_share ops s k x)"
    and inv_set_denominator: "invar s \<Longrightarrow> normalized d \<Longrightarrow> invar (set_denominator ops s d)"
    and value_set_value: "invar s \<Longrightarrow> v \<le> U64_MAX \<Longrightarrow>
      get_shared_value ops (set_shared_value ops s v) = v"
    and share_set_value: "invar s \<Longrightarrow> get_share ops (set_shared_value ops s v) k = get_share ops s k"
    and denominator_set_value: "invar s \<Longrightarrow>
      get_denominator ops (set_shared_value ops s v) = get_denominator ops s"
    and value_set_share: "invar s \<Longrightarrow> get_shared_value ops (set_share ops s k x) = get_shared_value ops s"
    and share_set_share: "invar s \<Longrightarrow> normalized x \<Longrightarrow>
      get_share ops (set_share ops s k x) k' = (if k' = k then x else get_share ops s k')"
    and denominator_set_share: "invar s \<Longrightarrow>
      get_denominator ops (set_share ops s k x) = get_denominator ops s"
    and value_set_denominator: "invar s \<Longrightarrow>
      get_shared_value ops (set_denominator ops s d) = get_shared_value ops s"
    and denominator_set_denominator: "invar s \<Longrightarrow> normalized d \<Longrightarrow>
      get_denominator ops (set_denominator ops s d) = d"
    and share_keep: "invar s \<Longrightarrow> is_zero d = is_zero (get_denominator ops s) \<Longrightarrow>
      get_share ops (set_denominator ops s d) k = get_share ops s k"
    and share_close: "invar s \<Longrightarrow> is_zero d \<Longrightarrow> \<not> is_zero (get_denominator ops s) \<Longrightarrow>
      0 < closings_left s \<Longrightarrow> get_share ops (set_denominator ops s d) k = zero_sf"
    and share_open: "invar s \<Longrightarrow> get_share ops s k = zero_sf \<Longrightarrow>
      get_share ops (set_denominator ops s d) k = zero_sf"
    and closings_set_denominator: "invar s \<Longrightarrow>
      closings_left s \<le> Suc (closings_left (set_denominator ops s d))"
begin

lemma pool_okD:
  assumes "pool_ok ops invar s"
  shows "invar s" "normalized (get_denominator ops s)" "normalized (get_share ops s k)"
    "finite K \<Longrightarrow> (\<Sum>k\<in>K. sf_val (get_share ops s k)) \<le> sf_val (get_denominator ops s)"
    "sf_val (get_share ops s k) \<le> sf_val (get_denominator ops s)"
proof -
  have sum: "(\<Sum>k\<in>K. sf_val (get_share ops s k)) \<le> sf_val (get_denominator ops s)"
    if "finite K" for K
    using assms that by (auto simp: pool_ok_def shares_backed_def)
  show "sf_val (get_share ops s k) \<le> sf_val (get_denominator ops s)" using sum[of "{k}"] by simp
  show "finite K \<Longrightarrow> (\<Sum>k\<in>K. sf_val (get_share ops s k)) \<le> sf_val (get_denominator ops s)"
    by (rule sum)
qed (use assms in \<open>auto simp: pool_ok_def\<close>)

text \<open>An empty denominator leaves no shares behind.\<close>

lemma pool_ok_empty: "pool_ok ops invar s \<Longrightarrow> is_zero (get_denominator ops s) \<Longrightarrow> get_share ops s k = zero_sf"
  using pool_okD(5)[of s k] pool_okD(3)[of s k] sf_val_pos_iff[of "get_share ops s k"]
  by (auto simp: normalized_zero_iff[symmetric])

text \<open>The invariant after writing a denominator and one member's share.\<close>

lemma pool_ok_write:
  assumes ok: "pool_ok ops invar s" and D: "normalized D'" and S: "normalized S'"
    and delta: "sf_val S' - sf_val (get_share ops s key) \<le> sf_val D' - sf_val (get_denominator ops s)"
    and room: "0 < closings_left s"
  shows "pool_ok ops invar (set_share ops (set_denominator ops s D') key S')"
proof -
  let ?s1 = "set_denominator ops s D'" and ?s2 = "set_share ops (set_denominator ops s D') key S'"
  note i = pool_okD(1)[OF ok]
  note i1 = inv_set_denominator[OF i D]
  have d2: "get_denominator ops ?s2 = D'"
    by (simp add: denominator_set_share[OF i1] denominator_set_denominator[OF i D])
  have sh2: "get_share ops ?s2 k = (if k = key then S' else get_share ops ?s1 k)" for k
    by (simp add: share_set_share[OF i1 S])
  have sh1: "get_share ops ?s1 k = get_share ops s k \<or> get_share ops ?s1 k = zero_sf" for k
    using share_keep[OF i, of D' k] share_close[OF i, of D' k] share_open[OF i, of k D'] room
      pool_ok_empty[OF ok, of k] by (cases "is_zero D'"; cases "is_zero (get_denominator ops s)") auto
  have le1: "sf_val (get_share ops ?s1 k) \<le> sf_val (get_share ops s k)" for k
    using sh1[of k] by auto
  have "shares_backed ops ?s2"
    unfolding shares_backed_def
  proof (intro allI impI)
    fix K :: "'k set" assume K: "finite K"
    let ?old = "\<lambda>k. sf_val (get_share ops s k)" and ?new = "\<lambda>k. sf_val (get_share ops ?s2 k)"
    have "(\<Sum>k\<in>K. ?new k) \<le> (\<Sum>k\<in>insert key K. ?new k)"
      using K by (intro sum_mono2) auto
    also have "\<dots> = sf_val S' + (\<Sum>k\<in>K - {key}. ?new k)"
      using K by (simp add: sum_update_split sh2)
    also have "(\<Sum>k\<in>K - {key}. ?new k) \<le> (\<Sum>k\<in>K - {key}. ?old k)"
      by (intro sum_mono) (auto simp: sh2 le1)
    also have "sf_val S' + (\<Sum>k\<in>K - {key}. ?old k) =
        (sf_val S' - ?old key) + (\<Sum>k\<in>insert key K. ?old k)"
      using K by (simp add: sum_update_split)
    also have "\<dots> \<le> (sf_val D' - sf_val (get_denominator ops s)) + sf_val (get_denominator ops s)"
      using delta pool_okD(4)[OF ok, of "insert key K"] K by (intro add_mono) auto
    finally show "(\<Sum>k\<in>K. ?new k) \<le> sf_val (get_denominator ops ?s2)" by (simp add: d2)
  qed
  moreover have "normalized (get_share ops ?s2 k)" for k
    using sh2[of k] sh1[of k] S pool_okD(3)[OF ok, of k] by auto
  ultimately show ?thesis
    using inv_set_share[OF i1 S] d2 D by (simp add: pool_ok_def)
qed

lemma pool_ok_close:
  assumes "pool_ok ops invar s" "0 < closings_left s"
  shows "pool_ok ops invar (set_denominator ops s zero_sf)"
    "get_share ops (set_denominator ops s zero_sf) k = zero_sf"
proof -
  note i = pool_okD(1)[OF assms(1)]
  show z: "get_share ops (set_denominator ops s zero_sf) k = zero_sf" for k
    using share_close[OF i, of zero_sf k] share_keep[OF i, of zero_sf k] assms(2)
      pool_ok_empty[OF assms(1), of k] by (cases "is_zero (get_denominator ops s)") auto
  show "pool_ok ops invar (set_denominator ops s zero_sf)"
    using z inv_set_denominator[OF i, of zero_sf] denominator_set_denominator[OF i, of zero_sf]
    by (simp add: pool_ok_def shares_backed_def)
qed

lemma pool_ok_set_value:
  assumes "pool_ok ops invar s" "v \<le> U64_MAX"
  shows "pool_ok ops invar (set_shared_value ops s v)"
  using assms inv_set_shared_value[of s v]
  by (simp add: pool_ok_def shares_backed_def share_set_value denominator_set_value)

text \<open>The shared value after an update is the old one plus the signed amount, saturated.\<close>

lemma update_value_for_all_value:
  assumes "invar s" "in_i64 update"
  shows "get_shared_value ops (update_value_for_all ops s update) =
      (if 0 \<le> update then min U64_MAX (get_shared_value ops s + nat update)
       else get_shared_value ops s - nat (- update))"
proof -
  have "i64_as_u64 (neg_i64 update) = nat (- update)" if "update < 0"
    using that assms(2) by (auto simp: i64_as_u64_def neg_i64_def I64_MIN_def in_i64_def)
  then show ?thesis
    using shared_value_u64[OF assms(1)]
    by (auto simp: update_value_for_all_def Let_def value_set_value[OF assms(1)] i64_as_u64_def
        saturating_add_def)
qed

lemma update_value_for_all_frame:
  assumes "invar s"
  shows "get_share ops (update_value_for_all ops s update) k = get_share ops s k"
    "get_denominator ops (update_value_for_all ops s update) = get_denominator ops s"
  using assms by (simp_all add: update_value_for_all_def Let_def share_set_value denominator_set_value)

lemma pool_ok_update_all:
  assumes "pool_ok ops invar s"
  shows "pool_ok ops invar (update_value_for_all ops s update)"
proof -
  have "get_shared_value ops s \<le> U64_MAX" using shared_value_u64 pool_okD(1)[OF assms] by blast
  then show ?thesis
    unfolding update_value_for_all_def Let_def
    by (intro pool_ok_set_value assms) (auto simp: saturating_add_def)
qed

lemma pool_ok_write_zero:
  assumes ok: "pool_ok ops invar s" and room: "0 < closings_left s"
  shows "pool_ok ops invar (set_share ops (set_denominator ops s zero_sf) key zero_sf)"
proof -
  note cl = pool_ok_close[OF ok room] and i = pool_okD(1)[OF ok]
  note ic = pool_okD(1)[OF cl(1)]
  show ?thesis
    unfolding pool_ok_def shares_backed_def
    using inv_set_share[OF ic, of zero_sf key] denominator_set_share[OF ic, of key zero_sf]
      denominator_set_denominator[OF i, of zero_sf] share_set_share[OF ic, of zero_sf key] cl(2)
    by (auto intro!: sum_nonpos)
qed

lemma value_write:
  assumes "invar s" "normalized d"
  shows "get_shared_value ops (set_share ops (set_denominator ops s d) key x) = get_shared_value ops s"
  using value_set_share[OF inv_set_denominator[OF assms]] value_set_denominator[OF assms(1)] by simp

text \<open>A pool without denominator is opened by a deposit and left alone by anything else.\<close>

lemma open_pool:
  assumes ok: "pool_ok ops invar s" "is_zero (get_denominator ops s)" and room: "0 < closings_left s"
    and u: "in_i64 update"
  defines "f \<equiv> unwrap_or (new_sf (unsigned_abs update) 0) zero_sf"
  shows "pool_ok ops invar (set_share ops (set_denominator ops s f) key f)"
    "get_shared_value ops (set_share ops (set_denominator ops s f) key f) = get_shared_value ops s"
proof -
  have "unsigned_abs update \<le> SAFE_FLOAT_MAX" using u
    by (auto simp: unsigned_abs_def in_i64_def I64_MIN_def I64_MAX_def SAFE_FLOAT_MAX_def)
  then have f: "normalized f" using new_sf_exact[of "unsigned_abs update"] by (auto simp: f_def)
  show "pool_ok ops invar (set_share ops (set_denominator ops s f) key f)"
    using pool_ok_write[OF ok(1) f f _ room, of key] pool_ok_empty[OF ok, of key] ok(2) by simp
  show "get_shared_value ops (set_share ops (set_denominator ops s f) key f) = get_shared_value ops s"
    using value_write[OF pool_okD(1)[OF ok(1)] f] .
qed

text \<open>
  The storage just before the final \<^verbatim>\<open>update_value_for_all\<close>: the member's share and the
  denominator have been written, the value has not.
\<close>

lemma update_value_for_one_shares:
  assumes ok: "pool_ok ops invar s" and u: "in_i64 update"
    and bD: "exp_bounded (get_denominator ops s)" and bS: "exp_bounded (get_share ops s key)"
    and room: "2 \<le> closings_left s"
  shows "\<exists>t. update_value_for_one ops s key update = update_value_for_all ops t update \<and>
    pool_ok ops invar t \<and> get_shared_value ops t = get_shared_value ops s"
proof -
  let ?V = "get_shared_value ops s" and ?D = "get_denominator ops s" and ?S = "get_share ops s key"
  note i = pool_okD(1)[OF ok]
  consider "update > 0" "?V = 0" "\<not> is_zero ?D" | "is_zero ?D"
    | "\<not> (update > 0 \<and> ?V = 0)" "\<not> is_zero ?D"
    by (cases "is_zero ?D"; cases "update > 0 \<and> ?V = 0") auto
  then show ?thesis
  proof cases
    case 1
    let ?t = "set_denominator ops s zero_sf"
    have "pool_ok ops invar ?t" "is_zero (get_denominator ops ?t)" "0 < closings_left ?t"
      using pool_ok_close[OF ok] room denominator_set_denominator[OF i, of zero_sf]
        closings_set_denominator[OF i, of zero_sf] by auto
    from open_pool[OF this u, of key] 1 show ?thesis
      using value_set_denominator[OF i, of zero_sf] by (auto simp: update_value_for_one_def Let_def)
  next
    case 2
    then show ?thesis
      using open_pool[OF ok 2 _ u, of key] ok room by (auto simp: update_value_for_one_def Let_def)
  next
    case 3
    obtain D1 S1 where one: "moved_shares update ?V ?D ?S = (D1, S1)" by (meson surj_pair)
    obtain D2 S2 where two: "settled_shares update ?V ?D ?S (D1, S1) = (D2, S2)" by (meson surj_pair)
    have b: "normalized D1 \<and> normalized S1 \<and> sf_val S1 - sf_val ?S \<le> sf_val D1 - sf_val ?D"
      using 3 moved_shares_bound[OF pool_okD(2)[OF ok] 3(2) bD pool_okD(3)[OF ok] bS pool_okD(5)[OF ok]
          u shared_value_u64[OF i] _ one] by simp
    from settled_shares_bound[OF _ _ _ two] b
    have w: "D2 = zero_sf \<and> S2 = zero_sf \<or>
      normalized D2 \<and> normalized S2 \<and> sf_val S2 - sf_val ?S \<le> sf_val D2 - sf_val ?D" by blast
    then have "pool_ok ops invar (set_share ops (set_denominator ops s D2) key S2)" "normalized D2"
      using pool_ok_write_zero[OF ok] pool_ok_write[OF ok] room by auto
    moreover have "update_value_for_one ops s key update =
        update_value_for_all ops (set_share ops (set_denominator ops s D2) key S2) update"
      using 3 one two by (auto simp: update_value_for_one_def Let_def)
    ultimately show ?thesis using value_write[OF i] by blast
  qed
qed

text \<open>Every update of one member keeps the accounting invariant and moves the value by its amount.\<close>

theorem update_value_for_one_ok:
  assumes "pool_ok ops invar s" "in_i64 update"
    "exp_bounded (get_denominator ops s)" "exp_bounded (get_share ops s key)" "2 \<le> closings_left s"
  shows "pool_ok ops invar (update_value_for_one ops s key update)"
    "get_shared_value ops (update_value_for_one ops s key update) =
      (if 0 \<le> update then min U64_MAX (get_shared_value ops s + nat update)
       else get_shared_value ops s - nat (- update))"
  using update_value_for_one_shares[OF assms] pool_ok_update_all
    update_value_for_all_value[OF pool_okD(1) assms(2)] by auto

text \<open>The quotes of all members together are covered by the value.\<close>

theorem quotes_solvent:
  assumes ok: "pool_ok ops invar s" and K: "finite K"
  shows "(\<Sum>k\<in>K. get_value ops s k) \<le> get_shared_value ops s"
proof -
  let ?V = "get_shared_value ops s" and ?D = "get_denominator ops s"
  have V: "?V \<le> U64_MAX" using shared_value_u64 pool_okD(1)[OF ok] by blast
  have q: "real (get_value ops s k) \<le> real ?V / sf_val ?D * sf_val (get_share ops s k)" for k
  proof (cases "try_get_value_from_parts ?V (get_share ops s k) ?D")
    case (Some v)
    then show ?thesis
      using try_get_value_from_parts_bound(1)[OF Some pool_okD(3)[OF ok] pool_okD(2)[OF ok] V]
      by (simp add: get_value_def)
  qed (simp add: get_value_def)
  have "real (\<Sum>k\<in>K. get_value ops s k) \<le> (\<Sum>k\<in>K. real ?V / sf_val ?D * sf_val (get_share ops s k))"
    using q by (simp add: sum_mono)
  also have "\<dots> = real ?V / sf_val ?D * (\<Sum>k\<in>K. sf_val (get_share ops s k))"
    by (simp add: sum_distrib_left)
  also have "\<dots> \<le> real ?V / sf_val ?D * sf_val ?D"
    using pool_okD(4)[OF ok K] by (intro mult_left_mono) auto
  also have "\<dots> \<le> real ?V" by simp
  finally show ?thesis by (simp only: of_nat_le_iff)
qed

lemma sole_member_quote:
  assumes "invar s" "normalized (get_denominator ops s)" "exp_bounded (get_denominator ops s)"
    "\<not> is_zero (get_denominator ops s)" "get_share ops s key = get_denominator ops s"
  shows "get_value ops s key = get_shared_value ops s"
  using quote_sole_member[OF shared_value_u64[OF assms(1)] assms(2,4,3)] assms(5)
  by (simp add: get_value_def)

text \<open>Crediting a sole member raises that member's quote by exactly the amount.\<close>

theorem try_credit_sole_member_quote:
  assumes ok: "pool_ok ops invar s" and b: "exp_bounded (get_denominator ops s)"
    and amount: "0 < amount" and res: "try_credit_sole_member ops s key amount = (s', True)"
  shows "get_value ops s' key = get_value ops s key + amount" "pool_ok ops invar s'"
proof -
  let ?V = "get_shared_value ops s" and ?D = "get_denominator ops s"
  note i = pool_okD(1)[OF ok]
  from res amount have c: "\<not> is_zero ?D" "try_get_share ops s key = Inr ?D" "?V + amount \<le> U64_MAX"
    "s' = set_shared_value ops s (?V + amount)"
    by (auto simp: try_credit_sole_member_def Let_def checked_add_def split: if_splits option.splits)
  have sh: "get_share ops s key = ?D" using share_of_try[OF i, of key] c(2) by simp
  show "pool_ok ops invar s'" using pool_ok_set_value[OF ok c(3)] c(4) by simp
  then have i': "invar s'" by (rule pool_okD)
  show "get_value ops s' key = get_value ops s key + amount"
    using sole_member_quote[OF i pool_okD(2)[OF ok] b c(1) sh]
      sole_member_quote[OF i', of key] c b sh pool_okD(2)[OF ok] value_set_value[OF i c(3)]
    by (simp add: share_set_value[OF i] denominator_set_value[OF i])
qed

end

end
