(* ===== verification/Total_Alpha_Staked.thy ===== *)
theory Total_Alpha_Staked
  imports Prelude
begin

text \<open>
  The per-subnet total \<^verbatim>\<open>TotalAlphaStaked\<close> and its bounded backfill,
  \<^verbatim>\<open>src/pallets/subtensor/src/migrations/migrate_total_alpha_staked.rs\<close>, with the one writer of
  \<^verbatim>\<open>TotalHotkeyAlpha\<close> (\<^verbatim>\<open>set_shared_value\<close> of \<^verbatim>\<open>staking/stake_utils.rs\<close>).  The backfill walks
  \<^verbatim>\<open>TotalHotkeyAlpha\<close> in raw key order over several blocks while live stake operations keep
  writing to the map: the two are interleaved as an inductive step relation, and the invariant says
  that the total is at every moment the sum over the keys behind the cursor.

  Raw storage keys are byte lists compared lexicographically.  The hashing of a key
  (\<^verbatim>\<open>hashed_key_for\<close>), the storage iterators and the weights of the runtime are code of the
  framework: they are arguments, and \<open>iterates\<close> states what the framework promises of an iterator.
\<close>

section \<open>Storage\<close>

record TotalAlphaStakedProgress =
  cursor :: "nat list"

record 'a staked_totals =
  TotalHotkeyAlpha :: "'a \<times> nat \<Rightarrow> nat option"
  TotalAlphaStaked :: "nat \<Rightarrow> nat option"
  TotalAlphaStakedMigration :: "TotalAlphaStakedProgress option"
  HasMigrationRun :: "string \<Rightarrow> bool option"

definition MIGRATION_NAME :: string where
  "MIGRATION_NAME = ''migrate_total_alpha_staked''"

text \<open>The order of \<^verbatim>\<open>Vec<u8>\<close>.\<close>

fun bytes_le :: "nat list \<Rightarrow> nat list \<Rightarrow> bool" where
  "bytes_le [] _ = True"
| "bytes_le (_ # _) [] = False"
| "bytes_le (x # xs) (y # ys) = (x < y \<or> (x = y \<and> bytes_le xs ys))"

section \<open>Live updates\<close>

definition in_progress :: "('a, 'm) staked_totals_scheme \<Rightarrow> bool" where
  "in_progress st \<longleftrightarrow> TotalAlphaStakedMigration st \<noteq> None"

definition should_apply_live_delta ::
    "('a \<Rightarrow> nat \<Rightarrow> nat list) \<Rightarrow> 'a \<Rightarrow> nat \<Rightarrow> ('a, 'm) staked_totals_scheme \<Rightarrow> bool" where
  "should_apply_live_delta hashed_key_for hotkey netuid st =
     (case TotalAlphaStakedMigration st of
        None \<Rightarrow> True
      | Some progress \<Rightarrow>
          if cursor progress = [] then False
          else bytes_le (hashed_key_for hotkey netuid) (cursor progress))"

definition apply_live_delta ::
    "('a \<Rightarrow> nat \<Rightarrow> nat list) \<Rightarrow> 'a \<Rightarrow> nat \<Rightarrow> nat \<Rightarrow> nat \<Rightarrow> ('a, 'm) staked_totals_scheme \<Rightarrow>
     ('a, 'm) staked_totals_scheme" where
  "apply_live_delta hashed_key_for hotkey netuid previous new st =
     (if previous = new \<or> \<not> should_apply_live_delta hashed_key_for hotkey netuid st then st
      else
        (let total = saturating_add U64_MAX
               (saturating_sub (unwrap_or (TotalAlphaStaked st netuid) 0) previous) new in
         st\<lparr>TotalAlphaStaked :=
              (TotalAlphaStaked st)(netuid := if total \<noteq> 0 then Some total else None)\<rparr>))"

definition set_shared_value_alpha ::
    "('a \<Rightarrow> nat \<Rightarrow> nat list) \<Rightarrow> 'a \<Rightarrow> nat \<Rightarrow> ('a, 'm) staked_totals_scheme \<Rightarrow> nat \<Rightarrow>
     ('a, 'm) staked_totals_scheme" where
  "set_shared_value_alpha hashed_key_for hotkey netuid st value =
     (let previous = unwrap_or (TotalHotkeyAlpha st (hotkey, netuid)) 0;
          st1 = apply_live_delta hashed_key_for hotkey netuid previous value st in
      st1\<lparr>TotalHotkeyAlpha :=
            (TotalHotkeyAlpha st1)((hotkey, netuid) := if value \<noteq> 0 then Some value else None)\<rparr>)"

section \<open>The backfill\<close>

definition item_weight :: "'w weight_ops \<Rightarrow> 'w" where
  "item_weight W = reads_writes W 2 1"

definition migrate_total_alpha_staked ::
    "'w weight_ops \<Rightarrow> ('a, 'm) staked_totals_scheme \<Rightarrow> ('a, 'm) staked_totals_scheme \<times> 'w" where
  "migrate_total_alpha_staked W st =
     (let weight = reads W 2 in
      if unwrap_or (HasMigrationRun st MIGRATION_NAME) False \<or> TotalAlphaStakedMigration st \<noteq> None
      then (st, weight)
      else (st\<lparr>TotalAlphaStakedMigration := Some \<lparr>cursor = []\<rparr>\<rparr>, weight_add W weight (writes W 1)))"

definition backfill_entry :: "nat \<Rightarrow> nat \<Rightarrow> ('a, 'm) staked_totals_scheme \<Rightarrow> ('a, 'm) staked_totals_scheme" where
  "backfill_entry netuid alpha st =
     (if alpha \<noteq> 0 then
        st\<lparr>TotalAlphaStaked := (TotalAlphaStaked st)
             (netuid \<mapsto> saturating_add U64_MAX (unwrap_or (TotalAlphaStaked st netuid) 0) alpha)\<rparr>
      else st)"

text \<open>The loop over the iterator: the state and the weight used, and whether it ran to the end.\<close>

fun backfill_loop ::
    "('a \<Rightarrow> nat \<Rightarrow> nat list) \<Rightarrow> 'w weight_ops \<Rightarrow> 'w \<Rightarrow> TotalAlphaStakedProgress \<Rightarrow>
     ('a \<times> nat \<times> nat) list \<Rightarrow> nat list option \<Rightarrow> 'w \<Rightarrow> ('a, 'm) staked_totals_scheme \<Rightarrow>
     ('a, 'm) staked_totals_scheme \<times> 'w \<times> bool" where
  "backfill_loop hashed_key_for W work_limit progress [] last_key work_weight st =
     (st, work_weight, True)"
| "backfill_loop hashed_key_for W work_limit progress ((hotkey, netuid, alpha) # items)
       last_key work_weight st =
     (if \<not> all_lte W (weight_add W work_weight (item_weight W)) work_limit then
        (case last_key of
           Some key \<Rightarrow>
             (st\<lparr>TotalAlphaStakedMigration := Some (progress\<lparr>cursor := key\<rparr>)\<rparr>, work_weight, False)
         | None \<Rightarrow> (st, work_weight, False))
      else
        backfill_loop hashed_key_for W work_limit progress items
          (Some (hashed_key_for hotkey netuid)) (weight_add W work_weight (item_weight W))
          (backfill_entry netuid alpha st))"

definition continue_total_alpha_staked ::
    "('a \<Rightarrow> nat \<Rightarrow> nat list) \<Rightarrow> 'w weight_ops \<Rightarrow> ('a \<times> nat \<times> nat) list \<Rightarrow>
     (nat list \<Rightarrow> ('a \<times> nat \<times> nat) list) \<Rightarrow> 'w \<Rightarrow> ('a, 'm) staked_totals_scheme \<Rightarrow>
     ('a, 'm) staked_totals_scheme \<times> 'w" where
  "continue_total_alpha_staked hashed_key_for W iter iter_from limit st =
     (let pass_overhead = reads_writes W 1 2 in
      if \<not> all_lte W pass_overhead limit then (st, weight_zero W)
      else
        (case TotalAlphaStakedMigration st of
           None \<Rightarrow> (st, reads W 1)
         | Some progress \<Rightarrow>
             (let work_limit = weight_sub W limit pass_overhead;
                  items = (if cursor progress = [] then iter else iter_from (cursor progress));
                  (st1, work_weight, finished) =
                    backfill_loop hashed_key_for W work_limit progress items None (weight_zero W) st;
                  st2 = (if finished
                         then st1\<lparr>HasMigrationRun := (HasMigrationRun st1)(MIGRATION_NAME \<mapsto> True),
                                  TotalAlphaStakedMigration := None\<rparr>
                         else st1)
              in (st2, weight_add W pass_overhead work_weight))))"

section \<open>Specification\<close>

definition alpha_at :: "('a, 'm) staked_totals_scheme \<Rightarrow> 'a \<times> nat \<Rightarrow> nat" where
  "alpha_at st p = unwrap_or (TotalHotkeyAlpha st p) 0"

definition alpha_entries :: "('a, 'm) staked_totals_scheme \<Rightarrow> ('a \<times> nat) set" where
  "alpha_entries st = dom (TotalHotkeyAlpha st)"

text \<open>The stake of the entries of a set on one subnet.\<close>

definition staked_on :: "('a, 'm) staked_totals_scheme \<Rightarrow> ('a \<times> nat) set \<Rightarrow> nat \<Rightarrow> nat" where
  "staked_on st S netuid = (\<Sum>p \<in> {p \<in> S \<inter> alpha_entries st. snd p = netuid}. alpha_at st p)"

definition scanned :: "('a \<Rightarrow> nat \<Rightarrow> nat list) \<Rightarrow> ('a, 'm) staked_totals_scheme \<Rightarrow> ('a \<times> nat) set" where
  "scanned hk st = {p. should_apply_live_delta hk (fst p) (snd p) st}"

text \<open>The stake of a subnet fits the balance type.\<close>

definition supply_bounded :: "('a, 'm) staked_totals_scheme \<Rightarrow> bool" where
  "supply_bounded st \<longleftrightarrow> finite (alpha_entries st) \<and> (\<forall>netuid. staked_on st UNIV netuid \<le> U64_MAX)"

definition totals_match :: "('a \<Rightarrow> nat \<Rightarrow> nat list) \<Rightarrow> ('a, 'm) staked_totals_scheme \<Rightarrow> bool" where
  "totals_match hk st \<longleftrightarrow>
     (\<forall>netuid. unwrap_or (TotalAlphaStaked st netuid) 0 = staked_on st (scanned hk st) netuid)"

text \<open>
  What the framework promises of an iterator over \<^verbatim>\<open>TotalHotkeyAlpha\<close>: it yields the entries whose
  raw key passes \<open>after\<close>, each once, in increasing order of their raw keys.
\<close>

definition iterates ::
    "('a \<Rightarrow> nat \<Rightarrow> nat list) \<Rightarrow> ('a, 'm) staked_totals_scheme \<Rightarrow> (nat list \<Rightarrow> bool) \<Rightarrow>
     ('a \<times> nat \<times> nat) list \<Rightarrow> bool" where
  "iterates hk st after items \<longleftrightarrow>
     set items = {(h, n, v) |h n v. TotalHotkeyAlpha st (h, n) = Some v \<and> after (hk h n)} \<and>
     sorted_wrt (\<lambda>(h, n, v) (h', n', v'). \<not> bytes_le (hk h' n') (hk h n)) items"

text \<open>
  The chain during the migration: stake operations write single entries, and the idle hook runs
  pages of the backfill with whatever weight the block has left.
\<close>

inductive backfill_step ::
    "('a \<Rightarrow> nat \<Rightarrow> nat list) \<Rightarrow> 'w weight_ops \<Rightarrow> ('a, 'm) staked_totals_scheme \<Rightarrow>
     ('a, 'm) staked_totals_scheme \<Rightarrow> bool"
  for hk :: "'a \<Rightarrow> nat \<Rightarrow> nat list" and W :: "'w weight_ops" where
  live: "supply_bounded (set_shared_value_alpha hk hotkey netuid st value) \<Longrightarrow>
    backfill_step hk W st (set_shared_value_alpha hk hotkey netuid st value)"
| page: "iterates hk st (\<lambda>_. True) iter \<Longrightarrow>
    \<forall>c. c \<noteq> [] \<longrightarrow> iterates hk st (\<lambda>k. \<not> bytes_le k c) (iter_from c) \<Longrightarrow>
    backfill_step hk W st (fst (continue_total_alpha_staked hk W iter iter_from limit st))"

inductive backfill_run ::
    "('a \<Rightarrow> nat \<Rightarrow> nat list) \<Rightarrow> 'w weight_ops \<Rightarrow> ('a, 'm) staked_totals_scheme \<Rightarrow>
     ('a, 'm) staked_totals_scheme \<Rightarrow> bool"
  for hk :: "'a \<Rightarrow> nat \<Rightarrow> nat list" and W :: "'w weight_ops" where
  refl: "backfill_run hk W st st"
| step: "backfill_run hk W st st' \<Longrightarrow> backfill_step hk W st' st'' \<Longrightarrow> backfill_run hk W st st''"

definition totals_over :: "('a, 'm) staked_totals_scheme \<Rightarrow> ('a \<times> nat) set \<Rightarrow> bool" where
  "totals_over st S \<longleftrightarrow> (\<forall>netuid. unwrap_or (TotalAlphaStaked st netuid) 0 = staked_on st S netuid)"

definition item_keys :: "('a \<times> nat \<times> nat) list \<Rightarrow> ('a \<times> nat) set" where
  "item_keys items = (\<lambda>(h, n, v). (h, n)) ` set items"

text \<open>The key the cursor moves to after the items \<open>ys\<close>.\<close>

definition key_after :: "('a \<Rightarrow> nat \<Rightarrow> nat list) \<Rightarrow> nat list option \<Rightarrow> ('a \<times> nat \<times> nat) list \<Rightarrow> nat list option" where
  "key_after hk last_key ys =
     (if ys = [] then last_key else Some (case last ys of (h, n, v) \<Rightarrow> hk h n))"

text \<open>The entries the backfill has still to count.\<close>

definition remaining :: "('a \<Rightarrow> nat \<Rightarrow> nat list) \<Rightarrow> ('a, 'm) staked_totals_scheme \<Rightarrow> nat" where
  "remaining hk st = card (alpha_entries st - scanned hk st)"

section \<open>Byte order\<close>

lemma bytes_le_refl [simp]: "bytes_le xs xs"
  by (induction xs) auto

lemma bytes_le_trans: "bytes_le xs ys \<Longrightarrow> bytes_le ys zs \<Longrightarrow> bytes_le xs zs"
proof (induction xs ys arbitrary: zs rule: bytes_le.induct)
  case (3 x xs y ys)
  then show ?case by (cases zs) auto
qed auto

lemma bytes_le_total: "bytes_le xs ys \<or> bytes_le ys xs"
  by (induction xs ys rule: bytes_le.induct) auto

section \<open>A live write keeps the total\<close>

lemma alpha_at_set [simp]:
  "alpha_at (set_shared_value_alpha hk h n st v) p = (if p = (h, n) then v else alpha_at st p)"
  by (auto simp: set_shared_value_alpha_def apply_live_delta_def alpha_at_def Let_def)

lemma alpha_entries_set:
  "alpha_entries (set_shared_value_alpha hk h n st v) =
     (if v = 0 then alpha_entries st - {(h, n)} else insert (h, n) (alpha_entries st))"
  by (auto simp: set_shared_value_alpha_def apply_live_delta_def alpha_entries_def Let_def
      split: if_splits)

lemma migration_set [simp]:
  "TotalAlphaStakedMigration (set_shared_value_alpha hk h n st v) = TotalAlphaStakedMigration st"
  "HasMigrationRun (set_shared_value_alpha hk h n st v) = HasMigrationRun st"
  by (auto simp: set_shared_value_alpha_def apply_live_delta_def Let_def)

lemma scanned_set [simp]: "scanned hk (set_shared_value_alpha hk h n st v) = scanned hk st"
  by (auto simp: scanned_def should_apply_live_delta_def)

lemma alpha_at_absent: "p \<notin> alpha_entries st \<Longrightarrow> alpha_at st p = 0"
  by (cases "TotalHotkeyAlpha st p") (auto simp: alpha_at_def alpha_entries_def)

lemma alpha_at_present: "0 < alpha_at st p \<Longrightarrow> p \<in> alpha_entries st"
  using alpha_at_absent[of p st] by auto

text \<open>Entries that are absent count as nothing, so the sum may range over any finite superset.\<close>

lemma staked_on_superset:
  assumes "finite E" "alpha_entries st \<subseteq> E"
  shows "staked_on st S netuid = (\<Sum>p \<in> {p \<in> S \<inter> E. snd p = netuid}. alpha_at st p)"
  unfolding staked_on_def
  by (rule sum.mono_neutral_left) (use assms in \<open>auto intro: alpha_at_present\<close>)

lemma staked_on_set:
  assumes fin: "finite (alpha_entries st)"
  shows "staked_on (set_shared_value_alpha hk h n st v) S netuid +
      (if netuid = n \<and> (h, n) \<in> S then alpha_at st (h, n) else 0) =
    staked_on st S netuid + (if netuid = n \<and> (h, n) \<in> S then v else 0)"
proof -
  let ?E = "insert (h, n) (alpha_entries st)" and ?st = "set_shared_value_alpha hk h n st v"
  let ?A = "{p \<in> S \<inter> ?E. snd p = netuid}"
  have f: "finite ?E" "alpha_entries ?st \<subseteq> ?E" "alpha_entries st \<subseteq> ?E" "finite ?A"
    using fin by (auto simp: alpha_entries_set)
  have mem: "(h, n) \<in> ?A \<longleftrightarrow> netuid = n \<and> (h, n) \<in> S" by auto
  show ?thesis
  proof (cases "(h, n) \<in> ?A")
    case True
    have "(\<Sum>p\<in>?A. alpha_at ?st p) = v + (\<Sum>p\<in>?A - {(h, n)}. alpha_at st p)"
      using sum.remove[OF f(4) True, of "alpha_at ?st"] by simp
    moreover have "(\<Sum>p\<in>?A. alpha_at st p) = alpha_at st (h, n) + (\<Sum>p\<in>?A - {(h, n)}. alpha_at st p)"
      by (rule sum.remove[OF f(4) True])
    ultimately show ?thesis
      using True mem by (simp only: staked_on_superset[OF f(1,2)] staked_on_superset[OF f(1,3)]) simp
  next
    case False
    have "(\<Sum>p\<in>?A. alpha_at ?st p) = (\<Sum>p\<in>?A. alpha_at st p)"
      by (rule sum.cong) (use False in auto)
    then show ?thesis
      using False mem by (simp only: staked_on_superset[OF f(1,2)] staked_on_superset[OF f(1,3)]) auto
  qed
qed

lemma staked_on_mono: "finite (alpha_entries st) \<Longrightarrow> S \<subseteq> T \<Longrightarrow> staked_on st S n \<le> staked_on st T n"
  unfolding staked_on_def by (rule sum_mono2) auto

lemma staked_on_member:
  assumes "finite (alpha_entries st)" "(h, n) \<in> S"
  shows "alpha_at st (h, n) \<le> staked_on st S n"
proof (cases "(h, n) \<in> alpha_entries st")
  case True
  then show ?thesis
    unfolding staked_on_def using assms by (intro member_le_sum) auto
qed (simp add: alpha_at_absent)

lemma live_total:
  "unwrap_or (TotalAlphaStaked (set_shared_value_alpha hk h n st v) netuid) 0 =
     (if netuid = n \<and> (h, n) \<in> scanned hk st \<and> alpha_at st (h, n) \<noteq> v
      then min (unwrap_or (TotalAlphaStaked st n) 0 - alpha_at st (h, n) + v) U64_MAX
      else unwrap_or (TotalAlphaStaked st netuid) 0)"
  by (auto simp: set_shared_value_alpha_def apply_live_delta_def scanned_def alpha_at_def
      saturating_add_def Let_def)

lemma totals_match_live:
  assumes ok: "totals_match hk st" and fin: "finite (alpha_entries st)"
    and sup: "supply_bounded (set_shared_value_alpha hk h n st v)"
  shows "totals_match hk (set_shared_value_alpha hk h n st v)"
  unfolding totals_match_def
proof
  fix netuid
  let ?st = "set_shared_value_alpha hk h n st v"
  have T: "unwrap_or (TotalAlphaStaked st netuid) 0 = staked_on st (scanned hk st) netuid" for netuid
    using ok by (simp add: totals_match_def)
  have fin': "finite (alpha_entries ?st)" using fin by (simp add: alpha_entries_set)
  have "staked_on ?st (scanned hk st) netuid \<le> U64_MAX"
    using staked_on_mono[OF fin', of "scanned hk st" UNIV netuid] sup
    by (auto simp: supply_bounded_def intro: le_trans)
  moreover have "alpha_at st (h, n) \<le> staked_on st (scanned hk st) n" if "(h, n) \<in> scanned hk st"
    by (rule staked_on_member[OF fin that])
  ultimately show "unwrap_or (TotalAlphaStaked ?st netuid) 0 = staked_on ?st (scanned hk ?st) netuid"
    using staked_on_set[OF fin, of hk h n v "scanned hk st" netuid]
    by (auto simp: live_total T split: if_splits)
qed

section \<open>A page of the backfill\<close>

lemma item_keys_simps [simp]:
  "item_keys [] = {}" "item_keys ((h, n, v) # items) = insert (h, n) (item_keys items)"
  by (auto simp: item_keys_def)

lemma item_keys_iff: "(h, n) \<in> item_keys items \<longleftrightarrow> (\<exists>v. (h, n, v) \<in> set items)"
  by (force simp: item_keys_def)

lemma backfill_entry_frame [simp]:
  "TotalHotkeyAlpha (backfill_entry n v st) = TotalHotkeyAlpha st"
  "TotalAlphaStakedMigration (backfill_entry n v st) = TotalAlphaStakedMigration st"
  "HasMigrationRun (backfill_entry n v st) = HasMigrationRun st"
  by (auto simp: backfill_entry_def)

text \<open>What the sums read: the entries of the map.\<close>

lemma staked_on_cong: "TotalHotkeyAlpha st' = TotalHotkeyAlpha st \<Longrightarrow> staked_on st' S n = staked_on st S n"
  by (simp add: staked_on_def alpha_entries_def alpha_at_def)

lemma staked_on_frame [simp]:
  "staked_on (backfill_entry n v st) S m = staked_on st S m"
  "staked_on (st\<lparr>TotalAlphaStakedMigration := x\<rparr>) S m = staked_on st S m"
  "staked_on (st\<lparr>TotalAlphaStaked := t\<rparr>) S m = staked_on st S m"
  by (rule staked_on_cong, simp)+

lemma supply_bounded_cong: "TotalHotkeyAlpha st' = TotalHotkeyAlpha st \<Longrightarrow> supply_bounded st' = supply_bounded st"
  using staked_on_cong[of st' st] by (simp add: supply_bounded_def alpha_entries_def)

lemma staked_on_insert:
  assumes "finite (alpha_entries st)" "TotalHotkeyAlpha st (h, n) = Some v" "(h, n) \<notin> S"
  shows "staked_on st (insert (h, n) S) m = staked_on st S m + (if m = n then v else 0)"
proof (cases "m = n")
  case True
  have "{p \<in> insert (h, n) S \<inter> alpha_entries st. snd p = n} =
      insert (h, n) {p \<in> S \<inter> alpha_entries st. snd p = n}"
    using assms(2) by (auto simp: alpha_entries_def)
  then show ?thesis
    using assms True by (simp add: staked_on_def alpha_at_def)
next
  case False
  then have "{p \<in> insert (h, n) S \<inter> alpha_entries st. snd p = m} = {p \<in> S \<inter> alpha_entries st. snd p = m}"
    by auto
  then show ?thesis using False by (simp add: staked_on_def)
qed

lemma totals_over_entry:
  assumes "totals_over st S" "supply_bounded st" "TotalHotkeyAlpha st (h, n) = Some v" "(h, n) \<notin> S"
  shows "totals_over (backfill_entry n v st) (insert (h, n) S)"
  unfolding totals_over_def
proof
  fix m
  have fin: "finite (alpha_entries st)" using assms(2) by (simp add: supply_bounded_def)
  have "staked_on st (insert (h, n) S) m \<le> U64_MAX"
    using staked_on_mono[OF fin, of "insert (h, n) S" UNIV m] assms(2)
    by (auto simp: supply_bounded_def intro: le_trans)
  moreover have "unwrap_or (TotalAlphaStaked st m) 0 = staked_on st S m"
    using assms(1) by (simp add: totals_over_def)
  ultimately show "unwrap_or (TotalAlphaStaked (backfill_entry n v st) m) 0 =
      staked_on (backfill_entry n v st) (insert (h, n) S) m"
    using staked_on_insert[OF fin assms(3,4), of m]
    by (auto simp: backfill_entry_def saturating_add_def split: if_splits)
qed

lemma key_after_Cons [simp]: "key_after hk lk ((h, n, v) # ys) = key_after hk (Some (hk h n)) ys"
  by (auto simp: key_after_def)

lemma backfill_loop_spec:
  assumes "totals_over st S" "supply_bounded st"
    and "\<And>h n v. (h, n, v) \<in> set items \<Longrightarrow> TotalHotkeyAlpha st (h, n) = Some v \<and> (h, n) \<notin> S"
    and "distinct (map (\<lambda>(h, n, v). (h, n)) items)"
    and "backfill_loop hk W wl progress items lk w st = (st', w', finished)"
  shows "\<exists>ys zs. items = ys @ zs \<and> totals_over st' (S \<union> item_keys ys) \<and>
    TotalHotkeyAlpha st' = TotalHotkeyAlpha st \<and>
    (items \<noteq> [] \<and> all_lte W (weight_add W w (item_weight W)) wl \<longrightarrow> ys \<noteq> []) \<and>
    (if finished then zs = [] else
       TotalAlphaStakedMigration st' =
         (case key_after hk lk ys of
            None \<Rightarrow> TotalAlphaStakedMigration st | Some k \<Rightarrow> Some (progress\<lparr>cursor := k\<rparr>)))"
  using assms
proof (induction items arbitrary: st S lk w)
  case Nil
  then show ?case by auto
next
  case (Cons item items)
  obtain h n v where item: "item = (h, n, v)" by (cases item)
  show ?case
  proof (cases "all_lte W (weight_add W w (item_weight W)) wl")
    case False
    have "totals_over st' (S \<union> item_keys [])" "TotalHotkeyAlpha st' = TotalHotkeyAlpha st"
      "\<not> finished"
      "TotalAlphaStakedMigration st' =
         (case key_after hk lk [] of
            None \<Rightarrow> TotalAlphaStakedMigration st | Some k \<Rightarrow> Some (progress\<lparr>cursor := k\<rparr>))"
      using Cons.prems(1,5) False item
      by (auto simp: key_after_def totals_over_def split: option.splits)
    then show ?thesis using False by (rule_tac x = "[]" in exI) auto
  next
    case True
    let ?st = "backfill_entry n v st"
    have new: "TotalHotkeyAlpha st (h, n) = Some v" "(h, n) \<notin> S"
      using Cons.prems(3)[of h n v] item by auto
    have rest: "TotalHotkeyAlpha ?st (h', n') = Some v' \<and> (h', n') \<notin> insert (h, n) S"
      if "(h', n', v') \<in> set items" for h' n' v'
      using Cons.prems(3)[of h' n' v'] Cons.prems(4) that item by (auto simp: image_iff)
    obtain ys zs where "items = ys @ zs" "totals_over st' (insert (h, n) S \<union> item_keys ys)"
      "TotalHotkeyAlpha st' = TotalHotkeyAlpha ?st"
      "if finished then zs = [] else
       TotalAlphaStakedMigration st' =
         (case key_after hk (Some (hk h n)) ys of
            None \<Rightarrow> TotalAlphaStakedMigration ?st | Some k \<Rightarrow> Some (progress\<lparr>cursor := k\<rparr>))"
      using Cons.IH[OF totals_over_entry[OF Cons.prems(1,2) new] _ rest,
          of "Some (hk h n)" "weight_add W w (item_weight W)"] Cons.prems(2,4,5) True item
      by (auto simp: supply_bounded_cong[of ?st st])
    then show ?thesis
      using item by (rule_tac x = "item # ys" in exI) (auto cong: option.case_cong)
  qed
qed

lemma iterates_distinct:
  assumes "iterates hk st after items"
  shows "distinct (map (\<lambda>(h, n, v). (h, n)) items)"
proof -
  have "sorted_wrt (\<lambda>(h, n, v) (h', n', v'). (h, n) \<noteq> (h', n')) items"
    using assms by (auto simp: iterates_def elim!: sorted_wrt_mono_rel[rotated])
  then show ?thesis by (induction items) auto
qed

text \<open>The entries before the end of a page are those whose key is not beyond its last key.\<close>

lemma iterates_prefix:
  assumes it: "iterates hk st after (ys @ zs)" and ys: "ys \<noteq> []" "last ys = (h0, n0, v0)"
  shows "(h, n) \<in> item_keys ys \<longleftrightarrow> (h, n) \<in> item_keys (ys @ zs) \<and> bytes_le (hk h n) (hk h0 n0)"
proof -
  obtain xs where xs: "ys = xs @ [(h0, n0, v0)]" using ys by (metis append_butlast_last_id)
  have "bytes_le (hk h n) (hk h0 n0)" if "(h, n, v) \<in> set ys" for v
    using it that xs bytes_le_total[of "hk h n" "hk h0 n0"]
    by (auto simp: iterates_def sorted_wrt_append)
  moreover have "\<not> bytes_le (hk h n) (hk h0 n0)" if "(h, n, v) \<in> set zs" for v
    using it that xs by (auto simp: iterates_def sorted_wrt_append)
  ultimately show ?thesis by (auto simp: item_keys_iff)
qed

lemma item_keys_iterates:
  assumes "iterates hk st after items"
  shows "item_keys items = {p \<in> alpha_entries st. after (hk (fst p) (snd p))}"
  using assms by (auto simp: iterates_def item_keys_iff alpha_entries_def)

lemma totals_over_entries:
  assumes "S \<inter> alpha_entries st = T \<inter> alpha_entries st"
  shows "totals_over st S = totals_over st T"
  using assms by (simp add: totals_over_def staked_on_def)

lemma totals_match_over: "totals_match hk st = totals_over st (scanned hk st)"
  by (simp add: totals_match_def totals_over_def)

text \<open>The iterator the page uses walks the entries that are not yet counted.\<close>

lemma page_iterates:
  assumes "TotalAlphaStakedMigration st = Some progress"
    and "iterates hk st (\<lambda>_. True) iter"
    and "\<forall>c. c \<noteq> [] \<longrightarrow> iterates hk st (\<lambda>k. \<not> bytes_le k c) (iter_from c)"
  shows "iterates hk st (\<lambda>k. cursor progress = [] \<or> \<not> bytes_le k (cursor progress))
    (if cursor progress = [] then iter else iter_from (cursor progress))"
    and "scanned hk st = {p. cursor progress \<noteq> [] \<and> bytes_le (hk (fst p) (snd p)) (cursor progress)}"
  using assms by (auto simp: scanned_def should_apply_live_delta_def)

lemma page_counted:
  assumes iter: "iterates hk st (\<lambda>k. c = [] \<or> \<not> bytes_le k c) (ys @ zs)"
    and ys: "ys \<noteq> []" "last ys = (h0, n0, v0)"
  shows "({p. c \<noteq> [] \<and> bytes_le (hk (fst p) (snd p)) c} \<union> item_keys ys) \<inter> alpha_entries st =
    {p. bytes_le (hk (fst p) (snd p)) (hk h0 n0)} \<inter> alpha_entries st"
proof -
  have mem: "(h0, n0) \<in> item_keys (ys @ zs)"
    using last_in_set[of ys] ys by (auto simp: item_keys_iff)
  have "bytes_le (hk h n) (hk h0 n0)" if "c \<noteq> []" "bytes_le (hk h n) c" for h n
    using mem that bytes_le_total[of "hk h0 n0" c] bytes_le_trans[of "hk h n" c "hk h0 n0"]
    unfolding item_keys_iterates[OF iter] by auto
  then show ?thesis
    using iterates_prefix[OF iter ys] unfolding item_keys_iterates[OF iter] by auto
qed

lemma page_spec:
  assumes ok: "totals_match hk st" and sup: "supply_bounded st"
    and keys: "\<And>h n. hk h n \<noteq> []"
    and it: "iterates hk st (\<lambda>_. True) iter"
      "\<forall>c. c \<noteq> [] \<longrightarrow> iterates hk st (\<lambda>k. \<not> bytes_le k c) (iter_from c)"
    and run: "all_lte W (reads_writes W 1 2) limit" "TotalAlphaStakedMigration st = Some progress"
    and st': "st' = fst (continue_total_alpha_staked hk W iter iter_from limit st)"
    and items: "items = (if cursor progress = [] then iter else iter_from (cursor progress))"
  shows "\<exists>ys zs. items = ys @ zs \<and> totals_over st' (scanned hk st \<union> item_keys ys) \<and>
    TotalHotkeyAlpha st' = TotalHotkeyAlpha st \<and>
    (scanned hk st \<union> item_keys ys) \<inter> alpha_entries st = scanned hk st' \<inter> alpha_entries st \<and>
    (zs = [] \<and> ys = [] \<longrightarrow> \<not> in_progress st') \<and>
    (items \<noteq> [] \<and> all_lte W (weight_add W (weight_zero W) (item_weight W))
       (weight_sub W limit (reads_writes W 1 2)) \<longrightarrow> ys \<noteq> [])"
proof -
  note iter = page_iterates(1)[OF run(2) it, folded items] and scn = page_iterates(2)[OF run(2) it]
  obtain st1 w finished where loop: "backfill_loop hk W (weight_sub W limit (reads_writes W 1 2))
      progress items None (weight_zero W) st = (st1, w, finished)"
    by (metis prod_cases3)
  have st': "st' = (if finished then st1\<lparr>HasMigrationRun := (HasMigrationRun st1)(MIGRATION_NAME \<mapsto> True),
      TotalAlphaStakedMigration := None\<rparr> else st1)"
    using run loop by (simp add: st' items continue_total_alpha_staked_def Let_def)
  have new: "TotalHotkeyAlpha st (h, n) = Some v \<and> (h, n) \<notin> scanned hk st" if "(h, n, v) \<in> set items" for h n v
    using iter that unfolding scn iterates_def by auto
  obtain ys zs where ys: "items = ys @ zs" "totals_over st1 (scanned hk st \<union> item_keys ys)"
    "TotalHotkeyAlpha st1 = TotalHotkeyAlpha st"
    "items \<noteq> [] \<and> all_lte W (weight_add W (weight_zero W) (item_weight W))
       (weight_sub W limit (reads_writes W 1 2)) \<longrightarrow> ys \<noteq> []"
    "if finished then zs = [] else TotalAlphaStakedMigration st1 =
       (case key_after hk None ys of
          None \<Rightarrow> TotalAlphaStakedMigration st | Some k \<Rightarrow> Some (progress\<lparr>cursor := k\<rparr>))"
    using backfill_loop_spec[OF ok[unfolded totals_match_over] sup new iterates_distinct[OF iter] loop]
    by blast
  have "finished" if "items = []" using loop that by simp
  then have ended: "\<not> in_progress st'" if "items = []" using that by (simp add: st' in_progress_def)
  have "(scanned hk st \<union> item_keys ys) \<inter> alpha_entries st = scanned hk st' \<inter> alpha_entries st"
  proof (cases "finished \<or> ys = []")
    case True
    then show ?thesis
      using ys(1,5) run(2) item_keys_iterates[OF iter] unfolding scn st'
      by (auto simp: scanned_def should_apply_live_delta_def key_after_def)
  next
    case False
    obtain h0 n0 v0 where last: "last ys = (h0, n0, v0)" by (cases "last ys")
    have "scanned hk st' = {p. bytes_le (hk (fst p) (snd p)) (hk h0 n0)}"
      using ys(5) False last keys by (auto simp: st' key_after_def scanned_def should_apply_live_delta_def)
    then show ?thesis
      using page_counted[OF iter[unfolded ys(1)] _ last] False unfolding scn by simp
  qed
  moreover have "TotalHotkeyAlpha st' = TotalHotkeyAlpha st" "totals_over st' (scanned hk st \<union> item_keys ys)"
    using ys(2,3) staked_on_cong[of st' st1] by (auto simp: st' totals_over_def)
  moreover have "zs = [] \<and> ys = [] \<longrightarrow> \<not> in_progress st'" using ys(1) ended by simp
  ultimately show ?thesis using ys(1,4) by blast
qed

lemma page_idle:
  "\<not> all_lte W (reads_writes W 1 2) limit \<or> \<not> in_progress st \<Longrightarrow>
   fst (continue_total_alpha_staked hk W iter iter_from limit st) = st"
  by (auto simp: continue_total_alpha_staked_def in_progress_def Let_def split: option.splits)

lemma totals_match_page:
  assumes ok: "totals_match hk st" and sup: "supply_bounded st"
    and keys: "\<And>h n. hk h n \<noteq> []"
    and it: "iterates hk st (\<lambda>_. True) iter"
      "\<forall>c. c \<noteq> [] \<longrightarrow> iterates hk st (\<lambda>k. \<not> bytes_le k c) (iter_from c)"
    and st': "st' = fst (continue_total_alpha_staked hk W iter iter_from limit st)"
  shows "totals_match hk st'" and "TotalHotkeyAlpha st' = TotalHotkeyAlpha st"
proof -
  have "totals_match hk st' \<and> TotalHotkeyAlpha st' = TotalHotkeyAlpha st"
  proof (cases "all_lte W (reads_writes W 1 2) limit \<and> in_progress st")
    case False
    then show ?thesis using ok page_idle[of W limit st] by (auto simp: st')
  next
    case True
    then obtain progress where prog: "TotalAlphaStakedMigration st = Some progress"
      by (auto simp: in_progress_def)
    obtain ys where "totals_over st' (scanned hk st \<union> item_keys ys)"
      "TotalHotkeyAlpha st' = TotalHotkeyAlpha st"
      "(scanned hk st \<union> item_keys ys) \<inter> alpha_entries st = scanned hk st' \<inter> alpha_entries st"
      using page_spec[OF ok sup keys it conjunct1[OF True] prog st' HOL.refl] by blast
    then show ?thesis
      using totals_over_entries[of "scanned hk st \<union> item_keys ys" st' "scanned hk st'"]
      by (simp add: totals_match_over alpha_entries_def)
  qed
  then show "totals_match hk st'" "TotalHotkeyAlpha st' = TotalHotkeyAlpha st" by auto
qed

lemma page_decreases:
  assumes ok: "totals_match hk st" and sup: "supply_bounded st"
    and keys: "\<And>h n. hk h n \<noteq> []"
    and it: "iterates hk st (\<lambda>_. True) iter"
      "\<forall>c. c \<noteq> [] \<longrightarrow> iterates hk st (\<lambda>k. \<not> bytes_le k c) (iter_from c)"
    and run: "all_lte W (reads_writes W 1 2) limit" "in_progress st"
    and fits: "all_lte W (weight_add W (weight_zero W) (item_weight W))
      (weight_sub W limit (reads_writes W 1 2))"
    and st': "st' = fst (continue_total_alpha_staked hk W iter iter_from limit st)"
  shows "\<not> in_progress st' \<or> remaining hk st' < remaining hk st"
proof -
  obtain progress where prog: "TotalAlphaStakedMigration st = Some progress"
    using run(2) by (auto simp: in_progress_def)
  define items where "items = (if cursor progress = [] then iter else iter_from (cursor progress))"
  note iter = page_iterates(1)[OF prog it, folded items_def] and scn = page_iterates(2)[OF prog it]
  obtain ys zs where ys: "items = ys @ zs" "TotalHotkeyAlpha st' = TotalHotkeyAlpha st"
    "(scanned hk st \<union> item_keys ys) \<inter> alpha_entries st = scanned hk st' \<inter> alpha_entries st"
    "zs = [] \<and> ys = [] \<longrightarrow> \<not> in_progress st'" "items \<noteq> [] \<longrightarrow> ys \<noteq> []"
    using page_spec[OF ok sup keys it run(1) prog st' items_def] fits by blast
  show ?thesis
  proof (cases "ys = []")
    case True
    then have "items = []" using ys(5) by blast
    then have "zs = []" using ys(1) by (metis append_is_Nil_conv)
    then show ?thesis using ys(4) True by blast
  next
    case False
    then obtain h n v where "(h, n, v) \<in> set ys" by (metis list.set_intros(1) neq_Nil_conv prod_cases3)
    then have "(h, n) \<in> item_keys ys" "(h, n) \<in> item_keys items"
      unfolding ys(1) by (auto simp: item_keys_iff)
    then have "(h, n) \<in> alpha_entries st - scanned hk st" "(h, n) \<in> item_keys ys"
      unfolding item_keys_iterates[OF iter] scn by auto
    moreover have "alpha_entries st' - scanned hk st' = (alpha_entries st - scanned hk st) - item_keys ys"
      using ys(3) unfolding alpha_entries_def ys(2) by blast
    ultimately have "alpha_entries st' - scanned hk st' \<subset> alpha_entries st - scanned hk st" by blast
    then show ?thesis
      using sup by (auto simp: remaining_def supply_bounded_def intro: psubset_card_mono)
  qed
qed

section \<open>Live writes and pages interleaved\<close>

lemma backfill_step_invariant:
  assumes "backfill_step hk W st st'" "\<And>h n. hk h n \<noteq> []" "totals_match hk st" "supply_bounded st"
  shows "totals_match hk st' \<and> supply_bounded st'"
  using assms(1)
proof cases
  case (live hotkey netuid v)
  then show ?thesis
    using totals_match_live[OF assms(3)] assms(4) by (simp add: supply_bounded_def)
next
  case (page iter iter_from limit)
  note page_st = this(1) and inv = totals_match_page[OF assms(3,4,2) this(2,3) HOL.refl, of W limit]
  then show ?thesis using page_st supply_bounded_cong[OF inv(2)] assms(4) by simp
qed

lemma backfill_run_invariant:
  assumes "backfill_run hk W st st'" "\<And>h n. hk h n \<noteq> []" "totals_match hk st" "supply_bounded st"
  shows "totals_match hk st' \<and> supply_bounded st'"
  using assms by induction (use backfill_step_invariant in blast)+

lemma schedule_matches:
  assumes "\<forall>netuid. TotalAlphaStaked st netuid = None" "TotalAlphaStakedMigration st = None"
    "HasMigrationRun st MIGRATION_NAME = None"
  shows "totals_match hk (fst (migrate_total_alpha_staked W st))"
  using assms
  by (auto simp: migrate_total_alpha_staked_def totals_match_def scanned_def should_apply_live_delta_def
      staked_on_def Let_def)

lemma schedule_supply: "supply_bounded st \<Longrightarrow> supply_bounded (fst (migrate_total_alpha_staked W st))"
  by (auto simp: migrate_total_alpha_staked_def supply_bounded_def alpha_entries_def Let_def)

lemma staked_on_UNIV: "TotalAlphaStakedMigration st = None \<Longrightarrow> scanned hk st = UNIV"
  by (auto simp: scanned_def should_apply_live_delta_def)

text \<open>
  C4: once the backfill of \<^verbatim>\<open>TotalAlphaStaked\<close> is over, the total of a subnet is the sum of the
  stakes of all its hotkeys, however the pages of the backfill were interleaved with live stake
  operations since the migration was scheduled; and while it runs, the total is the sum over the
  keys that live updates treat as already counted.
\<close>

theorem backfill_exact:
  assumes "supply_bounded st" "\<forall>netuid. TotalAlphaStaked st netuid = None"
    and "TotalAlphaStakedMigration st = None" "HasMigrationRun st MIGRATION_NAME = None"
    and "\<forall>h n. hk h n \<noteq> []"
    and "backfill_run hk W (fst (migrate_total_alpha_staked W st)) st'"
  shows "unwrap_or (TotalAlphaStaked st' netuid) 0 = staked_on st' (scanned hk st') netuid \<and>
    (\<not> in_progress st' \<longrightarrow> unwrap_or (TotalAlphaStaked st' netuid) 0 = staked_on st' UNIV netuid)"
  using backfill_run_invariant[OF assms(6) _ schedule_matches[OF assms(2-4)] schedule_supply[OF assms(1)]]
    assms(5) by (auto simp: totals_match_def in_progress_def staked_on_UNIV)

text \<open>
  C17: the backfill ends.  In every state it reaches, a page whose weight limit has room for the
  overhead and for one entry either finishes the migration or leaves strictly fewer entries to
  count.
\<close>

theorem backfill_progress:
  assumes "supply_bounded st" "\<forall>netuid. TotalAlphaStaked st netuid = None"
    and "TotalAlphaStakedMigration st = None" "HasMigrationRun st MIGRATION_NAME = None"
    and "\<forall>h n. hk h n \<noteq> []"
    and "backfill_run hk W (fst (migrate_total_alpha_staked W st)) st1" "in_progress st1"
    and "iterates hk st1 (\<lambda>_. True) iter"
    and "\<forall>c. c \<noteq> [] \<longrightarrow> iterates hk st1 (\<lambda>k. \<not> bytes_le k c) (iter_from c)"
    and "all_lte W (reads_writes W 1 2) limit"
    and "all_lte W (weight_add W (weight_zero W) (item_weight W)) (weight_sub W limit (reads_writes W 1 2))"
    and "st2 = fst (continue_total_alpha_staked hk W iter iter_from limit st1)"
  shows "\<not> in_progress st2 \<or> remaining hk st2 < remaining hk st1"
proof -
  have keys: "hk h n \<noteq> []" for h n using assms(5) by simp
  have "totals_match hk st1" "supply_bounded st1"
    using backfill_run_invariant[OF assms(6) keys schedule_matches[OF assms(2-4)] schedule_supply[OF assms(1)]]
    by simp_all
  then show ?thesis by (rule page_decreases[OF _ _ keys assms(8,9,10,7,11,12)])
qed

section \<open>An example run\<close>

text \<open>
  One hotkey with 10 units on subnet 5; the migration is scheduled, a live write raises the stake to
  12 before the first page, and the page then counts it once.
\<close>

definition ex_key :: "nat \<Rightarrow> nat \<Rightarrow> nat list" where
  "ex_key h n = [h, n]"

definition ex_weights :: "nat weight_ops" where
  "ex_weights = \<lparr>reads = (\<lambda>n. n), writes = (\<lambda>n. n), reads_writes = (+), weight_zero = 0,
     weight_add = (+), weight_sub = (-), all_lte = (\<le>)\<rparr>"

definition ex_before :: "nat staked_totals" where
  "ex_before = \<lparr>TotalHotkeyAlpha = [(1, 5) \<mapsto> 10], TotalAlphaStaked = Map.empty,
     TotalAlphaStakedMigration = None, HasMigrationRun = Map.empty\<rparr>"

definition ex_live :: "nat staked_totals" where
  "ex_live = set_shared_value_alpha ex_key 1 5 (fst (migrate_total_alpha_staked ex_weights ex_before)) 12"

definition ex_iter :: "(nat \<times> nat \<times> nat) list" where
  "ex_iter = [(1, 5, 12)]"

definition ex_iter_from :: "nat list \<Rightarrow> (nat \<times> nat \<times> nat) list" where
  "ex_iter_from c = (if bytes_le [1, 5] c then [] else ex_iter)"

definition ex_after :: "nat staked_totals" where
  "ex_after = fst (continue_total_alpha_staked ex_key ex_weights ex_iter ex_iter_from 100 ex_live)"

lemmas ex_defs = ex_key_def ex_weights_def ex_before_def ex_live_def ex_iter_def ex_iter_from_def

lemma ex_live_state:
  "ex_live = \<lparr>TotalHotkeyAlpha = [(1, 5) \<mapsto> 12], TotalAlphaStaked = Map.empty,
     TotalAlphaStakedMigration = Some \<lparr>cursor = []\<rparr>, HasMigrationRun = Map.empty\<rparr>"
  by (simp add: ex_defs migrate_total_alpha_staked_def set_shared_value_alpha_def apply_live_delta_def
      should_apply_live_delta_def Let_def)

lemma staked_on_single:
  assumes "alpha_entries st = {p}"
  shows "staked_on st UNIV n \<le> alpha_at st p"
  using sum_mono2[of "{p}" "{q \<in> UNIV \<inter> alpha_entries st. snd q = n}" "alpha_at st"]
  unfolding staked_on_def assms by auto

lemma ex_supply: "supply_bounded ex_before" "supply_bounded ex_live"
proof -
  have e: "alpha_entries ex_before = {(1, 5)}" "alpha_entries ex_live = {(1, 5)}"
    by (simp_all add: alpha_entries_def ex_live_state ex_before_def)
  have "alpha_at ex_before (1, 5) \<le> U64_MAX" "alpha_at ex_live (1, 5) \<le> U64_MAX"
    by (simp_all add: alpha_at_def ex_live_state ex_before_def U64_MAX_def)
  then show "supply_bounded ex_before" "supply_bounded ex_live"
    using staked_on_single[OF e(1)] staked_on_single[OF e(2)] e
    by (auto simp: supply_bounded_def intro: order.trans)
qed

lemma ex_iterates:
  "iterates ex_key ex_live (\<lambda>_. True) ex_iter"
  "\<forall>c. c \<noteq> [] \<longrightarrow> iterates ex_key ex_live (\<lambda>k. \<not> bytes_le k c) (ex_iter_from c)"
  by (auto simp: iterates_def ex_live_state ex_iter_def ex_iter_from_def ex_key_def split: if_splits)

lemma ex_run_live: "backfill_run ex_key ex_weights (fst (migrate_total_alpha_staked ex_weights ex_before)) ex_live"
  unfolding ex_live_def
  by (rule backfill_run.step[OF backfill_run.refl], rule backfill_step.live, fold ex_live_def, rule ex_supply)

lemma ex_run: "backfill_run ex_key ex_weights (fst (migrate_total_alpha_staked ex_weights ex_before)) ex_after"
  unfolding ex_after_def
  by (rule backfill_run.step[OF ex_run_live], rule backfill_step.page, (rule ex_iterates)+)

lemma ex_after_state: "TotalAlphaStaked ex_after 5 = Some 12" "\<not> in_progress ex_after"
  by (simp_all add: ex_after_def continue_total_alpha_staked_def ex_live_state ex_iter_def ex_weights_def
      item_weight_def backfill_entry_def saturating_add_def U64_MAX_def in_progress_def Let_def)

theorem backfill_exact_witness:
  "\<not> in_progress ex_after \<and> TotalAlphaStaked ex_after 5 = Some 12 \<and> staked_on ex_after UNIV 5 = 12"
  using backfill_exact[OF ex_supply(1) _ _ _ _ ex_run, of 5] ex_after_state
  by (simp add: ex_before_def ex_key_def)

theorem backfill_progress_witness:
  "in_progress ex_live \<and>
   (if in_progress ex_after then remaining ex_key ex_after < remaining ex_key ex_live else True)"
proof -
  have live: "in_progress ex_live" by (simp add: ex_live_state in_progress_def)
  have "\<not> in_progress ex_after \<or> remaining ex_key ex_after < remaining ex_key ex_live"
    by (rule backfill_progress[OF ex_supply(1) _ _ _ _ ex_run_live live ex_iterates _ _ ex_after_def])
      (simp_all add: ex_before_def ex_key_def ex_weights_def item_weight_def)
  with live show ?thesis by auto
qed

end
