(* ===== verification/Alpha_Store.thy ===== *)
theory Alpha_Store
  imports Share_Pool Total_Alpha_Staked
begin

text \<open>
  The storage behind the share pool of a hotkey on a subnet and the stake operations built on it
  (\<^verbatim>\<open>src/pallets/subtensor/src/staking/stake_utils.rs\<close>): the maps of the pallet as a record, the
  methods of \<^verbatim>\<open>HotkeyAlphaSharePoolDataOperations\<close> with their lazy migration from the old share maps
  and their pool epochs, the interpretation of the contract of the share pool on them, and the
  functions that raise, lower and take a position.
\<close>

section \<open>Storage\<close>

record 'a alpha_storage = "'a staked_totals" +
  Alpha :: "'a \<times> 'a \<times> nat \<Rightarrow> U64F64_bits option"
  AlphaV2 :: "'a \<times> 'a \<times> nat \<Rightarrow> SafeFloat option"
  TotalHotkeyShares :: "'a \<times> nat \<Rightarrow> U64F64_bits option"
  TotalHotkeySharesV2 :: "'a \<times> nat \<Rightarrow> SafeFloat option"
  AlphaSharePoolEpoch :: "'a \<times> nat \<Rightarrow> nat option"
  AlphaShareEpoch :: "'a \<times> 'a \<times> nat \<Rightarrow> nat option"
  StakingHotkeys :: "'a \<Rightarrow> 'a list option"
  HotkeySwapBasketCredits :: "'a \<times> 'a \<Rightarrow> unit option"

section \<open>The data operations of the pool\<close>

definition pool_epoch_of :: "'a alpha_storage \<Rightarrow> 'a \<Rightarrow> nat \<Rightarrow> nat" where
  "pool_epoch_of st hotkey netuid = unwrap_or (AlphaSharePoolEpoch st (hotkey, netuid)) 0"

definition share_epoch_of :: "'a alpha_storage \<Rightarrow> 'a \<Rightarrow> 'a \<Rightarrow> nat \<Rightarrow> nat" where
  "share_epoch_of st hotkey coldkey netuid = unwrap_or (AlphaShareEpoch st (hotkey, coldkey, netuid)) 0"

definition alpha_share_is_retired :: "'a alpha_storage \<Rightarrow> 'a \<Rightarrow> 'a \<Rightarrow> nat \<Rightarrow> bool" where
  "alpha_share_is_retired st hotkey coldkey netuid =
     (let pool_epoch = pool_epoch_of st hotkey netuid in
      pool_epoch \<noteq> 0 \<and> share_epoch_of st hotkey coldkey netuid \<noteq> pool_epoch)"

definition raw_share :: "'a \<Rightarrow> nat \<Rightarrow> 'a alpha_storage \<Rightarrow> 'a \<Rightarrow> unit + SafeFloat" where
  "raw_share hotkey netuid st key =
     (case Alpha st (hotkey, key, netuid) of
        Some share_v1 \<Rightarrow> Inr (sf_of_u64f64 share_v1)
      | None \<Rightarrow> ok_or (AlphaV2 st (hotkey, key, netuid)) ())"

definition share_is_current :: "'a \<Rightarrow> nat \<Rightarrow> 'a alpha_storage \<Rightarrow> 'a \<Rightarrow> bool" where
  "share_is_current hotkey netuid st key \<longleftrightarrow> \<not> alpha_share_is_retired st hotkey key netuid"

definition get_shared_value_alpha :: "'a \<Rightarrow> nat \<Rightarrow> 'a alpha_storage \<Rightarrow> nat" where
  "get_shared_value_alpha hotkey netuid st = unwrap_or (TotalHotkeyAlpha st (hotkey, netuid)) 0"

definition try_get_share_alpha :: "'a \<Rightarrow> nat \<Rightarrow> 'a alpha_storage \<Rightarrow> 'a \<Rightarrow> unit + SafeFloat" where
  "try_get_share_alpha hotkey netuid st key =
     bind_result (raw_share hotkey netuid st key)
       (\<lambda>share. if is_zero share \<or> share_is_current hotkey netuid st key then Inr share else Inl ())"

definition get_share_alpha :: "'a \<Rightarrow> nat \<Rightarrow> 'a alpha_storage \<Rightarrow> 'a \<Rightarrow> SafeFloat" where
  "get_share_alpha hotkey netuid st key =
     (case try_get_share_alpha hotkey netuid st key of Inr share \<Rightarrow> share | Inl _ \<Rightarrow> zero_sf)"

definition get_denominator_alpha :: "'a \<Rightarrow> nat \<Rightarrow> 'a alpha_storage \<Rightarrow> SafeFloat" where
  "get_denominator_alpha hotkey netuid st =
     (case TotalHotkeyShares st (hotkey, netuid) of
        Some denominator_v1 \<Rightarrow> sf_of_u64f64 denominator_v1
      | None \<Rightarrow> unwrap_or (TotalHotkeySharesV2 st (hotkey, netuid)) zero_sf)"

definition set_share_alpha ::
    "'a \<Rightarrow> nat \<Rightarrow> 'a alpha_storage \<Rightarrow> 'a \<Rightarrow> SafeFloat \<Rightarrow> 'a alpha_storage" where
  "set_share_alpha hotkey netuid st0 key share =
     (let row = (hotkey, key, netuid);
          st = (if Alpha st0 row \<noteq> None then st0\<lparr>Alpha := (Alpha st0)(row := None)\<rparr> else st0);
          pool_epoch = pool_epoch_of st hotkey netuid in
      if \<not> is_zero share then
        (let st1 = st\<lparr>AlphaV2 := (AlphaV2 st)(row \<mapsto> share)\<rparr> in
         if pool_epoch \<noteq> 0 \<and> share_epoch_of st1 hotkey key netuid \<noteq> pool_epoch
         then st1\<lparr>AlphaShareEpoch := (AlphaShareEpoch st1)(row \<mapsto> pool_epoch)\<rparr> else st1)
      else
        (let st1 = st\<lparr>AlphaV2 := (AlphaV2 st)(row := None)\<rparr> in
         if pool_epoch \<noteq> 0
         then st1\<lparr>AlphaShareEpoch := (AlphaShareEpoch st1)(row := None)\<rparr> else st1))"

definition set_denominator_alpha ::
    "'a \<Rightarrow> nat \<Rightarrow> 'a alpha_storage \<Rightarrow> SafeFloat \<Rightarrow> 'a alpha_storage" where
  "set_denominator_alpha hotkey netuid st0 update =
     (let pool = (hotkey, netuid);
          previous = get_denominator_alpha hotkey netuid st0;
          st1 = (if TotalHotkeyShares st0 pool \<noteq> None
                 then st0\<lparr>TotalHotkeyShares := (TotalHotkeyShares st0)(pool := None)\<rparr> else st0);
          st2 = (if is_zero previous \<noteq> is_zero update
                 then st1\<lparr>AlphaSharePoolEpoch := (AlphaSharePoolEpoch st1)
                        (pool \<mapsto> saturating_add U64_MAX (pool_epoch_of st1 hotkey netuid) 1)\<rparr>
                 else st1)
      in if \<not> is_zero update
         then st2\<lparr>TotalHotkeySharesV2 := (TotalHotkeySharesV2 st2)(pool \<mapsto> update)\<rparr>
         else st2\<lparr>TotalHotkeySharesV2 := (TotalHotkeySharesV2 st2)(pool := None)\<rparr>)"

definition HotkeyAlphaSharePoolDataOperations ::
    "('a \<Rightarrow> nat \<Rightarrow> nat list) \<Rightarrow> 'a \<Rightarrow> nat \<Rightarrow> ('a alpha_storage, 'a) SharePoolDataOperations" where
  "HotkeyAlphaSharePoolDataOperations hashed_key_for hotkey netuid =
     \<lparr>get_shared_value = get_shared_value_alpha hotkey netuid,
      get_share = get_share_alpha hotkey netuid,
      try_get_share = try_get_share_alpha hotkey netuid,
      get_denominator = get_denominator_alpha hotkey netuid,
      set_shared_value = set_shared_value_alpha hashed_key_for hotkey netuid,
      set_share = set_share_alpha hotkey netuid,
      set_denominator = set_denominator_alpha hotkey netuid\<rparr>"

definition get_alpha_share_pool ::
    "('a \<Rightarrow> nat \<Rightarrow> nat list) \<Rightarrow> 'a \<Rightarrow> nat \<Rightarrow> ('a alpha_storage, 'a) SharePoolDataOperations" where
  "get_alpha_share_pool hashed_key_for hotkey netuid =
     HotkeyAlphaSharePoolDataOperations hashed_key_for hotkey netuid"

section \<open>Stake operations\<close>

definition get_stake_for_hotkey_and_coldkey_on_subnet ::
    "('a \<Rightarrow> nat \<Rightarrow> nat list) \<Rightarrow> 'a \<Rightarrow> 'a \<Rightarrow> nat \<Rightarrow> 'a alpha_storage \<Rightarrow> nat" where
  "get_stake_for_hotkey_and_coldkey_on_subnet hk hotkey coldkey netuid st =
     (case try_get_value (get_alpha_share_pool hk hotkey netuid) st coldkey of Inr v \<Rightarrow> v | Inl _ \<Rightarrow> 0)"

definition get_stake_for_hotkey_on_subnet :: "'a \<Rightarrow> nat \<Rightarrow> 'a alpha_storage \<Rightarrow> nat" where
  "get_stake_for_hotkey_on_subnet hotkey netuid st =
     unwrap_or (TotalHotkeyAlpha st (hotkey, netuid)) 0"

definition increase_stake_for_hotkey_on_subnet ::
    "('a \<Rightarrow> nat \<Rightarrow> nat list) \<Rightarrow> 'a \<Rightarrow> nat \<Rightarrow> nat \<Rightarrow> 'a alpha_storage \<Rightarrow> 'a alpha_storage" where
  "increase_stake_for_hotkey_on_subnet hk hotkey netuid amount st =
     update_value_for_all (get_alpha_share_pool hk hotkey netuid) st (u64_as_i64 amount)"

definition decrease_stake_for_hotkey_on_subnet ::
    "('a \<Rightarrow> nat \<Rightarrow> nat list) \<Rightarrow> 'a \<Rightarrow> nat \<Rightarrow> nat \<Rightarrow> 'a alpha_storage \<Rightarrow> 'a alpha_storage" where
  "decrease_stake_for_hotkey_on_subnet hk hotkey netuid amount st =
     update_value_for_all (get_alpha_share_pool hk hotkey netuid) st (neg_i64 (u64_as_i64 amount))"

definition hotkey_share_pool_has_members ::
    "('a \<Rightarrow> nat \<Rightarrow> nat list) \<Rightarrow> 'a \<Rightarrow> nat \<Rightarrow> 'a alpha_storage \<Rightarrow> bool" where
  "hotkey_share_pool_has_members hk hotkey netuid st =
     has_members (get_alpha_share_pool hk hotkey netuid) st"

definition associate_staking_hotkey :: "'a \<Rightarrow> 'a \<Rightarrow> 'a alpha_storage \<Rightarrow> 'a alpha_storage" where
  "associate_staking_hotkey hotkey coldkey st =
     (let staking_hotkeys = unwrap_or (StakingHotkeys st coldkey) [];
          st1 = (if hotkey \<notin> set staking_hotkeys
                 then st\<lparr>StakingHotkeys := (StakingHotkeys st)(coldkey \<mapsto> staking_hotkeys @ [hotkey])\<rparr>
                 else st)
      in st1\<lparr>HotkeySwapBasketCredits := (HotkeySwapBasketCredits st1)((coldkey, hotkey) := None)\<rparr>)"

definition increase_stake_for_hotkey_and_coldkey_on_subnet ::
    "('a \<Rightarrow> nat \<Rightarrow> nat list) \<Rightarrow> 'a \<Rightarrow> 'a \<Rightarrow> nat \<Rightarrow> nat \<Rightarrow> 'a alpha_storage \<Rightarrow> 'a alpha_storage" where
  "increase_stake_for_hotkey_and_coldkey_on_subnet hk hotkey coldkey netuid amount st =
     (let st1 = (if amount \<noteq> 0 then associate_staking_hotkey hotkey coldkey st else st)
      in update_value_for_one (get_alpha_share_pool hk hotkey netuid) st1 coldkey (u64_as_i64 amount))"

text \<open>\<open>null_consensus\<close> is the test \<^verbatim>\<open>get_epoch_consensus(netuid) == EpochConsensus::Null\<close>.\<close>

definition credit_epoch_owner_emission ::
    "('a \<Rightarrow> nat \<Rightarrow> nat list) \<Rightarrow> (nat \<Rightarrow> bool) \<Rightarrow> 'a \<Rightarrow> 'a \<Rightarrow> nat \<Rightarrow> nat \<Rightarrow> 'a alpha_storage \<Rightarrow> 'a alpha_storage" where
  "credit_epoch_owner_emission hk null_consensus hotkey coldkey netuid amount st =
     (if amount = 0 then st
      else
        (let general = increase_stake_for_hotkey_and_coldkey_on_subnet hk hotkey coldkey netuid amount in
         if null_consensus netuid \<and> TotalHotkeyShares st (hotkey, netuid) = None \<and>
            Alpha st (hotkey, coldkey, netuid) = None \<and>
            hotkey \<in> set (unwrap_or (StakingHotkeys st coldkey) [])
         then (case try_credit_sole_member (get_alpha_share_pool hk hotkey netuid) st coldkey amount of
                 (st1, credited) \<Rightarrow> if credited then st1 else general st1)
         else general st))"

definition try_increase_stake_for_hotkey_and_coldkey_on_subnet ::
    "('a \<Rightarrow> nat \<Rightarrow> nat list) \<Rightarrow> 'a \<Rightarrow> nat \<Rightarrow> nat \<Rightarrow> 'a alpha_storage \<Rightarrow> bool" where
  "try_increase_stake_for_hotkey_and_coldkey_on_subnet hk hotkey netuid amount st =
     sim_update_value_for_one (get_alpha_share_pool hk hotkey netuid) st (u64_as_i64 amount)"

definition decrease_stake_for_hotkey_and_coldkey_on_subnet ::
    "('a \<Rightarrow> nat \<Rightarrow> nat list) \<Rightarrow> 'a \<Rightarrow> 'a \<Rightarrow> nat \<Rightarrow> nat \<Rightarrow> 'a alpha_storage \<Rightarrow> 'a alpha_storage \<times> nat" where
  "decrease_stake_for_hotkey_and_coldkey_on_subnet hk hotkey coldkey netuid amount st =
     (let alpha_share_pool = get_alpha_share_pool hk hotkey netuid in
      case try_get_value alpha_share_pool st coldkey of
        Inl _ \<Rightarrow> (st, 0)
      | Inr v \<Rightarrow>
          if v < amount then (st, 0)
          else
            (let pool_before = get_stake_for_hotkey_on_subnet hotkey netuid st;
                 st1 = update_value_for_one alpha_share_pool st coldkey (neg_i64 (u64_as_i64 amount));
                 pool_after = get_stake_for_hotkey_on_subnet hotkey netuid st1
             in (st1, saturating_sub pool_before pool_after)))"

definition take_stake_position_for_hotkey_swap ::
    "('a \<Rightarrow> nat \<Rightarrow> nat list) \<Rightarrow> 'a \<Rightarrow> 'a \<Rightarrow> nat \<Rightarrow> 'a alpha_storage \<Rightarrow> 'a alpha_storage \<times> nat" where
  "take_stake_position_for_hotkey_swap hk hotkey coldkey netuid st =
     (let amount = get_stake_for_hotkey_and_coldkey_on_subnet hk hotkey coldkey netuid st;
          ops = HotkeyAlphaSharePoolDataOperations hk hotkey netuid;
          share = get_share ops st coldkey;
          denominator = get_denominator ops st;
          st1 = set_shared_value ops st (saturating_sub (get_shared_value ops st) amount);
          st2 = set_share ops st1 coldkey zero_sf;
          st3 = set_denominator ops st2 (unwrap_or (sub_sf denominator share) zero_sf)
      in (st3, amount))"

section \<open>Invariant\<close>

text \<open>
  The rows of one pool: the total is a \<^verbatim>\<open>u64\<close>, stored shares are in normal form, no share row
  is stamped with an epoch the pool has not reached, and the epoch is a \<^verbatim>\<open>u64\<close>.
\<close>

definition alpha_inv :: "'a \<Rightarrow> nat \<Rightarrow> 'a alpha_storage \<Rightarrow> bool" where
  "alpha_inv hotkey netuid st \<longleftrightarrow>
     get_shared_value_alpha hotkey netuid st \<le> U64_MAX \<and>
     pool_epoch_of st hotkey netuid \<le> U64_MAX \<and>
     (\<forall>coldkey. share_epoch_of st hotkey coldkey netuid \<le> pool_epoch_of st hotkey netuid \<and>
        (\<forall>x. AlphaV2 st (hotkey, coldkey, netuid) = Some x \<longrightarrow> normalized x))"

text \<open>How often the pool can still be opened or closed before its epoch counter saturates.\<close>

definition epochs_left :: "'a \<Rightarrow> nat \<Rightarrow> 'a alpha_storage \<Rightarrow> nat" where
  "epochs_left hotkey netuid st = U64_MAX - pool_epoch_of st hotkey netuid"

text \<open>The accounting invariant of one pool, and the room its numbers need for an update.\<close>

definition alpha_pool_ok :: "('a \<Rightarrow> nat \<Rightarrow> nat list) \<Rightarrow> 'a \<Rightarrow> nat \<Rightarrow> 'a alpha_storage \<Rightarrow> bool" where
  "alpha_pool_ok hk hotkey netuid st =
     pool_ok (HotkeyAlphaSharePoolDataOperations hk hotkey netuid) (alpha_inv hotkey netuid) st"

definition in_range :: "'a \<Rightarrow> 'a \<Rightarrow> nat \<Rightarrow> 'a alpha_storage \<Rightarrow> bool" where
  "in_range hotkey coldkey netuid st \<longleftrightarrow>
     exp_bounded (get_denominator_alpha hotkey netuid st) \<and>
     exp_bounded (get_share_alpha hotkey netuid st coldkey) \<and> 2 \<le> epochs_left hotkey netuid st"

text \<open>Everything the operations of one pool read.\<close>

definition pool_view :: "'a \<Rightarrow> nat \<Rightarrow> 'a alpha_storage \<Rightarrow>
    nat \<times> SafeFloat \<times> ('a \<Rightarrow> unit + SafeFloat) \<times> nat \<times> ('a \<Rightarrow> nat) \<times> ('a \<Rightarrow> SafeFloat option)" where
  "pool_view h n st =
     (get_shared_value_alpha h n st, get_denominator_alpha h n st, raw_share h n st,
      pool_epoch_of st h n, (\<lambda>k. share_epoch_of st h k n), (\<lambda>k. AlphaV2 st (h, k, n)))"

text \<open>The maps the total of a subnet depends on.\<close>

definition totals_of :: "'a alpha_storage \<Rightarrow>
    ('a \<times> nat \<Rightarrow> nat option) \<times> (nat \<Rightarrow> nat option) \<times> TotalAlphaStakedProgress option" where
  "totals_of st = (TotalHotkeyAlpha st, TotalAlphaStaked st, TotalAlphaStakedMigration st)"

text \<open>The storage of a new chain.\<close>

definition genesis :: "'a alpha_storage" where
  "genesis = \<lparr>TotalHotkeyAlpha = Map.empty, TotalAlphaStaked = Map.empty, TotalAlphaStakedMigration = None,
     HasMigrationRun = Map.empty, Alpha = Map.empty, AlphaV2 = Map.empty, TotalHotkeyShares = Map.empty,
     TotalHotkeySharesV2 = Map.empty, AlphaSharePoolEpoch = Map.empty, AlphaShareEpoch = Map.empty,
     StakingHotkeys = Map.empty, HotkeySwapBasketCredits = Map.empty\<rparr>"

text \<open>
  The stake operations of the pallet, each under the bounds its numbers need; \<open>supply_bounded\<close>
  says that the stake of a subnet stays within the balance type.
\<close>

inductive stake_step ::
    "('a \<Rightarrow> nat \<Rightarrow> nat list) \<Rightarrow> 'a alpha_storage \<Rightarrow> 'a alpha_storage \<Rightarrow> bool"
  for hk :: "'a \<Rightarrow> nat \<Rightarrow> nat list" where
  increase: "in_range h c n st \<Longrightarrow> int amount \<le> I64_MAX \<Longrightarrow>
    stake_step hk st (increase_stake_for_hotkey_and_coldkey_on_subnet hk h c n amount st)"
| decrease: "in_range h c n st \<Longrightarrow> int amount \<le> I64_MAX \<Longrightarrow>
    stake_step hk st (fst (decrease_stake_for_hotkey_and_coldkey_on_subnet hk h c n amount st))"
| credit: "in_range h c n st \<Longrightarrow> int amount \<le> I64_MAX \<Longrightarrow>
    stake_step hk st (credit_epoch_owner_emission hk null_consensus h c n amount st)"
| dividend: "stake_step hk st (increase_stake_for_hotkey_on_subnet hk h n amount st)"
| slash: "stake_step hk st (decrease_stake_for_hotkey_on_subnet hk h n amount st)"
| take: "in_range h c n st \<Longrightarrow>
    stake_step hk st (fst (take_stake_position_for_hotkey_swap hk h c n st))"

inductive stake_run ::
    "('a \<Rightarrow> nat \<Rightarrow> nat list) \<Rightarrow> 'a alpha_storage \<Rightarrow> 'a alpha_storage \<Rightarrow> bool"
  for hk :: "'a \<Rightarrow> nat \<Rightarrow> nat list" where
  refl: "stake_run hk st st"
| step: "stake_run hk st st' \<Longrightarrow> stake_step hk st' st'' \<Longrightarrow> supply_bounded st'' \<Longrightarrow> stake_run hk st st''"

section \<open>The contract of the share pool\<close>

lemmas alpha_ops_defs = HotkeyAlphaSharePoolDataOperations_def get_shared_value_alpha_def
  get_share_alpha_def try_get_share_alpha_def raw_share_def share_is_current_def
  alpha_share_is_retired_def get_denominator_alpha_def pool_epoch_of_def share_epoch_of_def

lemma ops_sel [simp]:
  "get_shared_value (HotkeyAlphaSharePoolDataOperations hk h n) = get_shared_value_alpha h n"
  "get_share (HotkeyAlphaSharePoolDataOperations hk h n) = get_share_alpha h n"
  "try_get_share (HotkeyAlphaSharePoolDataOperations hk h n) = try_get_share_alpha h n"
  "get_denominator (HotkeyAlphaSharePoolDataOperations hk h n) = get_denominator_alpha h n"
  "set_shared_value (HotkeyAlphaSharePoolDataOperations hk h n) = set_shared_value_alpha hk h n"
  "set_share (HotkeyAlphaSharePoolDataOperations hk h n) = set_share_alpha h n"
  "set_denominator (HotkeyAlphaSharePoolDataOperations hk h n) = set_denominator_alpha h n"
  by (simp_all add: HotkeyAlphaSharePoolDataOperations_def)

text \<open>Setting the shared value touches no share map.\<close>

lemma set_value_frame [simp]:
  "Alpha (set_shared_value_alpha hk h n st v) = Alpha st"
  "AlphaV2 (set_shared_value_alpha hk h n st v) = AlphaV2 st"
  "TotalHotkeyShares (set_shared_value_alpha hk h n st v) = TotalHotkeyShares st"
  "TotalHotkeySharesV2 (set_shared_value_alpha hk h n st v) = TotalHotkeySharesV2 st"
  "AlphaSharePoolEpoch (set_shared_value_alpha hk h n st v) = AlphaSharePoolEpoch st"
  "AlphaShareEpoch (set_shared_value_alpha hk h n st v) = AlphaShareEpoch st"
  "StakingHotkeys (set_shared_value_alpha hk h n st v) = StakingHotkeys st"
  by (simp_all add: set_shared_value_alpha_def apply_live_delta_def Let_def)

lemma set_value_reads [simp]:
  "get_shared_value_alpha h n (set_shared_value_alpha hk h n st v) = v"
  "get_share_alpha h n (set_shared_value_alpha hk h n st v) k = get_share_alpha h n st k"
  "get_denominator_alpha h n (set_shared_value_alpha hk h n st v) = get_denominator_alpha h n st"
  "pool_epoch_of (set_shared_value_alpha hk h n st v) h n = pool_epoch_of st h n"
  "share_epoch_of (set_shared_value_alpha hk h n st v) h k n = share_epoch_of st h k n"
  using alpha_at_set[of hk h n st v "(h, n)"] by (auto simp: alpha_ops_defs alpha_at_def cong: option.case_cong)

lemma set_share_reads [simp]:
  "get_shared_value_alpha h n (set_share_alpha h n st k x) = get_shared_value_alpha h n st"
  "get_denominator_alpha h n (set_share_alpha h n st k x) = get_denominator_alpha h n st"
  "pool_epoch_of (set_share_alpha h n st k x) h n = pool_epoch_of st h n"
  by (auto simp: set_share_alpha_def Let_def alpha_ops_defs cong: option.case_cong)

lemma share_epoch_set_share:
  "share_epoch_of (set_share_alpha h n st k x) h k' n =
     (if k' = k \<and> pool_epoch_of st h n \<noteq> 0 then (if is_zero x then 0 else pool_epoch_of st h n)
      else share_epoch_of st h k' n)"
  by (auto simp: set_share_alpha_def Let_def share_epoch_of_def pool_epoch_of_def)

lemma AlphaV2_set_share:
  "AlphaV2 (set_share_alpha h n st k x) (h, k', n) =
     (if k' = k then if is_zero x then None else Some x else AlphaV2 st (h, k', n))"
  by (auto simp: set_share_alpha_def Let_def)

lemma Alpha_set_share:
  "Alpha (set_share_alpha h n st k x) (h, k', n) = (if k' = k then None else Alpha st (h, k', n))"
  by (auto simp: set_share_alpha_def Let_def)

text \<open>A share row reads as the stored share while it is current or zero, and as zero otherwise.\<close>

lemma get_share_cases:
  "get_share_alpha h n st k =
     (case raw_share h n st k of
        Inl _ \<Rightarrow> zero_sf
      | Inr x \<Rightarrow> if is_zero x \<or> share_is_current h n st k then x else zero_sf)"
  by (auto simp: get_share_alpha_def try_get_share_alpha_def split: sum.splits)

lemma share_set_share_alpha:
  assumes "normalized x"
  shows "get_share_alpha h n (set_share_alpha h n st k x) k' = (if k' = k then x else get_share_alpha h n st k')"
  using assms
  by (auto simp: get_share_cases raw_share_def share_is_current_def alpha_share_is_retired_def
      AlphaV2_set_share Alpha_set_share share_epoch_set_share normalized_zero_iff ok_or_def Let_def
      split: option.splits sum.splits)

lemma set_denominator_reads [simp]:
  "get_shared_value_alpha h n (set_denominator_alpha h n st d) = get_shared_value_alpha h n st"
  "raw_share h n (set_denominator_alpha h n st d) = raw_share h n st"
  "share_epoch_of (set_denominator_alpha h n st d) h k n = share_epoch_of st h k n"
  "AlphaV2 (set_denominator_alpha h n st d) = AlphaV2 st"
  by (auto simp: set_denominator_alpha_def Let_def get_shared_value_alpha_def raw_share_def
      share_epoch_of_def fun_eq_iff cong: option.case_cong)

lemma pool_epoch_set_denominator:
  "pool_epoch_of (set_denominator_alpha h n st d) h n =
     (if is_zero (get_denominator_alpha h n st) \<noteq> is_zero d
      then min U64_MAX (pool_epoch_of st h n + 1) else pool_epoch_of st h n)"
  by (auto simp: set_denominator_alpha_def Let_def pool_epoch_of_def saturating_add_def)

lemma denominator_set_denominator_alpha:
  "normalized d \<Longrightarrow> get_denominator_alpha h n (set_denominator_alpha h n st d) = d"
  by (auto simp: set_denominator_alpha_def Let_def get_denominator_alpha_def normalized_zero_iff)

lemma new_sf_normalized: "in_i64 e \<Longrightarrow> normalized (unwrap_or (new_sf m e) zero_sf)"
  using normalized_result_Some(1)[of m e] by (cases "new_sf m e") (auto simp: new_sf_def split: if_splits)

lemma div_sf_normalized: "normalized (unwrap_or (div_sf x a) zero_sf)"
  using normalized_result_Some(1)
  by (cases "div_sf x a") (auto simp: div_sf_def Let_def in_i64_def split: if_splits option.splits)

lemma normalized_sf_of_u64f64: "normalized (sf_of_u64f64 bits)"
proof -
  have "normalized (unwrap_or (add_sf x a) zero_sf)" if "normalized x" "normalized a" for x a
    using add_sf_Some(1)[OF that] by (cases "add_sf x a") auto
  then show ?thesis
    by (simp add: sf_of_u64f64_def Let_def new_sf_normalized div_sf_normalized in_i64_def I64_MIN_def I64_MAX_def)
qed

lemma raw_share_normalized: "alpha_inv h n st \<Longrightarrow> raw_share h n st k = Inr x \<Longrightarrow> normalized x"
  by (auto simp: alpha_inv_def raw_share_def normalized_sf_of_u64f64 ok_or_def split: option.splits)

lemma share_same_epoch:
  "pool_epoch_of (set_denominator_alpha h n st d) h n = pool_epoch_of st h n \<Longrightarrow>
   get_share_alpha h n (set_denominator_alpha h n st d) k = get_share_alpha h n st k"
  by (simp add: get_share_cases share_is_current_def alpha_share_is_retired_def cong: sum.case_cong)

lemma share_keep_alpha:
  "is_zero d = is_zero (get_denominator_alpha h n st) \<Longrightarrow>
   get_share_alpha h n (set_denominator_alpha h n st d) k = get_share_alpha h n st k"
  by (simp add: share_same_epoch pool_epoch_set_denominator)

text \<open>A transition of the denominator moves to an epoch that no row is stamped with.\<close>

lemma share_retired:
  assumes "alpha_inv h n st" "is_zero d \<noteq> is_zero (get_denominator_alpha h n st)" "0 < epochs_left h n st"
  shows "get_share_alpha h n (set_denominator_alpha h n st d) k = zero_sf"
proof -
  have "share_epoch_of st h k n \<le> pool_epoch_of st h n" using assms(1) by (simp add: alpha_inv_def)
  then have "alpha_share_is_retired (set_denominator_alpha h n st d) h k n"
    using assms(2,3) by (auto simp: alpha_share_is_retired_def pool_epoch_set_denominator epochs_left_def)
  then show ?thesis
    using raw_share_normalized[OF assms(1)]
    by (auto simp: get_share_cases share_is_current_def normalized_zero_iff split: sum.splits)
qed

lemma alpha_inv_value: "alpha_inv h n st \<Longrightarrow> get_shared_value_alpha h n st \<le> U64_MAX"
  by (simp add: alpha_inv_def)

lemma alpha_inv_set_value: "alpha_inv h n st \<Longrightarrow> v \<le> U64_MAX \<Longrightarrow> alpha_inv h n (set_shared_value_alpha hk h n st v)"
  by (simp add: alpha_inv_def)

lemma alpha_inv_set_share: "alpha_inv h n st \<Longrightarrow> normalized x \<Longrightarrow> alpha_inv h n (set_share_alpha h n st k x)"
  by (auto simp: alpha_inv_def share_epoch_set_share AlphaV2_set_share)

lemma alpha_inv_set_denominator: "alpha_inv h n st \<Longrightarrow> alpha_inv h n (set_denominator_alpha h n st d)"
  by (auto simp: alpha_inv_def pool_epoch_set_denominator intro: le_SucI le_trans)

lemma share_open_alpha:
  assumes "alpha_inv h n st" "get_share_alpha h n st k = zero_sf"
  shows "get_share_alpha h n (set_denominator_alpha h n st d) k = zero_sf"
proof (cases "is_zero d = is_zero (get_denominator_alpha h n st) \<or> epochs_left h n st = 0")
  case True
  then have "pool_epoch_of (set_denominator_alpha h n st d) h n = pool_epoch_of st h n"
    using assms(1) by (auto simp: pool_epoch_set_denominator epochs_left_def alpha_inv_def)
  then show ?thesis using assms(2) by (simp add: share_same_epoch)
next
  case False
  then show ?thesis using share_retired[OF assms(1)] by blast
qed

interpretation alpha_pool: share_pool_data "HotkeyAlphaSharePoolDataOperations hk h n" "alpha_inv h n"
    "epochs_left h n" for hk h n
proof unfold_locales
  fix s d k
  assume "alpha_inv h n s" "is_zero d" "\<not> is_zero (get_denominator (HotkeyAlphaSharePoolDataOperations hk h n) s)"
    "0 < epochs_left h n s"
  then show "get_share (HotkeyAlphaSharePoolDataOperations hk h n)
      (set_denominator (HotkeyAlphaSharePoolDataOperations hk h n) s d) k = zero_sf"
    using share_retired[of h n s d k] by simp
qed (auto simp: share_set_share_alpha denominator_set_denominator_alpha share_keep_alpha share_open_alpha
    alpha_inv_set_value alpha_inv_set_share alpha_inv_set_denominator get_share_alpha_def[symmetric]
    epochs_left_def pool_epoch_set_denominator alpha_inv_value)

section \<open>Taking a whole position\<close>

context share_pool_data
begin

lemma pool_ok_denominator:
  assumes ok: "pool_ok ops invar s" and D: "normalized D'" and room: "0 < closings_left s"
    and backed: "\<And>K. finite K \<Longrightarrow> (\<Sum>k\<in>K. sf_val (get_share ops s k)) \<le> sf_val D'"
  shows "pool_ok ops invar (set_denominator ops s D')"
proof -
  note i = pool_okD(1)[OF ok]
  have sh: "get_share ops (set_denominator ops s D') k = get_share ops s k \<or>
      get_share ops (set_denominator ops s D') k = zero_sf" for k
    using share_keep[OF i, of D' k] share_close[OF i, of D' k] share_open[OF i, of k D'] room
      pool_ok_empty[OF ok, of k] by (cases "is_zero D'"; cases "is_zero (get_denominator ops s)") auto
  have "sf_val (get_share ops (set_denominator ops s D') k) \<le> sf_val (get_share ops s k)" for k
    using sh[of k] by auto
  then have "(\<Sum>k\<in>K. sf_val (get_share ops (set_denominator ops s D') k)) \<le> sf_val D'" if "finite K" for K
    using backed[OF that] by (meson order.trans sum_mono)
  moreover have "normalized (get_share ops (set_denominator ops s D') k)" for k
    using sh[of k] pool_okD(3)[OF ok, of k] by auto
  ultimately show ?thesis
    using inv_set_denominator[OF i D] denominator_set_denominator[OF i D] D
    by (simp add: pool_ok_def shares_backed_def)
qed

lemma pool_ok_drop_share:
  assumes ok: "pool_ok ops invar s"
  shows "pool_ok ops invar (set_share ops s key zero_sf)"
    and "finite K \<Longrightarrow> (\<Sum>k\<in>K. sf_val (get_share ops (set_share ops s key zero_sf) k)) \<le>
      sf_val (get_denominator ops s) - sf_val (get_share ops s key)"
proof -
  note i = pool_okD(1)[OF ok]
  have sh: "get_share ops (set_share ops s key zero_sf) k = (if k = key then zero_sf else get_share ops s k)" for k
    by (rule share_set_share[OF i]) simp
  have sum: "(\<Sum>k\<in>K. sf_val (get_share ops (set_share ops s key zero_sf) k)) \<le>
      sf_val (get_denominator ops s) - sf_val (get_share ops s key)" if "finite K" for K
  proof -
    have "(\<Sum>k\<in>K. sf_val (get_share ops (set_share ops s key zero_sf) k)) = (\<Sum>k\<in>K - {key}. sf_val (get_share ops s k))"
      using that by (intro sum.mono_neutral_cong_right) (auto simp: sh)
    moreover have "(\<Sum>k\<in>insert key K. sf_val (get_share ops s k)) =
        sf_val (get_share ops s key) + (\<Sum>k\<in>K - {key}. sf_val (get_share ops s k))"
      using that by (simp add: sum.insert_remove)
    ultimately show ?thesis using pool_okD(4)[OF ok, of "insert key K"] that by simp
  qed
  then show "finite K \<Longrightarrow> (\<Sum>k\<in>K. sf_val (get_share ops (set_share ops s key zero_sf) k)) \<le>
      sf_val (get_denominator ops s) - sf_val (get_share ops s key)" .
  have "(\<Sum>k\<in>K. sf_val (get_share ops (set_share ops s key zero_sf) k)) \<le> sf_val (get_denominator ops s)"
    if "finite K" for K
    using sum[OF that] by (simp add: order.trans)
  then show "pool_ok ops invar (set_share ops s key zero_sf)"
    using inv_set_share[OF i, of zero_sf key] denominator_set_share[OF i] pool_okD(2,3)[OF ok]
    by (simp add: pool_ok_def shares_backed_def sh)
qed

text \<open>A withdrawal that empties the pool closes it.\<close>

lemma drain_closes:
  assumes ok: "pool_ok ops invar s" and D: "\<not> is_zero (get_denominator ops s)"
    and u: "u < 0" "get_shared_value ops s \<le> unsigned_abs u"
  shows "get_denominator ops (update_value_for_one ops s key u) = zero_sf"
proof -
  note i = pool_okD(1)[OF ok]
  let ?s = "set_denominator ops s zero_sf"
  have i': "invar ?s" by (rule inv_set_denominator[OF i]) simp
  have "update_value_for_one ops s key u = update_value_for_all ops (set_share ops ?s key zero_sf) u"
    using D u by (simp add: update_value_for_one_def settled_shares_def Let_def case_prod_beta)
  then show ?thesis
    using denominator_set_denominator[OF i] denominator_set_share[OF i'] inv_set_share[OF i', of zero_sf]
    by (simp add: update_value_for_all_frame(2))
qed

text \<open>Burning a whole share and shrinking the denominator by it.\<close>

lemma pool_ok_burn:
  assumes ok: "pool_ok ops invar s" and room: "0 < closings_left (set_share ops s key zero_sf)"
    and b: "exp_bounded (get_denominator ops s)" "exp_bounded (get_share ops s key)"
  shows "pool_ok ops invar (set_denominator ops (set_share ops s key zero_sf)
    (unwrap_or (sub_sf (get_denominator ops s) (get_share ops s key)) zero_sf))"
proof -
  let ?D = "get_denominator ops s" and ?S = "get_share ops s key"
  note n = pool_okD(2,3)[OF ok]
  have "\<not> is_zero ?D \<or> is_zero ?S" using pool_ok_empty[OF ok, of key] by auto
  then obtain r where r: "sub_sf ?D ?S = Some r" using sub_sf_total[OF n b] by blast
  have "normalized r" "sf_val ?D - sf_val ?S \<le> sf_val r" using sub_sf_Some(1,2)[OF n r] by auto
  then have "pool_ok ops invar (set_denominator ops (set_share ops s key zero_sf) r)"
    by (intro pool_ok_denominator[OF pool_ok_drop_share(1)[OF ok] _ room] order.trans[OF pool_ok_drop_share(2)[OF ok]])
  then show ?thesis using r by simp
qed

end

section \<open>Effects of the stake operations\<close>

lemma get_stake_value:
  "get_stake_for_hotkey_and_coldkey_on_subnet hk h c n st \<le>
     get_value (HotkeyAlphaSharePoolDataOperations hk h n) st c"
  "get_stake_for_hotkey_and_coldkey_on_subnet hk h c n st \<le> get_stake_for_hotkey_on_subnet h n st"
proof -
  show le: "get_stake_for_hotkey_and_coldkey_on_subnet hk h c n st \<le>
      get_value (HotkeyAlphaSharePoolDataOperations hk h n) st c"
    by (auto simp: get_stake_for_hotkey_and_coldkey_on_subnet_def get_alpha_share_pool_def
        try_get_value_def split: sum.splits)
  have "get_value (HotkeyAlphaSharePoolDataOperations hk h n) st c \<le> get_stake_for_hotkey_on_subnet h n st"
    by (cases "try_get_value_from_parts (get_shared_value_alpha h n st) (get_share_alpha h n st c)
        (get_denominator_alpha h n st)")
      (auto simp: get_value_def get_stake_for_hotkey_on_subnet_def get_shared_value_alpha_def
        try_get_value_from_parts_def split: option.splits)
  then show "get_stake_for_hotkey_and_coldkey_on_subnet hk h c n st \<le> get_stake_for_hotkey_on_subnet h n st"
    using le by (rule order.trans[rotated])
qed

lemma total_is_shared_value: "get_stake_for_hotkey_on_subnet h n st = get_shared_value_alpha h n st"
  by (simp add: get_stake_for_hotkey_on_subnet_def get_shared_value_alpha_def)

lemma u64_as_i64_small: "int a \<le> I64_MAX \<Longrightarrow> u64_as_i64 a = int a \<and> in_i64 (int a)"
  by (simp add: u64_as_i64_def in_i64_def I64_MIN_def)

lemma neg_i64_small: "int a \<le> I64_MAX \<Longrightarrow> neg_i64 (int a) = - int a \<and> in_i64 (- int a)"
  by (simp add: neg_i64_def in_i64_def I64_MIN_def I64_MAX_def)

text \<open>The association of a coldkey with a hotkey leaves the pools alone.\<close>

lemma associate_frame [simp]:
  "get_shared_value_alpha h n (associate_staking_hotkey h' c st) = get_shared_value_alpha h n st"
  "get_denominator_alpha h n (associate_staking_hotkey h' c st) = get_denominator_alpha h n st"
  "raw_share h n (associate_staking_hotkey h' c st) = raw_share h n st"
  "pool_epoch_of (associate_staking_hotkey h' c st) h n = pool_epoch_of st h n"
  "share_epoch_of (associate_staking_hotkey h' c st) h k n = share_epoch_of st h k n"
  "AlphaV2 (associate_staking_hotkey h' c st) = AlphaV2 st"
  by (auto simp: associate_staking_hotkey_def Let_def alpha_ops_defs fun_eq_iff cong: option.case_cong)

lemma associate_share [simp]:
  "get_share_alpha h n (associate_staking_hotkey h' c st) = get_share_alpha h n st"
  by (simp add: fun_eq_iff get_share_cases share_is_current_def alpha_share_is_retired_def cong: sum.case_cong)

lemma associate_ok:
  "alpha_pool_ok hk h n st \<Longrightarrow> alpha_pool_ok hk h n (associate_staking_hotkey h' c st)"
  "in_range h k n st \<Longrightarrow> in_range h k n (associate_staking_hotkey h' c st)"
  by (simp_all add: alpha_pool_ok_def pool_ok_def shares_backed_def alpha_inv_def in_range_def epochs_left_def)

lemma update_one_ok:
  assumes "alpha_pool_ok hk h n st" "in_range h c n st" "in_i64 u"
  defines "st' \<equiv> update_value_for_one (get_alpha_share_pool hk h n) st c u"
  shows "alpha_pool_ok hk h n st'"
    and "get_stake_for_hotkey_on_subnet h n st' =
      (if 0 \<le> u then min U64_MAX (get_stake_for_hotkey_on_subnet h n st + nat u)
       else get_stake_for_hotkey_on_subnet h n st - nat (- u))"
  using assms alpha_pool.update_value_for_one_ok[of hk h n st u c]
  by (simp_all add: alpha_pool_ok_def in_range_def get_alpha_share_pool_def total_is_shared_value)

section \<open>What an operation leaves alone\<close>

text \<open>An update writes shares and denominators first and the shared value last.\<close>

lemma update_one_via_all:
  assumes "\<And>s k x. f (set_share ops s k x) = f s" "\<And>s d. f (set_denominator ops s d) = f s"
  shows "\<exists>t. update_value_for_one ops s key u = update_value_for_all ops t u \<and> f t = f s"
  unfolding update_value_for_one_def Let_def case_prod_beta
  by (rule exI, rule conjI, rule HOL.refl) (simp add: assms)

lemma update_all_via_value: "\<exists>v. update_value_for_all ops t u = set_shared_value ops t v"
  unfolding update_value_for_all_def Let_def by blast

lemma update_one_frame:
  assumes "\<And>s k x. f (set_share ops s k x) = f s" "\<And>s d. f (set_denominator ops s d) = f s"
    and "\<And>s v. f (set_shared_value ops s v) = f s"
  shows "f (update_value_for_one ops s key u) = f s"
  using update_one_via_all[OF assms(1,2), of s key u] update_all_via_value[of ops] assms(3) by metis

lemma other_pool_view:
  assumes "(h', n') \<noteq> (h, n)"
  shows "pool_view h' n' (set_shared_value_alpha hk h n st v) = pool_view h' n' st"
    and "pool_view h' n' (set_share_alpha h n st k x) = pool_view h' n' st"
    and "pool_view h' n' (set_denominator_alpha h n st d) = pool_view h' n' st"
  using assms
  by (auto simp: pool_view_def set_shared_value_alpha_def apply_live_delta_def set_share_alpha_def
      set_denominator_alpha_def alpha_ops_defs Let_def fun_eq_iff cong: option.case_cong)

lemma associate_view [simp]: "pool_view h n (associate_staking_hotkey h' c st) = pool_view h n st"
  by (simp add: pool_view_def)

lemma pool_ok_view: "pool_view h n st' = pool_view h n st \<Longrightarrow> alpha_pool_ok hk h n st' = alpha_pool_ok hk h n st"
  unfolding alpha_pool_ok_def pool_ok_def shares_backed_def alpha_inv_def ops_sel
  by (simp add: get_share_cases pool_view_def share_is_current_def alpha_share_is_retired_def fun_eq_iff
      cong: sum.case_cong)

lemma other_pool_update:
  assumes "(h', n') \<noteq> (h, n)"
  shows "pool_view h' n' (update_value_for_one (get_alpha_share_pool hk h n) st c u) = pool_view h' n' st"
    and "pool_view h' n' (update_value_for_all (get_alpha_share_pool hk h n) st u) = pool_view h' n' st"
  using other_pool_view[OF assms] update_all_via_value[of "HotkeyAlphaSharePoolDataOperations hk h n" st u]
  by (auto simp: get_alpha_share_pool_def intro!: update_one_frame)

text \<open>The totals of the subnets change only with the shared value.\<close>

lemma totals_of_frame [simp]:
  "totals_of (set_share_alpha h n st k x) = totals_of st"
  "totals_of (set_denominator_alpha h n st d) = totals_of st"
  "totals_of (associate_staking_hotkey h c st) = totals_of st"
  by (auto simp: totals_of_def set_share_alpha_def set_denominator_alpha_def associate_staking_hotkey_def Let_def)

lemma totals_cong:
  assumes "totals_of st' = totals_of st"
  shows "totals_match hk st' = totals_match hk st" "supply_bounded st' = supply_bounded st"
    "alpha_entries st' = alpha_entries st"
  using assms
  by (auto simp: totals_of_def totals_match_def supply_bounded_def staked_on_def alpha_entries_def
      alpha_at_def scanned_def should_apply_live_delta_def)

lemma update_one_totals:
  "\<exists>t v. update_value_for_one (get_alpha_share_pool hk h n) st c u = set_shared_value_alpha hk h n t v \<and>
     totals_of t = totals_of st"
  using update_one_via_all[of totals_of "HotkeyAlphaSharePoolDataOperations hk h n" st c u]
    update_all_via_value[of "HotkeyAlphaSharePoolDataOperations hk h n"]
  unfolding get_alpha_share_pool_def by (metis ops_sel(5,6,7) totals_of_frame(1,2))

section \<open>Each operation on its own pool\<close>

lemma update_all_ok:
  "alpha_pool_ok hk h n st \<Longrightarrow> alpha_pool_ok hk h n (update_value_for_all (get_alpha_share_pool hk h n) st u)"
  unfolding alpha_pool_ok_def get_alpha_share_pool_def by (rule alpha_pool.pool_ok_update_all)

lemma increase_ok:
  assumes "alpha_pool_ok hk h n st" "in_range h c n st" "int amount \<le> I64_MAX"
  defines "st' \<equiv> increase_stake_for_hotkey_and_coldkey_on_subnet hk h c n amount st"
  shows "alpha_pool_ok hk h n st'"
    and "get_stake_for_hotkey_on_subnet h n st' = min U64_MAX (get_stake_for_hotkey_on_subnet h n st + amount)"
proof -
  let ?st1 = "if amount \<noteq> 0 then associate_staking_hotkey h c st else st"
  have "alpha_pool_ok hk h n ?st1" "in_range h c n ?st1"
    "get_stake_for_hotkey_on_subnet h n ?st1 = get_stake_for_hotkey_on_subnet h n st"
    using assms(1,2) by (auto simp: associate_ok total_is_shared_value)
  then show "alpha_pool_ok hk h n st'"
    "get_stake_for_hotkey_on_subnet h n st' = min U64_MAX (get_stake_for_hotkey_on_subnet h n st + amount)"
    using update_one_ok[of hk h n ?st1 c "int amount"] u64_as_i64_small[OF assms(3)]
    by (simp_all add: st'_def increase_stake_for_hotkey_and_coldkey_on_subnet_def Let_def)
qed

lemma total_u64: "alpha_pool_ok hk h n st \<Longrightarrow> get_stake_for_hotkey_on_subnet h n st \<le> U64_MAX"
  using alpha_inv_value by (auto simp: alpha_pool_ok_def pool_ok_def total_is_shared_value)

text \<open>A withdrawal either does nothing or removes exactly the amount asked for.\<close>

lemma decrease_ok:
  assumes ok: "alpha_pool_ok hk h n st" "in_range h c n st" "int amount \<le> I64_MAX"
    and res: "decrease_stake_for_hotkey_and_coldkey_on_subnet hk h c n amount st = (st', removed)"
  shows "alpha_pool_ok hk h n st'"
    and "removed = (if amount \<le> get_stake_for_hotkey_and_coldkey_on_subnet hk h c n st then amount else 0)"
    and "get_stake_for_hotkey_on_subnet h n st' + removed = get_stake_for_hotkey_on_subnet h n st"
proof -
  let ?q = "get_stake_for_hotkey_and_coldkey_on_subnet hk h c n st"
  let ?u = "neg_i64 (u64_as_i64 amount)"
  have u: "?u = - int amount" "in_i64 ?u" using u64_as_i64_small[OF ok(3)] neg_i64_small[OF ok(3)] by auto
  have le: "?q \<le> get_stake_for_hotkey_on_subnet h n st" by (rule get_stake_value)
  note upd = update_one_ok[OF ok(1,2) u(2)]
  have "alpha_pool_ok hk h n st' \<and> removed = (if amount \<le> ?q then amount else 0) \<and>
      get_stake_for_hotkey_on_subnet h n st' + removed = get_stake_for_hotkey_on_subnet h n st"
  proof (cases "try_get_value (get_alpha_share_pool hk h n) st c")
    case (Inl e)
    then have "?q = 0" "st' = st" "removed = 0"
      using res by (auto simp: get_stake_for_hotkey_and_coldkey_on_subnet_def Let_def
          decrease_stake_for_hotkey_and_coldkey_on_subnet_def)
    then show ?thesis using ok(1) by simp
  next
    case (Inr v)
    then have q: "?q = v" by (simp add: get_stake_for_hotkey_and_coldkey_on_subnet_def)
    show ?thesis
    proof (cases "v < amount")
      case True
      then show ?thesis
        using res Inr ok(1) q by (auto simp: decrease_stake_for_hotkey_and_coldkey_on_subnet_def Let_def)
    next
      case False
      then show ?thesis
        using res Inr upd le q u total_u64[OF ok(1)]
        by (auto simp: decrease_stake_for_hotkey_and_coldkey_on_subnet_def Let_def)
    qed
  qed
  then show "alpha_pool_ok hk h n st'" "removed = (if amount \<le> ?q then amount else 0)"
    "get_stake_for_hotkey_on_subnet h n st' + removed = get_stake_for_hotkey_on_subnet h n st"
    by auto
qed

lemma epochs_left_frame [simp]:
  "epochs_left h n (set_share_alpha h n st k x) = epochs_left h n st"
  "epochs_left h n (set_shared_value_alpha hk h n st v) = epochs_left h n st"
  by (simp_all add: epochs_left_def)

lemma take_ok:
  assumes ok: "alpha_pool_ok hk h n st" "in_range h c n st"
    and res: "take_stake_position_for_hotkey_swap hk h c n st = (st', amount)"
  shows "alpha_pool_ok hk h n st'"
    and "amount = get_stake_for_hotkey_and_coldkey_on_subnet hk h c n st"
    and "get_stake_for_hotkey_on_subnet h n st' + amount = get_stake_for_hotkey_on_subnet h n st"
    and "get_share_alpha h n st' c = zero_sf"
proof -
  let ?q = "get_stake_for_hotkey_and_coldkey_on_subnet hk h c n st"
  let ?st1 = "set_shared_value_alpha hk h n st (get_shared_value_alpha h n st - ?q)"
  let ?st2 = "set_share_alpha h n ?st1 c zero_sf"
  let ?D = "unwrap_or (sub_sf (get_denominator_alpha h n st) (get_share_alpha h n st c)) zero_sf"
  have st': "st' = set_denominator_alpha h n ?st2 ?D" and a: "amount = ?q"
    using res by (auto simp: take_stake_position_for_hotkey_swap_def Let_def)
  show "amount = ?q" by (rule a)
  have V: "get_shared_value_alpha h n st \<le> U64_MAX"
    using ok(1) alpha_inv_value by (auto simp: alpha_pool_ok_def pool_ok_def)
  have ok1: "pool_ok (HotkeyAlphaSharePoolDataOperations hk h n) (alpha_inv h n) ?st1"
    using alpha_pool.pool_ok_set_value[of hk h n st] ok(1) V by (simp add: alpha_pool_ok_def)
  show "alpha_pool_ok hk h n st'"
    using alpha_pool.pool_ok_burn[OF ok1, of c] ok(2)
    by (simp add: alpha_pool_ok_def st' in_range_def)
  show "get_stake_for_hotkey_on_subnet h n st' + amount = get_stake_for_hotkey_on_subnet h n st"
    using get_stake_value(2)[of hk h c n st] by (simp add: st' a total_is_shared_value)
  have i2: "alpha_inv h n ?st2" using ok1 by (auto simp: pool_ok_def intro: alpha_inv_set_share)
  have "get_share_alpha h n ?st2 c = zero_sf" by (simp add: share_set_share_alpha)
  then show "get_share_alpha h n st' c = zero_sf"
    unfolding st' by (rule share_open_alpha[OF i2])
qed

lemma credit_ok:
  assumes "alpha_pool_ok hk h n st" "in_range h c n st" "int amount \<le> I64_MAX"
  shows "alpha_pool_ok hk h n (credit_epoch_owner_emission hk null_consensus h c n amount st)"
proof -
  let ?ops = "HotkeyAlphaSharePoolDataOperations hk h n"
  obtain st1 credited where r: "try_credit_sole_member ?ops st c amount = (st1, credited)" by fastforce
  have "st1 = st" if "\<not> credited"
    using r that by (auto simp: try_credit_sole_member_def Let_def split: if_splits option.splits)
  moreover have "alpha_pool_ok hk h n st1" if "credited" "amount \<noteq> 0"
    using alpha_pool.try_credit_sole_member_quote(2)[of hk h n st amount c st1] r that assms
    by (simp add: alpha_pool_ok_def in_range_def)
  ultimately show ?thesis
    using increase_ok(1)[OF assms] r assms(1)
    by (auto simp: credit_epoch_owner_emission_def get_alpha_share_pool_def Let_def)
qed

section \<open>All pools and totals together\<close>

lemma pools_ok_local:
  assumes "\<forall>h n. alpha_pool_ok hk h n st" "alpha_pool_ok hk h n st'"
    and "\<And>h' n'. (h', n') \<noteq> (h, n) \<Longrightarrow> pool_view h' n' st' = pool_view h' n' st"
  shows "\<forall>h n. alpha_pool_ok hk h n st'"
proof (intro allI)
  fix h' n'
  show "alpha_pool_ok hk h' n' st'"
    using assms(1,2) pool_ok_view[OF assms(3)] by (cases "(h', n') = (h, n)") auto
qed

lemma increase_other:
  "(h', n') \<noteq> (h, n) \<Longrightarrow>
   pool_view h' n' (increase_stake_for_hotkey_and_coldkey_on_subnet hk h c n amount st) = pool_view h' n' st"
  by (simp add: increase_stake_for_hotkey_and_coldkey_on_subnet_def other_pool_update Let_def)

lemma decrease_other:
  "(h', n') \<noteq> (h, n) \<Longrightarrow>
   pool_view h' n' (fst (decrease_stake_for_hotkey_and_coldkey_on_subnet hk h c n amount st)) = pool_view h' n' st"
  by (auto simp: decrease_stake_for_hotkey_and_coldkey_on_subnet_def other_pool_update Let_def split: sum.splits)

lemma take_other:
  "(h', n') \<noteq> (h, n) \<Longrightarrow>
   pool_view h' n' (fst (take_stake_position_for_hotkey_swap hk h c n st)) = pool_view h' n' st"
  by (simp add: take_stake_position_for_hotkey_swap_def other_pool_view Let_def)

lemma credit_cases:
  "credit_epoch_owner_emission hk null_consensus h c n amount st = st \<or>
   credit_epoch_owner_emission hk null_consensus h c n amount st =
     increase_stake_for_hotkey_and_coldkey_on_subnet hk h c n amount st \<or>
   (\<exists>v. credit_epoch_owner_emission hk null_consensus h c n amount st = set_shared_value_alpha hk h n st v)"
  by (auto simp: credit_epoch_owner_emission_def get_alpha_share_pool_def try_credit_sole_member_def
      Let_def split: option.splits)

lemma credit_other:
  "(h', n') \<noteq> (h, n) \<Longrightarrow>
   pool_view h' n' (credit_epoch_owner_emission hk null_consensus h c n amount st) = pool_view h' n' st"
  using credit_cases[of hk null_consensus h c n amount st] other_pool_view(1) increase_other by metis

lemma stake_step_pools:
  assumes "stake_step hk st st'" "\<forall>h n. alpha_pool_ok hk h n st"
  shows "\<forall>h n. alpha_pool_ok hk h n st'"
  using assms(1)
proof cases
  case (increase h c n amount)
  then show ?thesis
    by (intro pools_ok_local[OF assms(2), of h n]) (simp_all add: increase_ok(1) increase_other assms(2))
next
  case (decrease h c n amount)
  then show ?thesis
    using decrease_ok(1)[of hk h n st c amount] assms(2)
    by (intro pools_ok_local[OF assms(2), of h n]) (simp_all add: decrease_other prod_eq_iff)
next
  case (credit h c n amount null_consensus)
  then show ?thesis
    by (intro pools_ok_local[OF assms(2), of h n]) (simp_all add: credit_ok credit_other assms(2))
next
  case (dividend h n amount)
  then show ?thesis
    by (intro pools_ok_local[OF assms(2), of h n])
      (simp_all add: increase_stake_for_hotkey_on_subnet_def update_all_ok other_pool_update(2) assms(2))
next
  case (slash h n amount)
  then show ?thesis
    by (intro pools_ok_local[OF assms(2), of h n])
      (simp_all add: decrease_stake_for_hotkey_on_subnet_def update_all_ok other_pool_update(2) assms(2))
next
  case (take h c n)
  then show ?thesis
    using take_ok(1)[of hk h n st c] assms(2)
    by (intro pools_ok_local[OF assms(2), of h n]) (simp_all add: take_other prod_eq_iff)
qed

text \<open>Every operation writes at most one entry of \<^verbatim>\<open>TotalHotkeyAlpha\<close>.\<close>

definition writes_one :: "('a \<Rightarrow> nat \<Rightarrow> nat list) \<Rightarrow> 'a alpha_storage \<Rightarrow> 'a alpha_storage \<Rightarrow> bool" where
  "writes_one hk st st' \<longleftrightarrow> totals_of st' = totals_of st \<or>
     (\<exists>t h n v. totals_of t = totals_of st \<and> totals_of st' = totals_of (set_shared_value_alpha hk h n t v))"

lemma writes_one_simple: "writes_one hk st st" "writes_one hk st (set_shared_value_alpha hk h n st v)"
  unfolding writes_one_def by blast+

lemma writes_one_frame: "totals_of st'' = totals_of st' \<Longrightarrow> writes_one hk st st'' = writes_one hk st st'"
  by (simp add: writes_one_def)

lemma writes_one_update:
  "writes_one hk st (update_value_for_one (get_alpha_share_pool hk h n) st c u)"
  "writes_one hk st (update_value_for_all (get_alpha_share_pool hk h n) st u)"
proof -
  obtain t v where t: "update_value_for_one (get_alpha_share_pool hk h n) st c u = set_shared_value_alpha hk h n t v"
    "totals_of t = totals_of st"
    using update_one_totals[of hk h n st c u] by blast
  then show "writes_one hk st (update_value_for_one (get_alpha_share_pool hk h n) st c u)"
    unfolding writes_one_def t(1) by blast
  show "writes_one hk st (update_value_for_all (get_alpha_share_pool hk h n) st u)"
    using update_all_via_value[of "get_alpha_share_pool hk h n" st u] writes_one_simple(2)
    by (auto simp: get_alpha_share_pool_def)
qed

lemma writes_one_increase: "writes_one hk st (increase_stake_for_hotkey_and_coldkey_on_subnet hk h c n amount st)"
  using writes_one_update(1)[of hk "associate_staking_hotkey h c st"] writes_one_update(1)[of hk st]
  by (simp add: increase_stake_for_hotkey_and_coldkey_on_subnet_def writes_one_def)

lemma writes_one_credit: "writes_one hk st (credit_epoch_owner_emission hk null_consensus h c n amount st)"
  using credit_cases[of hk null_consensus h c n amount st] writes_one_increase writes_one_simple by metis

lemma writes_one_decrease:
  "writes_one hk st (fst (decrease_stake_for_hotkey_and_coldkey_on_subnet hk h c n amount st))"
  by (simp add: decrease_stake_for_hotkey_and_coldkey_on_subnet_def Let_def writes_one_simple
      writes_one_update split: sum.split)

lemma writes_one_take: "writes_one hk st (fst (take_stake_position_for_hotkey_swap hk h c n st))"
  by (simp add: take_stake_position_for_hotkey_swap_def Let_def writes_one_simple
      writes_one_frame[OF totals_of_frame(1)] writes_one_frame[OF totals_of_frame(2)])

lemma stake_step_writes_one: "stake_step hk st st' \<Longrightarrow> writes_one hk st st'"
  by (induction rule: stake_step.induct)
    (simp_all add: writes_one_increase writes_one_decrease writes_one_credit writes_one_take writes_one_update
      increase_stake_for_hotkey_on_subnet_def decrease_stake_for_hotkey_on_subnet_def)

lemma writes_one_totals:
  assumes "writes_one hk st st'" "totals_match hk st" "supply_bounded st" "supply_bounded st'"
  shows "totals_match hk st'"
proof -
  have "totals_match hk st'" if t: "totals_of t = totals_of st" and st': "totals_of st' = totals_of (set_shared_value_alpha hk h n t v)"
    for t h n v
    using totals_match_live[of hk t h n v] totals_cong[OF t] totals_cong[OF st'] assms(2-4)
    by (simp add: supply_bounded_def)
  then show ?thesis using assms(1,2) totals_cong(1)[of st' st hk] by (auto simp: writes_one_def)
qed

lemma stake_run_sound:
  assumes "stake_run hk st st'" "\<forall>h n. alpha_pool_ok hk h n st" "totals_match hk st" "supply_bounded st"
  shows "(\<forall>h n. alpha_pool_ok hk h n st') \<and> totals_match hk st' \<and> supply_bounded st'"
  using assms
  by induction (use stake_step_pools stake_step_writes_one writes_one_totals in blast)+

lemma stake_step_migration: "stake_step hk st st' \<Longrightarrow> TotalAlphaStakedMigration st' = TotalAlphaStakedMigration st"
  by (drule stake_step_writes_one) (auto simp: writes_one_def totals_of_def)

lemma stake_run_migration: "stake_run hk st st' \<Longrightarrow> TotalAlphaStakedMigration st' = TotalAlphaStakedMigration st"
  by (induction rule: stake_run.induct) (simp_all add: stake_step_migration)

lemma quotes_covered:
  assumes "alpha_pool_ok hk h n st" "finite K"
  shows "(\<Sum>c\<in>K. get_stake_for_hotkey_and_coldkey_on_subnet hk h c n st) \<le> get_stake_for_hotkey_on_subnet h n st"
proof -
  have "(\<Sum>c\<in>K. get_stake_for_hotkey_and_coldkey_on_subnet hk h c n st) \<le>
      (\<Sum>c\<in>K. get_value (HotkeyAlphaSharePoolDataOperations hk h n) st c)"
    by (rule sum_mono) (rule get_stake_value(1))
  also have "\<dots> \<le> get_stake_for_hotkey_on_subnet h n st"
    using alpha_pool.quotes_solvent[of hk h n st K] assms by (simp add: alpha_pool_ok_def total_is_shared_value)
  finally show ?thesis .
qed

lemma genesis_ok: "alpha_pool_ok hk h n genesis" "totals_match hk genesis" "supply_bounded genesis"
  "in_range h c n genesis"
proof -
  have share: "get_share_alpha h n genesis k = zero_sf" for k
    by (simp add: genesis_def alpha_ops_defs)
  show "alpha_pool_ok hk h n genesis"
    by (simp add: alpha_pool_ok_def pool_ok_def shares_backed_def share)
      (simp add: genesis_def alpha_inv_def alpha_ops_defs)
  show "totals_match hk genesis" "supply_bounded genesis"
    by (simp_all add: genesis_def totals_match_def supply_bounded_def staked_on_def alpha_entries_def)
  show "in_range h c n genesis"
    by (simp add: in_range_def share) (simp add: genesis_def alpha_ops_defs epochs_left_def exp_bounded_def zero_sf_def U64_MAX_def)
qed

section \<open>Readings after an operation\<close>

lemma staking_list_frame:
  "StakingHotkeys (update_value_for_one (get_alpha_share_pool hk h n) st c u) = StakingHotkeys st"
  unfolding get_alpha_share_pool_def
  by (rule update_one_frame)
    (auto simp: set_share_alpha_def set_denominator_alpha_def set_shared_value_alpha_def
      apply_live_delta_def Let_def)

lemma increase_staking_list:
  "amount \<noteq> 0 \<Longrightarrow> h \<in> set (unwrap_or
     (StakingHotkeys (increase_stake_for_hotkey_and_coldkey_on_subnet hk h c n amount st) c) [])"
  by (simp add: increase_stake_for_hotkey_and_coldkey_on_subnet_def staking_list_frame
      associate_staking_hotkey_def Let_def)

lemma zero_share_stake:
  "get_share_alpha h n st c = zero_sf \<Longrightarrow> get_stake_for_hotkey_and_coldkey_on_subnet hk h c n st = 0"
proof -
  assume z: "get_share_alpha h n st c = zero_sf"
  have "u64_of_sf r = 0" if "mul_div x zero_sf d = Some r" for x d r
  proof -
    have "normalized_result 0 e = Some r \<Longrightarrow> r = zero_sf" for e
      by (auto simp: normalized_result_def normalize_sf_def zero_sf_def Let_def split: if_splits)
    then have "r = zero_sf"
      using that by (auto simp: mul_div_def zero_sf_def checked_mul_def checked_div_def Let_def
          split: if_splits option.splits)
    then show ?thesis by (simp add: u64_of_sf_def zero_sf_def)
  qed
  then have "get_value (HotkeyAlphaSharePoolDataOperations hk h n) st c = 0"
    using z by (auto simp: get_value_def try_get_value_from_parts_def unwrap_or_def split: option.splits)
  then show ?thesis using get_stake_value(1)[of hk h c n st] by simp
qed

lemma zero_denominator_stake:
  "is_zero (get_denominator_alpha h n st) \<Longrightarrow> get_stake_for_hotkey_and_coldkey_on_subnet hk h c n st = 0"
  using get_stake_value(1)[of hk h c n st]
  by (auto simp: get_value_def try_get_value_from_parts_def mul_div_def is_zero_def split: option.splits)

lemma drained_pool:
  assumes ok: "alpha_pool_ok hk h n st" "in_range h c n st" "int amount \<le> I64_MAX"
    and all: "amount = get_stake_for_hotkey_on_subnet h n st" "0 < amount"
    and quote: "get_stake_for_hotkey_and_coldkey_on_subnet hk h c n st = amount"
    and st': "st' = fst (decrease_stake_for_hotkey_and_coldkey_on_subnet hk h c n amount st)"
  shows "\<not> hotkey_share_pool_has_members hk h n st'"
    and "get_stake_for_hotkey_and_coldkey_on_subnet hk h c' n
      (increase_stake_for_hotkey_on_subnet hk h n dividend st') = 0"
proof -
  let ?ops = "HotkeyAlphaSharePoolDataOperations hk h n"
  have D: "\<not> is_zero (get_denominator_alpha h n st)"
    using zero_denominator_stake[of h n st hk c] quote all(2) by auto
  have u: "neg_i64 (u64_as_i64 amount) = - int amount"
    using u64_as_i64_small[OF ok(3)] neg_i64_small[OF ok(3)] by auto
  have "st' = update_value_for_one ?ops st c (- int amount)"
    using quote all(2) u
    by (auto simp: st' decrease_stake_for_hotkey_and_coldkey_on_subnet_def Let_def get_alpha_share_pool_def
        get_stake_for_hotkey_and_coldkey_on_subnet_def split: sum.splits)
  then have D': "get_denominator_alpha h n st' = zero_sf"
    using alpha_pool.drain_closes[of hk h n st "- int amount" c] ok(1) D all
    by (simp add: alpha_pool_ok_def unsigned_abs_def total_is_shared_value)
  then show "\<not> hotkey_share_pool_has_members hk h n st'"
    by (simp add: hotkey_share_pool_has_members_def has_members_def get_alpha_share_pool_def)
  have "get_denominator_alpha h n (increase_stake_for_hotkey_on_subnet hk h n dividend st') = zero_sf"
    using D' by (simp add: increase_stake_for_hotkey_on_subnet_def get_alpha_share_pool_def
        update_value_for_all_def Let_def)
  then show "get_stake_for_hotkey_and_coldkey_on_subnet hk h c' n
      (increase_stake_for_hotkey_on_subnet hk h n dividend st') = 0"
    by (simp add: zero_denominator_stake)
qed

lemma try_share_set_value [simp]:
  "try_get_share_alpha h n (set_shared_value_alpha hk h n st v) c = try_get_share_alpha h n st c"
  by (simp add: alpha_ops_defs cong: option.case_cong)

lemma stake_of_row:
  "try_get_share_alpha h n st c = Inr x \<Longrightarrow>
   get_stake_for_hotkey_and_coldkey_on_subnet hk h c n st = get_value (HotkeyAlphaSharePoolDataOperations hk h n) st c"
  by (simp add: get_stake_for_hotkey_and_coldkey_on_subnet_def try_get_value_def get_alpha_share_pool_def)

lemma owner_credit:
  assumes ok: "alpha_pool_ok hk h n st" "in_range h c n st"
    and fast: "null_consensus n" "TotalHotkeyShares st (h, n) = None" "Alpha st (h, c, n) = None"
      "h \<in> set (unwrap_or (StakingHotkeys st c) [])"
    and sole: "try_get_share_alpha h n st c = Inr (get_denominator_alpha h n st)"
      "\<not> is_zero (get_denominator_alpha h n st)"
    and V: "0 < get_stake_for_hotkey_on_subnet h n st" "get_stake_for_hotkey_on_subnet h n st + amount \<le> U64_MAX"
  defines "st' \<equiv> credit_epoch_owner_emission hk null_consensus h c n amount st"
  shows "get_stake_for_hotkey_and_coldkey_on_subnet hk h c n st' =
      get_stake_for_hotkey_and_coldkey_on_subnet hk h c n st + amount"
    and "get_stake_for_hotkey_on_subnet h n st' = get_stake_for_hotkey_on_subnet h n st + amount"
proof -
  let ?ops = "HotkeyAlphaSharePoolDataOperations hk h n"
  let ?new = "set_shared_value_alpha hk h n st (get_shared_value_alpha h n st + amount)"
  have tr: "try_credit_sole_member ?ops st c amount = (if amount = 0 then st else ?new, True)"
    using sole V by (simp add: try_credit_sole_member_def Let_def checked_add_def total_is_shared_value)
  have st': "st' = (if amount = 0 then st else ?new)"
    using fast tr by (simp add: st'_def credit_epoch_owner_emission_def get_alpha_share_pool_def Let_def)
  show "get_stake_for_hotkey_on_subnet h n st' = get_stake_for_hotkey_on_subnet h n st + amount"
    by (simp add: st' total_is_shared_value)
  have "get_value ?ops ?new c = get_value ?ops st c + amount" if "amount \<noteq> 0"
    using alpha_pool.try_credit_sole_member_quote(1)[of hk h n st amount c ?new] tr that ok
    by (simp add: alpha_pool_ok_def in_range_def)
  moreover have "try_get_share_alpha h n ?new c = Inr (get_denominator_alpha h n st)" using sole(1) by simp
  ultimately show "get_stake_for_hotkey_and_coldkey_on_subnet hk h c n st' =
      get_stake_for_hotkey_and_coldkey_on_subnet hk h c n st + amount"
    using sole(1) by (simp add: st' stake_of_row)
qed

section \<open>An example pool\<close>

text \<open>Coldkey 2 deposits 1000 with hotkey 7 on subnet 5 of an empty chain.\<close>

definition ex_hk :: "nat \<Rightarrow> nat \<Rightarrow> nat list" where
  "ex_hk h n = [h, n]"

definition ex_pool :: "nat alpha_storage" where
  "ex_pool = increase_stake_for_hotkey_and_coldkey_on_subnet ex_hk 7 2 5 1000 genesis"

definition ex_shares :: SafeFloat where
  "ex_shares = unwrap_or (new_sf 1000 0) zero_sf"

lemma ex_shares: "normalized ex_shares" "exp_bounded ex_shares" "\<not> is_zero ex_shares"
proof -
  have "(1000::nat) \<le> SAFE_FLOAT_MAX" by (simp add: SAFE_FLOAT_MAX_def)
  then obtain x where x: "new_sf 1000 0 = Some x" "normalized x" "sf_val x = 1000" "exp_bounded x"
    using new_sf_exact[of 1000] new_sf_exp_bounded[of 1000] by auto
  then show "normalized ex_shares" "exp_bounded ex_shares" by (simp_all add: ex_shares_def)
  show "\<not> is_zero ex_shares" using x sf_val_zero_iff[of x] by (simp add: ex_shares_def)
qed

lemma ex_pool_state:
  "ex_pool = set_shared_value_alpha ex_hk 7 5
     (set_share_alpha 7 5 (set_denominator_alpha 7 5 (associate_staking_hotkey 7 2 genesis) ex_shares) 2 ex_shares)
     1000"
  by (simp add: ex_pool_def increase_stake_for_hotkey_and_coldkey_on_subnet_def update_value_for_one_def
      get_alpha_share_pool_def u64_as_i64_def I64_MAX_def Let_def update_value_for_all_def
      ex_shares_def[symmetric] unsigned_abs_def)
    (simp add: genesis_def alpha_ops_defs is_zero_def zero_sf_def i64_as_u64_def saturating_add_def U64_MAX_def)

lemma ex_genesis_reads:
  "get_denominator_alpha h n genesis = zero_sf" "pool_epoch_of genesis h n = 0"
  "Alpha genesis = Map.empty" "TotalHotkeyShares genesis = Map.empty" "StakingHotkeys genesis = Map.empty"
  by (simp_all add: genesis_def alpha_ops_defs)

lemma ex_pool_reads:
  "get_shared_value_alpha 7 5 ex_pool = 1000" "get_denominator_alpha 7 5 ex_pool = ex_shares"
  "get_share_alpha 7 5 ex_pool 2 = ex_shares" "pool_epoch_of ex_pool 7 5 = 1"
  by (simp_all add: ex_pool_state share_set_share_alpha denominator_set_denominator_alpha ex_shares
      pool_epoch_set_denominator ex_genesis_reads U64_MAX_def)

lemma ex_pool_ok: "alpha_pool_ok ex_hk 7 5 ex_pool" "in_range 7 2 5 ex_pool"
  using increase_ok(1)[OF genesis_ok(1,4), of 1000 ex_hk 7 5 2] ex_shares
  by (simp_all add: ex_pool_def[symmetric] I64_MAX_def in_range_def ex_pool_reads epochs_left_def U64_MAX_def)

lemma ex_pool_row: "try_get_share_alpha 7 5 ex_pool 2 = Inr ex_shares"
proof -
  have "ex_shares \<noteq> zero_sf" using ex_shares(3) by auto
  then show ?thesis
    using ex_pool_reads(3) by (cases "try_get_share_alpha 7 5 ex_pool 2") (auto simp: get_share_alpha_def)
qed

lemma ex_pool_stake:
  "get_stake_for_hotkey_and_coldkey_on_subnet ex_hk 7 2 5 ex_pool = 1000"
  "get_stake_for_hotkey_on_subnet 7 5 ex_pool = 1000"
  using alpha_pool.sole_member_quote[of 7 5 ex_pool ex_hk 2] ex_pool_ok(1) stake_of_row[OF ex_pool_row]
  by (simp_all add: alpha_pool_ok_def pool_ok_def ex_pool_reads ex_shares total_is_shared_value)

lemma ex_pool_supply: "supply_bounded ex_pool"
proof -
  have e: "alpha_entries ex_pool = {(7, 5)}"
    by (simp add: ex_pool_state alpha_entries_set)
      (simp add: alpha_entries_def genesis_def set_share_alpha_def set_denominator_alpha_def
        associate_staking_hotkey_def Let_def)
  have "alpha_at ex_pool (7, 5) \<le> U64_MAX" by (simp add: ex_pool_state U64_MAX_def)
  then show ?thesis
    using staked_on_single[OF e] e by (auto simp: supply_bounded_def intro: order.trans)
qed

lemma ex_pool_run: "stake_run ex_hk genesis ex_pool"
  by (rule stake_run.step[OF stake_run.refl _ ex_pool_supply], unfold ex_pool_def,
      rule stake_step.increase[OF genesis_ok(4)]) (simp add: I64_MAX_def)

lemma ex_pool_rows:
  "TotalHotkeyShares ex_pool (7, 5) = None" "Alpha ex_pool (7, 2, 5) = None"
  "7 \<in> set (unwrap_or (StakingHotkeys ex_pool 2) [])"
proof -
  show "TotalHotkeyShares ex_pool (7, 5) = None"
    by (simp add: ex_pool_state set_share_alpha_def set_denominator_alpha_def associate_staking_hotkey_def
        ex_genesis_reads Let_def)
  show "Alpha ex_pool (7, 2, 5) = None" by (simp add: ex_pool_state Alpha_set_share)
  show "7 \<in> set (unwrap_or (StakingHotkeys ex_pool 2) [])"
    unfolding ex_pool_def by (rule increase_staking_list) simp
qed

section \<open>Properties\<close>

text \<open>
  C1: from an empty chain, after any sequence of stake operations (deposits, withdrawals, epoch
  rewards to owners, dividends to all members, reductions of a hotkey's total, positions taken for a
  hotkey swap, in any order and on any pools), the quoted stakes of the coldkeys of a hotkey
  on a subnet together never exceed the hotkey's total, and \<^verbatim>\<open>TotalAlphaStaked\<close> of the subnet is
  exactly the sum of the totals of its hotkeys.
\<close>

theorem stake_ledger_sound:
  assumes "stake_run hk genesis st" "finite K"
  shows "(\<Sum>c\<in>K. get_stake_for_hotkey_and_coldkey_on_subnet hk h c n st) \<le>
      get_stake_for_hotkey_on_subnet h n st \<and>
    unwrap_or (TotalAlphaStaked st n) 0 = staked_on st UNIV n"
proof -
  have inv: "(\<forall>h n. alpha_pool_ok hk h n st) \<and> totals_match hk st \<and> supply_bounded st"
    by (rule stake_run_sound[OF assms(1)]) (simp_all add: genesis_ok)
  have "TotalAlphaStakedMigration st = None"
    using stake_run_migration[OF assms(1)] by (simp add: genesis_def)
  then show ?thesis
    using inv quotes_covered[of hk h n st K] assms(2) by (simp add: totals_match_def staked_on_UNIV)
qed

text \<open>
  C2: a withdrawal from a pool whose accounting is sound keeps it sound, and removes exactly the
  requested amount from the hotkey's total if the coldkey's quoted stake covers it and nothing
  otherwise; the amount it returns is the amount it removed.
\<close>

theorem withdrawal_exact:
  assumes "alpha_pool_ok hk h n st" "in_range h c n st" "int amount \<le> I64_MAX"
    and "decrease_stake_for_hotkey_and_coldkey_on_subnet hk h c n amount st = (st', removed)"
  shows "alpha_pool_ok hk h n st' \<and>
    removed = (if amount \<le> get_stake_for_hotkey_and_coldkey_on_subnet hk h c n st then amount else 0) \<and>
    get_stake_for_hotkey_on_subnet h n st' + removed = get_stake_for_hotkey_on_subnet h n st"
  by (intro conjI decrease_ok[OF assms])

text \<open>
  C8: a deposit keeps the accounting of its pool sound, raises the hotkey's total by exactly the
  amount (up to the limit of the balance type), leaves every other pool as it was, and a non-zero
  deposit records the hotkey in the coldkey's staking list.
\<close>

theorem deposit_exact:
  assumes "alpha_pool_ok hk h n st" "in_range h c n st" "int amount \<le> I64_MAX"
  shows "alpha_pool_ok hk h n (increase_stake_for_hotkey_and_coldkey_on_subnet hk h c n amount st) \<and>
    get_stake_for_hotkey_on_subnet h n (increase_stake_for_hotkey_and_coldkey_on_subnet hk h c n amount st) =
      min U64_MAX (get_stake_for_hotkey_on_subnet h n st + amount) \<and>
    ((h', n') \<noteq> (h, n) \<longrightarrow>
      pool_view h' n' (increase_stake_for_hotkey_and_coldkey_on_subnet hk h c n amount st) = pool_view h' n' st) \<and>
    (amount \<noteq> 0 \<longrightarrow> h \<in> set (unwrap_or
      (StakingHotkeys (increase_stake_for_hotkey_and_coldkey_on_subnet hk h c n amount st) c) []))"
  by (intro conjI impI increase_ok[OF assms] increase_other increase_staking_list)


text \<open>
  C13: a withdrawal of a pool's whole value closes the pool: afterwards no coldkey has a quoted stake
  in it, and a later dividend to the hotkey does not bring any old position back.
\<close>

theorem drained_pool_stays_empty:
  assumes "alpha_pool_ok hk h n st" "in_range h c n st" "int amount \<le> I64_MAX"
    and "amount = get_stake_for_hotkey_on_subnet h n st" "0 < amount"
    and "get_stake_for_hotkey_and_coldkey_on_subnet hk h c n st = amount"
    and "decrease_stake_for_hotkey_and_coldkey_on_subnet hk h c n amount st = (st', removed)"
  shows "removed = amount \<and> \<not> hotkey_share_pool_has_members hk h n st' \<and>
    get_stake_for_hotkey_and_coldkey_on_subnet hk h c' n
      (increase_stake_for_hotkey_on_subnet hk h n dividend st') = 0"
  using drained_pool(1)[OF assms(1-6)] drained_pool(2)[OF assms(1-6), of st' c' dividend] decrease_ok(2)[OF assms(1-3,7)] assms(6,7) by simp

text \<open>
  C15: the fast path for owner rewards is exact: where the hotkey's only member is the owner's
  coldkey, with no rows in the old share format, the reward raises the coldkey's quoted stake and the
  hotkey's total by exactly the amount.
\<close>

theorem owner_credit_exact:
  assumes "alpha_pool_ok hk h n st" "in_range h c n st"
    and "null_consensus n" "TotalHotkeyShares st (h, n) = None" "Alpha st (h, c, n) = None"
    and "h \<in> set (unwrap_or (StakingHotkeys st c) [])"
    and "try_get_share_alpha h n st c = Inr (get_denominator_alpha h n st)"
    and "\<not> is_zero (get_denominator_alpha h n st)"
    and "0 < get_stake_for_hotkey_on_subnet h n st" "get_stake_for_hotkey_on_subnet h n st + amount \<le> U64_MAX"
  shows "get_stake_for_hotkey_and_coldkey_on_subnet hk h c n
      (credit_epoch_owner_emission hk null_consensus h c n amount st) =
      get_stake_for_hotkey_and_coldkey_on_subnet hk h c n st + amount \<and>
    get_stake_for_hotkey_on_subnet h n (credit_epoch_owner_emission hk null_consensus h c n amount st) =
      get_stake_for_hotkey_on_subnet h n st + amount"
  by (intro conjI owner_credit assms)

section \<open>The properties at the example pool\<close>

theorem stake_ledger_sound_witness:
  "get_stake_for_hotkey_and_coldkey_on_subnet ex_hk 7 2 5 ex_pool +
     get_stake_for_hotkey_and_coldkey_on_subnet ex_hk 7 3 5 ex_pool \<le> 1000 \<and>
   unwrap_or (TotalAlphaStaked ex_pool 5) 0 = staked_on ex_pool UNIV 5"
  using stake_ledger_sound[OF ex_pool_run, of "{2, 3}" 7 5] by (simp add: ex_pool_stake)

theorem withdrawal_exact_witness:
  "snd (decrease_stake_for_hotkey_and_coldkey_on_subnet ex_hk 7 2 5 400 ex_pool) = 400 \<and>
   get_stake_for_hotkey_on_subnet 7 5 (fst (decrease_stake_for_hotkey_and_coldkey_on_subnet ex_hk 7 2 5 400 ex_pool)) = 600"
  using withdrawal_exact[OF ex_pool_ok _ prod.collapse[symmetric], of 400]
  by (simp add: ex_pool_stake I64_MAX_def)

theorem deposit_exact_witness:
  "alpha_pool_ok ex_hk 7 5 (increase_stake_for_hotkey_and_coldkey_on_subnet ex_hk 7 2 5 50 ex_pool) \<and>
   get_stake_for_hotkey_on_subnet 7 5 (increase_stake_for_hotkey_and_coldkey_on_subnet ex_hk 7 2 5 50 ex_pool) = 1050"
  using deposit_exact[OF ex_pool_ok, of 50 8 5] by (simp add: ex_pool_stake I64_MAX_def U64_MAX_def)


theorem drained_pool_stays_empty_witness:
  "snd (decrease_stake_for_hotkey_and_coldkey_on_subnet ex_hk 7 2 5 1000 ex_pool) = 1000 \<and>
   get_stake_for_hotkey_and_coldkey_on_subnet ex_hk 7 2 5 (increase_stake_for_hotkey_on_subnet ex_hk 7 5 77
     (fst (decrease_stake_for_hotkey_and_coldkey_on_subnet ex_hk 7 2 5 1000 ex_pool))) = 0"
proof -
  obtain st' a where r: "decrease_stake_for_hotkey_and_coldkey_on_subnet ex_hk 7 2 5 1000 ex_pool = (st', a)"
    by (rule prod.exhaust)
  have "int 1000 \<le> I64_MAX" "(0::nat) < 1000" by (simp_all add: I64_MAX_def)
  then show ?thesis
    using drained_pool_stays_empty[OF ex_pool_ok _ ex_pool_stake(2)[symmetric] _ ex_pool_stake(1) r, of 2 77]
    unfolding r by simp
qed

theorem owner_credit_exact_witness:
  "get_stake_for_hotkey_and_coldkey_on_subnet ex_hk 7 2 5
     (credit_epoch_owner_emission ex_hk (\<lambda>_. True) 7 2 5 30 ex_pool) = 1030"
  using owner_credit_exact[OF ex_pool_ok, of "\<lambda>_. True" 30] ex_pool_rows
  by (simp add: ex_pool_row ex_pool_reads ex_shares ex_pool_stake U64_MAX_def)

end
