(* ===== verification/Crowdloan.thy ===== *)
theory Crowdloan
  imports Prelude
begin

text \<open>
  The crowdloan pallet, \<^verbatim>\<open>src/pallets/crowdloan/src/lib.rs\<close>: its storage as a record, one function per
  dispatchable, the accounting invariant (what is raised is what the contributors have in, and the
  funds account holds it), and the step relation of a chain that runs them in any order.

  A dispatchable returns an error or the new state: the framework rolls the storage back when a call
  fails.  The runtime around the pallet (signed origins, the balances of the currency, provider
  references, preimages, the derivation of sub-accounts, the order of storage iteration) is a record
  of functions over the rest of the chain state; \<open>runtime_laws\<close> states what the framework documents
  of them.  A call dispatched by \<^verbatim>\<open>finalize\<close> is a function on the whole state.
\<close>

section \<open>Data\<close>

record ('a, 'h) CrowdloanInfo =
  creator :: 'a
  deposit :: nat
  min_contribution :: nat
  end_at :: nat
  cap :: nat
  funds_account :: 'a
  raised :: nat
  target_address :: "'a option"
  call :: "'h option"
  finalized :: bool
  contributors_count :: nat

datatype 'a Event =
    Created nat 'a nat nat
  | Contributed nat 'a nat
  | Withdrew nat 'a nat
  | PartiallyRefunded nat
  | AllRefunded nat
  | Finalized nat
  | Dissolved nat
  | MinContributionUpdated nat nat
  | EndUpdated nat nat
  | CapUpdated nat nat
  | MaxContributionUpdated nat "nat option"

datatype Error =
    DepositTooLow
  | CapTooLow
  | MinimumContributionTooLow
  | CannotEndInPast
  | BlockDurationTooShort
  | BlockDurationTooLong
  | InsufficientBalance
  | Overflow
  | InvalidCrowdloanId
  | CapRaised
  | ContributionPeriodEnded
  | ContributionTooLow
  | InvalidOrigin
  | AlreadyFinalized
  | AlreadyFinalizing
  | ContributionPeriodNotEnded
  | NoContribution
  | CapNotRaised
  | Underflow
  | CallUnavailable
  | NotReadyToDissolve
  | DepositCannotBeWithdrawn
  | MaxContributorsReached
  | InvalidFinalizationConfig
  | MaxContributionReached
  | MaximumContributionTooLow
  | MinimumContributionTooHigh
  | FundsNotSettled

text \<open>An error of the pallet, or one that the runtime around it returned.\<close>

datatype 'd DispatchError = Module Error | External 'd

record ('a, 'h, 's) crowdloan_storage =
  Crowdloans :: "nat \<Rightarrow> ('a, 'h) CrowdloanInfo option"
  NextCrowdloanId :: nat
  Contributions :: "nat \<Rightarrow> 'a \<Rightarrow> nat option"
  MaxContributions :: "nat \<Rightarrow> nat option"
  CurrentCrowdloanId :: "nat option"
  Events :: "'a Event list"
  chain :: 's

text \<open>The runtime and the configuration of the pallet.\<close>

record ('o, 'a, 'c, 'h, 's, 'd) runtime =
  ensure_signed :: "'o \<Rightarrow> 'd + 'a"
  block_number :: "'s \<Rightarrow> nat"
  balance :: "'s \<Rightarrow> 'a \<Rightarrow> nat"
  transfer :: "'s \<Rightarrow> 'a \<Rightarrow> 'a \<Rightarrow> nat \<Rightarrow> 'd + 's"
  inc_providers :: "'s \<Rightarrow> 'a \<Rightarrow> 's"
  dec_providers :: "'s \<Rightarrow> 'a \<Rightarrow> 's"
  preimage_bound :: "'s \<Rightarrow> 'c \<Rightarrow> 'd + 'h \<times> 's"
  preimage_peek :: "'s \<Rightarrow> 'h \<Rightarrow> 'd + 'c"
  preimage_drop :: "'s \<Rightarrow> 'h \<Rightarrow> 's"
  into_sub_account :: "nat \<Rightarrow> 'a"
  iter_prefix :: "('a \<Rightarrow> nat option) \<Rightarrow> ('a \<times> nat) list"
  MinimumDeposit :: nat
  AbsoluteMinimumContribution :: nat
  MinimumBlockDuration :: nat
  MaximumBlockDuration :: nat
  RefundContributorsLimit :: nat
  MaxContributors :: nat

section \<open>Helpers of the pallet\<close>

definition ensure_crowdloan_exists ::
    "('a, 'h, 's) crowdloan_storage \<Rightarrow> nat \<Rightarrow> 'd DispatchError + ('a, 'h) CrowdloanInfo" where
  "ensure_crowdloan_exists st crowdloan_id =
     ok_or (Crowdloans st crowdloan_id) (Module InvalidCrowdloanId)"

definition ensure_valid_end ::
    "('o, 'a, 'c, 'h, 's, 'd) runtime \<Rightarrow> nat \<Rightarrow> nat \<Rightarrow> 'd DispatchError + unit" where
  "ensure_valid_end R now end_block =
     (if \<not> now < end_block then Inl (Module CannotEndInPast)
      else
        (case checked_sub end_block now of
           None \<Rightarrow> Inl (Module Underflow)
         | Some block_duration \<Rightarrow>
             if \<not> block_duration \<ge> MinimumBlockDuration R then Inl (Module BlockDurationTooShort)
             else if \<not> block_duration \<le> MaximumBlockDuration R then Inl (Module BlockDurationTooLong)
             else Inr ()))"

text \<open>Errors of the runtime pass through the \<^verbatim>\<open>?\<close> operator.\<close>

definition ext :: "'d + 'x \<Rightarrow> 'd DispatchError + 'x" where
  "ext r = (case r of Inl e \<Rightarrow> Inl (External e) | Inr x \<Rightarrow> Inr x)"

definition deposit_event :: "'a Event \<Rightarrow> ('a, 'h, 's) crowdloan_storage \<Rightarrow> ('a, 'h, 's) crowdloan_storage" where
  "deposit_event e st = st\<lparr>Events := Events st @ [e]\<rparr>"

definition insert_crowdloan ::
    "nat \<Rightarrow> ('a, 'h) CrowdloanInfo \<Rightarrow> ('a, 'h, 's) crowdloan_storage \<Rightarrow> ('a, 'h, 's) crowdloan_storage" where
  "insert_crowdloan crowdloan_id c st = st\<lparr>Crowdloans := (Crowdloans st)(crowdloan_id \<mapsto> c)\<rparr>"

definition insert_contribution ::
    "nat \<Rightarrow> 'a \<Rightarrow> nat \<Rightarrow> ('a, 'h, 's) crowdloan_storage \<Rightarrow> ('a, 'h, 's) crowdloan_storage" where
  "insert_contribution crowdloan_id who v st =
     st\<lparr>Contributions := (Contributions st)(crowdloan_id := (Contributions st crowdloan_id)(who \<mapsto> v))\<rparr>"

definition remove_contribution ::
    "nat \<Rightarrow> 'a \<Rightarrow> ('a, 'h, 's) crowdloan_storage \<Rightarrow> ('a, 'h, 's) crowdloan_storage" where
  "remove_contribution crowdloan_id who st =
     st\<lparr>Contributions := (Contributions st)(crowdloan_id := (Contributions st crowdloan_id)(who := None))\<rparr>"

section \<open>Dispatchables\<close>

definition create ::
    "('o, 'a, 'c, 'h, 's, 'd) runtime \<Rightarrow> 'o \<Rightarrow> nat \<Rightarrow> nat \<Rightarrow> nat \<Rightarrow> nat \<Rightarrow> 'c option \<Rightarrow> 'a option \<Rightarrow>
     ('a, 'h, 's) crowdloan_storage \<Rightarrow> 'd DispatchError + ('a, 'h, 's) crowdloan_storage" where
  "create R origin dep min_contrib cap_amount end_block call_opt target st =
     bind_result (ext (ensure_signed R origin)) (\<lambda>who.
     let now = block_number R (chain st) in
     if \<not> dep \<ge> MinimumDeposit R then Inl (Module DepositTooLow)
     else if \<not> cap_amount > dep then Inl (Module CapTooLow)
     else if \<not> min_contrib \<ge> AbsoluteMinimumContribution R then Inl (Module MinimumContributionTooLow)
     else if \<not> ((call_opt \<noteq> None) \<noteq> (target \<noteq> None)) then Inl (Module InvalidFinalizationConfig)
     else
     bind_result (ensure_valid_end R now end_block) (\<lambda>_.
     if \<not> balance R (chain st) who \<ge> dep then Inl (Module InsufficientBalance)
     else
     let crowdloan_id = NextCrowdloanId st in
     bind_result (ok_or (checked_add U32_MAX crowdloan_id 1) (Module Overflow)) (\<lambda>next_crowdloan_id.
     let st1 = st\<lparr>NextCrowdloanId := next_crowdloan_id\<rparr>;
         funds = into_sub_account R crowdloan_id;
         st2 = st1\<lparr>chain := inc_providers R (chain st1) funds\<rparr> in
     bind_result
       (case call_opt of
          None \<Rightarrow> Inr (None, chain st2)
        | Some c \<Rightarrow> bind_result (ext (preimage_bound R (chain st2) c)) (\<lambda>(h, s). Inr (Some h, s)))
       (\<lambda>(stored_call, s3).
     let crowdloan =
           \<lparr>creator = who, deposit = dep, min_contribution = min_contrib, end_at = end_block,
            cap = cap_amount, funds_account = funds, raised = dep, target_address = target,
            call = stored_call, finalized = False, contributors_count = 1\<rparr>;
         st4 = insert_crowdloan crowdloan_id crowdloan (st2\<lparr>chain := s3\<rparr>) in
     bind_result (ext (transfer R (chain st4) who funds dep)) (\<lambda>s5.
     Inr (deposit_event (Created crowdloan_id who end_block cap_amount)
       (insert_contribution crowdloan_id who dep (st4\<lparr>chain := s5\<rparr>))))))))"

text \<open>The amount \<^verbatim>\<open>contribute\<close> accepts: no more than the room below the cap and below the maximum.\<close>

definition accepted_amount ::
    "('a, 'h, 's) crowdloan_storage \<Rightarrow> nat \<Rightarrow> 'a \<Rightarrow> nat \<Rightarrow> nat \<Rightarrow> 'd DispatchError + nat" where
  "accepted_amount st crowdloan_id contributor amount left_to_raise =
     (case MaxContributions st crowdloan_id of
        Some max_contribution \<Rightarrow>
          (let current_contribution = unwrap_or (Contributions st crowdloan_id contributor) 0 in
           if \<not> current_contribution < max_contribution then Inl (Module MaxContributionReached)
           else
             bind_result (ok_or (checked_sub max_contribution current_contribution) (Module Underflow))
               (\<lambda>left_to_contribute. Inr (min (min amount left_to_contribute) left_to_raise)))
      | None \<Rightarrow> Inr (min amount left_to_raise))"

definition contribute ::
    "('o, 'a, 'c, 'h, 's, 'd) runtime \<Rightarrow> 'o \<Rightarrow> nat \<Rightarrow> nat \<Rightarrow>
     ('a, 'h, 's) crowdloan_storage \<Rightarrow> 'd DispatchError + ('a, 'h, 's) crowdloan_storage" where
  "contribute R origin crowdloan_id requested st =
     bind_result (ext (ensure_signed R origin)) (\<lambda>contributor.
     let now = block_number R (chain st) in
     bind_result (ensure_crowdloan_exists st crowdloan_id) (\<lambda>crowdloan.
     if \<not> now < end_at crowdloan then Inl (Module ContributionPeriodEnded)
     else if \<not> raised crowdloan < cap crowdloan then Inl (Module CapRaised)
     else if \<not> requested \<ge> min_contribution crowdloan then Inl (Module ContributionTooLow)
     else if \<not> contributors_count crowdloan < MaxContributors R then Inl (Module MaxContributorsReached)
     else
     bind_result (ok_or (checked_sub (cap crowdloan) (raised crowdloan)) (Module Underflow)) (\<lambda>left_to_raise.
     bind_result (accepted_amount st crowdloan_id contributor requested left_to_raise) (\<lambda>amount.
     bind_result (ok_or (checked_add U64_MAX (raised crowdloan) amount) (Module Overflow)) (\<lambda>new_raised.
     bind_result
       (case Contributions st crowdloan_id contributor of
          Some contribution \<Rightarrow>
            bind_result (ok_or (checked_add U64_MAX contribution amount) (Module Overflow))
              (\<lambda>new_contribution. Inr (new_contribution, contributors_count crowdloan))
        | None \<Rightarrow>
            bind_result (ok_or (checked_add U32_MAX (contributors_count crowdloan) 1) (Module Overflow))
              (\<lambda>new_count. Inr (amount, new_count)))
       (\<lambda>(contribution, new_count).
     let crowdloan1 = crowdloan\<lparr>raised := new_raised, contributors_count := new_count\<rparr> in
     if \<not> balance R (chain st) contributor \<ge> amount then Inl (Module InsufficientBalance)
     else
     bind_result (ext (transfer R (chain st) contributor (funds_account crowdloan1) amount)) (\<lambda>s.
     Inr (deposit_event (Contributed crowdloan_id contributor amount)
       (insert_crowdloan crowdloan_id crowdloan1
         (insert_contribution crowdloan_id contributor contribution (st\<lparr>chain := s\<rparr>)))))))))))"

definition withdraw ::
    "('o, 'a, 'c, 'h, 's, 'd) runtime \<Rightarrow> 'o \<Rightarrow> nat \<Rightarrow>
     ('a, 'h, 's) crowdloan_storage \<Rightarrow> 'd DispatchError + ('a, 'h, 's) crowdloan_storage" where
  "withdraw R origin crowdloan_id st =
     bind_result (ext (ensure_signed R origin)) (\<lambda>who.
     bind_result (ensure_crowdloan_exists st crowdloan_id) (\<lambda>crowdloan.
     if finalized crowdloan then Inl (Module AlreadyFinalized)
     else
     let amount0 = unwrap_or (Contributions st crowdloan_id who) 0 in
     if \<not> amount0 > 0 then Inl (Module NoContribution)
     else
     bind_result
       (if who = creator crowdloan then
          (let amount = saturating_sub amount0 (deposit crowdloan) in
           if \<not> amount > 0 then Inl (Module DepositCannotBeWithdrawn)
           else Inr (amount, crowdloan, insert_contribution crowdloan_id who (deposit crowdloan) st))
        else
          (let st1 = remove_contribution crowdloan_id who st in
           bind_result (ok_or (checked_sub (contributors_count crowdloan) 1) (Module Underflow))
             (\<lambda>new_count. Inr (amount0, crowdloan\<lparr>contributors_count := new_count\<rparr>, st1))))
       (\<lambda>(amount, crowdloan1, st1).
     bind_result (ext (transfer R (chain st1) (funds_account crowdloan1) who amount)) (\<lambda>s.
     let crowdloan2 = crowdloan1\<lparr>raised := saturating_sub (raised crowdloan1) amount\<rparr> in
     Inr (deposit_event (Withdrew crowdloan_id who amount)
       (insert_crowdloan crowdloan_id crowdloan2 (st1\<lparr>chain := s\<rparr>)))))))"

definition finalize ::
    "('o, 'a, 'c, 'h, 's, 'd) runtime \<Rightarrow>
     ('c \<Rightarrow> 'o \<Rightarrow> ('a, 'h, 's) crowdloan_storage \<Rightarrow> 'd + ('a, 'h, 's) crowdloan_storage) \<Rightarrow>
     'o \<Rightarrow> nat \<Rightarrow> ('a, 'h, 's) crowdloan_storage \<Rightarrow> 'd DispatchError + ('a, 'h, 's) crowdloan_storage" where
  "finalize R dispatch origin crowdloan_id st =
     bind_result (ext (ensure_signed R origin)) (\<lambda>who.
     bind_result (ensure_crowdloan_exists st crowdloan_id) (\<lambda>crowdloan.
     if \<not> who = creator crowdloan then Inl (Module InvalidOrigin)
     else if \<not> raised crowdloan = cap crowdloan then Inl (Module CapNotRaised)
     else if finalized crowdloan then Inl (Module AlreadyFinalized)
     else if \<not> CurrentCrowdloanId st = None then Inl (Module AlreadyFinalizing)
     else
     bind_result
       (ok_or (checked_sub (balance R (chain st) (funds_account crowdloan)) (raised crowdloan))
         (Module InsufficientBalance)) (\<lambda>remaining_balance.
     let crowdloan1 = crowdloan\<lparr>finalized := True\<rparr>;
         st1 = insert_crowdloan crowdloan_id crowdloan1 st in
     bind_result
       (case (call crowdloan1, target_address crowdloan1) of
          (Some h, None) \<Rightarrow>
            (let st2 = st1\<lparr>CurrentCrowdloanId := Some crowdloan_id\<rparr> in
             case preimage_peek R (chain st2) h of
               Inl _ \<Rightarrow> Inl (Module CallUnavailable)
             | Inr stored_call \<Rightarrow>
                 bind_result (ext (dispatch stored_call origin st2)) (\<lambda>st3.
                 Inr (st3\<lparr>CurrentCrowdloanId := None\<rparr>)))
        | (None, Some target) \<Rightarrow>
            bind_result (ext (transfer R (chain st1) (funds_account crowdloan1) target (raised crowdloan1)))
              (\<lambda>s. Inr (st1\<lparr>chain := s\<rparr>))
        | (_, _) \<Rightarrow> Inl (Module InvalidFinalizationConfig))
       (\<lambda>st4.
     if \<not> balance R (chain st4) (funds_account crowdloan1) \<le> remaining_balance
     then Inl (Module FundsNotSettled)
     else Inr (deposit_event (Finalized crowdloan_id) st4)))))"

text \<open>
  The loop of \<^verbatim>\<open>refund\<close>: the refunded contributors, their number, what is left of \<^verbatim>\<open>raised\<close>, the
  chain, and whether everyone was refunded.
\<close>

fun refund_loop ::
    "('o, 'a, 'c, 'h, 's, 'd) runtime \<Rightarrow> 'a \<Rightarrow> ('a \<times> nat) list \<Rightarrow> 'a list \<Rightarrow> nat \<Rightarrow> nat \<Rightarrow> 's \<Rightarrow>
     'd DispatchError + ('a list \<times> nat \<times> nat \<times> 's \<times> bool)" where
  "refund_loop R funds [] refunded refund_count raised_left s =
     Inr (refunded, refund_count, raised_left, s, True)"
| "refund_loop R funds ((contributor, amount) # rest) refunded refund_count raised_left s =
     (if refund_count \<ge> RefundContributorsLimit R
      then Inr (refunded, refund_count, raised_left, s, False)
      else
        bind_result (ext (transfer R s funds contributor amount)) (\<lambda>s1.
        bind_result (ok_or (checked_add U32_MAX refund_count 1) (Module Overflow)) (\<lambda>refund_count1.
        refund_loop R funds rest (refunded @ [contributor]) refund_count1
          (saturating_sub raised_left amount) s1)))"

definition refund ::
    "('o, 'a, 'c, 'h, 's, 'd) runtime \<Rightarrow> 'o \<Rightarrow> nat \<Rightarrow>
     ('a, 'h, 's) crowdloan_storage \<Rightarrow> 'd DispatchError + ('a, 'h, 's) crowdloan_storage" where
  "refund R origin crowdloan_id st =
     bind_result (ext (ensure_signed R origin)) (\<lambda>who.
     bind_result (ensure_crowdloan_exists st crowdloan_id) (\<lambda>crowdloan.
     if finalized crowdloan then Inl (Module AlreadyFinalized)
     else if \<not> who = creator crowdloan then Inl (Module InvalidOrigin)
     else
     let contributions =
           filter (\<lambda>(contributor, _). contributor \<noteq> creator crowdloan)
             (iter_prefix R (Contributions st crowdloan_id)) in
     bind_result (refund_loop R (funds_account crowdloan) contributions [] 0 (raised crowdloan) (chain st))
       (\<lambda>(refunded_contributors, refund_count, raised_left, s, all_refunded).
     bind_result (ok_or (checked_sub (contributors_count crowdloan) refund_count) (Module Underflow))
       (\<lambda>new_count.
     let st1 = insert_crowdloan crowdloan_id
           (crowdloan\<lparr>raised := raised_left, contributors_count := new_count\<rparr>) (st\<lparr>chain := s\<rparr>);
         st2 = fold (remove_contribution crowdloan_id) refunded_contributors st1
     in Inr (deposit_event
         (if all_refunded then AllRefunded crowdloan_id else PartiallyRefunded crowdloan_id) st2)))))"

definition dissolve ::
    "('o, 'a, 'c, 'h, 's, 'd) runtime \<Rightarrow> 'o \<Rightarrow> nat \<Rightarrow>
     ('a, 'h, 's) crowdloan_storage \<Rightarrow> 'd DispatchError + ('a, 'h, 's) crowdloan_storage" where
  "dissolve R origin crowdloan_id st =
     bind_result (ext (ensure_signed R origin)) (\<lambda>who.
     bind_result (ensure_crowdloan_exists st crowdloan_id) (\<lambda>crowdloan.
     if finalized crowdloan then Inl (Module AlreadyFinalized)
     else if \<not> who = creator crowdloan then Inl (Module InvalidOrigin)
     else
     bind_result (ok_or (Contributions st crowdloan_id (creator crowdloan)) (Module NoContribution))
       (\<lambda>creator_contribution.
     if \<not> creator_contribution = raised crowdloan then Inl (Module NotReadyToDissolve)
     else
     bind_result (ext (transfer R (chain st) (funds_account crowdloan) (creator crowdloan) creator_contribution))
       (\<lambda>s.
     let st1 = remove_contribution crowdloan_id (creator crowdloan) (st\<lparr>chain := s\<rparr>);
         st2 = (case call crowdloan of
                  Some h \<Rightarrow> st1\<lparr>chain := preimage_drop R (chain st1) h\<rparr>
                | None \<Rightarrow> st1);
         st3 = st2\<lparr>chain := dec_providers R (chain st2) (funds_account crowdloan),
                    Crowdloans := (Crowdloans st2)(crowdloan_id := None),
                    MaxContributions := (MaxContributions st2)(crowdloan_id := None)\<rparr>
     in Inr (deposit_event (Dissolved crowdloan_id) st3)))))"

definition update_min_contribution ::
    "('o, 'a, 'c, 'h, 's, 'd) runtime \<Rightarrow> 'o \<Rightarrow> nat \<Rightarrow> nat \<Rightarrow>
     ('a, 'h, 's) crowdloan_storage \<Rightarrow> 'd DispatchError + ('a, 'h, 's) crowdloan_storage" where
  "update_min_contribution R origin crowdloan_id new_min_contribution st =
     bind_result (ext (ensure_signed R origin)) (\<lambda>who.
     bind_result (ensure_crowdloan_exists st crowdloan_id) (\<lambda>crowdloan.
     if finalized crowdloan then Inl (Module AlreadyFinalized)
     else if \<not> who = creator crowdloan then Inl (Module InvalidOrigin)
     else if \<not> new_min_contribution \<ge> AbsoluteMinimumContribution R
     then Inl (Module MinimumContributionTooLow)
     else if (case MaxContributions st crowdloan_id of
                Some max_contribution \<Rightarrow> \<not> new_min_contribution \<le> max_contribution
              | None \<Rightarrow> False)
     then Inl (Module MinimumContributionTooHigh)
     else Inr (deposit_event (MinContributionUpdated crowdloan_id new_min_contribution)
            (insert_crowdloan crowdloan_id (crowdloan\<lparr>min_contribution := new_min_contribution\<rparr>) st))))"

definition update_end ::
    "('o, 'a, 'c, 'h, 's, 'd) runtime \<Rightarrow> 'o \<Rightarrow> nat \<Rightarrow> nat \<Rightarrow>
     ('a, 'h, 's) crowdloan_storage \<Rightarrow> 'd DispatchError + ('a, 'h, 's) crowdloan_storage" where
  "update_end R origin crowdloan_id new_end st =
     bind_result (ext (ensure_signed R origin)) (\<lambda>who.
     let now = block_number R (chain st) in
     bind_result (ensure_crowdloan_exists st crowdloan_id) (\<lambda>crowdloan.
     if finalized crowdloan then Inl (Module AlreadyFinalized)
     else if \<not> who = creator crowdloan then Inl (Module InvalidOrigin)
     else
     bind_result (ensure_valid_end R now new_end) (\<lambda>_.
     Inr (deposit_event (EndUpdated crowdloan_id new_end)
       (insert_crowdloan crowdloan_id (crowdloan\<lparr>end_at := new_end\<rparr>) st)))))"

definition update_cap ::
    "('o, 'a, 'c, 'h, 's, 'd) runtime \<Rightarrow> 'o \<Rightarrow> nat \<Rightarrow> nat \<Rightarrow>
     ('a, 'h, 's) crowdloan_storage \<Rightarrow> 'd DispatchError + ('a, 'h, 's) crowdloan_storage" where
  "update_cap R origin crowdloan_id new_cap st =
     bind_result (ext (ensure_signed R origin)) (\<lambda>who.
     bind_result (ensure_crowdloan_exists st crowdloan_id) (\<lambda>crowdloan.
     if finalized crowdloan then Inl (Module AlreadyFinalized)
     else if \<not> who = creator crowdloan then Inl (Module InvalidOrigin)
     else if \<not> new_cap \<ge> raised crowdloan then Inl (Module CapTooLow)
     else Inr (deposit_event (CapUpdated crowdloan_id new_cap)
            (insert_crowdloan crowdloan_id (crowdloan\<lparr>cap := new_cap\<rparr>) st))))"

definition set_max_contribution ::
    "('o, 'a, 'c, 'h, 's, 'd) runtime \<Rightarrow> 'o \<Rightarrow> nat \<Rightarrow> nat option \<Rightarrow>
     ('a, 'h, 's) crowdloan_storage \<Rightarrow> 'd DispatchError + ('a, 'h, 's) crowdloan_storage" where
  "set_max_contribution R origin crowdloan_id new_max_contribution st =
     bind_result (ext (ensure_signed R origin)) (\<lambda>who.
     bind_result (ensure_crowdloan_exists st crowdloan_id) (\<lambda>crowdloan.
     if finalized crowdloan then Inl (Module AlreadyFinalized)
     else if \<not> who = creator crowdloan then Inl (Module InvalidOrigin)
     else
     bind_result
       (case new_max_contribution of
          Some max_contribution \<Rightarrow>
            (let creator_contribution = unwrap_or (Contributions st crowdloan_id (creator crowdloan)) 0 in
             if \<not> (max_contribution \<ge> min_contribution crowdloan \<and> max_contribution \<ge> creator_contribution)
             then Inl (Module MaximumContributionTooLow)
             else Inr (st\<lparr>MaxContributions := (MaxContributions st)(crowdloan_id \<mapsto> max_contribution)\<rparr>))
        | None \<Rightarrow> Inr (st\<lparr>MaxContributions := (MaxContributions st)(crowdloan_id := None)\<rparr>))
       (\<lambda>st1. Inr (deposit_event (MaxContributionUpdated crowdloan_id new_max_contribution) st1))))"

section \<open>Specification\<close>

definition total_in :: "('a \<Rightarrow> nat option) \<Rightarrow> nat" where
  "total_in K = (\<Sum>a\<in>dom K. the (K a))"

definition is_sub_account :: "('o, 'a, 'c, 'h, 's, 'd) runtime \<Rightarrow> 'a \<Rightarrow> bool" where
  "is_sub_account R a \<longleftrightarrow> (\<exists>i\<le>U32_MAX. a = into_sub_account R i)"

text \<open>
  What the framework documents of the runtime: a successful transfer moves exactly the amount (a
  remainder of the payer below the existential deposit \<open>ed\<close> is dust and may be lost), references and
  preimages move no balance, derived accounts are distinct and sign nothing, a prefix iterator
  yields every entry once, and a deposit is no dust.
\<close>

definition runtime_laws :: "('o, 'a, 'c, 'h, 's, 'd) runtime \<Rightarrow> nat \<Rightarrow> bool" where
  "runtime_laws R ed \<longleftrightarrow>
     (\<forall>s src dst amount s'. transfer R s src dst amount = Inr s' \<longrightarrow>
        amount \<le> balance R s src \<and>
        (src \<noteq> dst \<longrightarrow>
           (balance R s' src = balance R s src - amount \<or>
            balance R s src - amount < ed \<and> balance R s' src = 0) \<and>
           balance R s' dst = balance R s dst + amount) \<and>
        (src = dst \<longrightarrow> balance R s' src = balance R s src) \<and>
        (\<forall>a. a \<noteq> src \<longrightarrow> a \<noteq> dst \<longrightarrow> balance R s' a = balance R s a)) \<and>
     (\<forall>s a b. balance R (inc_providers R s a) b = balance R s b) \<and>
     (\<forall>s a b. b \<noteq> a \<longrightarrow> balance R (dec_providers R s a) b = balance R s b) \<and>
     (\<forall>s c h s' b. preimage_bound R s c = Inr (h, s') \<longrightarrow> balance R s' b = balance R s b) \<and>
     (\<forall>s h b. balance R (preimage_drop R s h) b = balance R s b) \<and>
     inj_on (into_sub_account R) {..U32_MAX} \<and>
     (\<forall>origin a. ensure_signed R origin = Inr a \<longrightarrow> \<not> is_sub_account R a) \<and>
     (\<forall>K. finite (dom K) \<longrightarrow> distinct (map fst (iter_prefix R K)) \<and>
        set (iter_prefix R K) = {(a, v). K a = Some v}) \<and>
     ed \<le> MinimumDeposit R"

text \<open>The invariant of a crowdloan that is not finalized.\<close>

definition loan_ok ::
    "('o, 'a, 'c, 'h, 's, 'd) runtime \<Rightarrow> ('a, 'h) CrowdloanInfo \<Rightarrow> ('a \<Rightarrow> nat option) \<Rightarrow> nat option \<Rightarrow> nat \<Rightarrow> bool" where
  "loan_ok R c K maximum held \<longleftrightarrow>
     finite (dom K) \<and> (\<forall>a. a \<in> dom K \<longrightarrow> \<not> is_sub_account R a) \<and>
     raised c = total_in K \<and> contributors_count c = card (dom K) \<and> raised c \<le> cap c \<and>
     MinimumDeposit R \<le> deposit c \<and> creator c \<in> dom K \<and> deposit c \<le> unwrap_or (K (creator c)) 0 \<and>
     raised c \<le> held \<and> (call c = None) \<noteq> (target_address c = None) \<and>
     (\<forall>m. maximum = Some m \<longrightarrow> min_contribution c \<le> m \<and> unwrap_or (K (creator c)) 0 \<le> m)"

definition crowd_ok :: "('o, 'a, 'c, 'h, 's, 'd) runtime \<Rightarrow> ('a, 'h, 's) crowdloan_storage \<Rightarrow> bool" where
  "crowd_ok R st \<longleftrightarrow>
     NextCrowdloanId st \<le> U32_MAX \<and>
     (\<forall>i. NextCrowdloanId st \<le> i \<longrightarrow>
        Crowdloans st i = None \<and> dom (Contributions st i) = {} \<and> MaxContributions st i = None) \<and>
     (\<forall>i c. Crowdloans st i = Some c \<longrightarrow> funds_account c = into_sub_account R i \<and>
        (\<not> finalized c \<longrightarrow>
           loan_ok R c (Contributions st i) (MaxContributions st i) (balance R (chain st) (funds_account c))))"

text \<open>
  A chain with the pallet: the dispatchables in any order, calls dispatched by \<^verbatim>\<open>finalize\<close> that
  themselves are such runs, and other activity of the chain that takes nothing from the funds
  account of a crowdloan that is not finalized.
\<close>

inductive crowd_step crowd_run ::
    "('o, 'a, 'c, 'h, 's, 'd) runtime \<Rightarrow> ('a, 'h, 's) crowdloan_storage \<Rightarrow> ('a, 'h, 's) crowdloan_storage \<Rightarrow> bool"
  for R :: "('o, 'a, 'c, 'h, 's, 'd) runtime" where
  step_create: "create R origin dep mc c e co t st = Inr st' \<Longrightarrow> crowd_step R st st'"
| step_contribute: "contribute R origin i amount st = Inr st' \<Longrightarrow> crowd_step R st st'"
| step_withdraw: "withdraw R origin i st = Inr st' \<Longrightarrow> crowd_step R st st'"
| step_finalize: "finalize R dispatch origin i st = Inr st' \<Longrightarrow>
    (\<And>c o' st1 st2. dispatch c o' st1 = Inr st2 \<Longrightarrow> crowd_run R st1 st2) \<Longrightarrow> crowd_step R st st'"
| step_refund: "refund R origin i st = Inr st' \<Longrightarrow> crowd_step R st st'"
| step_dissolve: "dissolve R origin i st = Inr st' \<Longrightarrow> crowd_step R st st'"
| step_set_min: "update_min_contribution R origin i v st = Inr st' \<Longrightarrow> crowd_step R st st'"
| step_set_end: "update_end R origin i v st = Inr st' \<Longrightarrow> crowd_step R st st'"
| step_set_cap: "update_cap R origin i v st = Inr st' \<Longrightarrow> crowd_step R st st'"
| step_set_max: "set_max_contribution R origin i vo st = Inr st' \<Longrightarrow> crowd_step R st st'"
| step_outside: "(\<And>i c. Crowdloans st i = Some c \<Longrightarrow> \<not> finalized c \<Longrightarrow>
      balance R (chain st) (funds_account c) \<le> balance R s (funds_account c)) \<Longrightarrow>
    crowd_step R st (st\<lparr>chain := s\<rparr>)"
| run_refl: "crowd_run R st st"
| run_step: "crowd_run R st st' \<Longrightarrow> crowd_step R st' st'' \<Longrightarrow> crowd_run R st st''"

section \<open>Sums of contributions\<close>

lemma total_in_empty [simp]: "dom K = {} \<Longrightarrow> total_in K = 0"
  by (simp add: total_in_def)

lemma total_in_remove:
  assumes "finite (dom K)"
  shows "total_in (K(a := None)) + unwrap_or (K a) 0 = total_in K"
proof (cases "K a")
  case None
  then show ?thesis by (simp add: fun_upd_idem)
next
  case (Some v)
  then have "total_in K = v + (\<Sum>b\<in>dom K - {a}. the (K b))"
    using assms sum.remove[of "dom K" a "\<lambda>b. the (K b)"] by (auto simp: total_in_def)
  moreover have "total_in (K(a := None)) = (\<Sum>b\<in>dom K - {a}. the (K b))"
    unfolding total_in_def dom_fun_upd by (rule sum.cong) auto
  ultimately show ?thesis using Some by simp
qed

lemma total_in_update:
  assumes "finite (dom K)"
  shows "total_in (K(a \<mapsto> v)) + unwrap_or (K a) 0 = total_in K + v"
proof -
  have "total_in ((K(a \<mapsto> v))(a := None)) + v = total_in (K(a \<mapsto> v))"
    using total_in_remove[of "K(a \<mapsto> v)" a] assms by simp
  then show ?thesis using total_in_remove[OF assms, of a] by simp
qed

lemma contribution_le_total: "finite (dom K) \<Longrightarrow> unwrap_or (K a) 0 \<le> total_in K"
  using total_in_remove[of K a] by linarith

lemma card_dom_update:
  "finite (dom K) \<Longrightarrow> card (dom (K(a \<mapsto> v))) = card (dom K) + (if K a = None then 1 else 0)"
  by (auto simp: card_insert_if domIff)

lemma card_dom_remove: "finite (dom K) \<Longrightarrow> a \<in> dom K \<Longrightarrow> card (dom (K(a := None))) = card (dom K) - 1"
  by (simp add: card_Diff_singleton)

section \<open>Transfers\<close>

lemma transferD:
  assumes "runtime_laws R ed" "transfer R s src dst amount = Inr s'"
  shows "amount \<le> balance R s src"
    "src \<noteq> dst \<Longrightarrow> balance R s' dst = balance R s dst + amount"
    "src \<noteq> dst \<Longrightarrow> balance R s' src = balance R s src - amount \<or>
       balance R s src - amount < ed \<and> balance R s' src = 0"
    "a \<noteq> src \<Longrightarrow> balance R s a \<le> balance R s' a"
    "a \<noteq> src \<Longrightarrow> a \<noteq> dst \<Longrightarrow> balance R s' a = balance R s a"
  using assms by (auto simp: runtime_laws_def) (metis le_add1 order.refl)

lemma transfer_out:
  assumes "runtime_laws R ed" "transfer R s src dst amount = Inr s'" "src \<noteq> dst"
    "x + amount \<le> balance R s src" "ed \<le> x"
  shows "x \<le> balance R s' src"
  using transferD(1,3)[OF assms(1,2)] assms(3-5) by auto

lemma signer_no_sub: "runtime_laws R ed \<Longrightarrow> ensure_signed R origin = Inr a \<Longrightarrow> \<not> is_sub_account R a"
  by (simp add: runtime_laws_def)

lemma ext_Inr_iff [result_iffs]: "ext r = Inr x \<longleftrightarrow> r = Inr x"
  by (auto simp: ext_def split: sum.splits)

lemma exists_Inr_iff [result_iffs]: "ensure_crowdloan_exists st i = Inr c \<longleftrightarrow> Crowdloans st i = Some c"
  by (auto simp: ensure_crowdloan_exists_def ok_or_def split: option.splits)

section \<open>Changing one crowdloan\<close>

lemma crowd_okD:
  assumes "crowd_ok R st" "Crowdloans st i = Some c"
  shows "funds_account c = into_sub_account R i" "i < NextCrowdloanId st" "i \<le> U32_MAX"
    "is_sub_account R (funds_account c)"
    "\<not> finalized c \<Longrightarrow>
       loan_ok R c (Contributions st i) (MaxContributions st i) (balance R (chain st) (funds_account c))"
proof -
  show "funds_account c = into_sub_account R i" and lt: "i < NextCrowdloanId st"
    using assms by (auto simp: crowd_ok_def) (metis linorder_not_le option.distinct(1))
  then show le: "i \<le> U32_MAX" using assms(1) by (simp add: crowd_ok_def)
  show "is_sub_account R (funds_account c)"
    using le \<open>funds_account c = into_sub_account R i\<close> by (auto simp: is_sub_account_def)
  show "\<not> finalized c \<Longrightarrow>
      loan_ok R c (Contributions st i) (MaxContributions st i) (balance R (chain st) (funds_account c))"
    using assms unfolding crowd_ok_def by blast
qed

lemma sub_accounts_differ:
  "runtime_laws R ed \<Longrightarrow> i \<le> U32_MAX \<Longrightarrow> j \<le> U32_MAX \<Longrightarrow> i \<noteq> j \<Longrightarrow> into_sub_account R i \<noteq> into_sub_account R j"
  by (auto simp: runtime_laws_def inj_on_def)

lemma loan_ok_held: "loan_ok R c K m held \<Longrightarrow> held \<le> held' \<Longrightarrow> loan_ok R c K m held'"
  by (auto simp: loan_ok_def)

lemma crowd_ok_update:
  assumes ok: "crowd_ok R st" and c: "Crowdloans st i = Some c"
    and st': "Crowdloans st' = (Crowdloans st)(i \<mapsto> c')" "Contributions st' = (Contributions st)(i := K')"
      "MaxContributions st' = (MaxContributions st)(i := m')" "NextCrowdloanId st' = NextCrowdloanId st"
    and funds: "funds_account c' = funds_account c"
    and others: "\<And>j. j \<noteq> i \<Longrightarrow> j \<le> U32_MAX \<Longrightarrow>
      balance R (chain st) (into_sub_account R j) \<le> balance R (chain st') (into_sub_account R j)"
    and loan: "\<not> finalized c' \<Longrightarrow> loan_ok R c' K' m' (balance R (chain st') (funds_account c'))"
  shows "crowd_ok R st'"
proof -
  have "funds_account d = into_sub_account R j \<and> (\<not> finalized d \<longrightarrow>
      loan_ok R d (Contributions st' j) (MaxContributions st' j) (balance R (chain st') (funds_account d)))"
    if d: "Crowdloans st' j = Some d" for j d
  proof (cases "j = i")
    case True
    then show ?thesis using d st' funds loan crowd_okD(1)[OF ok c] by auto
  next
    case False
    then have dj: "Crowdloans st j = Some d" using d st'(1) by simp
    show ?thesis
      using crowd_okD(1,3,5)[OF ok dj] others[OF False] False st' by (auto intro: loan_ok_held)
  qed
  moreover have "Crowdloans st' j = None \<and> dom (Contributions st' j) = {} \<and> MaxContributions st' j = None"
    if "NextCrowdloanId st' \<le> j" for j
    using that ok st' crowd_okD(2)[OF ok c] by (auto simp: crowd_ok_def)
  moreover have "NextCrowdloanId st' \<le> U32_MAX" using ok st'(4) by (simp add: crowd_ok_def)
  ultimately show ?thesis unfolding crowd_ok_def by blast
qed

section \<open>Every operation keeps the invariant\<close>

lemmas op_simps = result_iffs Let_def deposit_event_def insert_crowdloan_def insert_contribution_def
  remove_contribution_def checked_add_Some_iff checked_sub_Some_iff

text \<open>Updates of the settings of a crowdloan.\<close>

lemma crowd_ok_settings:
  assumes "crowd_ok R st" "Crowdloans st i = Some c"
    and "st' = deposit_event e (insert_crowdloan i c' (st\<lparr>MaxContributions := (MaxContributions st)(i := m')\<rparr>))"
    and "funds_account c' = funds_account c"
    and "\<not> finalized c' \<Longrightarrow> loan_ok R c' (Contributions st i) m' (balance R (chain st) (funds_account c))"
  shows "crowd_ok R st'"
  using assms
  by (intro crowd_ok_update[of R st i c st' c' "Contributions st i" m'])
    (auto simp: deposit_event_def insert_crowdloan_def)

lemma update_min_contribution_ok:
  assumes "crowd_ok R st" "update_min_contribution R origin i v st = Inr st'"
  shows "crowd_ok R st'"
proof -
  obtain c where c: "Crowdloans st i = Some c" "\<not> finalized c"
    "\<forall>m. MaxContributions st i = Some m \<longrightarrow> v \<le> m"
    "st' = deposit_event (MinContributionUpdated i v) (insert_crowdloan i (c\<lparr>min_contribution := v\<rparr>) st)"
    using assms(2) by (auto simp: update_min_contribution_def result_iffs split: if_splits option.splits)
  show ?thesis
    by (rule crowd_ok_settings[OF assms(1) c(1), of st' _ "c\<lparr>min_contribution := v\<rparr>" "MaxContributions st i"])
      (use c crowd_okD(5)[OF assms(1) c(1)] in \<open>auto simp: loan_ok_def\<close>)
qed

lemma update_end_ok:
  assumes "crowd_ok R st" "update_end R origin i v st = Inr st'"
  shows "crowd_ok R st'"
proof -
  obtain c where c: "Crowdloans st i = Some c" "\<not> finalized c"
    "st' = deposit_event (EndUpdated i v) (insert_crowdloan i (c\<lparr>end_at := v\<rparr>) st)"
    using assms(2) by (auto simp: update_end_def result_iffs Let_def split: if_splits)
  show ?thesis
    by (rule crowd_ok_settings[OF assms(1) c(1), of st' _ "c\<lparr>end_at := v\<rparr>" "MaxContributions st i"])
      (use c crowd_okD(5)[OF assms(1) c(1)] in \<open>auto simp: loan_ok_def\<close>)
qed

lemma update_cap_ok:
  assumes "crowd_ok R st" "update_cap R origin i v st = Inr st'"
  shows "crowd_ok R st'"
proof -
  obtain c where c: "Crowdloans st i = Some c" "\<not> finalized c" "raised c \<le> v"
    "st' = deposit_event (CapUpdated i v) (insert_crowdloan i (c\<lparr>cap := v\<rparr>) st)"
    using assms(2) by (auto simp: update_cap_def result_iffs split: if_splits)
  show ?thesis
    by (rule crowd_ok_settings[OF assms(1) c(1), of st' _ "c\<lparr>cap := v\<rparr>" "MaxContributions st i"])
      (use c crowd_okD(5)[OF assms(1) c(1)] in \<open>auto simp: loan_ok_def\<close>)
qed

lemma set_max_contribution_ok:
  assumes "crowd_ok R st" "set_max_contribution R origin i vo st = Inr st'"
  shows "crowd_ok R st'"
proof -
  obtain c where c: "Crowdloans st i = Some c" "\<not> finalized c"
    "\<forall>m. vo = Some m \<longrightarrow> min_contribution c \<le> m \<and> unwrap_or (Contributions st i (creator c)) 0 \<le> m"
    "st' = deposit_event (MaxContributionUpdated i vo) (st\<lparr>MaxContributions := (MaxContributions st)(i := vo)\<rparr>)"
    using assms(2) by (auto simp: set_max_contribution_def result_iffs Let_def split: if_splits option.splits)
  have "insert_crowdloan i c (st\<lparr>MaxContributions := (MaxContributions st)(i := vo)\<rparr>) =
      st\<lparr>MaxContributions := (MaxContributions st)(i := vo)\<rparr>"
    using c(1) by (simp add: insert_crowdloan_def fun_upd_idem)
  then show ?thesis
    using crowd_ok_settings[OF assms(1) c(1), of st' _ c vo] c crowd_okD(5)[OF assms(1) c(1)]
    by (auto simp: loan_ok_def)
qed

text \<open>Money only comes in from signed accounts, and goes out of the one funds account.\<close>

lemma others_in:
  assumes "runtime_laws R ed" "\<not> is_sub_account R who" "transfer R s who dst amount = Inr s'"
    "j \<le> U32_MAX"
  shows "balance R s (into_sub_account R j) \<le> balance R s' (into_sub_account R j)"
  using transferD(4)[OF assms(1,3)] assms(2,4) by (auto simp: is_sub_account_def)

lemma others_out:
  assumes "runtime_laws R ed" "i \<le> U32_MAX" "transfer R s (into_sub_account R i) dst amount = Inr s'"
    "j \<le> U32_MAX" "j \<noteq> i"
  shows "balance R s (into_sub_account R j) \<le> balance R s' (into_sub_account R j)"
  using transferD(4)[OF assms(1,3)] sub_accounts_differ[OF assms(1,2,4)] assms(5) by metis

lemma accepted_amount_le:
  assumes "accepted_amount st i who requested left = Inr amount"
  shows "amount \<le> left" "amount \<le> requested"
    "MaxContributions st i = Some m \<Longrightarrow> unwrap_or (Contributions st i who) 0 + amount \<le> m"
  using assms by (auto simp: accepted_amount_def op_simps split: option.splits if_splits)

lemma contributeE:
  fixes R :: "('o, 'a, 'c, 'h, 's, 'd) runtime"
  assumes "contribute R origin i requested st = Inr st'"
  obtains who c amount v n s where
    "ensure_signed R origin = Inr who" "Crowdloans st i = Some c" "block_number R (chain st) < end_at c"
    "raised c < cap c" "min_contribution c \<le> requested" "contributors_count c < MaxContributors R"
    "accepted_amount st i who requested (cap c - raised c) = (Inr amount :: 'd DispatchError + nat)"
    "v = unwrap_or (Contributions st i who) 0 + amount"
    "n = contributors_count c + (if Contributions st i who = None then 1 else 0)"
    "transfer R (chain st) who (funds_account c) amount = Inr s"
    "st' = deposit_event (Contributed i who amount)
       (insert_crowdloan i (c\<lparr>raised := raised c + amount, contributors_count := n\<rparr>)
         (insert_contribution i who v (st\<lparr>chain := s\<rparr>)))"
proof -
  note unf = assms[unfolded contribute_def bind_result_Inr_iff ext_Inr_iff exists_Inr_iff Let_def]
  show thesis
    using unf
    by (elim exE conjE) (auto simp: result_iffs checked_add_Some_iff checked_sub_Some_iff Let_def
        split: if_splits option.splits intro!: that)
qed

lemma contribute_ok:
  fixes R :: "('o, 'a, 'c, 'h, 's, 'd) runtime"
  assumes laws: "runtime_laws R ed" and ok: "crowd_ok R st"
    and res: "contribute R origin i requested st = Inr st'"
  shows "crowd_ok R st'"
proof -
  obtain who c amount v n s where h: "ensure_signed R origin = Inr who" "Crowdloans st i = Some c"
    "raised c < cap c" "accepted_amount st i who requested (cap c - raised c) = (Inr amount :: 'd DispatchError + nat)"
    "v = unwrap_or (Contributions st i who) 0 + amount"
    "n = contributors_count c + (if Contributions st i who = None then 1 else 0)"
    "transfer R (chain st) who (funds_account c) amount = Inr s"
    "st' = deposit_event (Contributed i who amount)
       (insert_crowdloan i (c\<lparr>raised := raised c + amount, contributors_count := n\<rparr>)
         (insert_contribution i who v (st\<lparr>chain := s\<rparr>)))"
    by (rule contributeE[OF res])
  let ?K = "Contributions st i" and ?K' = "(Contributions st i)(who \<mapsto> v)"
  let ?c = "c\<lparr>raised := raised c + amount, contributors_count := n\<rparr>"
  note d = crowd_okD[OF ok h(2)] and sub = signer_no_sub[OF laws h(1)]
  have dst: "balance R s (funds_account c) = balance R (chain st) (funds_account c) + amount"
    using transferD(2)[OF laws h(7)] sub d(4) by metis
  have loan: "loan_ok R ?c ?K' (MaxContributions st i) (balance R s (funds_account c))" if "\<not> finalized c"
    using d(5)[OF that] total_in_update[of ?K who v] card_dom_update[of ?K who v] sub
      accepted_amount_le[OF h(4)] h(3,5,6) dst
    by (auto simp: loan_ok_def)
  show ?thesis
    by (rule crowd_ok_update[OF ok h(2), of st' ?c ?K' "MaxContributions st i"])
      (use h(8) loan others_in[OF laws sub h(7)] in
        \<open>auto simp: deposit_event_def insert_crowdloan_def insert_contribution_def\<close>)
qed

lemma withdrawE:
  assumes "withdraw R origin i st = Inr st'"
  obtains who c v amount K' n s where
    "ensure_signed R origin = Inr who" "Crowdloans st i = Some c" "\<not> finalized c"
    "Contributions st i who = Some v" "0 < amount"
    "if who = creator c then amount + deposit c = v \<and> K' = (Contributions st i)(who \<mapsto> deposit c) \<and>
         n = contributors_count c
       else amount = v \<and> K' = (Contributions st i)(who := None) \<and> n + 1 = contributors_count c"
    "transfer R (chain st) (funds_account c) who amount = Inr s"
    "st' = deposit_event (Withdrew i who amount)
       (insert_crowdloan i (c\<lparr>contributors_count := n, raised := raised c - amount\<rparr>)
         (st\<lparr>Contributions := (Contributions st)(i := K'), chain := s\<rparr>))"
proof -
  note unf = assms[unfolded withdraw_def bind_result_Inr_iff ext_Inr_iff exists_Inr_iff Let_def]
  from unf obtain who c where h: "ensure_signed R origin = Inr who" "Crowdloans st i = Some c" by blast
  show thesis
  proof (cases "who = creator c")
    case True
    with unf h obtain a s where a: "Contributions st i who = Some a" "\<not> finalized c" "deposit c < a"
      "transfer R (chain st) (funds_account c) who (a - deposit c) = Inr s"
      "st' = deposit_event (Withdrew i who (a - deposit c))
        (insert_crowdloan i (c\<lparr>raised := raised c - (a - deposit c)\<rparr>)
          (insert_contribution i who (deposit c) st\<lparr>chain := s\<rparr>))"
      by (cases "Contributions st i who") (auto simp: result_iffs Let_def insert_contribution_def split: if_splits)
    show thesis
      by (rule that[of who c a "a - deposit c" "(Contributions st i)(who \<mapsto> deposit c)" "contributors_count c" s])
        (use a h True in \<open>auto simp: insert_contribution_def\<close>)
  next
    case False
    with unf h show thesis
      by (cases "Contributions st i who") (auto simp: result_iffs Let_def remove_contribution_def
          checked_sub_Some_iff split: if_splits
          intro!: that[of who c _ _ "(Contributions st i)(who := None)" "contributors_count c - 1"])
  qed
qed

lemma withdraw_ok:
  assumes laws: "runtime_laws R ed" and ok: "crowd_ok R st" and res: "withdraw R origin i st = Inr st'"
  shows "crowd_ok R st'"
proof -
  obtain who c v amount K' n s where h: "ensure_signed R origin = Inr who" "Crowdloans st i = Some c"
    "\<not> finalized c" "Contributions st i who = Some v" "0 < amount"
    "if who = creator c then amount + deposit c = v \<and> K' = (Contributions st i)(who \<mapsto> deposit c) \<and>
         n = contributors_count c
       else amount = v \<and> K' = (Contributions st i)(who := None) \<and> n + 1 = contributors_count c"
    "transfer R (chain st) (funds_account c) who amount = Inr s"
    "st' = deposit_event (Withdrew i who amount)
       (insert_crowdloan i (c\<lparr>contributors_count := n, raised := raised c - amount\<rparr>)
         (st\<lparr>Contributions := (Contributions st)(i := K'), chain := s\<rparr>))"
    by (rule withdrawE[OF res])
  let ?K = "Contributions st i" and ?c = "c\<lparr>contributors_count := n, raised := raised c - amount\<rparr>"
  note d = crowd_okD[OF ok h(2)]
  note l = d(5)[OF h(3)]
  have fin: "finite (dom ?K)" using l by (simp add: loan_ok_def)
  have tot: "total_in K' + amount = raised c"
    using h(4,6) l total_in_update[OF fin, of who "deposit c"] total_in_remove[OF fin, of who]
    by (auto simp: loan_ok_def split: if_splits)
  have creator': "creator c \<in> dom K'" "deposit c \<le> unwrap_or (K' (creator c)) 0"
    "unwrap_or (K' (creator c)) 0 \<le> unwrap_or (?K (creator c)) 0"
    using h(4,6) l by (auto simp: loan_ok_def split: if_splits)
  have fin': "finite (dom K')" using fin h(6) by (auto split: if_splits)
  have "MinimumDeposit R \<le> total_in K'"
    using contribution_le_total[OF fin', of "creator c"] creator'(2) l by (auto simp: loan_ok_def)
  then have "ed \<le> raised c - amount" using laws tot by (auto simp: runtime_laws_def)
  then have held: "raised c - amount \<le> balance R s (funds_account c)"
    using transfer_out[OF laws h(7), of "raised c - amount"] tot l d(4) signer_no_sub[OF laws h(1)]
    by (auto simp: loan_ok_def)
  have "contributors_count c = card (dom ?K)" using l by (simp add: loan_ok_def)
  then have n: "n = card (dom K')"
    using h(4,6) card_dom_update[OF fin, of who "deposit c"] card_dom_remove[OF fin domI[of ?K, OF h(4)]]
    by (auto simp del: dom_fun_upd split: if_splits)
  have dom': "dom K' \<subseteq> dom ?K" using h(4,6) by (auto split: if_splits)
  have loan: "loan_ok R ?c K' (MaxContributions st i) (balance R s (funds_account c))"
    using l tot creator' held n fin' dom' by (auto simp: loan_ok_def)
  show ?thesis
    by (rule crowd_ok_update[OF ok h(2), of st' ?c K' "MaxContributions st i"])
      (use h(8) loan others_out[OF laws d(3)] h(7) d(1) in
        \<open>auto simp: deposit_event_def insert_crowdloan_def\<close>)
qed


definition drop_keys :: "'a list \<Rightarrow> ('a \<Rightarrow> nat option) \<Rightarrow> 'a \<Rightarrow> nat option" where
  "drop_keys xs K = (\<lambda>a. if a \<in> set xs then None else K a)"

lemma drop_keys_simps [simp]: "drop_keys [] K = K" "drop_keys (x # xs) K = drop_keys xs (K(x := None))"
  by (auto simp: drop_keys_def fun_eq_iff)

lemma dom_drop_keys: "dom (drop_keys xs K) = dom K - set xs"
  by (auto simp: drop_keys_def dom_def)

lemma drop_keys_keep: "a \<notin> set xs \<Longrightarrow> drop_keys xs K a = K a"
  by (simp add: drop_keys_def)

lemma fold_remove_contribution:
  "fold (remove_contribution i) xs st =
     st\<lparr>Contributions := (Contributions st)(i := drop_keys xs (Contributions st i))\<rparr>"
  by (induction xs arbitrary: st) (simp_all add: remove_contribution_def)

lemma drop_keys_total:
  assumes "finite (dom K)" "distinct (map fst ys)" "\<And>a v. (a, v) \<in> set ys \<Longrightarrow> K a = Some v"
  shows "total_in (drop_keys (map fst ys) K) + sum_list (map snd ys) = total_in K \<and>
    card (dom (drop_keys (map fst ys) K)) + length ys = card (dom K)"
  using assms
proof (induction ys arbitrary: K)
  case (Cons y ys)
  obtain a v where y: "y = (a, v)" by (cases y)
  define K1 where "K1 = K(a := None)"
  have a: "K a = Some v" using Cons.prems(3)[of a v] y by simp
  have fin: "finite (dom K1)" "distinct (map fst ys)" using Cons.prems by (auto simp: K1_def)
  have rest: "K1 b = Some w" if "(b, w) \<in> set ys" for b w
    using Cons.prems(2) Cons.prems(3)[of b w] that y by (force simp: K1_def)
  have "0 < card (dom K)" using Cons.prems(1) a by (auto simp: card_gt_0_iff)
  then have "card (dom K1) + 1 = card (dom K)"
    using card_dom_remove[OF Cons.prems(1) domI[of K, OF a]] by (simp add: K1_def)
  moreover have "total_in K1 + v = total_in K"
    using total_in_remove[OF Cons.prems(1), of a] a by (simp add: K1_def)
  moreover have "drop_keys (map fst (y # ys)) K = drop_keys (map fst ys) K1" by (simp add: y K1_def)
  ultimately show ?case using Cons.IH[OF fin rest] y by simp
qed simp

lemma refund_loop_spec:
  assumes laws: "runtime_laws R ed"
    and "refund_loop R funds items acc n r s = Inr (acc', n', r', s', done')"
    and "\<And>a v. (a, v) \<in> set items \<Longrightarrow> a \<noteq> funds"
    and "sum_list (map snd items) + ed \<le> r" "r \<le> balance R s funds"
  shows "\<exists>ys zs. items = ys @ zs \<and> acc' = acc @ map fst ys \<and> n' = n + length ys \<and>
    r' + sum_list (map snd ys) = r \<and> r' \<le> balance R s' funds \<and>
    (\<forall>a. a \<noteq> funds \<longrightarrow> balance R s a \<le> balance R s' a) \<and>
    (if done' then zs = [] else RefundContributorsLimit R \<le> n')"
  using assms(2-)
proof (induction items arbitrary: acc n r s)
  case Nil
  then show ?case by auto
next
  case (Cons item items)
  obtain a v where item: "item = (a, v)" by (cases item)
  show ?case
  proof (cases "RefundContributorsLimit R \<le> n")
    case True
    then show ?thesis using Cons.prems item by (rule_tac x = "[]" in exI) auto
  next
    case False
    then obtain s1 where t: "transfer R s funds a v = Inr s1"
      and loop: "refund_loop R funds items (acc @ [a]) (n + 1) (r - v) s1 = Inr (acc', n', r', s', done')"
      using Cons.prems(1) item by (auto simp: result_iffs checked_add_Some_iff)
    have ne: "a \<noteq> funds" using Cons.prems(2)[of a v] item by simp
    have "r - v \<le> balance R s1 funds"
      using transfer_out[OF laws t, of "r - v"] ne Cons.prems(3,4) item by auto
    then obtain ys zs where "items = ys @ zs" "acc' = (acc @ [a]) @ map fst ys" "n' = n + 1 + length ys"
      "r' + sum_list (map snd ys) = r - v" "r' \<le> balance R s' funds"
      "\<forall>b. b \<noteq> funds \<longrightarrow> balance R s1 b \<le> balance R s' b"
      "if done' then zs = [] else RefundContributorsLimit R \<le> n'"
      using Cons.IH[OF loop] Cons.prems(2,3) item by fastforce
    moreover have "balance R s b \<le> balance R s1 b" if "b \<noteq> funds" for b
      using transferD(4)[OF laws t] that by blast
    ultimately show ?thesis
      using item Cons.prems(3) by (rule_tac x = "item # ys" in exI) (auto intro: order.trans)
  qed
qed

lemma refundE:
  assumes "refund R origin i st = Inr st'"
  obtains who c xs n r s all where
    "ensure_signed R origin = Inr who" "Crowdloans st i = Some c" "\<not> finalized c" "who = creator c"
    "refund_loop R (funds_account c)
       (filter (\<lambda>(a, _). a \<noteq> creator c) (iter_prefix R (Contributions st i))) [] 0 (raised c) (chain st) =
       Inr (xs, n, r, s, all)"
    "n \<le> contributors_count c"
    "st' = deposit_event (if all then AllRefunded i else PartiallyRefunded i)
       (fold (remove_contribution i) xs
         (insert_crowdloan i (c\<lparr>raised := r, contributors_count := contributors_count c - n\<rparr>) (st\<lparr>chain := s\<rparr>)))"
proof -
  note unf = assms[unfolded refund_def bind_result_Inr_iff ext_Inr_iff exists_Inr_iff Let_def]
  then obtain who c where h: "ensure_signed R origin = Inr who" "Crowdloans st i = Some c"
    "\<not> finalized c" "who = creator c" by (auto split: if_splits)
  with unf obtain xs n r s all where "refund_loop R (funds_account c)
       (filter (\<lambda>(a, _). a \<noteq> creator c) (iter_prefix R (Contributions st i))) [] 0 (raised c) (chain st) =
       Inr (xs, n, r, s, all)" "n \<le> contributors_count c"
    "st' = deposit_event (if all then AllRefunded i else PartiallyRefunded i)
       (fold (remove_contribution i) xs
         (insert_crowdloan i (c\<lparr>raised := r, contributors_count := contributors_count c - n\<rparr>) (st\<lparr>chain := s\<rparr>)))"
    by (auto simp: result_iffs checked_sub_Some_iff)
  with h show thesis by (rule that)
qed

lemma contributions_list:
  assumes "runtime_laws R ed" "finite (dom K)"
  shows "distinct (map fst (filter P (iter_prefix R K)))"
    "(a, v) \<in> set (filter P (iter_prefix R K)) \<longleftrightarrow> K a = Some v \<and> P (a, v)"
  using assms by (auto simp: runtime_laws_def distinct_map inj_on_def)

text \<open>All contributions but the creator's, together with the creator's deposit, are in \<^verbatim>\<open>raised\<close>.\<close>

lemma refund_room:
  assumes laws: "runtime_laws R ed" and l: "loan_ok R c K m held"
  defines "items \<equiv> filter (\<lambda>(a, _). a \<noteq> creator c) (iter_prefix R K)"
  shows "sum_list (map snd items) + ed \<le> raised c"
proof -
  have fin: "finite (dom K)" using l by (simp add: loan_ok_def)
  note cl = contributions_list[OF laws fin, folded items_def]
  have tot: "total_in (drop_keys (map fst items) K) + sum_list (map snd items) = total_in K"
    using drop_keys_total[OF fin cl(1)] cl(2) by (auto simp: items_def)
  have "creator c \<notin> set (map fst items)" by (auto simp: items_def)
  then have "unwrap_or (K (creator c)) 0 \<le> total_in (drop_keys (map fst items) K)"
    using contribution_le_total[of "drop_keys (map fst items) K" "creator c"] fin
    by (simp add: drop_keys_keep dom_drop_keys)
  then show ?thesis using tot l laws by (auto simp: loan_ok_def runtime_laws_def)
qed

lemma refund_ok:
  assumes laws: "runtime_laws R ed" and ok: "crowd_ok R st" and res: "refund R origin i st = Inr st'"
  shows "crowd_ok R st'"
proof -
  obtain who c xs n r s all where h: "ensure_signed R origin = Inr who" "Crowdloans st i = Some c"
    "\<not> finalized c" "who = creator c"
    "refund_loop R (funds_account c)
       (filter (\<lambda>(a, _). a \<noteq> creator c) (iter_prefix R (Contributions st i))) [] 0 (raised c) (chain st) =
       Inr (xs, n, r, s, all)"
    "n \<le> contributors_count c"
    "st' = deposit_event (if all then AllRefunded i else PartiallyRefunded i)
       (fold (remove_contribution i) xs
         (insert_crowdloan i (c\<lparr>raised := r, contributors_count := contributors_count c - n\<rparr>) (st\<lparr>chain := s\<rparr>)))"
    by (rule refundE[OF res])
  let ?K = "Contributions st i" and ?c = "c\<lparr>raised := r, contributors_count := contributors_count c - n\<rparr>"
  let ?items = "filter (\<lambda>(a, _). a \<noteq> creator c) (iter_prefix R ?K)"
  note d = crowd_okD[OF ok h(2)]
  note l = d(5)[OF h(3)]
  have fin: "finite (dom ?K)" using l by (simp add: loan_ok_def)
  note cl = contributions_list[OF laws fin]
  have ne: "a \<noteq> funds_account c" if "(a, v) \<in> set ?items" for a v
    using cl(2)[of a v "\<lambda>(a, _). a \<noteq> creator c"] that l d(4) by (auto simp: loan_ok_def)
  have held: "raised c \<le> balance R (chain st) (funds_account c)" using l by (simp add: loan_ok_def)
  obtain ys zs where ys: "?items = ys @ zs" "xs = map fst ys" "n = length ys"
    "r + sum_list (map snd ys) = raised c" "r \<le> balance R s (funds_account c)"
    "\<forall>a. a \<noteq> funds_account c \<longrightarrow> balance R (chain st) a \<le> balance R s a"
    using refund_loop_spec[OF laws h(5) _ refund_room[OF laws l] held] ne by (auto simp del: set_filter)
  have mem: "?K a = Some v \<and> a \<noteq> creator c" if "(a, v) \<in> set ys" for a v
    using cl(2)[of a v "\<lambda>(a, _). a \<noteq> creator c"] that unfolding ys(1) by auto
  have "distinct (map fst ys)" using cl(1)[of "\<lambda>(a, _). a \<noteq> creator c"] unfolding ys(1) by simp
  note tot = drop_keys_total[OF fin this conjunct1[OF mem]]
  have notin: "creator c \<notin> set xs" using mem[of "creator c"] ys(2) by auto
  then have keep: "drop_keys xs ?K (creator c) = ?K (creator c)" by (rule drop_keys_keep)
  have dom': "finite (dom (drop_keys xs ?K))" "dom (drop_keys xs ?K) \<subseteq> dom ?K"
    "creator c \<in> dom (drop_keys xs ?K)" "r = total_in (drop_keys xs ?K)" "r \<le> raised c"
    using fin keep l tot ys(2-4) notin by (simp_all add: loan_ok_def dom_drop_keys)
  have cnt: "contributors_count c = card (dom ?K)" using l by (simp add: loan_ok_def)
  have "contributors_count c - n = card (dom (drop_keys xs ?K))"
    using conjunct2[OF tot] unfolding cnt ys(2,3) by linarith
  with dom' have loan: "loan_ok R ?c (drop_keys xs ?K) (MaxContributions st i) (balance R s (funds_account c))"
    using l keep ys(5) by (simp add: loan_ok_def subset_iff)
  have others: "balance R (chain st) (into_sub_account R j) \<le> balance R s (into_sub_account R j)"
    if "j \<noteq> i" "j \<le> U32_MAX" for j
    using ys(6) sub_accounts_differ[OF laws that(2) d(3) that(1)] d(1) by simp
  show ?thesis
    by (rule crowd_ok_update[OF ok h(2), of st' ?c "drop_keys xs ?K" "MaxContributions st i"])
      (use h(7) loan others d(1) in
        \<open>auto simp: deposit_event_def insert_crowdloan_def fold_remove_contribution\<close>)
qed

lemma dissolveE:
  assumes "dissolve R origin i st = Inr st'"
  obtains c s where "ensure_signed R origin = Inr (creator c)" "Crowdloans st i = Some c" "\<not> finalized c"
    "Contributions st i (creator c) = Some (raised c)"
    "transfer R (chain st) (funds_account c) (creator c) (raised c) = Inr s"
    "st' = st\<lparr>Contributions := (Contributions st)(i := (Contributions st i)(creator c := None)),
       chain := dec_providers R (case call c of None \<Rightarrow> s | Some h \<Rightarrow> preimage_drop R s h) (funds_account c),
       Crowdloans := (Crowdloans st)(i := None), MaxContributions := (MaxContributions st)(i := None),
       Events := Events st @ [Dissolved i]\<rparr>"
proof -
  show thesis
    using assms unfolding dissolve_def
    by (clarsimp simp: op_simps split: if_splits) (rule that, assumption+, auto split: option.splits)
qed

lemma dissolve_ok:
  assumes laws: "runtime_laws R ed" and ok: "crowd_ok R st" and res: "dissolve R origin i st = Inr st'"
  shows "crowd_ok R st'"
proof -
  obtain c s where c: "Crowdloans st i = Some c" "\<not> finalized c"
    and t: "transfer R (chain st) (funds_account c) (creator c) (raised c) = Inr s"
    and st': "st' = st\<lparr>Contributions := (Contributions st)(i := (Contributions st i)(creator c := None)),
       chain := dec_providers R (case call c of None \<Rightarrow> s | Some h \<Rightarrow> preimage_drop R s h) (funds_account c),
       Crowdloans := (Crowdloans st)(i := None), MaxContributions := (MaxContributions st)(i := None),
       Events := Events st @ [Dissolved i]\<rparr>"
    by (rule dissolveE[OF res])
  note d = crowd_okD[OF ok c(1)]
  have bal: "balance R (chain st) (into_sub_account R j) \<le> balance R (chain st') (into_sub_account R j)"
    if "j \<noteq> i" "j \<le> U32_MAX" for j
  proof -
    have "balance R (chain st) (into_sub_account R j) \<le> balance R s (into_sub_account R j)"
      using others_out[OF laws d(3)] t d(1) that by simp
    moreover have "balance R (chain st') (into_sub_account R j) = balance R s (into_sub_account R j)"
      using st' laws sub_accounts_differ[OF laws that(2) d(3) that(1)] d(1)
      by (simp add: runtime_laws_def split: option.split)
    ultimately show ?thesis by simp
  qed
  have "funds_account e = into_sub_account R j \<and> (\<not> finalized e \<longrightarrow>
      loan_ok R e (Contributions st' j) (MaxContributions st' j) (balance R (chain st') (funds_account e)))"
    if e: "Crowdloans st' j = Some e" for j e
  proof -
    have j: "j \<noteq> i" "Crowdloans st j = Some e" using e st' by (auto split: if_splits)
    show ?thesis
      using crowd_okD(1,3,5)[OF ok j(2)] bal[OF j(1)] j(1) st' by (auto intro: loan_ok_held)
  qed
  moreover have "Crowdloans st' j = None \<and> dom (Contributions st' j) = {} \<and> MaxContributions st' j = None"
    if "NextCrowdloanId st' \<le> j" for j
    using that ok st' d(2) by (auto simp: crowd_ok_def)
  moreover have "NextCrowdloanId st' \<le> U32_MAX" using ok st' by (simp add: crowd_ok_def)
  ultimately show ?thesis unfolding crowd_ok_def by blast
qed

lemma createE:
  assumes "create R origin dep mc cp e co tgt st = Inr st'"
  obtains who h s1 s2 where
    "ensure_signed R origin = Inr who" "MinimumDeposit R \<le> dep" "dep < cp"
    "(co = None) \<noteq> (tgt = None)" "NextCrowdloanId st + 1 \<le> U32_MAX"
    "case co of None \<Rightarrow> h = None \<and> s1 = inc_providers R (chain st) (into_sub_account R (NextCrowdloanId st))
       | Some c \<Rightarrow> \<exists>x. h = Some x \<and>
           preimage_bound R (inc_providers R (chain st) (into_sub_account R (NextCrowdloanId st))) c = Inr (x, s1)"
    "transfer R s1 who (into_sub_account R (NextCrowdloanId st)) dep = Inr s2"
    "st' = st\<lparr>NextCrowdloanId := NextCrowdloanId st + 1,
       Crowdloans := (Crowdloans st)(NextCrowdloanId st \<mapsto>
         \<lparr>creator = who, deposit = dep, min_contribution = mc, end_at = e, cap = cp,
          funds_account = into_sub_account R (NextCrowdloanId st), raised = dep, target_address = tgt,
          call = h, finalized = False, contributors_count = 1\<rparr>),
       chain := s2,
       Contributions := (Contributions st)(NextCrowdloanId st := (Contributions st (NextCrowdloanId st))(who \<mapsto> dep)),
       Events := Events st @ [Created (NextCrowdloanId st) who e cp]\<rparr>"
proof -
  show thesis
    using assms unfolding create_def
    by (clarsimp simp: op_simps checked_add_Some_iff split: if_splits)
      (rule that, assumption, auto split: option.splits simp: op_simps)
qed

lemma create_ok:
  assumes laws: "runtime_laws R ed" and ok: "crowd_ok R st"
    and res: "create R origin dep mc cp e co tgt st = Inr st'"
  shows "crowd_ok R st'"
proof -
  let ?n = "NextCrowdloanId st"
  obtain who h s1 s2 where h: "ensure_signed R origin = Inr who" "MinimumDeposit R \<le> dep" "dep < cp"
    "(co = None) \<noteq> (tgt = None)" "?n + 1 \<le> U32_MAX"
    "case co of None \<Rightarrow> h = None \<and> s1 = inc_providers R (chain st) (into_sub_account R ?n)
       | Some c \<Rightarrow> \<exists>x. h = Some x \<and>
           preimage_bound R (inc_providers R (chain st) (into_sub_account R ?n)) c = Inr (x, s1)"
    "transfer R s1 who (into_sub_account R ?n) dep = Inr s2"
    and st': "st' = st\<lparr>NextCrowdloanId := ?n + 1,
       Crowdloans := (Crowdloans st)(?n \<mapsto>
         \<lparr>creator = who, deposit = dep, min_contribution = mc, end_at = e, cap = cp,
          funds_account = into_sub_account R ?n, raised = dep, target_address = tgt,
          call = h, finalized = False, contributors_count = 1\<rparr>),
       chain := s2,
       Contributions := (Contributions st)(?n := (Contributions st ?n)(who \<mapsto> dep)),
       Events := Events st @ [Created ?n who e cp]\<rparr>"
    by (rule createE[OF res])
  note sub = signer_no_sub[OF laws h(1)]
  have s1: "balance R s1 a = balance R (chain st) a" for a
    using h(6) laws by (auto simp: runtime_laws_def split: option.splits)
  have fresh: "Crowdloans st ?n = None" "Contributions st ?n = Map.empty" "MaxContributions st ?n = None"
    using ok by (auto simp: crowd_ok_def)
  have grow: "balance R (chain st) (into_sub_account R j) \<le> balance R s2 (into_sub_account R j)" if "j \<le> U32_MAX" for j
    using others_in[OF laws sub h(7) that] by (simp add: s1)
  have nsub: "is_sub_account R (into_sub_account R ?n)" using h(5) unfolding is_sub_account_def by (intro exI[of _ ?n]) simp
  have "dep \<le> balance R s2 (into_sub_account R ?n)"
    using transferD(2)[OF laws h(7)] sub nsub by (metis le_add2)
  then have new: "loan_ok R \<lparr>creator = who, deposit = dep, min_contribution = mc, end_at = e, cap = cp,
            funds_account = into_sub_account R ?n, raised = dep, target_address = tgt,
            call = h, finalized = False, contributors_count = 1\<rparr> [who \<mapsto> dep] None
            (balance R s2 (into_sub_account R ?n))"
    using h(2,3,4,6) sub by (auto simp: loan_ok_def total_in_def split: option.splits)
  have "funds_account d = into_sub_account R j \<and> (\<not> finalized d \<longrightarrow>
      loan_ok R d (Contributions st' j) (MaxContributions st' j) (balance R (chain st') (funds_account d)))"
    if d: "Crowdloans st' j = Some d" for j d
  proof (cases "j = ?n")
    case True
    then show ?thesis
      using d st' new fresh by auto
  next
    case False
    then have dj: "Crowdloans st j = Some d"
      using d st' by auto
    show ?thesis
      using crowd_okD(1,3,5)[OF ok dj] grow[of j] False st'
      by (auto intro: loan_ok_held)
  qed
  moreover have "Crowdloans st' j = None \<and> dom (Contributions st' j) = {} \<and> MaxContributions st' j = None"
    if "NextCrowdloanId st' \<le> j" for j
    using that ok st' by (auto simp: crowd_ok_def)
  moreover have "NextCrowdloanId st' \<le> U32_MAX"
    using h(5) st' by simp
  ultimately show ?thesis unfolding crowd_ok_def by blast
qed

lemma crowd_ok_frame:
  "crowd_ok R (deposit_event v st) \<longleftrightarrow> crowd_ok R st"
  "crowd_ok R (st\<lparr>CurrentCrowdloanId := x\<rparr>) \<longleftrightarrow> crowd_ok R st"
  by (simp_all add: crowd_ok_def deposit_event_def)

lemma finalizeE:
  assumes "finalize R dispatch origin i st = Inr st'"
  obtains c st4 where "Crowdloans st i = Some c" "st' = deposit_event (Finalized i) st4"
    "ensure_signed R origin = Inr (creator c)" "\<not> finalized c"
    "raised c = cap c" "raised c \<le> balance R (chain st) (funds_account c)"
    "balance R (chain st4) (funds_account c) + raised c \<le> balance R (chain st) (funds_account c)"
    "CurrentCrowdloanId st4 = None"
    "(\<exists>h k st3. call c = Some h \<and> target_address c = None \<and> preimage_peek R (chain st) h = Inr k \<and>
        dispatch k origin (st\<lparr>Crowdloans := (Crowdloans st)(i \<mapsto> c\<lparr>finalized := True\<rparr>),
          CurrentCrowdloanId := Some i\<rparr>) = Inr st3 \<and> st4 = st3\<lparr>CurrentCrowdloanId := None\<rparr>) \<or>
     (\<exists>target s. call c = None \<and> target_address c = Some target \<and>
        transfer R (chain st) (funds_account c) target (raised c) = Inr s \<and>
        st4 = st\<lparr>Crowdloans := (Crowdloans st)(i \<mapsto> c\<lparr>finalized := True\<rparr>), chain := s\<rparr>)"
proof -
  show thesis
    using assms unfolding finalize_def
    apply (clarsimp simp: result_iffs Let_def insert_crowdloan_def checked_sub_def
        split: if_splits option.split_asm sum.split_asm)
    subgoal for c target s
      by (rule that[of c "st\<lparr>Crowdloans := (Crowdloans st)(i \<mapsto> c\<lparr>finalized := True\<rparr>), chain := s\<rparr>"])
        simp_all
    subgoal for c h k st3
      by (rule that[of c "st3\<lparr>CurrentCrowdloanId := None\<rparr>"]) simp_all
    done
qed

lemma finalize_ok:
  fixes R :: "('o, 'b, 'c, 'd, 's, 'e) runtime"
  assumes laws: "runtime_laws R ed" and ok: "crowd_ok R st" and res: "finalize R dispatch origin i st = Inr st'"
    and called: "\<And>c o' st1 st2. dispatch c o' st1 = Inr st2 \<Longrightarrow> crowd_ok R st1 \<Longrightarrow> crowd_ok R st2"
  shows "crowd_ok R st'"
proof (rule finalizeE[OF res])
  fix c :: "('b, 'd) CrowdloanInfo" and st4
  let ?c = "c\<lparr>finalized := True\<rparr>"
  assume c: "Crowdloans st i = Some c" "\<not> finalized c" and st': "st' = deposit_event (Finalized i) st4"
    and route: "(\<exists>h k st3. call c = Some h \<and> target_address c = None \<and> preimage_peek R (chain st) h = Inr k \<and>
        dispatch k origin (st\<lparr>Crowdloans := (Crowdloans st)(i \<mapsto> ?c),
          CurrentCrowdloanId := Some i\<rparr>) = Inr st3 \<and> st4 = st3\<lparr>CurrentCrowdloanId := None\<rparr>) \<or>
     (\<exists>target s. call c = None \<and> target_address c = Some target \<and>
        transfer R (chain st) (funds_account c) target (raised c) = Inr s \<and>
        st4 = st\<lparr>Crowdloans := (Crowdloans st)(i \<mapsto> ?c), chain := s\<rparr>)"
  note d = crowd_okD[OF ok c(1)]
  have marked: "crowd_ok R (st\<lparr>Crowdloans := (Crowdloans st)(i \<mapsto> ?c), CurrentCrowdloanId := Some i\<rparr>)"
    by (rule crowd_ok_update[OF ok c(1), of _ ?c "Contributions st i" "MaxContributions st i"])
      (simp_all add: d(1))
  have paid: "crowd_ok R (st\<lparr>Crowdloans := (Crowdloans st)(i \<mapsto> ?c), chain := s\<rparr>)"
    if t: "transfer R (chain st) (funds_account c) target (raised c) = Inr s" for target s
  proof -
    have "balance R (chain st) (into_sub_account R j) \<le> balance R s (into_sub_account R j)"
      if "j \<noteq> i" "j \<le> U32_MAX" for j
      using others_out[OF laws d(3)] t d(1) that by simp
    then show ?thesis
      by (intro crowd_ok_update[OF ok c(1), of _ ?c "Contributions st i" "MaxContributions st i"])
        (simp_all add: d(1))
  qed
  show ?thesis
    using route
  proof (elim disjE exE conjE)
    fix k st3
    assume "dispatch k origin (st\<lparr>Crowdloans := (Crowdloans st)(i \<mapsto> ?c), CurrentCrowdloanId := Some i\<rparr>) = Inr st3"
      and "st4 = st3\<lparr>CurrentCrowdloanId := None\<rparr>"
    then show ?thesis using called[OF _ marked] st' by (simp add: crowd_ok_frame)
  next
    fix target s
    assume "transfer R (chain st) (funds_account c) target (raised c) = Inr s"
      and "st4 = st\<lparr>Crowdloans := (Crowdloans st)(i \<mapsto> ?c), chain := s\<rparr>"
    then show ?thesis using paid st' by (simp add: crowd_ok_frame)
  qed
qed

lemma outside_ok:
  assumes "crowd_ok R st" and "\<And>i c. Crowdloans st i = Some c \<Longrightarrow> \<not> finalized c \<Longrightarrow>
      balance R (chain st) (funds_account c) \<le> balance R s (funds_account c)"
  shows "crowd_ok R (st\<lparr>chain := s\<rparr>)"
  using assms loan_ok_held by (fastforce simp: crowd_ok_def)

lemma crowd_step_run_ok:
  fixes R :: "('o, 'a, 'c, 'h, 's, 'd) runtime"
  assumes laws: "runtime_laws R ed"
  shows "crowd_step R st1 st2 \<Longrightarrow> crowd_ok R st1 \<Longrightarrow> crowd_ok R st2"
    and "crowd_run R st3 st4 \<Longrightarrow> crowd_ok R st3 \<Longrightarrow> crowd_ok R st4"
proof (induction rule: crowd_step_crowd_run.inducts)
  case (step_create origin dep mc c e co t st st')
  show ?case by (rule create_ok[OF laws step_create(2,1)])
next
  case (step_contribute origin i amount st st')
  show ?case by (rule contribute_ok[OF laws step_contribute(2,1)])
next
  case (step_withdraw origin i st st')
  show ?case by (rule withdraw_ok[OF laws step_withdraw(2,1)])
next
  case (step_finalize dispatch origin i st st')
  show ?case by (rule finalize_ok[OF laws step_finalize(4,1)]) (rule step_finalize(3))
next
  case (step_refund origin i st st')
  show ?case by (rule refund_ok[OF laws step_refund(2,1)])
next
  case (step_dissolve origin i st st')
  show ?case by (rule dissolve_ok[OF laws step_dissolve(2,1)])
next
  case (step_set_min origin i v st st')
  show ?case by (rule update_min_contribution_ok[OF step_set_min(2,1)])
next
  case (step_set_end origin i v st st')
  show ?case by (rule update_end_ok[OF step_set_end(2,1)])
next
  case (step_set_cap origin i v st st')
  show ?case by (rule update_cap_ok[OF step_set_cap(2,1)])
next
  case (step_set_max origin i vo st st')
  show ?case by (rule set_max_contribution_ok[OF step_set_max(2,1)])
next
  case (step_outside st s)
  show ?case by (rule outside_ok[OF step_outside(2,1)])
qed (simp_all)


section \<open>Finalized crowdloans\<close>

definition settled :: "nat \<Rightarrow> ('a, 'h) CrowdloanInfo \<Rightarrow> ('a \<Rightarrow> nat option) \<Rightarrow> ('a, 'h, 's) crowdloan_storage \<Rightarrow> bool" where
  "settled i c K st \<longleftrightarrow> i < NextCrowdloanId st \<and> Crowdloans st i = Some c \<and> Contributions st i = K \<and>
     finalized c \<and> raised c = cap c"

lemma settled_frame:
  assumes "settled i c K st" "NextCrowdloanId st \<le> NextCrowdloanId st'"
    "Crowdloans st' i = Crowdloans st i" "Contributions st' i = Contributions st i"
  shows "settled i c K st'"
  using assms by (simp add: settled_def)

lemma settled_elsewhere:
  assumes "settled i c K st" "j \<noteq> i" "NextCrowdloanId st \<le> NextCrowdloanId st'"
    "Crowdloans st' = (Crowdloans st)(j := x)" "Contributions st' = (Contributions st)(j := y)"
  shows "settled i c K st'"
  using assms by (simp add: settled_def)

lemma create_settled:
  "create R origin dep mc cp e co tgt st = Inr st' \<Longrightarrow> settled i c K st \<Longrightarrow> settled i c K st'"
  by (erule createE, rule settled_elsewhere) (auto simp: settled_def)

lemma contribute_settled:
  "contribute R origin j amount st = Inr st' \<Longrightarrow> settled i c K st \<Longrightarrow> settled i c K st'"
  by (erule contributeE) (auto simp: settled_def op_simps)

lemma withdraw_settled:
  "withdraw R origin j st = Inr st' \<Longrightarrow> settled i c K st \<Longrightarrow> settled i c K st'"
  by (erule withdrawE) (auto simp: settled_def op_simps)

lemma refund_settled:
  "refund R origin j st = Inr st' \<Longrightarrow> settled i c K st \<Longrightarrow> settled i c K st'"
  by (erule refundE) (auto simp: settled_def deposit_event_def insert_crowdloan_def fold_remove_contribution)

lemma dissolve_settled:
  "dissolve R origin j st = Inr st' \<Longrightarrow> settled i c K st \<Longrightarrow> settled i c K st'"
  by (erule dissolveE) (auto simp: settled_def)

lemma settings_settled:
  "update_min_contribution R origin j v st = Inr st' \<Longrightarrow> settled i c K st \<Longrightarrow> settled i c K st'"
  "update_end R origin j v st = Inr st' \<Longrightarrow> settled i c K st \<Longrightarrow> settled i c K st'"
  "update_cap R origin j v st = Inr st' \<Longrightarrow> settled i c K st \<Longrightarrow> settled i c K st'"
  "set_max_contribution R origin j vo st = Inr st' \<Longrightarrow> settled i c K st \<Longrightarrow> settled i c K st'"
  by (auto simp: settled_def update_min_contribution_def update_end_def update_cap_def
      set_max_contribution_def op_simps split: if_splits option.splits)

lemma finalize_via:
  fixes R :: "('o, 'a, 'c, 'h, 's, 'd) runtime"
  assumes res: "finalize R dispatch origin j st = Inr st'"
    and marked: "\<And>d. Crowdloans st j = Some d \<Longrightarrow> \<not> finalized d \<Longrightarrow> raised d = cap d \<Longrightarrow>
      P (st\<lparr>Crowdloans := (Crowdloans st)(j \<mapsto> d\<lparr>finalized := True\<rparr>), CurrentCrowdloanId := Some j\<rparr>)"
    and called: "\<And>k o' st1 st2. dispatch k o' st1 = Inr st2 \<Longrightarrow> P st1 \<Longrightarrow> P st2"
    and frame: "\<And>st st'. P st \<Longrightarrow> NextCrowdloanId st' = NextCrowdloanId st \<Longrightarrow> Crowdloans st' = Crowdloans st \<Longrightarrow>
      Contributions st' = Contributions st \<Longrightarrow> P st'"
  shows "P st'"
proof (rule finalizeE[OF res])
  fix d :: "('a, 'h) CrowdloanInfo" and st4
  let ?st = "st\<lparr>Crowdloans := (Crowdloans st)(j \<mapsto> d\<lparr>finalized := True\<rparr>), CurrentCrowdloanId := Some j\<rparr>"
  assume d: "Crowdloans st j = Some d" "\<not> finalized d" "raised d = cap d" and st': "st' = deposit_event (Finalized j) st4"
    and route: "(\<exists>h k st3. call d = Some h \<and> target_address d = None \<and> preimage_peek R (chain st) h = Inr k \<and>
        dispatch k origin ?st = Inr st3 \<and> st4 = st3\<lparr>CurrentCrowdloanId := None\<rparr>) \<or>
     (\<exists>target s. call d = None \<and> target_address d = Some target \<and>
        transfer R (chain st) (funds_account d) target (raised d) = Inr s \<and>
        st4 = st\<lparr>Crowdloans := (Crowdloans st)(j \<mapsto> d\<lparr>finalized := True\<rparr>), chain := s\<rparr>)"
  note m = marked[OF d]
  have "\<exists>st3. P st3 \<and> NextCrowdloanId st4 = NextCrowdloanId st3 \<and> Crowdloans st4 = Crowdloans st3 \<and>
      Contributions st4 = Contributions st3"
    using route
  proof (elim disjE exE conjE)
    fix k st3 assume "dispatch k origin ?st = Inr st3" "st4 = st3\<lparr>CurrentCrowdloanId := None\<rparr>"
    then show ?thesis using called[OF _ m] by (intro exI[of _ st3]) simp
  next
    fix s assume "st4 = st\<lparr>Crowdloans := (Crowdloans st)(j \<mapsto> d\<lparr>finalized := True\<rparr>), chain := s\<rparr>"
    then show ?thesis using m by (intro exI[of _ ?st]) simp
  qed
  then show ?thesis using st' by (auto simp: deposit_event_def intro: frame)
qed

lemma finalize_settled:
  assumes res: "finalize R dispatch origin j st = Inr st'" and s: "settled i c K st"
    and called: "\<And>k o' st1 st2. dispatch k o' st1 = Inr st2 \<Longrightarrow> settled i c K st1 \<Longrightarrow> settled i c K st2"
  shows "settled i c K st'"
proof (rule finalize_via[OF res])
  fix k o' st1 st2
  assume "dispatch k o' st1 = Inr st2" "settled i c K st1"
  then show "settled i c K st2" by (rule called)
qed (use s in \<open>auto simp: settled_def\<close>)

lemma crowd_run_settled:
  fixes R :: "('o, 'a, 'c, 'h, 's, 'd) runtime"
  shows "crowd_step R st1 st2 \<Longrightarrow> settled i c K st1 \<Longrightarrow> settled i c K st2"
    and "crowd_run R st3 st4 \<Longrightarrow> settled i c K st3 \<Longrightarrow> settled i c K st4"
proof (induction rule: crowd_step_crowd_run.inducts)
  case (step_finalize dispatch origin i st st')
  show ?case by (rule finalize_settled[OF step_finalize(1,4)]) (rule step_finalize(3))
next
  case (step_outside st s)
  then show ?case by (simp add: settled_def)
qed (assumption | erule (1) create_settled contribute_settled withdraw_settled refund_settled dissolve_settled
    settings_settled | simp)+

lemma finalize_settles:
  fixes R :: "('o, 'a, 'c, 'h, 's, 'd) runtime"
  assumes ok: "crowd_ok R st" and res: "finalize R dispatch origin i st = Inr st'" and c: "Crowdloans st i = Some c"
    and called: "\<And>k o' st1 st2. dispatch k o' st1 = Inr st2 \<Longrightarrow> crowd_run R st1 st2"
  shows "settled i (c\<lparr>finalized := True\<rparr>) (Contributions st i) st'"
  by (rule finalize_via[OF res _ crowd_run_settled(2)[OF called]])
    (use c crowd_okD(2)[OF ok c] in \<open>auto simp: settled_def\<close>)

section \<open>Refunds\<close>

lemma refund_loop_paid:
  assumes laws: "runtime_laws R ed"
    and "refund_loop R funds items acc n r s = Inr (acc', n', r', s', done')"
    and "\<And>a v. (a, v) \<in> set items \<Longrightarrow> a \<noteq> funds" "distinct (map fst items)"
    "n \<le> RefundContributorsLimit R"
  defines "paid \<equiv> take (RefundContributorsLimit R - n) items"
  shows "acc' = acc @ map fst paid \<and> n' = n + length paid \<and>
    (done' \<longleftrightarrow> length items \<le> RefundContributorsLimit R - n) \<and>
    (\<forall>a. a \<noteq> funds \<longrightarrow> balance R s' a = balance R s a + unwrap_or (map_of paid a) 0)"
  using assms(2-5) unfolding paid_def
proof (induction items arbitrary: acc n r s)
  case Nil
  then show ?case by auto
next
  case (Cons item items)
  obtain a v where item: "item = (a, v)" by (cases item)
  show ?case
  proof (cases "RefundContributorsLimit R \<le> n")
    case True
    then show ?thesis using Cons.prems item by auto
  next
    case False
    then obtain s1 where t: "transfer R s funds a v = Inr s1"
      and loop: "refund_loop R funds items (acc @ [a]) (n + 1) (r - v) s1 = Inr (acc', n', r', s', done')"
      using Cons.prems(1) item by (auto simp: result_iffs checked_add_Some_iff)
    have ne: "a \<noteq> funds" using Cons.prems(2)[of a v] item by simp
    define rest where "rest = take (RefundContributorsLimit R - (n + 1)) items"
    have lim: "RefundContributorsLimit R - n = Suc (RefundContributorsLimit R - (n + 1))" using False by simp
    have tk: "take (RefundContributorsLimit R - n) (item # items) = (a, v) # rest"
      unfolding lim rest_def item by simp
    have ih: "acc' = (acc @ [a]) @ map fst rest \<and> n' = n + 1 + length rest \<and>
      (done' \<longleftrightarrow> length items \<le> RefundContributorsLimit R - (n + 1)) \<and>
      (\<forall>b. b \<noteq> funds \<longrightarrow> balance R s' b = balance R s1 b + unwrap_or (map_of rest b) 0)"
      unfolding rest_def by (rule Cons.IH[OF loop]) (use Cons.prems(2,3) item False in auto)
    have "map_of rest a = None"
      using Cons.prems(3) item by (auto simp: rest_def map_of_eq_None_iff dest: in_set_takeD)
    then have "balance R s' b = balance R s b + unwrap_or (map_of ((a, v) # rest) b) 0" if "b \<noteq> funds" for b
      using ih transferD(2,5)[OF laws t] ne that by (cases "b = a") auto
    then show ?thesis using ih False unfolding tk by auto
  qed
qed

section \<open>Properties\<close>

definition genesis :: "('a, 'h, 's) crowdloan_storage \<Rightarrow> bool" where
  "genesis st \<longleftrightarrow> NextCrowdloanId st = 0 \<and> Crowdloans st = Map.empty \<and> Contributions st = (\<lambda>_. Map.empty) \<and>
     MaxContributions st = Map.empty"

lemma reachable_ok:
  fixes R :: "('o, 'a, 'c, 'h, 's, 'd) runtime"
  assumes "runtime_laws R ed" "genesis st0" "crowd_run R st0 st"
  shows "crowd_ok R st"
  by (rule crowd_step_run_ok(2)[OF assms(1,3)]) (use assms(2) in \<open>simp add: genesis_def crowd_ok_def\<close>)

text \<open>
  C9: In every state the chain reaches from an empty pallet, a crowdloan that is not finalized has
  raised exactly the sum of its contributions, counts exactly its contributors, is within its cap and
  keeps the creator's deposit in, and its funds account holds at least what was raised.
\<close>

theorem crowdloan_accounting:
  fixes R :: "('o, 'a, 'c, 'h, 's, 'd) runtime"
  assumes "runtime_laws R ed" "genesis st0" "crowd_run R st0 st"
    and "Crowdloans st i = Some c" "\<not> finalized c"
  shows "raised c = (\<Sum>a\<in>dom (Contributions st i). the (Contributions st i a)) \<and>
    contributors_count c = card (dom (Contributions st i)) \<and>
    raised c \<le> cap c \<and> raised c \<le> balance R (chain st) (funds_account c) \<and>
    MinimumDeposit R \<le> deposit c \<and> deposit c \<le> unwrap_or (Contributions st i (creator c)) 0"
  using crowd_okD(5)[OF reachable_ok[OF assms(1-3)] assms(4,5)] by (simp add: loan_ok_def total_in_def)

text \<open>
  C11: Finalization happens once and for good: it needs the creator's signature and the full cap, the
  funds account has lost at least the raised amount when it succeeds, and no later activity (the
  dispatched call included) changes the crowdloan or its contributions again.
\<close>

theorem finalized_forever:
  fixes R :: "('o, 'a, 'c, 'h, 's, 'd) runtime"
  assumes "runtime_laws R ed" "genesis st0" "crowd_run R st0 st" "Crowdloans st i = Some c"
    and "finalize R dispatch origin i st = Inr st'"
    and "\<And>k o' st1 st2. dispatch k o' st1 = Inr st2 \<Longrightarrow> crowd_run R st1 st2"
    and "crowd_run R st' st''"
  shows "ensure_signed R origin = Inr (creator c) \<and> raised c = cap c \<and> \<not> finalized c \<and>
    balance R (chain st') (funds_account c) + raised c \<le> balance R (chain st) (funds_account c) \<and>
    Crowdloans st'' i = Some (c\<lparr>finalized := True\<rparr>) \<and> Contributions st'' i = Contributions st i"
proof -
  have "settled i (c\<lparr>finalized := True\<rparr>) (Contributions st i) st''"
    by (rule crowd_run_settled(2)[OF assms(7)], rule finalize_settles[OF reachable_ok[OF assms(1-3)] assms(5,4)])
      (rule assms(6))
  moreover have "ensure_signed R origin = Inr (creator c) \<and> raised c = cap c \<and> \<not> finalized c \<and>
    balance R (chain st') (funds_account c) + raised c \<le> balance R (chain st) (funds_account c)"
    by (rule finalizeE[OF assms(5)]) (use assms(4) in \<open>simp add: deposit_event_def\<close>)
  ultimately show ?thesis by (simp add: settled_def)
qed

lemma refund_shape:
  fixes R :: "('o, 'a, 'c, 'h, 's, 'd) runtime"
  assumes laws: "runtime_laws R ed" and ok: "crowd_ok R st" and res: "refund R origin i st = Inr st'"
    and c: "Crowdloans st i = Some c"
  obtains items paid r n where
    "Crowdloans st' i = Some (c\<lparr>raised := r, contributors_count := n\<rparr>)"
    "\<not> finalized c" "distinct (map fst items)"
    "\<And>a v. (a, v) \<in> set items \<longleftrightarrow> Contributions st i a = Some v \<and> a \<noteq> creator c"
    "paid = take (RefundContributorsLimit R) items"
    "Contributions st' i = drop_keys (map fst paid) (Contributions st i)"
    "\<And>a. a \<noteq> funds_account c \<Longrightarrow> balance R (chain st') a = balance R (chain st) a + unwrap_or (map_of paid a) 0"
    "length items + 1 = contributors_count c"
    "Events st' = Events st @ [if length items \<le> RefundContributorsLimit R then AllRefunded i else PartiallyRefunded i]"
proof -
  obtain who xs n r s all where h: "\<not> finalized c"
    "refund_loop R (funds_account c)
       (filter (\<lambda>(a, _). a \<noteq> creator c) (iter_prefix R (Contributions st i))) [] 0 (raised c) (chain st) =
       Inr (xs, n, r, s, all)"
    "st' = deposit_event (if all then AllRefunded i else PartiallyRefunded i)
       (fold (remove_contribution i) xs
         (insert_crowdloan i (c\<lparr>raised := r, contributors_count := contributors_count c - n\<rparr>) (st\<lparr>chain := s\<rparr>)))"
    by (rule refundE[OF res]) (use c in auto)
  define items where "items = filter (\<lambda>(a, _). a \<noteq> creator c) (iter_prefix R (Contributions st i))"
  note d = crowd_okD[OF ok c]
  note l = d(5)[OF h(1)]
  have fin: "finite (dom (Contributions st i))" using l by (simp add: loan_ok_def)
  have dist: "distinct (map fst items)" using contributions_list(1)[OF laws fin] by (simp add: items_def)
  have mem: "(a, v) \<in> set items \<longleftrightarrow> Contributions st i a = Some v \<and> a \<noteq> creator c" for a v
    using contributions_list(2)[OF laws fin, of a v "\<lambda>(a, _). a \<noteq> creator c"] by (simp add: items_def)
  have ne: "a \<noteq> funds_account c" if "(a, v) \<in> set items" for a v
    using mem that l d(4) by (auto simp: loan_ok_def)
  note paid = refund_loop_paid[OF laws h(2)[folded items_def] ne dist, simplified]
  have "set (map fst items) = dom (Contributions st i) - {creator c}"
    using mem by force
  then have "length items = card (dom (Contributions st i) - {creator c})"
    using distinct_card[OF dist] by simp
  moreover have "contributors_count c = Suc (card (dom (Contributions st i) - {creator c}))"
    using l card.remove[OF fin, of "creator c"] by (auto simp: loan_ok_def)
  ultimately have cnt: "length items + 1 = contributors_count c" by simp
  show thesis
  proof (rule that[OF _ h(1) dist mem refl _ _ cnt])
    show "Crowdloans st' i = Some (c\<lparr>raised := r, contributors_count := contributors_count c - n\<rparr>)"
      using h(3) by (simp add: deposit_event_def insert_crowdloan_def fold_remove_contribution)
    show "Contributions st' i = drop_keys (map fst (take (RefundContributorsLimit R) items)) (Contributions st i)"
      using conjunct1[OF paid] h(3)
      by (simp add: deposit_event_def insert_crowdloan_def fold_remove_contribution)
    show "balance R (chain st') a = balance R (chain st) a +
        unwrap_or (map_of (take (RefundContributorsLimit R) items) a) 0" if "a \<noteq> funds_account c" for a
      using paid that h(3) by (simp add: deposit_event_def insert_crowdloan_def fold_remove_contribution)
    show "Events st' = Events st @ [if length items \<le> RefundContributorsLimit R then AllRefunded i
        else PartiallyRefunded i]"
      using paid h(3) by (simp add: deposit_event_def insert_crowdloan_def fold_remove_contribution)
  qed
qed

text \<open>
  C25: One refund pays back as many contributors as the limit allows, each exactly the contribution that
  is removed, and nobody else's balance grows; when only the creator is left it reports a full refund
  and leaves the crowdloan ready to be dissolved, otherwise it reports a partial one.
\<close>

theorem refund_progress:
  fixes R :: "('o, 'a, 'c, 'h, 's, 'd) runtime"
  assumes "runtime_laws R ed" "genesis st0" "crowd_run R st0 st" "Crowdloans st i = Some c"
    and "refund R origin i st = Inr st'"
  shows "\<exists>c' paid. Crowdloans st' i = Some c' \<and> creator c' = creator c \<and>
    finite paid \<and> card paid = min (RefundContributorsLimit R) (contributors_count c - 1) \<and>
    contributors_count c' + card paid = contributors_count c \<and>
    (\<forall>a. Contributions st' i a = (if a \<in> paid then None else Contributions st i a)) \<and>
    (\<forall>a. a \<noteq> funds_account c \<longrightarrow> balance R (chain st') a =
       balance R (chain st) a + (if a \<in> paid then unwrap_or (Contributions st i a) 0 else 0)) \<and>
    (if contributors_count c' = 1
     then Events st' = Events st @ [AllRefunded i] \<and> Contributions st' i (creator c) = Some (raised c')
     else Events st' = Events st @ [PartiallyRefunded i])"
proof -
  note ok = reachable_ok[OF assms(1-3)]
  obtain items paid r n where
    c': "Crowdloans st' i = Some (c\<lparr>raised := r, contributors_count := n\<rparr>)" "\<not> finalized c"
    and items: "distinct (map fst items)"
    "\<And>a v. (a, v) \<in> set items \<longleftrightarrow> Contributions st i a = Some v \<and> a \<noteq> creator c"
    "paid = take (RefundContributorsLimit R) items" "length items + 1 = contributors_count c"
    and K': "Contributions st' i = drop_keys (map fst paid) (Contributions st i)"
    and bal: "\<And>a. a \<noteq> funds_account c \<Longrightarrow>
      balance R (chain st') a = balance R (chain st) a + unwrap_or (map_of paid a) 0"
    and ev: "Events st' = Events st @ [if length items \<le> RefundContributorsLimit R then AllRefunded i else PartiallyRefunded i]"
    by (rule refund_shape[OF assms(1) ok assms(5,4)]) blast
  let ?c = "c\<lparr>raised := r, contributors_count := n\<rparr>" and ?P = "set (map fst paid)"
  have l: "loan_ok R ?c (Contributions st' i) (MaxContributions st' i) (balance R (chain st') (funds_account c))"
    using crowd_okD(5)[OF refund_ok[OF assms(1) ok assms(5)] c'(1)] c'(2) by simp
  have cnt: "contributors_count c = card (dom (Contributions st i))" "finite (dom (Contributions st i))"
    using crowd_okD(5)[OF ok assms(4) c'(2)] by (simp_all add: loan_ok_def)
  have dist: "distinct (map fst paid)" unfolding items(3) take_map[symmetric] using items(1) by simp
  have card: "card ?P = min (RefundContributorsLimit R) (contributors_count c - 1)"
    using distinct_card[OF dist] items(3,4) by simp
  have mem: "Contributions st i a = Some v" if "(a, v) \<in> set paid" for a v
    using that items(2,3) by (auto dest: in_set_takeD)
  have pm: "map_of paid a = (if a \<in> ?P then Contributions st i a else None)" for a
  proof (cases "map_of paid a")
    case None
    then show ?thesis by (simp add: map_of_eq_None_iff)
  next
    case (Some v)
    then show ?thesis using mem[OF map_of_SomeD] by (force dest: map_of_SomeD)
  qed
  have n: "n + card ?P = contributors_count c"
    using l cnt drop_keys_total[OF cnt(2) dist mem] distinct_card[OF dist] K' by (simp add: loan_ok_def)
  have one: "Contributions st' i (creator c) = Some r" if "n = 1"
  proof -
    have "card (dom (Contributions st' i)) = 1" "creator c \<in> dom (Contributions st' i)"
      using l that by (simp_all add: loan_ok_def)
    then have "dom (Contributions st' i) = {creator c}" by (elim card_1_singletonE) simp
    moreover from this obtain v where "Contributions st' i (creator c) = Some v" by blast
    ultimately show ?thesis using l by (simp add: loan_ok_def total_in_def)
  qed
  have "n = 1 \<longleftrightarrow> length items \<le> RefundContributorsLimit R" using n card items(4) by auto
  then show ?thesis
    using c'(1) card n one ev bal pm K'
    by (intro exI[of _ ?c], rule_tac x = ?P in exI) (auto simp: drop_keys_def)
qed

text \<open>
  C27: A withdrawal pays the caller exactly the contribution, or for the creator what exceeds the
  deposit, and lowers the raised amount by as much.
\<close>

theorem withdraw_exact:
  fixes R :: "('o, 'a, 'c, 'h, 's, 'd) runtime"
  assumes "runtime_laws R ed" "genesis st0" "crowd_run R st0 st" "Crowdloans st i = Some c"
    and "ensure_signed R origin = Inr who" "withdraw R origin i st = Inr st'"
  defines "kept \<equiv> if who = creator c then deposit c else 0"
    and "had \<equiv> unwrap_or (Contributions st i who) 0"
  shows "\<not> finalized c \<and> kept < had \<and>
    balance R (chain st') who = balance R (chain st) who + (had - kept) \<and>
    (\<exists>c'. Crowdloans st' i = Some c' \<and> raised c' + (had - kept) = raised c) \<and>
    Contributions st' i = (Contributions st i)(who := if who = creator c then Some (deposit c) else None)"
proof -
  note ok = reachable_ok[OF assms(1-3)]
  obtain v amount K' n s where h: "\<not> finalized c" "Contributions st i who = Some v" "0 < amount"
    "if who = creator c then amount + deposit c = v \<and> K' = (Contributions st i)(who \<mapsto> deposit c) \<and>
         n = contributors_count c
       else amount = v \<and> K' = (Contributions st i)(who := None) \<and> n + 1 = contributors_count c"
    "transfer R (chain st) (funds_account c) who amount = Inr s"
    "st' = deposit_event (Withdrew i who amount)
       (insert_crowdloan i (c\<lparr>contributors_count := n, raised := raised c - amount\<rparr>)
         (st\<lparr>Contributions := (Contributions st)(i := K'), chain := s\<rparr>))"
    by (rule withdrawE[OF assms(6)]) (use assms(4,5) in auto)
  have amount: "amount = had - kept" "kept < had" using h(2-4) by (auto simp: had_def kept_def split: if_splits)
  have "finite (dom (Contributions st i))" "raised c = total_in (Contributions st i)"
    using crowd_okD(5)[OF ok assms(4) h(1)] by (simp_all add: loan_ok_def)
  then have "amount \<le> raised c"
    using contribution_le_total[of "Contributions st i" who] amount(1) by (simp add: had_def)
  moreover have "funds_account c \<noteq> who" using signer_no_sub[OF assms(1,5)] crowd_okD(4)[OF ok assms(4)] by auto
  then have "balance R s who = balance R (chain st) who + amount" using transferD(2)[OF assms(1) h(5)] by simp
  moreover have "K' = (Contributions st i)(who := if who = creator c then Some (deposit c) else None)"
    using h(4) by (simp split: if_splits)
  ultimately show ?thesis
    using h(1,6) amount by (simp add: deposit_event_def insert_crowdloan_def)
qed

text \<open>
  C29: A contribution is cut down to the room below the cap and below the maximum per contributor, and
  exactly the accepted amount reaches the funds account, the contributor's entry and the raised total.
\<close>

theorem contribute_bounded:
  fixes R :: "('o, 'a, 'c, 'h, 's, 'd) runtime"
  assumes "runtime_laws R ed" "genesis st0" "crowd_run R st0 st" "Crowdloans st i = Some c"
    and "ensure_signed R origin = Inr who" "contribute R origin i requested st = Inr st'"
  defines "had \<equiv> unwrap_or (Contributions st i who) 0"
  defines "amount \<equiv> min requested (min (cap c - raised c)
      (case MaxContributions st i of None \<Rightarrow> requested | Some m \<Rightarrow> m - had))"
  shows "raised c < cap c \<and> min_contribution c \<le> requested \<and> block_number R (chain st) < end_at c \<and>
    (\<exists>c'. Crowdloans st' i = Some c' \<and> raised c' = raised c + amount \<and> raised c' \<le> cap c') \<and>
    Contributions st' i = (Contributions st i)(who \<mapsto> had + amount) \<and>
    balance R (chain st') (funds_account c) = balance R (chain st) (funds_account c) + amount \<and>
    (case MaxContributions st i of None \<Rightarrow> True | Some m \<Rightarrow> had + amount \<le> m)"
proof -
  note ok = reachable_ok[OF assms(1-3)]
  obtain a v n s where h: "block_number R (chain st) < end_at c"
    "raised c < cap c" "min_contribution c \<le> requested"
    "accepted_amount st i who requested (cap c - raised c) = (Inr a :: 'd DispatchError + nat)"
    "v = unwrap_or (Contributions st i who) 0 + a"
    "transfer R (chain st) who (funds_account c) a = Inr s"
    "st' = deposit_event (Contributed i who a)
       (insert_crowdloan i (c\<lparr>raised := raised c + a, contributors_count := n\<rparr>)
         (insert_contribution i who v (st\<lparr>chain := s\<rparr>)))"
    by (rule contributeE[OF assms(6)]) (use assms(4,5) in auto)
  have a: "a = amount"
    using h(4) by (auto simp: accepted_amount_def amount_def had_def result_iffs checked_sub_Some_iff Let_def
        split: option.splits if_splits)
  have "case MaxContributions st i of None \<Rightarrow> True | Some m \<Rightarrow> had + amount \<le> m"
    using accepted_amount_le(3)[OF h(4)] a by (simp add: had_def split: option.split)
  moreover have "raised c + amount \<le> cap c" using h(2) by (simp add: amount_def)
  moreover have "who \<noteq> funds_account c" using signer_no_sub[OF assms(1,5)] crowd_okD(4)[OF ok assms(4)] by auto
  then have "balance R s (funds_account c) = balance R (chain st) (funds_account c) + amount"
    using transferD(2)[OF assms(1) h(6)] a by simp
  ultimately show ?thesis
    using h(1-3,5,7) a by (simp add: had_def deposit_event_def insert_crowdloan_def insert_contribution_def)
qed

text \<open>
  A signed caller who is not the creator, or anyone once the crowdloan is finalized, cannot refund,
  dissolve, change or finalize a crowdloan, and the error says which.
\<close>

lemma managed_by_creator_only:
  fixes R :: "('o, 'a, 'c, 'h, 's, 'd) runtime"
  assumes "ensure_signed R origin = Inr who" "Crowdloans st i = Some c" "finalized c \<or> who \<noteq> creator c"
  defines "refused \<equiv> Module (if finalized c then AlreadyFinalized else InvalidOrigin)"
  shows "refund R origin i st = Inl refused \<and> dissolve R origin i st = Inl refused \<and>
    update_min_contribution R origin i v st = Inl refused \<and> update_end R origin i v st = Inl refused \<and>
    update_cap R origin i v st = Inl refused \<and> set_max_contribution R origin i vo st = Inl refused \<and>
    finalize R dispatch origin i st \<noteq> Inr st'"
  using assms by (auto simp: refused_def refund_def dissolve_def update_min_contribution_def update_end_def
      update_cap_def set_max_contribution_def ext_def ensure_crowdloan_exists_def ok_or_def Let_def
      elim!: finalizeE)

section \<open>An instance of the runtime\<close>

text \<open>
  Accounts are numbers, the derived accounts start at 1000, the chain state is the balances, a call
  is its own preimage.
\<close>

definition example_runtime :: "(nat, nat, nat, nat, nat \<Rightarrow> nat, string) runtime" where
  "example_runtime =
     \<lparr>ensure_signed = (\<lambda>origin. if origin < 1000 then Inr origin else Inl ''BadOrigin''),
      block_number = (\<lambda>_. 3), balance = (\<lambda>s. s),
      transfer = (\<lambda>s src dst amount.
        if s src < amount then Inl ''FundsUnavailable''
        else let s1 = s(src := s src - amount) in Inr (s1(dst := s1 dst + amount))),
      inc_providers = (\<lambda>s _. s), dec_providers = (\<lambda>s _. s),
      preimage_bound = (\<lambda>s c. Inr (c, s)), preimage_peek = (\<lambda>s h. Inr h), preimage_drop = (\<lambda>s _. s),
      into_sub_account = (\<lambda>i. i + 1000),
      iter_prefix = (\<lambda>K. map (\<lambda>a. (a, the (K a))) (sorted_list_of_set (dom K))),
      MinimumDeposit = 10, AbsoluteMinimumContribution = 2, MinimumBlockDuration = 4,
      MaximumBlockDuration = 90, RefundContributorsLimit = 2, MaxContributors = 50\<rparr>"

lemma example_laws: "runtime_laws example_runtime 10"
  by (auto simp: runtime_laws_def example_runtime_def is_sub_account_def Let_def inj_on_def comp_def
      split: if_splits)

definition example_genesis :: "(nat, nat, nat \<Rightarrow> nat) crowdloan_storage" where
  "example_genesis = \<lparr>Crowdloans = Map.empty, NextCrowdloanId = 0, Contributions = (\<lambda>_. Map.empty),
     MaxContributions = Map.empty, CurrentCrowdloanId = None, Events = [],
     chain = (\<lambda>a. if a = 5 \<or> a = 7 then 100 else 0)\<rparr>"


text \<open>Account 7 opens a crowdloan paying to account 9, and account 5 offers 40 of which 20 fit.\<close>

definition example_loan :: "(nat, nat) CrowdloanInfo" where
  "example_loan = \<lparr>creator = 7, deposit = 10, min_contribution = 2, end_at = 50, cap = 30,
     funds_account = 1000, raised = 10, target_address = Some 9, call = None, finalized = False,
     contributors_count = 1\<rparr>"

definition example_open :: "(nat, nat, nat \<Rightarrow> nat) crowdloan_storage" where
  "example_open = example_genesis\<lparr>NextCrowdloanId := 1, Crowdloans := [0 \<mapsto> example_loan],
     chain := (chain example_genesis)(7 := 90, 1000 := 10),
     Contributions := (\<lambda>_. Map.empty)(0 := [7 \<mapsto> 10]), Events := [Created 0 7 50 30]\<rparr>"

definition example_full :: "(nat, nat, nat \<Rightarrow> nat) crowdloan_storage" where
  "example_full = example_open\<lparr>chain := (chain example_open)(5 := 80, 1000 := 30),
     Contributions := (\<lambda>_. Map.empty)(0 := [7 \<mapsto> 10, 5 \<mapsto> 20]),
     Crowdloans := [0 \<mapsto> example_loan\<lparr>raised := 30, contributors_count := 2\<rparr>],
     Events := [Created 0 7 50 30, Contributed 0 5 20]\<rparr>"

lemmas example_defs = example_runtime_def example_genesis_def example_loan_def example_open_def example_full_def

lemmas run_defs = ext_def ok_or_def checked_add_def checked_sub_def saturating_sub_def saturating_add_def Let_def
  deposit_event_def insert_crowdloan_def insert_contribution_def remove_contribution_def
  ensure_crowdloan_exists_def

lemma example_created:
  "create example_runtime 7 10 2 30 50 None (Some 9) example_genesis = Inr example_open"
  by (simp add: create_def example_defs run_defs ensure_valid_end_def U32_MAX_def fun_eq_iff)

lemma example_contributed: "contribute example_runtime 5 0 40 example_open = Inr example_full"
  by (simp add: contribute_def accepted_amount_def example_defs run_defs U32_MAX_def U64_MAX_def numeral_2_eq_2)

lemma example_run: "genesis example_genesis" "crowd_run example_runtime example_genesis example_open"
  "crowd_run example_runtime example_genesis example_full"
proof -
  show "genesis example_genesis" by (simp add: genesis_def example_genesis_def)
  show opened: "crowd_run example_runtime example_genesis example_open"
    by (rule run_step[OF run_refl step_create[OF example_created]])
  show "crowd_run example_runtime example_genesis example_full"
    by (rule run_step[OF opened step_contribute[OF example_contributed]])
qed

lemma example_full_loan:
  "Crowdloans example_full 0 = Some (example_loan\<lparr>raised := 30, contributors_count := 2\<rparr>)"
  by (simp add: example_full_def)

lemma crowdloan_accounting_witness:
  "raised (the (Crowdloans example_full 0)) =
     (\<Sum>a\<in>dom (Contributions example_full 0). the (Contributions example_full 0 a)) \<and>
   raised (the (Crowdloans example_full 0)) = 30"
  using crowdloan_accounting[OF example_laws example_run(1,3) example_full_loan]
  by (simp add: example_full_def example_loan_def)

lemma contribute_bounded_witness:
  "\<exists>c'. Crowdloans example_full 0 = Some c' \<and> raised c' = 30"
  using contribute_bounded[OF example_laws example_run(1,2) _ _ example_contributed, of example_loan 5]
  by (simp add: example_defs)

lemma withdraw_exact_witness:
  "\<exists>st'. withdraw example_runtime 5 0 example_full = Inr st' \<and> balance example_runtime (chain st') 5 = 100 \<and>
     Contributions st' 0 = [7 \<mapsto> 10]"
proof -
  have "\<exists>st'. withdraw example_runtime 5 0 example_full = Inr st'"
    by (simp add: withdraw_def example_defs run_defs)
  then obtain st' where st': "withdraw example_runtime 5 0 example_full = Inr st'" by blast
  show ?thesis
    using withdraw_exact[OF example_laws example_run(1,3) example_full_loan _ st', of 5] st'
    by (simp add: example_defs fun_upd_twist)
qed

lemma example_finalized:
  "\<exists>st'. finalize example_runtime (\<lambda>_ _ _. Inl ''CallFiltered'') 7 0 example_full = Inr st'"
  by (simp add: finalize_def example_defs run_defs)

lemma finalized_forever_witness:
  "\<exists>st'. finalize example_runtime (\<lambda>_ _ _. Inl ''CallFiltered'') 7 0 example_full = Inr st' \<and>
     balance example_runtime (chain st') 1000 = 0 \<and> Contributions st' 0 = Contributions example_full 0"
proof -
  obtain st' where st': "finalize example_runtime (\<lambda>_ _ _. Inl ''CallFiltered'') 7 0 example_full = Inr st'"
    using example_finalized by blast
  show ?thesis
    using finalized_forever[OF example_laws example_run(1,3) example_full_loan st' _ run_refl] st'
    by (simp add: example_loan_def) (simp add: example_defs)
qed

lemma refund_progress_witness:
  "\<exists>st' c'. refund example_runtime 7 0 example_full = Inr st' \<and> Crowdloans st' 0 = Some c' \<and> contributors_count c' = 1"
proof -
  have "sorted_list_of_set {7, 5} = [5, 7 :: nat]" by simp
  then have "\<exists>st'. refund example_runtime 7 0 example_full = Inr st'"
    by (simp add: refund_def example_defs run_defs U32_MAX_def)
  then obtain st' where st': "refund example_runtime 7 0 example_full = Inr st'" by blast
  show ?thesis
    using refund_progress[OF example_laws example_run(1,3) example_full_loan st'] st'
    by (simp add: example_loan_def) (auto simp: example_runtime_def)
qed

end
