(* ===== verification/BTree_Map.thy ===== *)
theory BTree_Map
  imports Prelude
begin

text \<open>
  The ordered maps and sets of the standard library (\<^verbatim>\<open>BTreeMap\<close>, \<^verbatim>\<open>BTreeSet\<close>), as the strictly sorted
  list of their entries, which is the order their iterators have.
\<close>

fun btree_insert :: "'k::linorder \<Rightarrow> 'v \<Rightarrow> ('k \<times> 'v) list \<Rightarrow> ('k \<times> 'v) list" where
  "btree_insert k v [] = [(k, v)]"
| "btree_insert k v ((j, w) # m) =
     (if k < j then (k, v) # (j, w) # m
      else if k = j then (k, v) # m
      else (j, w) # btree_insert k v m)"

definition btree_get :: "('k \<times> 'v) list \<Rightarrow> 'k \<Rightarrow> 'v option" where
  "btree_get m k = map_of m k"

definition contains_key :: "('k \<times> 'v) list \<Rightarrow> 'k \<Rightarrow> bool" where
  "contains_key m k \<longleftrightarrow> btree_get m k \<noteq> None"

definition btree_keys :: "('k \<times> 'v) list \<Rightarrow> 'k list" where
  "btree_keys m = map fst m"

definition btree_set :: "'k::linorder list \<Rightarrow> 'k list" where
  "btree_set xs = sort (remdups xs)"

definition btree_ok :: "('k::linorder \<times> 'v) list \<Rightarrow> bool" where
  "btree_ok m \<longleftrightarrow> sorted_wrt (<) (map fst m)"

lemma set_btree_insert_keys: "set (btree_keys (btree_insert k v m)) = insert k (set (btree_keys m))"
  by (induction k v m rule: btree_insert.induct) (auto simp: btree_keys_def)

lemma btree_get_insert: "btree_get (btree_insert k v m) j = (if j = k then Some v else btree_get m j)"
  by (induction k v m rule: btree_insert.induct) (auto simp: btree_get_def)

lemma btree_ok_Nil [simp]: "btree_ok []"
  by (simp add: btree_ok_def)

lemma btree_insert_ok [intro]: "btree_ok m \<Longrightarrow> btree_ok (btree_insert k v m)"
proof (induction k v m rule: btree_insert.induct)
  case (2 k v j w m)
  then show ?case
    using set_btree_insert_keys[of k v m] by (auto simp: btree_ok_def btree_keys_def)
qed (simp add: btree_ok_def)

lemma btree_ok_distinct: "btree_ok m \<Longrightarrow> distinct (btree_keys m)"
  by (simp add: btree_ok_def btree_keys_def strict_sorted_iff)

lemma btree_mem: "btree_ok m \<Longrightarrow> (k, v) \<in> set m \<longleftrightarrow> btree_get m k = Some v"
  using btree_ok_distinct[of m] by (auto simp: btree_get_def btree_keys_def intro: map_of_is_SomeI map_of_SomeD)

lemma btree_keys_mem: "k \<in> set (btree_keys m) \<longleftrightarrow> contains_key m k"
  by (auto simp: btree_keys_def contains_key_def btree_get_def map_of_eq_None_iff)

lemma set_btree_set [simp]: "set (btree_set xs) = set xs"
  by (simp add: btree_set_def)

lemma distinct_btree_set [simp]: "distinct (btree_set xs)"
  by (simp add: btree_set_def)

text \<open>A map built by inserting the entries of a list of values and keys: the last value of a key wins.\<close>

definition btree_of :: "('v \<times> 'k::linorder) list \<Rightarrow> ('k \<times> 'v) list" where
  "btree_of es = fold (\<lambda>(v, k) m. btree_insert k v m) es []"

lemma btree_of_fold:
  "btree_ok m \<Longrightarrow> btree_ok (fold (\<lambda>(v, k) m. btree_insert k v m) es m) \<and>
     btree_get (fold (\<lambda>(v, k) m. btree_insert k v m) es m) k =
       (case map_of (rev (map prod.swap es)) k of None \<Rightarrow> btree_get m k | Some v \<Rightarrow> Some v)"
proof (induction es arbitrary: m)
  case (Cons e es)
  obtain v j where e: "e = (v, j)" by (cases e)
  show ?case
    using Cons.IH[OF btree_insert_ok[OF Cons.prems, of j v]]
    by (auto simp: e btree_get_insert map_add_def split: option.splits)
qed simp

lemma btree_of_ok [simp]: "btree_ok (btree_of es)"
  unfolding btree_of_def by (rule conjunct1[OF btree_of_fold]) simp

lemma btree_get_of: "btree_get (btree_of es) k = map_of (rev (map prod.swap es)) k"
  using btree_of_fold[of "[]" es k] by (simp add: btree_of_def btree_get_def split: option.splits)

lemma btree_get_of_distinct:
  assumes "distinct (map snd es)"
  shows "btree_get (btree_of es) k = Some v \<longleftrightarrow> (v, k) \<in> set es"
proof -
  have "distinct (map fst (rev (map prod.swap es)))"
    using assms by (simp add: rev_map[symmetric] comp_def distinct_map inj_on_def)
  then show ?thesis unfolding btree_get_of by (force simp: map_of_eq_Some_iff image_iff)
qed

end
