(* ===== verification/Rate_Limiting.thy ===== *)
theory Rate_Limiting
  imports Prelude
begin

text \<open>
  Transaction rate limits, \<^verbatim>\<open>src/pallets/subtensor/src/utils/rate_limiting.rs\<close> with the accessors of
  \<^verbatim>\<open>coinbase/root.rs\<close> and \<^verbatim>\<open>utils/misc.rs\<close> it uses: the kinds of limited transactions, the limit of
  each, where the block of the last transaction is stored, and the check.  The locale
  \<open>last_block_store\<close> is the contract a caller relies on (a slot returns what was written to it last);
  it is interpreted on the storage accessors, and gives that accepted transactions of one slot are
  at least a limit apart.
\<close>

section \<open>Data\<close>

datatype Hyperparameter =
    UnknownHyperparameter | ServingRateLimit | MaxDifficulty | AdjustmentAlpha | MaxWeightLimit
  | ImmunityPeriod | MinAllowedWeights | Kappa | Rho | ActivityCutoff | PowRegistrationAllowed
  | MinBurn | MaxBurn | BondsMovingAverage | BondsPenalty | CommitRevealEnabled | LiquidAlphaEnabled
  | AlphaValues | WeightCommitInterval | TransferEnabled | AlphaSigmoidSteepness | Yuma3Enabled
  | BondsResetEnabled | ImmuneNeuronLimit | RecycleOrBurn | MaxAllowedUids | BurnHalfLife
  | BurnIncreaseMult | SubnetEmissionEnabled | MinChildkeyTake | ActivityCutoffFactorMilli
  | TriggerEpoch | CollateralLockShare | CollateralDrainRatio | LiquidAlphaConsensusMode
  | EpochConsensus | BurnRegistrationAllowed | MinDifficulty | Difficulty | EmissionWeights
  | SubnetGammaEnabled

datatype TransactionType =
    SetChildren
  | SetChildkeyTake
  | Unknown
  | RegisterNetwork
  | SetWeightsVersionKey
  | SetSNOwnerHotkey
  | OwnerHyperparamUpdate Hyperparameter
  | MechanismCountUpdate
  | MechanismEmission
  | MaxUidsTrimming
  | AddStakeBurn
  | TempoUpdate

datatype 'a RateLimitKey =
    KeySetSNOwnerHotkey nat
  | KeyOwnerHyperparamUpdate nat Hyperparameter
  | KeyNetworkLastRegistered
  | KeyLastTxBlock 'a
  | KeyLastTxBlockChildKeyTake 'a
  | KeyLastTxBlockDelegateTake 'a
  | KeyAddStakeBurn nat

text \<open>The storage the limits read, and the current block.\<close>

record 'a rate_limits =
  current_block :: nat
  TxChildkeyTakeRateLimit :: nat
  NetworkRateLimit :: nat
  MechanismCountSetRateLimit :: nat
  MechanismEmissionRateLimit :: nat
  MaxUidsTrimmingRateLimit :: nat
  WeightsVersionKeyRateLimit :: nat
  SubnetEmissionWeightsRateLimit :: nat
  OwnerHyperparamRateLimit :: nat
  TxRateLimit :: nat
  TxDelegateTakeRateLimit :: nat
  Tempo :: "nat \<Rightarrow> nat"
  LastRateLimitedBlock :: "'a RateLimitKey \<Rightarrow> nat"
  TransactionKeyLastBlock :: "'a \<times> nat \<times> nat \<Rightarrow> nat"

definition NETUID_ROOT :: nat where "NETUID_ROOT = 0"
definition MIN_TEMPO :: nat where "MIN_TEMPO = 360"
definition DefaultSetSNOwnerHotkeyRateLimit :: nat where "DefaultSetSNOwnerHotkeyRateLimit = 50400"

section \<open>Accessors\<close>

definition get_rate_limited_last_block :: "('a, 'm) rate_limits_scheme \<Rightarrow> 'a RateLimitKey \<Rightarrow> nat" where
  "get_rate_limited_last_block st k = LastRateLimitedBlock st k"

definition set_rate_limited_last_block ::
    "'a RateLimitKey \<Rightarrow> nat \<Rightarrow> ('a, 'm) rate_limits_scheme \<Rightarrow> ('a, 'm) rate_limits_scheme" where
  "set_rate_limited_last_block k block st = st\<lparr>LastRateLimitedBlock := (LastRateLimitedBlock st)(k := block)\<rparr>"

definition remove_rate_limited_last_block ::
    "'a RateLimitKey \<Rightarrow> ('a, 'm) rate_limits_scheme \<Rightarrow> ('a, 'm) rate_limits_scheme" where
  "remove_rate_limited_last_block k st = st\<lparr>LastRateLimitedBlock := (LastRateLimitedBlock st)(k := 0)\<rparr>"

definition get_network_last_lock_block :: "('a, 'm) rate_limits_scheme \<Rightarrow> nat" where
  "get_network_last_lock_block st = get_rate_limited_last_block st KeyNetworkLastRegistered"

definition set_network_last_lock_block ::
    "nat \<Rightarrow> ('a, 'm) rate_limits_scheme \<Rightarrow> ('a, 'm) rate_limits_scheme" where
  "set_network_last_lock_block block st = set_rate_limited_last_block KeyNetworkLastRegistered block st"

fun u16_of_tx :: "TransactionType \<Rightarrow> nat" where
  "u16_of_tx SetChildren = 0"
| "u16_of_tx SetChildkeyTake = 1"
| "u16_of_tx Unknown = 2"
| "u16_of_tx RegisterNetwork = 3"
| "u16_of_tx SetWeightsVersionKey = 4"
| "u16_of_tx SetSNOwnerHotkey = 5"
| "u16_of_tx (OwnerHyperparamUpdate _) = 6"
| "u16_of_tx MechanismCountUpdate = 7"
| "u16_of_tx MechanismEmission = 8"
| "u16_of_tx MaxUidsTrimming = 9"
| "u16_of_tx AddStakeBurn = 10"
| "u16_of_tx TempoUpdate = 11"

definition tx_of_u16 :: "nat \<Rightarrow> TransactionType" where
  "tx_of_u16 v =
     (if v = 0 then SetChildren
      else if v = 1 then SetChildkeyTake
      else if v = 3 then RegisterNetwork
      else if v = 4 then SetWeightsVersionKey
      else if v = 5 then SetSNOwnerHotkey
      else if v = 6 then OwnerHyperparamUpdate UnknownHyperparameter
      else if v = 7 then MechanismCountUpdate
      else if v = 8 then MechanismEmission
      else if v = 9 then MaxUidsTrimming
      else if v = 10 then AddStakeBurn
      else if v = 11 then TempoUpdate
      else Unknown)"

definition tx_of_hyperparameter :: "Hyperparameter \<Rightarrow> TransactionType" where
  "tx_of_hyperparameter p = OwnerHyperparamUpdate p"

section \<open>Limits\<close>

fun rate_limit :: "TransactionType \<Rightarrow> ('a, 'm) rate_limits_scheme \<Rightarrow> nat" where
  "rate_limit SetChildren st = 150"
| "rate_limit SetChildkeyTake st = TxChildkeyTakeRateLimit st"
| "rate_limit RegisterNetwork st = NetworkRateLimit st"
| "rate_limit MechanismCountUpdate st = MechanismCountSetRateLimit st"
| "rate_limit MechanismEmission st = MechanismEmissionRateLimit st"
| "rate_limit MaxUidsTrimming st = MaxUidsTrimmingRateLimit st"
| "rate_limit Unknown st = 0"
| "rate_limit _ st = 0"

fun rate_limit_on_subnet :: "TransactionType \<Rightarrow> nat \<Rightarrow> ('a, 'm) rate_limits_scheme \<Rightarrow> nat" where
  "rate_limit_on_subnet SetWeightsVersionKey netuid st =
     saturating_mul U64_MAX (Tempo st netuid) (WeightsVersionKeyRateLimit st)"
| "rate_limit_on_subnet (OwnerHyperparamUpdate EmissionWeights) netuid st = SubnetEmissionWeightsRateLimit st"
| "rate_limit_on_subnet (OwnerHyperparamUpdate _) netuid st =
     saturating_mul U64_MAX (Tempo st netuid) (OwnerHyperparamRateLimit st)"
| "rate_limit_on_subnet SetSNOwnerHotkey netuid st = DefaultSetSNOwnerHotkeyRateLimit"
| "rate_limit_on_subnet AddStakeBurn netuid st = Tempo st netuid"
| "rate_limit_on_subnet TempoUpdate netuid st = MIN_TEMPO"
| "rate_limit_on_subnet tx netuid st = rate_limit tx st"

definition check_passes_rate_limit :: "nat \<Rightarrow> nat \<Rightarrow> nat \<Rightarrow> bool" where
  "check_passes_rate_limit limit block last_block \<longleftrightarrow>
     last_block = 0 \<or> saturating_sub block last_block \<ge> limit"

fun last_block_on_subnet :: "TransactionType \<Rightarrow> 'a \<Rightarrow> nat \<Rightarrow> ('a, 'm) rate_limits_scheme \<Rightarrow> nat" where
  "last_block_on_subnet RegisterNetwork hotkey netuid st = get_network_last_lock_block st"
| "last_block_on_subnet SetSNOwnerHotkey hotkey netuid st =
     get_rate_limited_last_block st (KeySetSNOwnerHotkey netuid)"
| "last_block_on_subnet (OwnerHyperparamUpdate hparam) hotkey netuid st =
     get_rate_limited_last_block st (KeyOwnerHyperparamUpdate netuid hparam)"
| "last_block_on_subnet tx hotkey netuid st = TransactionKeyLastBlock st (hotkey, netuid, u16_of_tx tx)"

fun last_block :: "TransactionType \<Rightarrow> 'a \<Rightarrow> ('a, 'm) rate_limits_scheme \<Rightarrow> nat" where
  "last_block RegisterNetwork key st = get_network_last_lock_block st"
| "last_block tx key st = last_block_on_subnet tx key NETUID_ROOT st"

definition passes_rate_limit :: "TransactionType \<Rightarrow> 'a \<Rightarrow> ('a, 'm) rate_limits_scheme \<Rightarrow> bool" where
  "passes_rate_limit tx key st =
     check_passes_rate_limit (rate_limit tx st) (current_block st) (last_block tx key st)"

definition passes_rate_limit_on_subnet ::
    "TransactionType \<Rightarrow> 'a \<Rightarrow> nat \<Rightarrow> ('a, 'm) rate_limits_scheme \<Rightarrow> bool" where
  "passes_rate_limit_on_subnet tx hotkey netuid st =
     check_passes_rate_limit (rate_limit_on_subnet tx netuid st) (current_block st)
       (last_block_on_subnet tx hotkey netuid st)"

fun set_last_block_on_subnet ::
    "TransactionType \<Rightarrow> 'a \<Rightarrow> nat \<Rightarrow> nat \<Rightarrow> ('a, 'm) rate_limits_scheme \<Rightarrow> ('a, 'm) rate_limits_scheme" where
  "set_last_block_on_subnet RegisterNetwork key netuid block st = set_network_last_lock_block block st"
| "set_last_block_on_subnet SetSNOwnerHotkey key netuid block st =
     set_rate_limited_last_block (KeySetSNOwnerHotkey netuid) block st"
| "set_last_block_on_subnet (OwnerHyperparamUpdate hparam) key netuid block st =
     set_rate_limited_last_block (KeyOwnerHyperparamUpdate netuid hparam) block st"
| "set_last_block_on_subnet tx key netuid block st =
     st\<lparr>TransactionKeyLastBlock := (TransactionKeyLastBlock st)((key, netuid, u16_of_tx tx) := block)\<rparr>"

section \<open>Limits on an account\<close>

definition remove_last_tx_block :: "'a \<Rightarrow> ('a, 'm) rate_limits_scheme \<Rightarrow> ('a, 'm) rate_limits_scheme" where
  "remove_last_tx_block key st = remove_rate_limited_last_block (KeyLastTxBlock key) st"

definition set_last_tx_block :: "'a \<Rightarrow> nat \<Rightarrow> ('a, 'm) rate_limits_scheme \<Rightarrow> ('a, 'm) rate_limits_scheme" where
  "set_last_tx_block key block st = set_rate_limited_last_block (KeyLastTxBlock key) block st"

definition get_last_tx_block :: "'a \<Rightarrow> ('a, 'm) rate_limits_scheme \<Rightarrow> nat" where
  "get_last_tx_block key st = get_rate_limited_last_block st (KeyLastTxBlock key)"

definition remove_last_tx_block_delegate_take ::
    "'a \<Rightarrow> ('a, 'm) rate_limits_scheme \<Rightarrow> ('a, 'm) rate_limits_scheme" where
  "remove_last_tx_block_delegate_take key st = remove_rate_limited_last_block (KeyLastTxBlockDelegateTake key) st"

definition set_last_tx_block_delegate_take ::
    "'a \<Rightarrow> nat \<Rightarrow> ('a, 'm) rate_limits_scheme \<Rightarrow> ('a, 'm) rate_limits_scheme" where
  "set_last_tx_block_delegate_take key block st =
     set_rate_limited_last_block (KeyLastTxBlockDelegateTake key) block st"

definition get_last_tx_block_delegate_take :: "'a \<Rightarrow> ('a, 'm) rate_limits_scheme \<Rightarrow> nat" where
  "get_last_tx_block_delegate_take key st = get_rate_limited_last_block st (KeyLastTxBlockDelegateTake key)"

definition get_last_tx_block_childkey_take :: "'a \<Rightarrow> ('a, 'm) rate_limits_scheme \<Rightarrow> nat" where
  "get_last_tx_block_childkey_take key st = get_rate_limited_last_block st (KeyLastTxBlockChildKeyTake key)"

definition remove_last_tx_block_childkey ::
    "'a \<Rightarrow> ('a, 'm) rate_limits_scheme \<Rightarrow> ('a, 'm) rate_limits_scheme" where
  "remove_last_tx_block_childkey key st = remove_rate_limited_last_block (KeyLastTxBlockChildKeyTake key) st"

definition set_last_tx_block_childkey ::
    "'a \<Rightarrow> nat \<Rightarrow> ('a, 'm) rate_limits_scheme \<Rightarrow> ('a, 'm) rate_limits_scheme" where
  "set_last_tx_block_childkey key block st =
     set_rate_limited_last_block (KeyLastTxBlockChildKeyTake key) block st"

definition exceeds_tx_rate_limit :: "nat \<Rightarrow> nat \<Rightarrow> ('a, 'm) rate_limits_scheme \<Rightarrow> bool" where
  "exceeds_tx_rate_limit prev_tx_block now st =
     (if TxRateLimit st = 0 \<or> prev_tx_block = 0 then False
      else saturating_sub now prev_tx_block \<le> TxRateLimit st)"

definition exceeds_tx_delegate_take_rate_limit :: "nat \<Rightarrow> nat \<Rightarrow> ('a, 'm) rate_limits_scheme \<Rightarrow> bool" where
  "exceeds_tx_delegate_take_rate_limit prev_tx_block now st =
     (if TxDelegateTakeRateLimit st = 0 \<or> prev_tx_block = 0 then False
      else saturating_sub now prev_tx_block \<le> TxDelegateTakeRateLimit st)"

section \<open>The contract of the last-block storage\<close>

text \<open>Where the block of the last transaction of a kind, key and subnet is stored.\<close>

datatype 'a slot = Limited "'a RateLimitKey" | PerKey 'a nat nat

fun slot_of :: "TransactionType \<times> 'a \<times> nat \<Rightarrow> 'a slot" where
  "slot_of (RegisterNetwork, key, netuid) = Limited KeyNetworkLastRegistered"
| "slot_of (SetSNOwnerHotkey, key, netuid) = Limited (KeySetSNOwnerHotkey netuid)"
| "slot_of (OwnerHyperparamUpdate hparam, key, netuid) = Limited (KeyOwnerHyperparamUpdate netuid hparam)"
| "slot_of (tx, key, netuid) = PerKey key netuid (u16_of_tx tx)"

text \<open>
  A request is a transaction kind with its key and subnet.  Callers check it against its limit and, when
  they carry it out, record the current block.
\<close>

definition record_request ::
    "TransactionType \<times> 'a \<times> nat \<Rightarrow> nat \<Rightarrow> ('a, 'm) rate_limits_scheme \<Rightarrow> ('a, 'm) rate_limits_scheme" where
  "record_request = (\<lambda>(tx, key, netuid) block st.
     set_last_block_on_subnet tx key netuid block (st\<lparr>current_block := block\<rparr>))"

definition last_request :: "('a, 'm) rate_limits_scheme \<Rightarrow> TransactionType \<times> 'a \<times> nat \<Rightarrow> nat" where
  "last_request st = (\<lambda>(tx, key, netuid). last_block_on_subnet tx key netuid st)"

definition request_limit :: "('a, 'm) rate_limits_scheme \<Rightarrow> TransactionType \<times> 'a \<times> nat \<Rightarrow> nat" where
  "request_limit st = (\<lambda>(tx, key, netuid). rate_limit_on_subnet tx netuid st)"

text \<open>Whether every request of a trace, each with its block, passes its limit when its turn comes.\<close>

fun accepted_requests ::
    "((TransactionType \<times> 'a \<times> nat) \<times> nat) list \<Rightarrow> ('a, 'm) rate_limits_scheme \<Rightarrow> bool" where
  "accepted_requests [] st \<longleftrightarrow> True"
| "accepted_requests (((tx, key, netuid), block) # rest) st \<longleftrightarrow>
     passes_rate_limit_on_subnet tx key netuid (st\<lparr>current_block := block\<rparr>) \<and>
     accepted_requests rest (record_request (tx, key, netuid) block st)"

locale last_block_store =
  fixes last :: "'s \<Rightarrow> 'k \<Rightarrow> nat"
    and put :: "'k \<Rightarrow> nat \<Rightarrow> 's \<Rightarrow> 's"
    and slot :: "'k \<Rightarrow> 'l"
    and limit :: "'s \<Rightarrow> 'k \<Rightarrow> nat"
  assumes last_put_same: "slot k = slot j \<Longrightarrow> last (put k b s) j = b"
    and last_put_other: "slot k \<noteq> slot j \<Longrightarrow> last (put k b s) j = last s j"
    and limit_put: "limit (put k b s) j = limit s j"
begin

lemma last_puts:
  assumes "b \<le> last s k" "\<And>j c. (j, c) \<in> set es \<Longrightarrow> b \<le> c"
  shows "b \<le> last (fold (\<lambda>(j, c). put j c) es s) k"
  using assms
proof (induction es arbitrary: s)
  case (Cons e es)
  obtain j c where e: "e = (j, c)" by (cases e)
  have "b \<le> last (put j c s) k"
    using Cons.prems(1) Cons.prems(2)[of j c] e
    by (cases "slot j = slot k") (simp_all add: last_put_same last_put_other)
  moreover have "\<And>i d. (i, d) \<in> set es \<Longrightarrow> b \<le> d" using Cons.prems(2) by (meson list.set_intros(2))
  ultimately show ?case using Cons.IH[of "put j c s"] e by simp
qed simp

lemma limit_puts: "limit (fold (\<lambda>(j, c). put j c) es s) k = limit s k"
  by (induction es arbitrary: s) (auto simp: limit_put)

lemma spacing:
  assumes pass: "check_passes_rate_limit (limit s k) now (last (fold (\<lambda>(j, c). put j c) es s) k)"
    and es: "es = xs @ (j, b) # ys" "slot j = slot k" "0 < b" "b \<le> now"
    and later: "\<And>i c. (i, c) \<in> set ys \<Longrightarrow> b \<le> c"
  shows "b + limit s k \<le> now"
proof -
  have "b \<le> last (fold (\<lambda>(j, c). put j c) es s) k"
    unfolding es(1) using last_puts[OF _ later] es(2) by (simp add: last_put_same)
  then show ?thesis using pass es(3,4) by (auto simp: check_passes_rate_limit_def)
qed

end

lemma last_block_slot:
  "last_block_on_subnet tx key netuid st =
     (case slot_of (tx, key, netuid) of Limited k \<Rightarrow> LastRateLimitedBlock st k
      | PerKey a n t \<Rightarrow> TransactionKeyLastBlock st (a, n, t))"
  by (cases tx) (simp_all add: get_network_last_lock_block_def get_rate_limited_last_block_def)

lemma set_last_block_slot:
  "set_last_block_on_subnet tx key netuid b st =
     (case slot_of (tx, key, netuid) of
        Limited k \<Rightarrow> st\<lparr>LastRateLimitedBlock := (LastRateLimitedBlock st)(k := b)\<rparr>
      | PerKey a n t \<Rightarrow> st\<lparr>TransactionKeyLastBlock := (TransactionKeyLastBlock st)((a, n, t) := b)\<rparr>)"
  by (cases tx) (simp_all add: set_network_last_lock_block_def set_rate_limited_last_block_def)

lemma rate_limit_frame:
  "rate_limit_on_subnet tx netuid (st\<lparr>LastRateLimitedBlock := f\<rparr>) = rate_limit_on_subnet tx netuid st"
  "rate_limit_on_subnet tx netuid (st\<lparr>TransactionKeyLastBlock := g\<rparr>) = rate_limit_on_subnet tx netuid st"
  "rate_limit_on_subnet tx netuid (st\<lparr>current_block := b\<rparr>) = rate_limit_on_subnet tx netuid st"
  by (cases "(tx, netuid, st)" rule: rate_limit_on_subnet.cases; simp)+

interpretation tx_limits: last_block_store last_request record_request slot_of request_limit
  by unfold_locales
    (auto simp: last_request_def record_request_def request_limit_def last_block_slot set_last_block_slot
      rate_limit_frame split: slot.split)

lemma accepted_requests_append:
  "accepted_requests (xs @ ys) st \<longleftrightarrow>
     accepted_requests xs st \<and> accepted_requests ys (fold (\<lambda>(r, b). record_request r b) xs st)"
  by (induction xs st rule: accepted_requests.induct) simp_all

lemma passes_request:
  "passes_rate_limit_on_subnet tx key netuid (st\<lparr>current_block := b\<rparr>) \<longleftrightarrow>
     check_passes_rate_limit (request_limit st (tx, key, netuid)) b (last_request st (tx, key, netuid))"
  by (simp add: passes_rate_limit_on_subnet_def request_limit_def last_request_def rate_limit_frame
      last_block_slot split: slot.split)

section \<open>Properties\<close>

text \<open>
  C31: In any sequence of accepted transactions at non-decreasing blocks, two transactions whose last
  block is stored in the same place are at least the limit of their kind apart, whatever other
  transactions lie between them.
\<close>

theorem rate_limited_apart:
  fixes st :: "('a, 'm) rate_limits_scheme"
  assumes "accepted_requests (xs @ (r, b) # ys @ (r', b') # zs) st"
    and "slot_of r = slot_of r'" "0 < b" "sorted (map snd (xs @ (r, b) # ys @ (r', b') # zs))"
  shows "b + request_limit st r' \<le> b'"
proof -
  let ?es = "xs @ (r, b) # ys" and ?st = "fold (\<lambda>(r, b). record_request r b) (xs @ (r, b) # ys) st"
  obtain tx key netuid where r': "r' = (tx, key, netuid)" by (cases r')
  have "accepted_requests (?es @ (r', b') # zs) st" using assms(1) by simp
  then have "accepted_requests ((r', b') # zs) ?st" unfolding accepted_requests_append by blast
  then have "check_passes_rate_limit (request_limit ?st r') b' (last_request ?st r')"
    unfolding r' accepted_requests.simps passes_request by blast
  then have "check_passes_rate_limit (request_limit st r') b' (last_request ?st r')"
    unfolding tx_limits.limit_puts .
  moreover have "b \<le> b'" "\<forall>x\<in>set (map snd ys). b \<le> x"
    using assms(4) by (simp_all add: sorted_append)
  then have "b \<le> b'" "\<And>i c. (i, c) \<in> set ys \<Longrightarrow> b \<le> c" by force+
  ultimately show ?thesis using tx_limits.spacing[OF _ refl assms(2,3)] by blast
qed

text \<open>
  The numeric code of a transaction kind determines it, up to the hyperparameter of an owner
  update, and every other code stands for the unknown kind.
\<close>

lemma tx_code_roundtrip:
  "tx_of_u16 (u16_of_tx tx) =
     (case tx of OwnerHyperparamUpdate _ \<Rightarrow> OwnerHyperparamUpdate UnknownHyperparameter | _ \<Rightarrow> tx) \<and>
   u16_of_tx (tx_of_u16 v) = (if v \<le> 11 then v else 2)"
proof -
  have "list_all (\<lambda>v. u16_of_tx (tx_of_u16 v) = v) [0..<12]" by code_simp
  then have "u16_of_tx (tx_of_u16 v) = v" if "v \<le> 11" using that by (simp add: list_all_iff)
  moreover have "tx_of_u16 v = Unknown" if "\<not> v \<le> 11" using that by (simp add: tx_of_u16_def)
  ultimately have "u16_of_tx (tx_of_u16 v) = (if v \<le> 11 then v else 2)" by simp
  moreover have "tx_of_u16 (u16_of_tx tx) =
     (case tx of OwnerHyperparamUpdate _ \<Rightarrow> OwnerHyperparamUpdate UnknownHyperparameter | _ \<Rightarrow> tx)"
    by (cases tx) (simp_all add: tx_of_u16_def)
  ultimately show ?thesis by blast
qed

definition example_limits :: "nat rate_limits" where
  "example_limits = \<lparr>current_block = 0, TxChildkeyTakeRateLimit = 30, NetworkRateLimit = 40,
     MechanismCountSetRateLimit = 50, MechanismEmissionRateLimit = 60, MaxUidsTrimmingRateLimit = 70,
     WeightsVersionKeyRateLimit = 5, SubnetEmissionWeightsRateLimit = 80, OwnerHyperparamRateLimit = 2,
     TxRateLimit = 1, TxDelegateTakeRateLimit = 9, Tempo = (\<lambda>_. 360),
     LastRateLimitedBlock = (\<lambda>_. 0), TransactionKeyLastBlock = (\<lambda>_. 0)\<rparr>"

lemma rate_limited_apart_witness:
  "accepted_requests [((SetChildren, 7, 2), 10), ((SetChildkeyTake, 7, 2), 11), ((SetChildren, 7, 2), 160)]
     example_limits \<and> 10 + request_limit example_limits (SetChildren, 7, 2) \<le> 160"
proof -
  let ?rs = "[((SetChildren, 7, 2), 10), ((SetChildkeyTake, 7, 2), 11), ((SetChildren, 7, 2), 160)]"
  have acc: "accepted_requests ?rs example_limits"
    by (simp add: passes_rate_limit_on_subnet_def check_passes_rate_limit_def record_request_def example_limits_def)
  then show ?thesis
    using rate_limited_apart[of "[]" "(SetChildren, 7, 2)" 10 "[((SetChildkeyTake, 7, 2), 11)]"
        "(SetChildren, 7, 2)" 160 "[]" example_limits] by simp
qed

end
