(* ===== verification/Child_Keys.thy ===== *)
theory Child_Keys
  imports BTree_Map Rate_Limiting
begin

text \<open>
  Delegation of stake weight from parent hotkeys to child hotkeys,
  \<^verbatim>\<open>src/pallets/subtensor/src/staking/set_children.rs\<close> and \<^verbatim>\<open>staking/auto_parent.rs\<close>.  A relation is stored
  twice, in \<^verbatim>\<open>ChildKeys\<close> under the parent and in \<^verbatim>\<open>ParentKeys\<close> under the child; both maps are functions to an
  optional list (\<open>None\<close>: no entry), their getter returns the empty list where there is none.

  The storage extends the one of the rate limits.  Outside of it, in \<open>env\<close>: the signer of an origin,
  the total stake of a hotkey (its valuation over all subnets), the order of storage iteration, the
  validators registered on the root subnet and the list of subnets.  A function of the source that
  returns an error leaves the storage as it was (transactional calls and dispatchables); for
  \<^verbatim>\<open>persist_child_parent_relations\<close>, which is also called outside of a transaction, the lemma
  \<open>persist_checks_first\<close> shows that it fails only before its first write.
\<close>

section \<open>Data\<close>

datatype Error =
    BadOrigin
  | ProportionOverflow
  | TooManyChildren
  | InvalidChild
  | ChildParentInconsistency
  | TooManyParents
  | TxRateLimitExceeded
  | RegistrationNotPermittedOnRootSubnet
  | SubnetNotExists
  | NonAssociatedColdKey
  | DuplicateChild
  | NotEnoughStakeToSetChildkeys
  | InvalidChildkeyTake
  | TxChildkeyTakeRateLimitExceeded
  | TempoOutOfBounds
  | AdminActionProhibitedDuringWeightsWindow
  | ActivityCutoffFactorMilliOutOfBounds
  | DynamicTempoBlockedByCommitReveal
  | EpochTriggerAlreadyPending
  | AutoEpochAlreadyImminent
  | RevealPeriodTooLarge
  | RevealPeriodTooSmall
  | MechanismDoesNotExist
  | TooManyUIDsPerMechanism
  | InvalidValue

datatype 'a Event =
    SetChildrenScheduled 'a nat nat "(nat \<times> 'a) list"
  | SetChildren 'a nat "(nat \<times> 'a) list"
  | ChildKeyTakeSet 'a nat

type_synonym 'a links = "(nat \<times> 'a) list"
type_synonym 'a link_map = "'a \<Rightarrow> nat \<Rightarrow> 'a links option"

record 'a PCRelations =
  pivot :: 'a
  children :: "('a \<times> nat) list"
  parents :: "('a \<times> nat) list"

record 'a childkey_storage = "'a rate_limits" +
  ChildKeys :: "'a link_map"
  ParentKeys :: "'a link_map"
  PendingChildKeys :: "nat \<Rightarrow> 'a \<Rightarrow> ('a links \<times> nat) option"
  ChildkeyTake :: "'a \<Rightarrow> nat \<Rightarrow> nat"
  ChildkeyThresholdSuspended :: "'a set"
  ChildkeyThresholdChecks :: "'a set"
  AutoParentDelegationEnabled :: "'a \<Rightarrow> bool"
  StakeThreshold :: nat
  PendingChildKeyCooldown :: nat
  MinChildkeyTakeValue :: nat
  MinChildkeyTakePerSubnet :: "nat \<Rightarrow> nat"
  MaxChildkeyTake :: nat
  NetworksAdded :: "nat \<Rightarrow> bool"
  SubtokenEnabled :: "nat \<Rightarrow> bool"
  SubnetOwnerHotkey :: "nat \<Rightarrow> 'a option"
  Owner :: "'a \<Rightarrow> 'a option"
  TotalNetworks :: nat
  ck_events :: "'a Event list"

record ('o, 'a) childkey_env =
  ensure_signed :: "'o \<Rightarrow> Error + 'a"
  get_total_stake_for_hotkey :: "'a \<Rightarrow> nat"
  iter_pending :: "('a \<Rightarrow> ('a links \<times> nat) option) \<Rightarrow> ('a \<times> 'a links \<times> nat) list"
  iter_links :: "'a link_map \<Rightarrow> ('a \<times> nat \<times> 'a links) list"
  iter_checks :: "'a set \<Rightarrow> 'a list"
  has_link_entry :: "(nat \<Rightarrow> 'a links option) \<Rightarrow> bool"
  root_validators :: "'a list"
  all_subnet_netuids :: "nat list"

definition MAX_PARENTS_PER_CHILD :: nat where "MAX_PARENTS_PER_CHILD = 100"

definition is_root :: "nat \<Rightarrow> bool" where "is_root netuid \<longleftrightarrow> netuid = NETUID_ROOT"

definition if_subnet_exist :: "('a, 'm) childkey_storage_scheme \<Rightarrow> nat \<Rightarrow> bool" where
  "if_subnet_exist st netuid = NetworksAdded st netuid"

definition coldkey_owns_hotkey :: "('a, 'm) childkey_storage_scheme \<Rightarrow> 'a \<Rightarrow> 'a \<Rightarrow> bool" where
  "coldkey_owns_hotkey st coldkey hotkey = (Owner st hotkey = Some coldkey)"

definition emit :: "'a Event \<Rightarrow> ('a, 'm) childkey_storage_scheme \<Rightarrow> ('a, 'm) childkey_storage_scheme" where
  "emit e st = st\<lparr>ck_events := ck_events st @ [e]\<rparr>"

definition get_links :: "'a link_map \<Rightarrow> 'a \<Rightarrow> nat \<Rightarrow> 'a links" where
  "get_links m key netuid = unwrap_or (m key netuid) []"

definition insert_links :: "'a \<Rightarrow> nat \<Rightarrow> 'a links \<Rightarrow> 'a link_map \<Rightarrow> 'a link_map" where
  "insert_links key netuid v m = m(key := (m key)(netuid \<mapsto> v))"

definition remove_links :: "'a \<Rightarrow> nat \<Rightarrow> 'a link_map \<Rightarrow> 'a link_map" where
  "remove_links key netuid m = m(key := (m key)(netuid := None))"

section \<open>Relations of a pivot\<close>

definition new_relations :: "'a \<Rightarrow> 'a PCRelations" where
  "new_relations hotkey = \<lparr>pivot = hotkey, children = [], parents = []\<rparr>"

definition ensure_total_proportions :: "('a \<times> nat) list \<Rightarrow> Error + unit" where
  "ensure_total_proportions m =
     ensure (fold (\<lambda>w acc. saturating_add U128_MAX acc w) (map snd m) 0 \<le> U64_MAX) ProportionOverflow"

definition ensure_childkey_count :: "('a \<times> nat) list \<Rightarrow> Error + unit" where
  "ensure_childkey_count m = ensure (length m \<le> 5) TooManyChildren"

definition ensure_no_self_loop :: "'a \<Rightarrow> ('a \<times> nat) list \<Rightarrow> Error + unit" where
  "ensure_no_self_loop piv m = ensure (\<not> contains_key m piv) InvalidChild"

definition ensure_bipartite_separation :: "('a \<times> nat) list \<Rightarrow> ('a \<times> nat) list \<Rightarrow> Error + unit" where
  "ensure_bipartite_separation cs ps =
     ensure (\<not> list_ex (\<lambda>c. contains_key ps c) (btree_keys cs)) ChildParentInconsistency"

definition ensure_pending_consistency :: "'a::linorder PCRelations \<Rightarrow> 'a links \<Rightarrow> Error + unit" where
  "ensure_pending_consistency rel pending_children_vec =
     (let new_children = btree_of pending_children_vec in
      bind_result (ensure_no_self_loop (pivot rel) new_children) (\<lambda>_.
      bind_result (ensure_childkey_count new_children) (\<lambda>_.
      bind_result (ensure_total_proportions new_children) (\<lambda>_.
      ensure_bipartite_separation new_children (parents rel)))))"

definition link_children :: "('a \<times> nat) list \<Rightarrow> 'a PCRelations \<Rightarrow> Error + 'a PCRelations" where
  "link_children new_children rel =
     bind_result (ensure_no_self_loop (pivot rel) new_children) (\<lambda>_.
     bind_result (ensure_total_proportions new_children) (\<lambda>_.
     bind_result (ensure_bipartite_separation new_children (parents rel)) (\<lambda>_.
     Inr (rel\<lparr>children := new_children\<rparr>))))"

definition link_parents :: "('a \<times> nat) list \<Rightarrow> 'a PCRelations \<Rightarrow> Error + 'a PCRelations" where
  "link_parents new_parents rel =
     bind_result (ensure_no_self_loop (pivot rel) new_parents) (\<lambda>_.
     bind_result (ensure_bipartite_separation (children rel) new_parents) (\<lambda>_.
     Inr (rel\<lparr>parents := new_parents\<rparr>)))"

fun upsert_edge :: "'a links \<Rightarrow> nat \<Rightarrow> 'a \<Rightarrow> 'a links" where
  "upsert_edge [] proportion key = [(proportion, key)]"
| "upsert_edge ((p, who) # rest) proportion key =
     (if who = key then (proportion, who) # rest else (p, who) # upsert_edge rest proportion key)"

definition remove_edge :: "'a links \<Rightarrow> 'a \<Rightarrow> 'a links" where
  "remove_edge list key = filter (\<lambda>(_, who). who \<noteq> key) list"

definition rebind_pivot :: "'a \<Rightarrow> 'a PCRelations \<Rightarrow> Error + 'a PCRelations" where
  "rebind_pivot new_pivot rel =
     bind_result (ensure_no_self_loop new_pivot (children rel)) (\<lambda>_.
     bind_result (ensure_no_self_loop new_pivot (parents rel)) (\<lambda>_.
     Inr (rel\<lparr>pivot := new_pivot\<rparr>)))"

section \<open>Loading and storing relations\<close>

definition set_childkeys ::
    "'a \<Rightarrow> nat \<Rightarrow> 'a links \<Rightarrow> ('a, 'm) childkey_storage_scheme \<Rightarrow> ('a, 'm) childkey_storage_scheme" where
  "set_childkeys parent netuid childkey_vec st =
     (if childkey_vec = [] then st\<lparr>ChildKeys := remove_links parent netuid (ChildKeys st)\<rparr>
      else st\<lparr>ChildKeys := insert_links parent netuid childkey_vec (ChildKeys st)\<rparr>)"

definition set_parentkeys ::
    "'a \<Rightarrow> nat \<Rightarrow> 'a links \<Rightarrow> ('a, 'm) childkey_storage_scheme \<Rightarrow> ('a, 'm) childkey_storage_scheme" where
  "set_parentkeys child netuid parentkey_vec st =
     (if parentkey_vec = [] then st\<lparr>ParentKeys := remove_links child netuid (ParentKeys st)\<rparr>
      else st\<lparr>ParentKeys := insert_links child netuid parentkey_vec (ParentKeys st)\<rparr>)"

definition load_child_parent_relations ::
    "'a::linorder \<Rightarrow> nat \<Rightarrow> ('a, 'm) childkey_storage_scheme \<Rightarrow> Error + 'a PCRelations" where
  "load_child_parent_relations hotkey netuid st =
     bind_result
       (link_children (btree_of (filter (\<lambda>(_, child). child \<noteq> hotkey) (get_links (ChildKeys st) hotkey netuid)))
         (new_relations hotkey))
       (link_parents (btree_of (filter (\<lambda>(_, parent). parent \<noteq> hotkey) (get_links (ParentKeys st) hotkey netuid))))"

definition load_relations_from_pending ::
    "'a::linorder \<Rightarrow> 'a links \<Rightarrow> nat \<Rightarrow> ('a, 'm) childkey_storage_scheme \<Rightarrow> Error + 'a PCRelations" where
  "load_relations_from_pending piv pending_children_vec netuid st =
     bind_result
       (link_children (btree_of (filter (\<lambda>(_, child). child \<noteq> piv) pending_children_vec)) (new_relations piv))
       (link_parents (btree_of (filter (\<lambda>(_, parent). parent \<noteq> piv) (get_links (ParentKeys st) piv netuid))))"

text \<open>The two directions of \<^verbatim>\<open>persist_child_parent_relations\<close>.\<close>

definition persist_children ::
    "'a::linorder \<Rightarrow> ('a \<times> nat) list \<Rightarrow> nat \<Rightarrow> ('a, 'm) childkey_storage_scheme \<Rightarrow>
     Error + ('a, 'm) childkey_storage_scheme" where
  "persist_children piv new_children_map netuid st =
     (let new_children_vec = map (\<lambda>(c, p). (p, c)) new_children_map;
          prev_children_vec = get_links (ChildKeys st) piv netuid;
          st1 = set_childkeys piv netuid new_children_vec st;
          prev_children_set = btree_set (map snd prev_children_vec);
          new_children_set = btree_keys new_children_map;
          upsert = (\<lambda>child st. case btree_get new_children_map child of
              None \<Rightarrow> Inl ChildParentInconsistency
            | Some p \<Rightarrow> Inr (set_parentkeys child netuid (upsert_edge (get_links (ParentKeys st) child netuid) p piv) st))
      in
      bind_result (fold_result upsert (filter (\<lambda>c. c \<notin> set prev_children_set) new_children_set) st1) (\<lambda>st2.
      bind_result (fold_result upsert (filter (\<lambda>c. c \<in> set prev_children_set) new_children_set) st2) (\<lambda>st3.
      Inr (fold (\<lambda>removed st. set_parentkeys removed netuid
               (remove_edge (get_links (ParentKeys st) removed netuid) piv) st)
             (filter (\<lambda>c. c \<notin> set new_children_set) prev_children_set) st3))))"

definition persist_parents ::
    "'a::linorder \<Rightarrow> ('a \<times> nat) list \<Rightarrow> nat \<Rightarrow> ('a, 'm) childkey_storage_scheme \<Rightarrow>
     Error + ('a, 'm) childkey_storage_scheme" where
  "persist_parents piv new_parents_map netuid st =
     (let new_parents_vec = map (\<lambda>(p, pr). (pr, p)) new_parents_map;
          prev_parents_vec = get_links (ParentKeys st) piv netuid;
          st1 = set_parentkeys piv netuid new_parents_vec st;
          prev_parents_set = btree_set (map snd prev_parents_vec);
          new_parents_set = btree_keys new_parents_map;
          upsert = (\<lambda>parent st. case btree_get new_parents_map parent of
              None \<Rightarrow> Inl ChildParentInconsistency
            | Some p \<Rightarrow> Inr (set_childkeys parent netuid (upsert_edge (get_links (ChildKeys st) parent netuid) p piv) st))
      in
      bind_result (fold_result upsert (filter (\<lambda>p. p \<notin> set prev_parents_set) new_parents_set) st1) (\<lambda>st2.
      bind_result (fold_result upsert (filter (\<lambda>p. p \<in> set prev_parents_set) new_parents_set) st2) (\<lambda>st3.
      Inr (fold (\<lambda>removed st. set_childkeys removed netuid
               (remove_edge (get_links (ChildKeys st) removed netuid) piv) st)
             (filter (\<lambda>p. p \<notin> set new_parents_set) prev_parents_set) st3))))"

definition persist_child_parent_relations ::
    "'a::linorder PCRelations \<Rightarrow> nat \<Rightarrow> ('a, 'm) childkey_storage_scheme \<Rightarrow>
     Error + ('a, 'm) childkey_storage_scheme" where
  "persist_child_parent_relations relations netuid st =
     (let previous_parents = get_links (ParentKeys st) (pivot relations) netuid in
      if \<not> (length (parents relations) \<le> MAX_PARENTS_PER_CHILD
            \<or> (length (parents relations) \<le> length previous_parents
               \<and> list_all (\<lambda>parent. list_ex (\<lambda>(_, old). old = parent) previous_parents) (btree_keys (parents relations))))
      then Inl TooManyParents
      else if \<not> list_all (\<lambda>child.
             (let ps = get_links (ParentKeys st) child netuid in
              list_ex (\<lambda>(_, parent). parent = pivot relations) ps \<or> length ps < MAX_PARENTS_PER_CHILD))
           (btree_keys (children relations))
      then Inl TooManyParents
      else
        bind_result (persist_children (pivot relations) (children relations) netuid st)
          (persist_parents (pivot relations) (parents relations) netuid))"

definition parent_child_swap_hotkey ::
    "'a::linorder \<Rightarrow> 'a \<Rightarrow> nat \<Rightarrow> ('a, 'm) childkey_storage_scheme \<Rightarrow>
     Error + ('a, 'm) childkey_storage_scheme" where
  "parent_child_swap_hotkey old_hotkey new_hotkey netuid st =
     bind_result (load_child_parent_relations old_hotkey netuid st) (\<lambda>relations.
     let st1 = fold (\<lambda>child st. set_parentkeys child netuid
                 (remove_edge (get_links (ParentKeys st) child netuid) old_hotkey) st)
               (btree_keys (children relations)) st;
         st2 = fold (\<lambda>parent st. st\<lparr>ChildKeys := insert_links parent netuid
                 (remove_edge (get_links (ChildKeys st) parent netuid) old_hotkey) (ChildKeys st)\<rparr>)
               (btree_keys (parents relations)) st1;
         st3 = set_parentkeys old_hotkey netuid []
                 (st2\<lparr>ChildKeys := insert_links old_hotkey netuid [] (ChildKeys st2)\<rparr>)
     in
     bind_result (rebind_pivot new_hotkey relations) (\<lambda>relations1.
     bind_result
       (case PendingChildKeys st3 netuid old_hotkey of
          None \<Rightarrow> Inr st3
        | Some (pending, cool_down_block) \<Rightarrow>
            bind_result (ensure_pending_consistency relations1 pending) (\<lambda>_.
            Inr (st3\<lparr>PendingChildKeys := (PendingChildKeys st3)(netuid :=
                   (PendingChildKeys st3 netuid)(old_hotkey := None, new_hotkey \<mapsto> (pending, cool_down_block)))\<rparr>)))
       (persist_child_parent_relations relations1 netuid)))"

definition persist_pending_chidren_ok ::
    "nat \<Rightarrow> 'a::linorder \<Rightarrow> 'a links \<Rightarrow> ('a, 'm) childkey_storage_scheme \<Rightarrow> ('a, 'm) childkey_storage_scheme" where
  "persist_pending_chidren_ok netuid hotkey childs st =
     (case load_relations_from_pending hotkey childs netuid st of
        Inl _ \<Rightarrow> st
      | Inr relations \<Rightarrow>
          (case persist_child_parent_relations relations netuid st of
             Inl _ \<Rightarrow> st
           | Inr st1 \<Rightarrow> emit (SetChildren hotkey netuid childs) st1))"

section \<open>Scheduling\<close>

definition hotkey_meets_childkey_threshold ::
    "('o, 'a) childkey_env \<Rightarrow> ('a, 'm) childkey_storage_scheme \<Rightarrow> 'a \<Rightarrow> nat \<Rightarrow> bool" where
  "hotkey_meets_childkey_threshold env st hotkey netuid \<longleftrightarrow>
     StakeThreshold st = 0 \<or> get_total_stake_for_hotkey env hotkey \<ge> StakeThreshold st \<or>
     SubnetOwnerHotkey st netuid = Some hotkey"

definition schedule_or_apply_ck ::
    "nat \<Rightarrow> 'a::linorder \<Rightarrow> 'a links \<Rightarrow> ('a, 'm) childkey_storage_scheme \<Rightarrow>
     Error + ('a, 'm) childkey_storage_scheme" where
  "schedule_or_apply_ck netuid hotkey childs st =
     (if \<not> SubtokenEnabled st netuid then Inr (persist_pending_chidren_ok netuid hotkey childs st)
      else
        let cooldown_block = saturating_add U64_MAX (current_block st) (PendingChildKeyCooldown st) in
        Inr (emit (SetChildrenScheduled hotkey netuid cooldown_block childs)
          (st\<lparr>PendingChildKeys := (PendingChildKeys st)(netuid :=
             (PendingChildKeys st netuid)(hotkey \<mapsto> (childs, cooldown_block)))\<rparr>)))"

fun ensure_unique_children :: "'a list \<Rightarrow> 'a links \<Rightarrow> Error + unit" where
  "ensure_unique_children seen [] = Inr ()"
| "ensure_unique_children seen ((_, child_i) # rest) =
     (if child_i \<in> set seen then Inl DuplicateChild
      else ensure_unique_children (seen @ [child_i]) rest)"

definition do_schedule_children ::
    "('o, 'a::linorder) childkey_env \<Rightarrow> 'o \<Rightarrow> 'a \<Rightarrow> nat \<Rightarrow> 'a links \<Rightarrow> ('a, 'm) childkey_storage_scheme \<Rightarrow>
     Error + ('a, 'm) childkey_storage_scheme" where
  "do_schedule_children env origin hotkey netuid childs st =
     bind_result (ensure_signed env origin) (\<lambda>coldkey.
     if \<not> passes_rate_limit_on_subnet TransactionType.SetChildren hotkey netuid st then Inl TxRateLimitExceeded
     else if is_root netuid then Inl RegistrationNotPermittedOnRootSubnet
     else if \<not> if_subnet_exist st netuid then Inl SubnetNotExists
     else if \<not> coldkey_owns_hotkey st coldkey hotkey then Inl NonAssociatedColdKey
     else
     bind_result (ensure_unique_children [] childs) (\<lambda>_.
     bind_result (load_child_parent_relations hotkey netuid st) (\<lambda>relations.
     bind_result (ensure_pending_consistency relations childs) (\<lambda>_.
     if \<not> (childs = [] \<or> hotkey_meets_childkey_threshold env st hotkey netuid)
     then Inl NotEnoughStakeToSetChildkeys
     else
       schedule_or_apply_ck netuid hotkey childs
         (set_last_block_on_subnet TransactionType.SetChildren hotkey netuid (current_block st) st)))))"

definition apply_pending_children ::
    "('o, 'a::linorder) childkey_env \<Rightarrow> nat \<Rightarrow> 'a \<Rightarrow> 'a links \<Rightarrow> ('a, 'm) childkey_storage_scheme \<Rightarrow>
     ('a, 'm) childkey_storage_scheme" where
  "apply_pending_children env netuid hotkey childs st =
     (if childs = [] \<or> hotkey_meets_childkey_threshold env st hotkey netuid then
        let st1 = persist_pending_chidren_ok netuid hotkey childs st in
        if childs \<noteq> [] \<and> get_total_stake_for_hotkey env hotkey \<ge> StakeThreshold st1
        then st1\<lparr>ChildkeyThresholdSuspended := ChildkeyThresholdSuspended st1 - {hotkey}\<rparr>
        else st1
      else st)"

definition do_set_pending_children ::
    "('o, 'a::linorder) childkey_env \<Rightarrow> nat \<Rightarrow> ('a, 'm) childkey_storage_scheme \<Rightarrow>
     ('a, 'm) childkey_storage_scheme" where
  "do_set_pending_children env netuid st =
     (let start_call_occured = SubtokenEnabled st netuid;
          due = filter (\<lambda>(_, _, cool_down_block). cool_down_block < current_block st \<or> \<not> start_call_occured)
            (iter_pending env (PendingChildKeys st netuid));
          st1 = fold (\<lambda>(hotkey, childs, _). apply_pending_children env netuid hotkey childs) due st
      in fold (\<lambda>(hotkey, _) st. st\<lparr>PendingChildKeys := (PendingChildKeys st)(netuid :=
                (PendingChildKeys st netuid)(hotkey := None))\<rparr>) due st1)"

text \<open>The loop of a hotkey swap over the pending children that name the old hotkey, in \<^verbatim>\<open>swap_hotkey.rs\<close>.\<close>

definition swap_in_children :: "'a \<Rightarrow> 'a \<Rightarrow> 'a links \<Rightarrow> 'a links option" where
  "swap_in_children old_hotkey new_hotkey childs =
     (case List.find (\<lambda>i. snd (childs ! i) = old_hotkey) [0..<length childs] of
        None \<Rightarrow> None
      | Some i \<Rightarrow> Some (take i childs @ drop (Suc i) childs @ [(fst (childs ! i), new_hotkey)]))"

definition swap_pending_children ::
    "('o, 'a) childkey_env \<Rightarrow> 'a \<Rightarrow> 'a \<Rightarrow> nat \<Rightarrow> ('a, 'm) childkey_storage_scheme \<Rightarrow>
     ('a, 'm) childkey_storage_scheme" where
  "swap_pending_children env old_hotkey new_hotkey netuid st =
     fold (\<lambda>(hotkey, childs, cool_down_block) st.
         case swap_in_children old_hotkey new_hotkey childs of
           None \<Rightarrow> st
         | Some new_children \<Rightarrow> st\<lparr>PendingChildKeys := (PendingChildKeys st)(netuid :=
             (PendingChildKeys st netuid)(hotkey \<mapsto> (new_children, cool_down_block)))\<rparr>)
       (iter_pending env (PendingChildKeys st netuid)) st"

section \<open>The stake threshold\<close>

definition queue_childkey_threshold_check ::
    "('o, 'a) childkey_env \<Rightarrow> 'a \<Rightarrow> ('a, 'm) childkey_storage_scheme \<Rightarrow> ('a, 'm) childkey_storage_scheme" where
  "queue_childkey_threshold_check env hotkey st =
     (if hotkey \<in> ChildkeyThresholdSuspended st \<or> has_link_entry env (ChildKeys st hotkey)
      then st\<lparr>ChildkeyThresholdChecks := insert hotkey (ChildkeyThresholdChecks st)\<rparr>
      else st)"

definition recheck_childkey_threshold ::
    "('o, 'a) childkey_env \<Rightarrow> 'a \<Rightarrow> ('a, 'm) childkey_storage_scheme \<Rightarrow> ('a, 'm) childkey_storage_scheme" where
  "recheck_childkey_threshold env hotkey st =
     (if StakeThreshold st = 0 \<or> get_total_stake_for_hotkey env hotkey \<ge> StakeThreshold st
      then st\<lparr>ChildkeyThresholdSuspended := ChildkeyThresholdSuspended st - {hotkey}\<rparr>
      else st\<lparr>ChildkeyThresholdSuspended := insert hotkey (ChildkeyThresholdSuspended st)\<rparr>)"

definition childkey_threshold_check_weight :: "'w weight_ops \<Rightarrow> ('a, 'm) childkey_storage_scheme \<Rightarrow> 'w" where
  "childkey_threshold_check_weight W st =
     weight_add W (reads W (saturating_add U64_MAX (saturating_mul U64_MAX (TotalNetworks st) 4) 3)) (writes W 2)"

fun threshold_check_loop ::
    "('o, 'a) childkey_env \<Rightarrow> 'w weight_ops \<Rightarrow> 'w \<Rightarrow> 'w \<Rightarrow> 'a list \<Rightarrow> 'w \<Rightarrow> 'a list \<Rightarrow>
     ('a, 'm) childkey_storage_scheme \<Rightarrow> ('a, 'm) childkey_storage_scheme \<times> 'w \<times> 'a list" where
  "threshold_check_loop env W limit per_item [] used finished st = (st, used, finished)"
| "threshold_check_loop env W limit per_item (hotkey # rest) used finished st =
     (if \<not> all_lte W (weight_add W used per_item) limit then (st, used, finished)
      else threshold_check_loop env W limit per_item rest (weight_add W used per_item) (finished @ [hotkey])
             (recheck_childkey_threshold env hotkey st))"

definition process_childkey_threshold_checks ::
    "('o, 'a) childkey_env \<Rightarrow> 'w weight_ops \<Rightarrow> 'w \<Rightarrow> ('a, 'm) childkey_storage_scheme \<Rightarrow>
     ('a, 'm) childkey_storage_scheme \<times> 'w" where
  "process_childkey_threshold_checks env W limit st =
     (let overhead = reads W 2 in
      if \<not> all_lte W overhead limit then (st, weight_zero W)
      else
        let queue = iter_checks env (ChildkeyThresholdChecks st) in
        if queue = [] then (st, reads W 1)
        else
          let (st1, used, finished) =
                threshold_check_loop env W limit (childkey_threshold_check_weight W st) queue overhead [] st
          in (fold (\<lambda>hotkey st. st\<lparr>ChildkeyThresholdChecks := ChildkeyThresholdChecks st - {hotkey}\<rparr>) finished st1,
              used))"

definition childkeys_suspended :: "('a, 'm) childkey_storage_scheme \<Rightarrow> 'a \<Rightarrow> nat \<Rightarrow> bool" where
  "childkeys_suspended st parent netuid \<longleftrightarrow>
     parent \<in> ChildkeyThresholdSuspended st \<and> \<not> SubnetOwnerHotkey st netuid = Some parent"

definition get_children :: "('a, 'm) childkey_storage_scheme \<Rightarrow> 'a \<Rightarrow> nat \<Rightarrow> 'a links" where
  "get_children st hotkey netuid =
     (if childkeys_suspended st hotkey netuid then [] else get_links (ChildKeys st) hotkey netuid)"

definition get_parents :: "('a, 'm) childkey_storage_scheme \<Rightarrow> 'a \<Rightarrow> nat \<Rightarrow> 'a links" where
  "get_parents st child netuid =
     filter (\<lambda>(_, parent). \<not> childkeys_suspended st parent netuid) (get_links (ParentKeys st) child netuid)"

section \<open>Childkey take\<close>

definition get_effective_min_childkey_take :: "('a, 'm) childkey_storage_scheme \<Rightarrow> nat \<Rightarrow> nat" where
  "get_effective_min_childkey_take st netuid = max (MinChildkeyTakeValue st) (MinChildkeyTakePerSubnet st netuid)"

definition get_childkey_take :: "('a, 'm) childkey_storage_scheme \<Rightarrow> 'a \<Rightarrow> nat \<Rightarrow> nat" where
  "get_childkey_take st hotkey netuid =
     max (ChildkeyTake st hotkey netuid) (get_effective_min_childkey_take st netuid)"

definition do_set_childkey_take ::
    "'a \<Rightarrow> 'a \<Rightarrow> nat \<Rightarrow> nat \<Rightarrow> ('a, 'm) childkey_storage_scheme \<Rightarrow> Error + ('a, 'm) childkey_storage_scheme" where
  "do_set_childkey_take coldkey hotkey netuid take_value st =
     (if \<not> coldkey_owns_hotkey st coldkey hotkey then Inl NonAssociatedColdKey
      else if \<not> if_subnet_exist st netuid then Inl SubnetNotExists
      else if \<not> (take_value \<ge> get_effective_min_childkey_take st netuid \<and> take_value \<le> MaxChildkeyTake st)
      then Inl InvalidChildkeyTake
      else if take_value > get_childkey_take st hotkey netuid \<and>
              \<not> passes_rate_limit_on_subnet SetChildkeyTake hotkey netuid st
      then Inl TxChildkeyTakeRateLimitExceeded
      else
        let now = current_block st;
            st1 = set_last_block_on_subnet SetChildkeyTake hotkey netuid now st;
            st2 = st1\<lparr>ChildkeyTake := (ChildkeyTake st1)(hotkey := (ChildkeyTake st1 hotkey)(netuid := take_value))\<rparr>;
            st3 = set_last_block_on_subnet SetChildkeyTake hotkey netuid now st2
        in Inr (emit (ChildKeyTakeSet hotkey take_value) st3))"

section \<open>Protocol relations of root validators\<close>

definition apply_auto_parent_to_owner ::
    "'a::linorder \<Rightarrow> nat \<Rightarrow> 'a \<Rightarrow> ('a, 'm) childkey_storage_scheme \<Rightarrow> ('a, 'm) childkey_storage_scheme" where
  "apply_auto_parent_to_owner parent_hotkey netuid owner_hotkey st =
     (if is_root netuid \<or> \<not> if_subnet_exist st netuid then st
      else if parent_hotkey = owner_hotkey then st
      else if \<not> AutoParentDelegationEnabled st parent_hotkey then st
      else if get_links (ChildKeys st) parent_hotkey netuid \<noteq> [] \<or> PendingChildKeys st netuid parent_hotkey \<noteq> None
      then st
      else persist_pending_chidren_ok netuid parent_hotkey [(U64_MAX, owner_hotkey)] st)"

definition is_protocol_auto_parent_edge :: "('a, 'm) childkey_storage_scheme \<Rightarrow> 'a \<Rightarrow> nat \<Rightarrow> bool" where
  "is_protocol_auto_parent_edge st parent_hotkey netuid =
     (case get_links (ChildKeys st) parent_hotkey netuid of [(p, _)] \<Rightarrow> p = U64_MAX | _ \<Rightarrow> False)"

definition clear_auto_parent_for_root_validator ::
    "('o, 'a::linorder) childkey_env \<Rightarrow> 'a \<Rightarrow> ('a, 'm) childkey_storage_scheme \<Rightarrow> ('a, 'm) childkey_storage_scheme" where
  "clear_auto_parent_for_root_validator env root_validator_hotkey st =
     fold (\<lambda>netuid st.
         if is_root netuid then st
         else if \<not> is_protocol_auto_parent_edge st root_validator_hotkey netuid then st
         else persist_pending_chidren_ok netuid root_validator_hotkey [] st)
       (all_subnet_netuids env) st"

definition retarget_auto_parent_on_owner_change ::
    "('o, 'a::linorder) childkey_env \<Rightarrow> nat \<Rightarrow> 'a \<Rightarrow> 'a \<Rightarrow> ('a, 'm) childkey_storage_scheme \<Rightarrow>
     ('a, 'm) childkey_storage_scheme" where
  "retarget_auto_parent_on_owner_change env netuid old_owner new_owner st =
     (if is_root netuid \<or> old_owner = new_owner then st
      else fold (\<lambda>parent_hotkey st.
          if get_links (ChildKeys st) parent_hotkey netuid \<noteq> [(U64_MAX, old_owner)] then st
          else if parent_hotkey = new_owner then persist_pending_chidren_ok netuid parent_hotkey [] st
          else persist_pending_chidren_ok netuid parent_hotkey [(U64_MAX, new_owner)] st)
        (root_validators env) st)"

definition do_set_root_validators_for_subnet ::
    "('o, 'a::linorder) childkey_env \<Rightarrow> nat \<Rightarrow> ('a, 'm) childkey_storage_scheme \<Rightarrow>
     Error + ('a, 'm) childkey_storage_scheme" where
  "do_set_root_validators_for_subnet env netuid st =
     (if is_root netuid then Inl RegistrationNotPermittedOnRootSubnet
      else if \<not> if_subnet_exist st netuid then Inl SubnetNotExists
      else
        bind_result (ok_or (SubnetOwnerHotkey st netuid) SubnetNotExists) (\<lambda>subnet_owner_hotkey.
        Inr (fold (\<lambda>root_validator_hotkey. apply_auto_parent_to_owner root_validator_hotkey netuid subnet_owner_hotkey)
               (root_validators env) st)))"

definition do_set_subnet_owners_for_root_validator ::
    "('o, 'a::linorder) childkey_env \<Rightarrow> 'a \<Rightarrow> ('a, 'm) childkey_storage_scheme \<Rightarrow> ('a, 'm) childkey_storage_scheme" where
  "do_set_subnet_owners_for_root_validator env root_validator_hotkey st =
     (if \<not> AutoParentDelegationEnabled st root_validator_hotkey then st
      else fold (\<lambda>netuid st.
          case SubnetOwnerHotkey st netuid of
            None \<Rightarrow> st
          | Some subnet_owner_hotkey \<Rightarrow> apply_auto_parent_to_owner root_validator_hotkey netuid subnet_owner_hotkey st)
        (all_subnet_netuids env) st)"

section \<open>State cleaners\<close>

definition clean_zero_childkey_vectors ::
    "('o, 'a) childkey_env \<Rightarrow> ('a, 'm) childkey_storage_scheme \<Rightarrow> ('a, 'm) childkey_storage_scheme" where
  "clean_zero_childkey_vectors env st =
     fold (\<lambda>(parent, netuid, _) st. st\<lparr>ChildKeys := remove_links parent netuid (ChildKeys st)\<rparr>)
       (filter (\<lambda>(_, _, childs). childs = []) (iter_links env (ChildKeys st))) st"

definition clean_zero_parentkey_vectors ::
    "('o, 'a) childkey_env \<Rightarrow> ('a, 'm) childkey_storage_scheme \<Rightarrow> ('a, 'm) childkey_storage_scheme" where
  "clean_zero_parentkey_vectors env st =
     fold (\<lambda>(parent, netuid, _) st. st\<lparr>ParentKeys := remove_links parent netuid (ParentKeys st)\<rparr>)
       (filter (\<lambda>(_, _, childs). childs = []) (iter_links env (ParentKeys st))) st"

definition clean_self_loops ::
    "('o, 'a) childkey_env \<Rightarrow> ('a, 'm) childkey_storage_scheme \<Rightarrow> ('a, 'm) childkey_storage_scheme" where
  "clean_self_loops env st =
     (let ck = filter (\<lambda>(_, _, childs, filtered). length filtered \<noteq> length childs)
                 (map (\<lambda>(parent, netuid, childs). (parent, netuid, childs, filter (\<lambda>(_, c). c \<noteq> parent) childs))
                   (iter_links env (ChildKeys st)));
          st1 = fold (\<lambda>(parent, netuid, _, filtered). set_childkeys parent netuid filtered)
                  (filter (\<lambda>(_, _, _, filtered). filtered \<noteq> []) ck) st;
          st2 = fold (\<lambda>(parent, netuid, _) st. st\<lparr>ChildKeys := remove_links parent netuid (ChildKeys st)\<rparr>)
                  (filter (\<lambda>(_, _, _, filtered). filtered = []) ck) st1;
          pk = filter (\<lambda>(_, _, ps, filtered). length filtered \<noteq> length ps)
                 (map (\<lambda>(child, netuid, ps). (child, netuid, ps, filter (\<lambda>(_, p). p \<noteq> child) ps))
                   (iter_links env (ParentKeys st2)));
          st3 = fold (\<lambda>(child, netuid, _, filtered). set_parentkeys child netuid filtered)
                  (filter (\<lambda>(_, _, _, filtered). filtered \<noteq> []) pk) st2
      in fold (\<lambda>(child, netuid, _) st. st\<lparr>ParentKeys := remove_links child netuid (ParentKeys st)\<rparr>)
           (filter (\<lambda>(_, _, _, filtered). filtered = []) pk) st3)"

definition repair_childkeys ::
    "('o, 'a) childkey_env \<Rightarrow> ('a, 'm) childkey_storage_scheme \<Rightarrow> ('a, 'm) childkey_storage_scheme" where
  "repair_childkeys env st =
     (let rows = map (\<lambda>(parent, netuid, childs). (parent, netuid, childs,
                   filter (\<lambda>(p, child). list_ex (\<lambda>(pr, pa). pr = p \<and> pa = parent)
                     (get_links (ParentKeys st) child netuid)) childs))
                 (iter_links env (ChildKeys st));
          st1 = fold (\<lambda>(parent, netuid, _, filtered). set_childkeys parent netuid filtered)
                  (filter (\<lambda>(_, _, childs, filtered). filtered \<noteq> [] \<and> childs \<noteq> filtered) rows) st
      in fold (\<lambda>(parent, netuid, _) st. st\<lparr>ChildKeys := remove_links parent netuid (ChildKeys st)\<rparr>)
           (filter (\<lambda>(_, _, _, filtered). filtered = []) rows) st1)"

definition repair_parentkeys ::
    "('o, 'a) childkey_env \<Rightarrow> ('a, 'm) childkey_storage_scheme \<Rightarrow> ('a, 'm) childkey_storage_scheme" where
  "repair_parentkeys env st =
     (let rows = map (\<lambda>(child, netuid, ps). (child, netuid, ps,
                   filter (\<lambda>(p, parent). list_ex (\<lambda>(pr, ch). pr = p \<and> ch = child)
                     (get_links (ChildKeys st) parent netuid)) ps))
                 (iter_links env (ParentKeys st));
          st1 = fold (\<lambda>(child, netuid, _, filtered). set_parentkeys child netuid filtered)
                  (filter (\<lambda>(_, _, ps, filtered). filtered \<noteq> [] \<and> ps \<noteq> filtered) rows) st
      in fold (\<lambda>(child, netuid, _) st. st\<lparr>ParentKeys := remove_links child netuid (ParentKeys st)\<rparr>)
           (filter (\<lambda>(_, _, _, filtered). filtered = []) rows) st1)"

definition repair_child_parent_consistency ::
    "('o, 'a) childkey_env \<Rightarrow> ('a, 'm) childkey_storage_scheme \<Rightarrow> ('a, 'm) childkey_storage_scheme" where
  "repair_child_parent_consistency env st = repair_parentkeys env (repair_childkeys env st)"

end
