(* ===== verification/Child_Families.thy ===== *)
theory Child_Families
  imports Child_Keys "HOL-Library.Countable"
begin

text \<open>
  What the childkey operations of \<open>Child_Keys\<close> guarantee.  A relation is an edge from a parent to a child
  with a proportion; \<open>edges\<close> reads them from \<^verbatim>\<open>ChildKeys\<close>.  Storing relations is shown to replace the star
  of edges at one hotkey, a hotkey swap to rename it, and the repair migration to keep the entries
  that both maps have.  The step relation \<open>childkey_step\<close> runs all operations in any order (the removal of
  a dissolved subnet's rows, which goes page by page, is not among them) and keeps \<open>family_ok\<close>.
\<close>

section \<open>Lists of links\<close>

definition set_links :: "'a \<Rightarrow> nat \<Rightarrow> 'a links \<Rightarrow> 'a link_map \<Rightarrow> 'a link_map" where
  "set_links key netuid v m = (if v = [] then remove_links key netuid m else insert_links key netuid v m)"

lemma get_links_set [simp]:
  "get_links (set_links k n v m) j n' = (if j = k \<and> n' = n then v else get_links m j n')"
  by (auto simp: get_links_def set_links_def remove_links_def insert_links_def)

lemma get_links_insert [simp]:
  "get_links (insert_links k n v m) j n' = (if j = k \<and> n' = n then v else get_links m j n')"
  by (auto simp: get_links_def insert_links_def)

lemma set_keys_links:
  "set_childkeys k n v st = st\<lparr>ChildKeys := set_links k n v (ChildKeys st)\<rparr>"
  "set_parentkeys k n v st = st\<lparr>ParentKeys := set_links k n v (ParentKeys st)\<rparr>"
  by (simp_all add: set_childkeys_def set_parentkeys_def set_links_def)

definition links_over :: "('a \<Rightarrow> 'a links \<Rightarrow> 'a links) \<Rightarrow> nat \<Rightarrow> 'a list \<Rightarrow> 'a link_map \<Rightarrow> 'a link_map" where
  "links_over f n xs m = fold (\<lambda>x m. set_links x n (f x (get_links m x n)) m) xs m"

lemma fold_set_parentkeys:
  "fold (\<lambda>x st. set_parentkeys x n (f x (get_links (ParentKeys st) x n)) st) xs st =
     st\<lparr>ParentKeys := links_over f n xs (ParentKeys st)\<rparr>"
  by (induction xs arbitrary: st) (simp_all add: links_over_def set_keys_links)

lemma fold_set_childkeys:
  "fold (\<lambda>x st. set_childkeys x n (f x (get_links (ChildKeys st) x n)) st) xs st =
     st\<lparr>ChildKeys := links_over f n xs (ChildKeys st)\<rparr>"
  by (induction xs arbitrary: st) (simp_all add: links_over_def set_keys_links)

lemma get_links_over:
  "distinct xs \<Longrightarrow> get_links (links_over f n xs m) x n' =
     (if x \<in> set xs \<and> n' = n then f x (get_links m x n) else get_links m x n')"
  by (induction xs arbitrary: m) (auto simp: links_over_def)

lemma upsert_edge_mem:
  "distinct (map snd l) \<Longrightarrow> (p, q) \<in> set (upsert_edge l v key) \<longleftrightarrow> (if q = key then p = v else (p, q) \<in> set l)"
  by (induction l v key rule: upsert_edge.induct) (force split: if_splits)+

lemma upsert_edge_keys: "snd ` set (upsert_edge l v key) = insert key (snd ` set l)"
  by (induction l v key rule: upsert_edge.induct) auto

lemma upsert_edge_distinct: "distinct (map snd l) \<Longrightarrow> distinct (map snd (upsert_edge l v key))"
proof (induction l v key rule: upsert_edge.induct)
  case (2 p who rest v key)
  then show ?case using upsert_edge_keys[of rest v key] by auto
qed simp

lemma upsert_edge_length: "length (upsert_edge l v key) = length l + (if key \<in> snd ` set l then 0 else 1)"
  by (induction l v key rule: upsert_edge.induct) auto

lemma remove_edge_mem [simp]: "(p, q) \<in> set (remove_edge l key) \<longleftrightarrow> q \<noteq> key \<and> (p, q) \<in> set l"
  by (auto simp: remove_edge_def)

lemma remove_edge_distinct: "distinct (map snd l) \<Longrightarrow> distinct (map snd (remove_edge l key))"
  by (induction l) (auto simp: remove_edge_def)

lemma remove_edge_length: "length (remove_edge l key) \<le> length l"
  by (simp add: remove_edge_def)

section \<open>The two directions agree\<close>

definition links_ok :: "'a link_map \<Rightarrow> bool" where
  "links_ok m \<longleftrightarrow> (\<forall>key n. distinct (map snd (get_links m key n)))"

definition mirrored :: "'a link_map \<Rightarrow> 'a link_map \<Rightarrow> bool" where
  "mirrored a b \<longleftrightarrow> links_ok a \<and> links_ok b \<and>
     (\<forall>n x y p. (p, y) \<in> set (get_links a x n) \<longleftrightarrow> (p, x) \<in> set (get_links b y n))"

lemma mirrored_sym: "mirrored a b \<Longrightarrow> mirrored b a"
  by (auto simp: mirrored_def)

text \<open>What one direction of \<^verbatim>\<open>persist_child_parent_relations\<close> makes of the two maps.\<close>

definition synced :: "'a::linorder \<Rightarrow> ('a \<times> nat) list \<Rightarrow> nat \<Rightarrow> 'a link_map \<Rightarrow> 'a link_map \<Rightarrow> 'a link_map \<times> 'a link_map" where
  "synced piv new n own other =
     (let prev = btree_set (map snd (get_links own piv n));
          up = (\<lambda>x l. upsert_edge l (the (btree_get new x)) piv)
      in (set_links piv n (map (\<lambda>(c, p). (p, c)) new) own,
          links_over (\<lambda>_ l. remove_edge l piv) n (filter (\<lambda>c. c \<notin> set (btree_keys new)) prev)
            (links_over up n (filter (\<lambda>c. c \<in> set prev) (btree_keys new))
              (links_over up n (filter (\<lambda>c. c \<notin> set prev) (btree_keys new)) other))))"

lemma persist_children_synced:
  "persist_children piv new n st =
     (let (own, other) = synced piv new n (ChildKeys st) (ParentKeys st)
      in Inr (st\<lparr>ChildKeys := own, ParentKeys := other\<rparr>))"
proof -
  let ?f = "\<lambda>child st. case btree_get new child of None \<Rightarrow> Inl ChildParentInconsistency
    | Some p \<Rightarrow> Inr (set_parentkeys child n (upsert_edge (get_links (ParentKeys st) child n) p piv) st)"
  have step: "fold_result ?f (filter P (btree_keys new)) s = Inr (s\<lparr>ParentKeys :=
      links_over (\<lambda>x l. upsert_edge l (the (btree_get new x)) piv) n (filter P (btree_keys new)) (ParentKeys s)\<rparr>)" for P and s :: "('a, 'b) childkey_storage_scheme"
    unfolding fold_set_parentkeys[symmetric]
    by (rule fold_result_total) (auto simp: btree_keys_mem contains_key_def)
  show ?thesis
    unfolding persist_children_def synced_def Let_def step bind_result_simps
      fold_set_parentkeys[of n "\<lambda>_ l. remove_edge l piv"]
    by (simp add: set_keys_links)
qed

lemma persist_parents_synced:
  "persist_parents piv new n st =
     (let (own, other) = synced piv new n (ParentKeys st) (ChildKeys st)
      in Inr (st\<lparr>ParentKeys := own, ChildKeys := other\<rparr>))"
proof -
  let ?f = "\<lambda>child st. case btree_get new child of None \<Rightarrow> Inl ChildParentInconsistency
    | Some p \<Rightarrow> Inr (set_childkeys child n (upsert_edge (get_links (ChildKeys st) child n) p piv) st)"
  have step: "fold_result ?f (filter P (btree_keys new)) s = Inr (s\<lparr>ChildKeys :=
      links_over (\<lambda>x l. upsert_edge l (the (btree_get new x)) piv) n (filter P (btree_keys new)) (ChildKeys s)\<rparr>)" for P and s :: "('a, 'b) childkey_storage_scheme"
    unfolding fold_set_childkeys[symmetric]
    by (rule fold_result_total) (auto simp: btree_keys_mem contains_key_def)
  show ?thesis
    unfolding persist_parents_def synced_def Let_def step bind_result_simps
      fold_set_childkeys[of n "\<lambda>_ l. remove_edge l piv"]
    by (simp add: set_keys_links)
qed

lemma synced_links:
  assumes "btree_ok new" and "synced piv new n own other = (own', other')"
  shows "get_links own' x n' = (if x = piv \<and> n' = n then map (\<lambda>(c, p). (p, c)) new else get_links own x n')"
    "get_links other' x n' =
       (if n' = n \<and> contains_key new x then upsert_edge (get_links other x n) (the (btree_get new x)) piv
        else if n' = n \<and> x \<in> snd ` set (get_links own piv n) then remove_edge (get_links other x n) piv
        else get_links other x n')"
proof -
  let ?P = "snd ` set (get_links own piv n)"
  have o: "own' = fst (synced piv new n own other)" "other' = snd (synced piv new n own other)" using assms(2) by simp_all
  show "get_links own' x n' = (if x = piv \<and> n' = n then map (\<lambda>(c, p). (p, c)) new else get_links own x n')"
    unfolding o by (simp add: synced_def Let_def)
  show "get_links other' x n' =
       (if n' = n \<and> contains_key new x then upsert_edge (get_links other x n) (the (btree_get new x)) piv
        else if n' = n \<and> x \<in> ?P then remove_edge (get_links other x n) piv
        else get_links other x n')"
    unfolding o using btree_ok_distinct[OF assms(1)]
    by (simp add: synced_def Let_def get_links_over btree_keys_mem)
qed

text \<open>Rows that a direction does not touch, as they are stored.\<close>

lemma links_over_other: "x \<notin> set xs \<Longrightarrow> links_over f n xs m x k = m x k"
  by (induction xs arbitrary: m) (auto simp: links_over_def set_links_def insert_links_def remove_links_def)

lemma synced_rows:
  assumes "synced piv new n own other = (own', other')"
  shows "x \<noteq> piv \<Longrightarrow> own' x k = own x k"
    "\<not> contains_key new x \<Longrightarrow> x \<notin> snd ` set (get_links own piv n) \<Longrightarrow> other' x k = other x k"
  using assms
  by (auto simp: synced_def Let_def links_over_other btree_keys_mem set_links_def insert_links_def remove_links_def)

lemma synced_mirrored:
  assumes "btree_ok new" "mirrored own other" and s: "synced piv new n own other = (own', other')"
  shows "mirrored own' other'"
proof -
  note l = synced_links[OF assms(1) s]
  have d: "distinct (map snd (get_links own x m))" "distinct (map snd (get_links other x m))"
    and mem: "(p, y) \<in> set (get_links own x m) \<longleftrightarrow> (p, x) \<in> set (get_links other y m)" for x y m p
    using assms(2) by (simp_all add: mirrored_def links_ok_def)
  have "map snd (map (\<lambda>(c, p). (p, c)) new) = btree_keys new" by (simp add: btree_keys_def case_prod_unfold)
  then have "links_ok own'" using btree_ok_distinct[OF assms(1)] d by (simp add: links_ok_def l)
  moreover have "links_ok other'"
    using d by (simp add: links_ok_def l upsert_edge_distinct remove_edge_distinct)
  moreover have "(p, y) \<in> set (get_links own' x m) \<longleftrightarrow> (p, x) \<in> set (get_links other' y m)" for x y m p
  proof (cases "x = piv \<and> m = n")
    case True
    have "(p, y) \<in> set (map (\<lambda>(c, p). (p, c)) new) \<longleftrightarrow> btree_get new y = Some p"
      using btree_mem[OF assms(1)] by auto
    then show ?thesis
      using True mem[of p y piv n] d(2)[of y n]
      by (auto simp: l upsert_edge_mem contains_key_def image_iff)
  next
    case False
    then show ?thesis using mem[of p y x m] d(2)[of y n] by (auto simp: l upsert_edge_mem)
  qed
  ultimately show ?thesis by (simp add: mirrored_def)
qed


section \<open>Relations as a set of edges\<close>

definition edges :: "('a, 'm) childkey_storage_scheme \<Rightarrow> nat \<Rightarrow> ('a \<times> 'a \<times> nat) set" where
  "edges st n = {(q, c, p). (p, c) \<in> set (get_links (ChildKeys st) q n)}"

definition replace_star ::
    "'a \<Rightarrow> ('a \<Rightarrow> nat option) \<Rightarrow> ('a \<Rightarrow> nat option) \<Rightarrow> ('a \<times> 'a \<times> nat) set \<Rightarrow> ('a \<times> 'a \<times> nat) set" where
  "replace_star piv cs ps E =
     {(q, c, p) \<in> E. q \<noteq> piv \<and> c \<noteq> piv} \<union> {(piv, c, p) |c p. cs c = Some p} \<union> {(q, piv, p) |q p. ps q = Some p}"

definition consistent :: "('a, 'm) childkey_storage_scheme \<Rightarrow> bool" where
  "consistent st \<longleftrightarrow> mirrored (ChildKeys st) (ParentKeys st)"

definition relations_ok :: "'a::linorder PCRelations \<Rightarrow> bool" where
  "relations_ok rel \<longleftrightarrow> btree_ok (children rel) \<and> btree_ok (parents rel) \<and>
     \<not> contains_key (children rel) (pivot rel) \<and> \<not> contains_key (parents rel) (pivot rel) \<and>
     sum_list (map snd (children rel)) \<le> U64_MAX \<and>
     (\<forall>c. contains_key (children rel) c \<longrightarrow> \<not> contains_key (parents rel) c)"

lemma persist_cases:
  assumes "persist_child_parent_relations rel n st = Inr st'"
  obtains ck pk where
    "length (parents rel) \<le> MAX_PARENTS_PER_CHILD \<or>
       length (parents rel) \<le> length (get_links (ParentKeys st) (pivot rel) n)"
    "\<forall>c. contains_key (children rel) c \<longrightarrow> pivot rel \<in> snd ` set (get_links (ParentKeys st) c n) \<or>
       length (get_links (ParentKeys st) c n) < MAX_PARENTS_PER_CHILD"
    "synced (pivot rel) (children rel) n (ChildKeys st) (ParentKeys st) = (ck, pk)"
    "synced (pivot rel) (parents rel) n pk ck = (ParentKeys st', ChildKeys st')"
    "st' = st\<lparr>ChildKeys := ChildKeys st', ParentKeys := ParentKeys st'\<rparr>"
proof -
  obtain ck pk where s1: "synced (pivot rel) (children rel) n (ChildKeys st) (ParentKeys st) = (ck, pk)"
    by (cases "synced (pivot rel) (children rel) n (ChildKeys st) (ParentKeys st)")
  obtain ck' pk' where s2: "synced (pivot rel) (parents rel) n pk ck = (pk', ck')"
    by (cases "synced (pivot rel) (parents rel) n pk ck")
  note unf = assms[unfolded persist_child_parent_relations_def Let_def persist_children_synced persist_parents_synced s1]
  have st': "st' = st\<lparr>ChildKeys := ck', ParentKeys := pk'\<rparr>"
    using unf s2 by (cases st) (simp split: if_splits)
  have g: "length (parents rel) \<le> MAX_PARENTS_PER_CHILD \<or>
       length (parents rel) \<le> length (get_links (ParentKeys st) (pivot rel) n)"
    using unf by (auto split: if_splits)
  have h: "\<forall>c. contains_key (children rel) c \<longrightarrow> pivot rel \<in> snd ` set (get_links (ParentKeys st) c n) \<or>
       length (get_links (ParentKeys st) c n) < MAX_PARENTS_PER_CHILD"
    using unf by (force simp: list_all_iff list_ex_iff btree_keys_mem[symmetric] split: if_splits)
  show thesis by (rule that[OF g h s1]) (simp_all add: st' s2)
qed

lemma persist_checks_first:
  "persist_child_parent_relations rel n st = Inl e \<Longrightarrow> e = TooManyParents"
  by (auto simp: persist_child_parent_relations_def Let_def persist_children_synced persist_parents_synced
      split: if_splits prod.splits)

lemma persist_refines:
  assumes ok: "consistent st" and rel: "relations_ok rel"
    and res: "persist_child_parent_relations rel n st = Inr st'"
  shows "consistent st'"
    "edges st' n = replace_star (pivot rel) (btree_get (children rel)) (btree_get (parents rel)) (edges st n)"
    "n' \<noteq> n \<Longrightarrow> get_links (ChildKeys st') x n' = get_links (ChildKeys st) x n'"
    "n' \<noteq> n \<Longrightarrow> get_links (ParentKeys st') x n' = get_links (ParentKeys st) x n'"
proof -
  obtain ck pk where s: "synced (pivot rel) (children rel) n (ChildKeys st) (ParentKeys st) = (ck, pk)"
    "synced (pivot rel) (parents rel) n pk ck = (ParentKeys st', ChildKeys st')"
    by (rule persist_cases[OF res])
  have bt: "btree_ok (children rel)" "btree_ok (parents rel)" using rel by (simp_all add: relations_ok_def)
  have m1: "mirrored ck pk" using synced_mirrored[OF bt(1) _ s(1)] ok by (simp add: consistent_def)
  have m2: "mirrored (ParentKeys st') (ChildKeys st')" by (rule synced_mirrored[OF bt(2) mirrored_sym[OF m1] s(2)])
  then show "consistent st'" by (simp add: consistent_def mirrored_sym)
  note l1 = synced_links[OF bt(1) s(1)] and l2 = synced_links[OF bt(2) s(2)]
  show "n' \<noteq> n \<Longrightarrow> get_links (ChildKeys st') x n' = get_links (ChildKeys st) x n'"
    "n' \<noteq> n \<Longrightarrow> get_links (ParentKeys st') x n' = get_links (ParentKeys st) x n'"
    by (simp_all add: l1 l2)
  have mem: "(p, c) \<in> set (get_links (ChildKeys st') q n) \<longleftrightarrow>
      (if c = pivot rel then btree_get (parents rel) q = Some p
       else if q = pivot rel then btree_get (children rel) c = Some p
       else (p, c) \<in> set (get_links (ChildKeys st) q n))" for q c p
  proof -
    have e1: "(p, c) \<in> set (get_links (ChildKeys st') q n) \<longleftrightarrow> (p, q) \<in> set (get_links (ParentKeys st') c n)"
      using m2 by (simp add: mirrored_def)
    have e2: "(p, c) \<in> set (get_links ck q n) \<longleftrightarrow> (p, q) \<in> set (get_links pk c n)"
      using m1 by (simp add: mirrored_def)
    have sw: "(p, q) \<in> set (map (\<lambda>(c, p). (p, c)) (parents rel)) \<longleftrightarrow> btree_get (parents rel) q = Some p"
      "(p, c) \<in> set (map (\<lambda>(c, p). (p, c)) (children rel)) \<longleftrightarrow> btree_get (children rel) c = Some p"
      using btree_mem[OF bt(2)] btree_mem[OF bt(1)] by auto
    show ?thesis
    proof (cases "c = pivot rel")
      case True
      then show ?thesis using e1 sw(1) by (simp add: l2)
    next
      case False
      then have "(p, c) \<in> set (get_links (ChildKeys st') q n) \<longleftrightarrow> (p, c) \<in> set (get_links ck q n)"
        using e1 e2 by (simp add: l2)
      then show ?thesis using False sw(2) by (simp add: l1)
    qed
  qed
  have "\<not> contains_key (parents rel) (pivot rel)" "\<not> contains_key (children rel) (pivot rel)"
    using rel by (simp_all add: relations_ok_def)
  then show "edges st' n = replace_star (pivot rel) (btree_get (children rel)) (btree_get (parents rel)) (edges st n)"
    unfolding edges_def replace_star_def by (auto simp: mem contains_key_def split: if_splits)
qed

lemma persist_row:
  assumes rel: "relations_ok rel" and res: "persist_child_parent_relations rel n st = Inr st'"
    and x: "x \<noteq> pivot rel" "\<not> contains_key (parents rel) x" "\<And>p. (p, x) \<notin> set (get_links (ParentKeys st) (pivot rel) n)"
  shows "ChildKeys st' x k = ChildKeys st x k"
proof -
  obtain ck pk where s: "synced (pivot rel) (children rel) n (ChildKeys st) (ParentKeys st) = (ck, pk)"
    "synced (pivot rel) (parents rel) n pk ck = (ParentKeys st', ChildKeys st')"
    by (rule persist_cases[OF res])
  have bt: "btree_ok (children rel)" "\<not> contains_key (children rel) (pivot rel)"
    using rel by (simp_all add: relations_ok_def)
  have "set (get_links pk (pivot rel) n) \<subseteq> set (get_links (ParentKeys st) (pivot rel) n)"
    unfolding synced_links(2)[OF bt(1) s(1)] using bt(2) by auto
  then have "x \<notin> snd ` set (get_links pk (pivot rel) n)" using x(3) by force
  then have "ChildKeys st' x k = ck x k" by (rule synced_rows(2)[OF s(2) x(2)])
  then show ?thesis using synced_rows(1)[OF s(1) x(1)] by simp
qed

section \<open>The family invariant\<close>

definition family_ok :: "('a, 'm) childkey_storage_scheme \<Rightarrow> bool" where
  "family_ok st \<longleftrightarrow> consistent st \<and>
     (\<forall>n q c p. (q, c, p) \<in> edges st n \<longrightarrow> q \<noteq> c \<and> (\<forall>p'. (c, q, p') \<notin> edges st n)) \<and>
     (\<forall>n q. sum_list (map fst (get_links (ChildKeys st) q n)) \<le> U64_MAX) \<and>
     (\<forall>n c. length (get_links (ParentKeys st) c n) \<le> MAX_PARENTS_PER_CHILD)"

lemma family_ok_frame:
  "ChildKeys st' = ChildKeys st \<Longrightarrow> ParentKeys st' = ParentKeys st \<Longrightarrow> family_ok st' \<longleftrightarrow> family_ok st"
  by (simp add: family_ok_def consistent_def edges_def)

lemma links_sum:
  assumes "distinct (map snd l)"
  shows "sum_list (map fst l) = (\<Sum>x\<in>set l. fst x)"
  using assms by (simp add: distinct_map sum_list_distinct_conv_sum_set)

lemma edges_other_net:
  "(\<And>x. get_links (ChildKeys st') x n = get_links (ChildKeys st) x n) \<Longrightarrow> edges st' n = edges st n"
  by (simp add: edges_def)

lemma persist_parent_bound:
  assumes rel: "relations_ok rel" and res: "persist_child_parent_relations rel n st = Inr st'"
    and b: "\<And>n c. length (get_links (ParentKeys st) c n) \<le> MAX_PARENTS_PER_CHILD"
  shows "length (get_links (ParentKeys st') c m) \<le> MAX_PARENTS_PER_CHILD"
proof -
  obtain ck pk where g: "length (parents rel) \<le> MAX_PARENTS_PER_CHILD \<or>
       length (parents rel) \<le> length (get_links (ParentKeys st) (pivot rel) n)"
    and h: "\<forall>c. contains_key (children rel) c \<longrightarrow> pivot rel \<in> snd ` set (get_links (ParentKeys st) c n) \<or>
       length (get_links (ParentKeys st) c n) < MAX_PARENTS_PER_CHILD"
    and s: "synced (pivot rel) (children rel) n (ChildKeys st) (ParentKeys st) = (ck, pk)"
    "synced (pivot rel) (parents rel) n pk ck = (ParentKeys st', ChildKeys st')"
    "st' = st\<lparr>ChildKeys := ChildKeys st', ParentKeys := ParentKeys st'\<rparr>"
    by (rule persist_cases[OF res])
  have bt: "btree_ok (children rel)" "btree_ok (parents rel)" using rel by (simp_all add: relations_ok_def)
  note l1 = synced_links[OF bt(1) s(1)] and l2 = synced_links[OF bt(2) s(2)]
  have "length (upsert_edge (get_links (ParentKeys st) c n) v (pivot rel)) \<le> MAX_PARENTS_PER_CHILD"
    if "contains_key (children rel) c" for v
  proof -
    have "pivot rel \<in> snd ` set (get_links (ParentKeys st) c n) \<or> length (get_links (ParentKeys st) c n) < MAX_PARENTS_PER_CHILD"
      using h that by blast
    then show ?thesis using b[where n = n and c = c] by (auto simp del: image_iff simp: upsert_edge_length)
  qed
  moreover have "length (remove_edge (get_links (ParentKeys st) c n) (pivot rel)) \<le> MAX_PARENTS_PER_CHILD"
    by (rule le_trans[OF remove_edge_length b])
  moreover have "length (parents rel) \<le> MAX_PARENTS_PER_CHILD"
    using g b[where n = n and c = "pivot rel"] by linarith
  ultimately show ?thesis using b by (simp add: l1 l2)
qed

text \<open>Everything of the invariant but the bound on proportions holds after storing any valid relations.\<close>

lemma persist_family:
  assumes fam: "family_ok st" and rel: "relations_ok rel"
    and res: "persist_child_parent_relations rel n st = Inr st'"
    and sums: "\<And>q. q \<noteq> pivot rel \<Longrightarrow> sum_list (map fst (get_links (ChildKeys st') q n)) \<le> U64_MAX"
  shows "family_ok st'"
proof -
  have ok: "consistent st" using fam by (simp add: family_ok_def)
  note r = persist_refines[OF ok rel res]
  have other: "edges st' m = edges st m" if "m \<noteq> n" for m by (rule edges_other_net) (rule r(3)[OF that])
  have disj: "contains_key (children rel) c \<Longrightarrow> \<not> contains_key (parents rel) c"
    "\<not> contains_key (children rel) (pivot rel)" "\<not> contains_key (parents rel) (pivot rel)" for c
    using rel by (simp_all add: relations_ok_def)
  have "q \<noteq> c \<and> (\<forall>p'. (c, q, p') \<notin> edges st' m)" if "(q, c, p) \<in> edges st' m" for q c p m
  proof (cases "m = n")
    case True
    have old: "(x, x, w) \<notin> edges st n" "(x, y, w) \<in> edges st n \<Longrightarrow> (y, x, p') \<notin> edges st n" for x y w p'
      using fam unfolding family_ok_def by blast+
    show ?thesis
      using that disj old unfolding True r(2) replace_star_def by (auto simp: contains_key_def)
  next
    case False
    then show ?thesis using that fam unfolding other[OF False] family_ok_def by blast
  qed
  moreover have "sum_list (map fst (get_links (ChildKeys st') q m)) \<le> U64_MAX" for q m
  proof (cases "m = n")
    case True
    show ?thesis
    proof (cases "q = pivot rel")
      case piv: True
      have d: "distinct (map snd (get_links (ChildKeys st') q n))"
        using r(1) by (simp add: consistent_def mirrored_def links_ok_def)
      have bt: "btree_ok (children rel)" using rel by (simp add: relations_ok_def)
      have "set (get_links (ChildKeys st') q n) = (\<lambda>(c, p). (p, c)) ` set (children rel)"
      proof -
        have "(p, c) \<in> set (get_links (ChildKeys st') q n) \<longleftrightarrow> (c, p) \<in> set (children rel)" for p c
        proof -
          have "(p, c) \<in> set (get_links (ChildKeys st') q n) \<longleftrightarrow> (q, c, p) \<in> edges st' n" by (simp add: edges_def)
          then show ?thesis
            using disj(2,3) btree_mem[OF bt] unfolding r(2) piv replace_star_def by (auto simp: contains_key_def)
        qed
        then show ?thesis by force
      qed
      then have "sum_list (map fst (get_links (ChildKeys st') q n)) = (\<Sum>x\<in>(\<lambda>(c, p). (p, c)) ` set (children rel). fst x)"
        using links_sum[OF d] by simp
      also have "\<dots> = (\<Sum>x\<in>set (children rel). snd x)"
        by (subst sum.reindex) (auto simp: inj_on_def case_prod_unfold)
      also have "\<dots> = sum_list (map snd (children rel))"
        using btree_ok_distinct[OF bt] by (simp add: btree_keys_def distinct_map sum_list_distinct_conv_sum_set)
      finally show ?thesis using rel True by (simp add: relations_ok_def)
    next
      case False
      then show ?thesis using sums True by simp
    qed
  next
    case False
    then show ?thesis using fam r(3)[OF False] by (simp add: family_ok_def)
  qed
  moreover have "length (get_links (ParentKeys st') c m) \<le> MAX_PARENTS_PER_CHILD" for c m
    using persist_parent_bound[OF rel res] fam by (simp add: family_ok_def)
  ultimately show ?thesis using r(1) by (simp add: family_ok_def)
qed

section \<open>Loaded relations\<close>

lemma fold_saturating_sum:
  "acc \<le> U128_MAX \<Longrightarrow> fold (\<lambda>w acc. saturating_add U128_MAX acc w) ws acc = min U128_MAX (acc + sum_list ws)"
  by (induction ws arbitrary: acc) (auto simp: saturating_add_def min_def)

lemma total_proportions_iff [result_iffs]:
  "ensure_total_proportions m = Inr u \<longleftrightarrow> sum_list (map snd m) \<le> U64_MAX"
proof -
  have "U64_MAX < U128_MAX" by (simp add: int_bounds)
  then show ?thesis
    using fold_saturating_sum[of 0 "map snd m"] by (auto simp: ensure_total_proportions_def result_iffs)
qed

lemma ensure_iffs [result_iffs]:
  "ensure_childkey_count m = Inr u \<longleftrightarrow> length m \<le> 5"
  "ensure_no_self_loop piv m = Inr u \<longleftrightarrow> \<not> contains_key m piv"
  "ensure_bipartite_separation cs ps = Inr u \<longleftrightarrow> (\<forall>c. contains_key cs c \<longrightarrow> \<not> contains_key ps c)"
  by (auto simp: ensure_childkey_count_def ensure_no_self_loop_def ensure_bipartite_separation_def
      result_iffs list_ex_iff btree_keys_mem)

lemma btree_get_links:
  assumes "links_ok m"
  shows "btree_get (btree_of (filter (\<lambda>(_, y). y \<noteq> x) (get_links m x n))) y = Some p \<longleftrightarrow>
    y \<noteq> x \<and> (p, y) \<in> set (get_links m x n)"
proof -
  have "distinct (map snd (filter (\<lambda>(_, y). y \<noteq> x) (get_links m x n)))"
    using assms by (auto simp: links_ok_def intro!: distinct_map_filter)
  then show ?thesis unfolding btree_get_of_distinct[OF \<open>distinct _\<close>] by auto
qed

lemma load_relations:
  assumes "load_child_parent_relations hotkey n st = Inr rel"
  shows "relations_ok rel" "pivot rel = hotkey"
    "children rel = btree_of (filter (\<lambda>(_, y). y \<noteq> hotkey) (get_links (ChildKeys st) hotkey n))"
    "parents rel = btree_of (filter (\<lambda>(_, y). y \<noteq> hotkey) (get_links (ParentKeys st) hotkey n))"
  using assms
  by (auto simp: load_child_parent_relations_def link_children_def link_parents_def new_relations_def
      relations_ok_def result_iffs)

lemma load_pending:
  assumes "load_relations_from_pending hotkey childs n st = Inr rel"
  shows "relations_ok rel" "pivot rel = hotkey"
    "children rel = btree_of (filter (\<lambda>(_, y). y \<noteq> hotkey) childs)"
    "parents rel = btree_of (filter (\<lambda>(_, y). y \<noteq> hotkey) (get_links (ParentKeys st) hotkey n))"
  using assms
  by (auto simp: load_relations_from_pending_def link_children_def link_parents_def new_relations_def
      relations_ok_def result_iffs)

section \<open>Applying children\<close>

lemma pending_rel_family:
  assumes fam: "family_ok st" and load: "load_relations_from_pending hotkey childs n st = Inr rel"
    and res: "persist_child_parent_relations rel n st = Inr st'"
  shows "family_ok st'"
    "edges st' n = {(q, c, p) \<in> edges st n. q \<noteq> hotkey} \<union> {(hotkey, c, p) |c p. btree_get (children rel) c = Some p}"
proof -
  have ok: "consistent st" using fam by (simp add: family_ok_def)
  then have m: "links_ok (ParentKeys st)"
    "(p, y) \<in> set (get_links (ChildKeys st) x n) \<longleftrightarrow> (p, x) \<in> set (get_links (ParentKeys st) y n)" for p x y
    by (simp_all add: consistent_def mirrored_def)
  note l = load_pending[OF load]
  note r = persist_refines[OF ok l(1) res]
  have ps: "btree_get (parents rel) q = Some p \<longleftrightarrow> q \<noteq> hotkey \<and> (q, hotkey, p) \<in> edges st n" for q p
    unfolding l(4) btree_get_links[OF m(1)] by (simp add: edges_def m(2))
  have noself: "(x, x, w) \<notin> edges st n" for x w using fam unfolding family_ok_def by blast
  show e: "edges st' n = {(q, c, p) \<in> edges st n. q \<noteq> hotkey} \<union>
      {(hotkey, c, p) |c p. btree_get (children rel) c = Some p}"
    unfolding r(2) replace_star_def l(2) using ps noself by auto
  have "sum_list (map fst (get_links (ChildKeys st') q n)) \<le> U64_MAX" if "q \<noteq> pivot rel" for q
  proof -
    have d: "distinct (map snd (get_links (ChildKeys s) q n))" if "consistent s" for s :: "('a, 'b) childkey_storage_scheme"
      using that by (simp add: consistent_def mirrored_def links_ok_def)
    have "(p, c) \<in> set (get_links (ChildKeys st') q n) \<longleftrightarrow> (p, c) \<in> set (get_links (ChildKeys st) q n)" for p c
    proof -
      have "(q, c, p) \<in> edges st' n \<longleftrightarrow> (q, c, p) \<in> edges st n" unfolding e using that l(2) by auto
      then show ?thesis by (simp add: edges_def)
    qed
    then have "set (get_links (ChildKeys st') q n) = set (get_links (ChildKeys st) q n)" by force
    then have "sum_list (map fst (get_links (ChildKeys st') q n)) = sum_list (map fst (get_links (ChildKeys st) q n))"
      using links_sum[OF d[OF ok]] links_sum[OF d[OF r(1)]] by simp
    then show ?thesis using fam by (simp add: family_ok_def)
  qed
  then show "family_ok st'" by (rule persist_family[OF fam l(1) res])
qed

lemma emit_frame [simp]: "ChildKeys (emit e st) = ChildKeys st" "ParentKeys (emit e st) = ParentKeys st"
  by (simp_all add: emit_def)

lemma persist_pending_family: "family_ok st \<Longrightarrow> family_ok (persist_pending_chidren_ok n hotkey childs st)"
  by (auto simp: persist_pending_chidren_ok_def pending_rel_family(1) family_ok_frame[of "emit e s" s for e s]
      split: sum.splits)

section \<open>Swapping a hotkey\<close>

definition rows_over :: "('a links \<Rightarrow> 'a links) \<Rightarrow> nat \<Rightarrow> 'a list \<Rightarrow> 'a link_map \<Rightarrow> 'a link_map" where
  "rows_over f n xs m = fold (\<lambda>x m. insert_links x n (f (get_links m x n)) m) xs m"

lemma fold_insert_childkeys:
  "fold (\<lambda>x st. st\<lparr>ChildKeys := insert_links x n (f (get_links (ChildKeys st) x n)) (ChildKeys st)\<rparr>) xs st =
     st\<lparr>ChildKeys := rows_over f n xs (ChildKeys st)\<rparr>"
  by (induction xs arbitrary: st) (simp_all add: rows_over_def)

lemma get_rows_over:
  "distinct xs \<Longrightarrow> get_links (rows_over f n xs m) x n' =
     (if x \<in> set xs \<and> n' = n then f (get_links m x n) else get_links m x n')"
  by (induction xs arbitrary: m) (auto simp: rows_over_def)

text \<open>The storage after the old hotkey has been taken out, and what the swap then stores.\<close>

lemma swap_cases:
  assumes "parent_child_swap_hotkey old new n st = Inr st'"
  obtains rel ck pk pend where
    "load_child_parent_relations old n st = Inr rel"
    "\<not> contains_key (children rel) new" "\<not> contains_key (parents rel) new"
    "\<forall>x n'. get_links ck x n' = (if n' = n then if x = old then [] else if contains_key (parents rel) x
        then remove_edge (get_links (ChildKeys st) x n) old else get_links (ChildKeys st) x n
       else get_links (ChildKeys st) x n')"
    "\<forall>x n'. get_links pk x n' = (if n' = n then if x = old then [] else if contains_key (children rel) x
        then remove_edge (get_links (ParentKeys st) x n) old else get_links (ParentKeys st) x n
       else get_links (ParentKeys st) x n')"
    "ck old n = Some []"
    "persist_child_parent_relations (rel\<lparr>pivot := new\<rparr>) n
       (st\<lparr>ParentKeys := pk, ChildKeys := ck, PendingChildKeys := pend\<rparr>) = Inr st'"
proof -
  from assms obtain rel where load: "load_child_parent_relations old n st = Inr rel"
    by (auto simp: parent_child_swap_hotkey_def result_iffs)
  note l = load_relations[OF load]
  have bt: "distinct (btree_keys (children rel))" "distinct (btree_keys (parents rel))"
    using l(1) by (simp_all add: relations_ok_def btree_ok_distinct)
  define pk1 where "pk1 = links_over (\<lambda>_ l. remove_edge l old) n (btree_keys (children rel)) (ParentKeys st)"
  define ck1 where "ck1 = rows_over (\<lambda>l. remove_edge l old) n (btree_keys (parents rel)) (ChildKeys st)"
  let ?st3 = "st\<lparr>ParentKeys := set_links old n [] pk1, ChildKeys := insert_links old n [] ck1\<rparr>"
  note unf = assms[unfolded parent_child_swap_hotkey_def load bind_result_simps Let_def
      fold_set_parentkeys[of n "\<lambda>_ l. remove_edge l old"] pk1_def[symmetric]
      fold_insert_childkeys[of n "\<lambda>l. remove_edge l old"]]
  let ?st2 = "st\<lparr>ParentKeys := pk1, ChildKeys := rows_over (\<lambda>l. remove_edge l old) n (btree_keys (parents rel))
      (ChildKeys (st\<lparr>ParentKeys := pk1\<rparr>))\<rparr>"
  have st3: "set_parentkeys old n [] (?st2\<lparr>ChildKeys := insert_links old n [] (ChildKeys ?st2)\<rparr>) = ?st3"
    by (cases st) (simp add: set_keys_links ck1_def)
  have reb: "\<not> contains_key (children rel) new" "\<not> contains_key (parents rel) new"
    using unf by (auto simp: rebind_pivot_def result_iffs)
  obtain pend where per: "persist_child_parent_relations (rel\<lparr>pivot := new\<rparr>) n
       (st\<lparr>ParentKeys := set_links old n [] pk1, ChildKeys := insert_links old n [] ck1, PendingChildKeys := pend\<rparr>) = Inr st'"
  proof (cases "PendingChildKeys ?st3 n old")
    case None
    then have "persist_child_parent_relations (rel\<lparr>pivot := new\<rparr>) n ?st3 = Inr st'"
      using unf unfolding st3 by (auto simp: rebind_pivot_def result_iffs)
    moreover have "?st3 = ?st3\<lparr>PendingChildKeys := PendingChildKeys st\<rparr>" by simp
    ultimately show ?thesis using that[of "PendingChildKeys st"] by simp
  next
    case (Some e)
    then show ?thesis
      using unf that unfolding st3 by (cases e) (auto simp: rebind_pivot_def result_iffs)
  qed
  show thesis
  proof (rule that[OF load reb _ _ _ per])
    show "insert_links old n [] ck1 old n = Some []" by (simp add: insert_links_def)
    show "\<forall>x n'. get_links (insert_links old n [] ck1) x n' = (if n' = n then if x = old then [] else if contains_key (parents rel) x
        then remove_edge (get_links (ChildKeys st) x n) old else get_links (ChildKeys st) x n
       else get_links (ChildKeys st) x n')"
      by (simp add: ck1_def get_rows_over[OF bt(2)] btree_keys_mem)
    show "\<forall>x n'. get_links (set_links old n [] pk1) x n' = (if n' = n then if x = old then [] else if contains_key (children rel) x
        then remove_edge (get_links (ParentKeys st) x n) old else get_links (ParentKeys st) x n
       else get_links (ParentKeys st) x n')"
      by (simp add: pk1_def get_links_over[OF bt(1)] btree_keys_mem)
  qed
qed

definition renamed_star :: "'a \<Rightarrow> 'a \<Rightarrow> ('a \<times> 'a \<times> nat) set \<Rightarrow> ('a \<times> 'a \<times> nat) set" where
  "renamed_star old new E = {(q, c, p) \<in> E. q \<notin> {old, new} \<and> c \<notin> {old, new}} \<union>
     {(new, c, p) |c p. (old, c, p) \<in> E} \<union> {(q, new, p) |q p. (q, old, p) \<in> E}"

text \<open>Taking a hotkey out keeps the two directions equal and removes exactly its edges.\<close>

lemma taken_out:
  assumes fam: "family_ok st" and load: "load_child_parent_relations old n st = Inr rel"
    and ck: "\<forall>x n'. get_links ck x n' = (if n' = n then if x = old then [] else if contains_key (parents rel) x
        then remove_edge (get_links (ChildKeys st) x n) old else get_links (ChildKeys st) x n
       else get_links (ChildKeys st) x n')"
    and pk: "\<forall>x n'. get_links pk x n' = (if n' = n then if x = old then [] else if contains_key (children rel) x
        then remove_edge (get_links (ParentKeys st) x n) old else get_links (ParentKeys st) x n
       else get_links (ParentKeys st) x n')"
  shows "mirrored ck pk"
    "(p, c) \<in> set (get_links ck q n) \<longleftrightarrow> (q, c, p) \<in> edges st n \<and> q \<noteq> old \<and> c \<noteq> old"
    "btree_get (children rel) c = Some p \<longleftrightarrow> (old, c, p) \<in> edges st n"
    "btree_get (parents rel) q = Some p \<longleftrightarrow> (q, old, p) \<in> edges st n"
proof -
  have mir: "mirrored (ChildKeys st) (ParentKeys st)" using fam by (simp add: family_ok_def consistent_def)
  then have m: "links_ok (ChildKeys st)" "links_ok (ParentKeys st)"
    "(p, x) \<in> set (get_links (ParentKeys st) y k) \<longleftrightarrow> (x, y, p) \<in> edges st k" for p x y k
    by (simp_all add: mirrored_def edges_def)
  have noself: "(x, x, w) \<notin> edges st k" for x w k using fam unfolding family_ok_def by blast
  note l = load_relations[OF load]
  show cs: "btree_get (children rel) c = Some p \<longleftrightarrow> (old, c, p) \<in> edges st n" for c p
    unfolding l(3) btree_get_links[OF m(1)] using noself by (auto simp: edges_def)
  show ps: "btree_get (parents rel) q = Some p \<longleftrightarrow> (q, old, p) \<in> edges st n" for q p
    unfolding l(4) btree_get_links[OF m(2)] m(3) using noself by auto
  have ckm: "(p, c) \<in> set (get_links ck q k) \<longleftrightarrow> (q, c, p) \<in> edges st k \<and> (k = n \<longrightarrow> q \<noteq> old \<and> c \<noteq> old)" for p c q k
    using ps[of q p] ck by (auto simp: edges_def contains_key_def split: if_splits)
  then show "(p, c) \<in> set (get_links ck q n) \<longleftrightarrow> (q, c, p) \<in> edges st n \<and> q \<noteq> old \<and> c \<noteq> old" by simp
  have pkm: "(p, q) \<in> set (get_links pk c k) \<longleftrightarrow> (q, c, p) \<in> edges st k \<and> (k = n \<longrightarrow> q \<noteq> old \<and> c \<noteq> old)" for p c q k
    using cs[of c p] pk m(3) by (auto simp: contains_key_def split: if_splits)
  have "links_ok ck" "links_ok pk"
    using m(1,2) ck pk by (simp_all add: links_ok_def remove_edge_distinct)
  then show "mirrored ck pk" using ckm pkm by (simp add: mirrored_def)
qed

lemma remove_edge_sum: "sum_list (map fst (remove_edge l key)) \<le> sum_list (map fst l)"
  by (induction l) (auto simp: remove_edge_def)

lemma taken_out_family:
  assumes fam: "family_ok st" and mir: "mirrored ck pk"
    and sub: "\<And>q c p k. (p, c) \<in> set (get_links ck q k) \<Longrightarrow> (q, c, p) \<in> edges st k"
    and ck: "\<And>x k. get_links ck x k \<in> {[], remove_edge (get_links (ChildKeys st) x k) old, get_links (ChildKeys st) x k}"
    and pk: "\<And>x k. get_links pk x k \<in> {[], remove_edge (get_links (ParentKeys st) x k) old, get_links (ParentKeys st) x k}"
  shows "family_ok (st\<lparr>ParentKeys := pk, ChildKeys := ck, PendingChildKeys := pend\<rparr>)"
proof -
  let ?s = "st\<lparr>ParentKeys := pk, ChildKeys := ck, PendingChildKeys := pend\<rparr>"
  have e: "edges ?s k \<subseteq> edges st k" for k using sub by (auto simp: edges_def)
  have noself: "(x, x, w) \<notin> edges st k" "(x, y, w) \<in> edges st k \<Longrightarrow> (y, x, w') \<notin> edges st k" for x y w w' k
    using fam unfolding family_ok_def by blast+
  have "q \<noteq> c \<and> (\<forall>p'. (c, q, p') \<notin> edges ?s k)" if "(q, c, p) \<in> edges ?s k" for q c p k
    using e[of k] that noself by blast
  moreover have "sum_list (map fst (get_links ck q k)) \<le> U64_MAX" for q k
  proof -
    have "sum_list (map fst (get_links (ChildKeys st) q k)) \<le> U64_MAX" using fam by (simp add: family_ok_def)
    then show ?thesis using ck[of q k] remove_edge_sum[of "get_links (ChildKeys st) q k" old] by auto
  qed
  moreover have "length (get_links pk c k) \<le> MAX_PARENTS_PER_CHILD" for c k
  proof -
    have "length (get_links (ParentKeys st) c k) \<le> MAX_PARENTS_PER_CHILD" using fam by (simp add: family_ok_def)
    then show ?thesis using pk[of c k] remove_edge_length[of "get_links (ParentKeys st) c k" old] by auto
  qed
  ultimately show ?thesis using mir by (simp add: family_ok_def consistent_def)
qed

text \<open>A parent's proportions after one of its children has been renamed.\<close>

lemma renamed_sum:
  fixes l l' :: "'a links"
  assumes "distinct (map snd l)" "distinct (map snd l')"
    and l': "\<And>p c. (p, c) \<in> set l' \<longleftrightarrow>
      (p, c) \<in> set l \<and> c \<noteq> old \<and> c \<noteq> new \<or> c = new \<and> (p, old) \<in> set l \<and> old \<noteq> new \<or> c = new \<and> old = new \<and> (p, old) \<in> set l"
  shows "sum_list (map fst l') \<le> sum_list (map fst l)"
proof -
  let ?h = "\<lambda>(p, c). (p, if c = old then new else c)" and ?S = "{x \<in> set l. snd x = old \<or> snd x \<noteq> new}"
  have img: "set l' = ?h ` ?S" using l' by (force simp: image_iff)
  have inj: "inj_on ?h ?S" by (auto simp: inj_on_def split: if_splits)
  have "sum_list (map fst l') = (\<Sum>x\<in>?h ` ?S. fst x)" unfolding links_sum[OF assms(2)] img ..
  also have "\<dots> = (\<Sum>x\<in>?S. fst x)" by (subst sum.reindex[OF inj]) (simp add: case_prod_unfold)
  also have "\<dots> \<le> (\<Sum>x\<in>set l. fst x)" by (rule sum_mono2) auto
  finally show ?thesis unfolding links_sum[OF assms(1)] .
qed

lemma swap_refines:
  assumes fam: "family_ok st" and res: "parent_child_swap_hotkey old new n st = Inr st'"
  shows "family_ok st'" "edges st' n = renamed_star old new (edges st n)"
    "n' \<noteq> n \<Longrightarrow> edges st' n' = edges st n'" "old \<noteq> new \<Longrightarrow> ChildKeys st' old n = Some []"
proof -
  obtain rel ck pk pend where load: "load_child_parent_relations old n st = Inr rel"
    and reb: "\<not> contains_key (children rel) new" "\<not> contains_key (parents rel) new"
    and ck: "\<forall>x n'. get_links ck x n' = (if n' = n then if x = old then [] else if contains_key (parents rel) x
        then remove_edge (get_links (ChildKeys st) x n) old else get_links (ChildKeys st) x n
       else get_links (ChildKeys st) x n')"
    and pk: "\<forall>x n'. get_links pk x n' = (if n' = n then if x = old then [] else if contains_key (children rel) x
        then remove_edge (get_links (ParentKeys st) x n) old else get_links (ParentKeys st) x n
       else get_links (ParentKeys st) x n')"
    and row: "ck old n = Some []"
    and per: "persist_child_parent_relations (rel\<lparr>pivot := new\<rparr>) n
       (st\<lparr>ParentKeys := pk, ChildKeys := ck, PendingChildKeys := pend\<rparr>) = Inr st'"
    by (rule swap_cases[OF res])
  let ?s = "st\<lparr>ParentKeys := pk, ChildKeys := ck, PendingChildKeys := pend\<rparr>" and ?rel = "rel\<lparr>pivot := new\<rparr>"
  note t = taken_out[OF fam load ck pk]
  have rel: "relations_ok ?rel" using load_relations(1)[OF load] reb by (simp add: relations_ok_def)
  have cons: "consistent ?s" using t(1) by (simp add: consistent_def)
  note r = persist_refines[OF cons rel per]
  have noself: "(x, x, w) \<notin> edges st k" "(x, y, w) \<in> edges st k \<Longrightarrow> (y, x, w') \<notin> edges st k" for x y w w' k
    using fam unfolding family_ok_def by blast+
  have es: "edges ?s n = {(q, c, p) \<in> edges st n. q \<noteq> old \<and> c \<noteq> old}"
    using t(2) by (auto simp: edges_def)
  show e: "edges st' n = renamed_star old new (edges st n)"
    unfolding r(2) es replace_star_def renamed_star_def by (auto simp: t(3,4))
  have esk: "edges ?s k = edges st k" if "k \<noteq> n" for k using ck that by (simp add: edges_def)
  show other: "edges st' k = edges st k" if "k \<noteq> n" for k
    using edges_other_net[of st' k ?s] r(3)[OF that] esk[OF that] by simp
  show "ChildKeys st' old n = Some []" if "old \<noteq> new"
  proof -
    have "\<not> contains_key (parents rel) old" using t(4) noself(1) by (simp add: contains_key_def)
    moreover have "(p, old) \<notin> set (get_links pk new n)" for p using t(1) t(2)[of p new old] by (simp add: mirrored_def)
    ultimately show ?thesis using persist_row[OF rel per, of old n] that row by simp
  qed
  have d: "distinct (map snd (get_links (ChildKeys s) q k))" if "consistent s" for s :: "('a, 'b) childkey_storage_scheme" and q k
    using that by (simp add: consistent_def mirrored_def links_ok_def)
  have cst: "consistent st" using fam by (simp add: family_ok_def)
  have fam_s: "family_ok ?s"
  proof (rule taken_out_family[OF fam t(1)])
    show "(q, c, p) \<in> edges st k" if "(p, c) \<in> set (get_links ck q k)" for q c p k
      using that t(2) ck by (cases "k = n") (simp_all add: edges_def)
  qed (use ck pk in auto)
  have "sum_list (map fst (get_links (ChildKeys st') q n)) \<le> U64_MAX" if q: "q \<noteq> pivot ?rel" for q
  proof -
    have mem: "(p, c) \<in> set (get_links (ChildKeys st') q n) \<longleftrightarrow>
        q \<noteq> old \<and> ((q, c, p) \<in> edges st n \<and> c \<noteq> old \<and> c \<noteq> new \<or> c = new \<and> (q, old, p) \<in> edges st n)" for p c
    proof -
      have "(p, c) \<in> set (get_links (ChildKeys st') q n) \<longleftrightarrow> (q, c, p) \<in> edges st' n" by (simp add: edges_def)
      then show ?thesis unfolding e renamed_star_def using q noself(1) by auto
    qed
    have "sum_list (map fst (get_links (ChildKeys st') q n)) \<le> sum_list (map fst (get_links (ChildKeys st) q n))"
    proof (cases "q = old")
      case True
      then have "get_links (ChildKeys st') q n = []" using mem by (cases "get_links (ChildKeys st') q n") force+
      then show ?thesis by simp
    next
      case False
      show ?thesis
        by (rule renamed_sum[OF d[OF cst] d[OF r(1)], of q n q n old new])
          (use mem False in \<open>auto simp: edges_def\<close>)
    qed
    then show ?thesis using fam order.trans unfolding family_ok_def by blast
  qed
  then show "family_ok st'" by (rule persist_family[OF fam_s rel per])
qed

section \<open>All operations keep the family invariant\<close>

lemma fold_keeps: "P s \<Longrightarrow> (\<And>x s. P s \<Longrightarrow> P (f x s)) \<Longrightarrow> P (fold f xs s)"
  by (induction xs arbitrary: s) auto

lemma last_block_frame [simp]:
  "ChildKeys (set_last_block_on_subnet tx key n b st) = ChildKeys st"
  "ParentKeys (set_last_block_on_subnet tx key n b st) = ParentKeys st"
  by (simp_all add: set_last_block_slot split: slot.split)

lemma schedule_family:
  assumes "family_ok st" "do_schedule_children env origin hotkey n childs st = Inr st'"
  shows "family_ok st'"
proof -
  have "family_ok (set_last_block_on_subnet TransactionType.SetChildren hotkey n (current_block st) st)"
    using assms(1) family_ok_frame last_block_frame by metis
  then show ?thesis
    using assms(2) by (auto simp: do_schedule_children_def schedule_or_apply_ck_def result_iffs Let_def
        persist_pending_family family_ok_frame[of "emit e s" s for e s]
        family_ok_frame[of "s\<lparr>PendingChildKeys := p\<rparr>" s for s p] split: if_splits)
qed

lemma apply_pending_family: "family_ok st \<Longrightarrow> family_ok (apply_pending_children env n hotkey childs st)"
  by (auto simp: apply_pending_children_def Let_def persist_pending_family
      family_ok_frame[of "s\<lparr>ChildkeyThresholdSuspended := p\<rparr>" s for s p])

lemma set_pending_family: "family_ok st \<Longrightarrow> family_ok (do_set_pending_children env n st)"
  unfolding do_set_pending_children_def Let_def
  by (intro fold_keeps[where P = family_ok])
    (auto simp: apply_pending_family family_ok_frame[of "s\<lparr>PendingChildKeys := p\<rparr>" s for s p])

lemma swap_pending_family: "family_ok st \<Longrightarrow> family_ok (swap_pending_children env old new n st)"
  unfolding swap_pending_children_def
  by (intro fold_keeps[where P = family_ok])
    (auto simp: family_ok_frame[of "s\<lparr>PendingChildKeys := p\<rparr>" s for s p] split: option.split)

lemma take_family:
  assumes "family_ok st" "do_set_childkey_take coldkey hotkey n v st = Inr st'"
  shows "family_ok st'"
proof -
  have "ChildKeys st' = ChildKeys st" "ParentKeys st' = ParentKeys st"
    using assms(2) by (auto simp: do_set_childkey_take_def Let_def split: if_splits)
  then show ?thesis using assms(1) family_ok_frame by metis
qed

lemma queue_family:
  assumes "family_ok st"
  shows "family_ok (queue_childkey_threshold_check env hotkey st)"
proof -
  let ?s = "queue_childkey_threshold_check env hotkey st"
  have "ChildKeys ?s = ChildKeys st" "ParentKeys ?s = ParentKeys st"
    by (simp_all add: queue_childkey_threshold_check_def)
  then show ?thesis using assms family_ok_frame by metis
qed

lemma threshold_loop_frame:
  "threshold_check_loop env W limit w items used acc st = (st', used', acc') \<Longrightarrow>
     ChildKeys st' = ChildKeys st \<and> ParentKeys st' = ParentKeys st"
  by (induction env W limit w items used acc st rule: threshold_check_loop.induct)
    (auto simp: recheck_childkey_threshold_def split: if_splits)

lemma checks_dropped_frame:
  "ChildKeys (fold (\<lambda>hotkey st. st\<lparr>ChildkeyThresholdChecks := ChildkeyThresholdChecks st - {hotkey}\<rparr>) xs s) = ChildKeys s \<and>
   ParentKeys (fold (\<lambda>hotkey st. st\<lparr>ChildkeyThresholdChecks := ChildkeyThresholdChecks st - {hotkey}\<rparr>) xs s) = ParentKeys s"
  by (induction xs arbitrary: s) simp_all

lemma process_frame:
  "ChildKeys (fst (process_childkey_threshold_checks env W limit st)) = ChildKeys st \<and>
   ParentKeys (fst (process_childkey_threshold_checks env W limit st)) = ParentKeys st"
  by (auto simp: process_childkey_threshold_checks_def Let_def checks_dropped_frame split: prod.split
      dest!: threshold_loop_frame)

lemma process_family: "family_ok st \<Longrightarrow> family_ok (fst (process_childkey_threshold_checks env W limit st))"
  using process_frame family_ok_frame by metis

lemma auto_parent_family: "family_ok st \<Longrightarrow> family_ok (apply_auto_parent_to_owner hotkey n owner st)"
  by (simp add: apply_auto_parent_to_owner_def persist_pending_family)

lemma auto_parents_family:
  assumes "family_ok st"
  shows "family_ok (clear_auto_parent_for_root_validator env hotkey st)"
    "family_ok (retarget_auto_parent_on_owner_change env n old new st)"
    "family_ok (do_set_subnet_owners_for_root_validator env hotkey st)"
    "do_set_root_validators_for_subnet env n st = Inr st' \<Longrightarrow> family_ok st'"
  using assms
  by (auto simp: clear_auto_parent_for_root_validator_def retarget_auto_parent_on_owner_change_def
      do_set_subnet_owners_for_root_validator_def do_set_root_validators_for_subnet_def result_iffs
      persist_pending_family auto_parent_family intro!: fold_keeps[where P = family_ok]
      split: if_splits option.splits)

inductive childkey_step ::
    "('o, 'a::linorder) childkey_env \<Rightarrow> 'w weight_ops \<Rightarrow> ('a, 'm) childkey_storage_scheme \<Rightarrow>
     ('a, 'm) childkey_storage_scheme \<Rightarrow> bool"
  for env :: "('o, 'a) childkey_env" and W :: "'w weight_ops" where
  step_schedule: "do_schedule_children env origin hotkey n childs st = Inr st' \<Longrightarrow> childkey_step env W st st'"
| step_pending: "childkey_step env W st (do_set_pending_children env n st)"
| step_swap: "parent_child_swap_hotkey old new n st = Inr st' \<Longrightarrow> childkey_step env W st st'"
| step_swap_pending: "childkey_step env W st (swap_pending_children env old new n st)"
| step_take: "do_set_childkey_take coldkey hotkey n v st = Inr st' \<Longrightarrow> childkey_step env W st st'"
| step_queue: "childkey_step env W st (queue_childkey_threshold_check env hotkey st)"
| step_process: "childkey_step env W st (fst (process_childkey_threshold_checks env W limit st))"
| step_clear_auto: "childkey_step env W st (clear_auto_parent_for_root_validator env hotkey st)"
| step_retarget: "childkey_step env W st (retarget_auto_parent_on_owner_change env n old new st)"
| step_new_validator: "childkey_step env W st (do_set_subnet_owners_for_root_validator env hotkey st)"
| step_new_subnet: "do_set_root_validators_for_subnet env n st = Inr st' \<Longrightarrow> childkey_step env W st st'"
| step_elsewhere: "ChildKeys st' = ChildKeys st \<Longrightarrow> ParentKeys st' = ParentKeys st \<Longrightarrow> childkey_step env W st st'"

inductive childkey_run ::
    "('o, 'a::linorder) childkey_env \<Rightarrow> 'w weight_ops \<Rightarrow> ('a, 'm) childkey_storage_scheme \<Rightarrow>
     ('a, 'm) childkey_storage_scheme \<Rightarrow> bool"
  for env :: "('o, 'a) childkey_env" and W :: "'w weight_ops" where
  start: "childkey_run env W st st"
| continue: "childkey_run env W st st' \<Longrightarrow> childkey_step env W st' st'' \<Longrightarrow> childkey_run env W st st''"

lemma childkey_step_family: "childkey_step env W st st' \<Longrightarrow> family_ok st \<Longrightarrow> family_ok st'"
proof (induction rule: childkey_step.induct)
  case (step_elsewhere st' st)
  then show ?case using family_ok_frame by metis
qed (blast intro: schedule_family set_pending_family swap_refines(1) swap_pending_family take_family queue_family
    process_family auto_parents_family)+

lemma childkey_run_family: "childkey_run env W st st' \<Longrightarrow> family_ok st \<Longrightarrow> family_ok st'"
  by (induction rule: childkey_run.induct) (auto intro: childkey_step_family)

section \<open>Repair\<close>

definition iterates_links :: "('o, 'a) childkey_env \<Rightarrow> bool" where
  "iterates_links env \<longleftrightarrow> (\<forall>m. finite {(x, n). m x n \<noteq> None} \<longrightarrow>
     distinct (map (\<lambda>(x, n, v). (x, n)) (iter_links env m)) \<and>
     set (iter_links env m) = {(x, n, v). m x n = Some v})"

definition prune :: "(nat \<times> 'a \<Rightarrow> bool) \<Rightarrow> 'a links option \<Rightarrow> 'a links option" where
  "prune P row = (case row of None \<Rightarrow> None | Some v \<Rightarrow> if filter P v = [] then None else Some (filter P v))"

lemma get_prune: "get_links m' x n = filter P (get_links m x n)" if "m' x n = prune P (m x n)"
  using that by (auto simp: get_links_def prune_def split: option.splits if_splits)

lemma fold_set_rows:
  "distinct (map (\<lambda>(x, n, v). (x, n)) rows) \<Longrightarrow> (x, n, v) \<in> set rows \<Longrightarrow>
     fold (\<lambda>(x, n, v). set_links x n v) rows m x n = (if v = [] then None else Some v)"
  "(\<And>v. (x, n, v) \<notin> set rows) \<Longrightarrow> fold (\<lambda>(x, n, v). set_links x n v) rows m x n = m x n"
proof (induction rows arbitrary: m)
  case (Cons r rows)
  obtain y k w where r: "r = (y, k, w)" by (cases r)
  have other: "set_links y k w s x n = s x n" if "(y, k) \<noteq> (x, n)" for s
    using that by (auto simp: set_links_def insert_links_def remove_links_def)
  {
    case 1
    show ?case
    proof (cases "(y, k) = (x, n)")
      case True
      then have "(x, n, u) \<notin> set rows" for u using 1(1) r by (force simp: image_iff)
      moreover have "w = v" using 1 r True \<open>\<And>u. (x, n, u) \<notin> set rows\<close> by auto
      ultimately show ?thesis
        using Cons.IH(2)[of "set_links y k w m"] r True
        by (auto simp: set_links_def insert_links_def remove_links_def)
    next
      case False
      then have "(x, n, v) \<in> set rows" "distinct (map (\<lambda>(x, n, v). (x, n)) rows)" using 1 r by auto
      then show ?thesis using Cons.IH(1)[of "set_links y k w m"] r by simp
    qed
  next
    case 2
    then have "(y, k) \<noteq> (x, n)" "(x, n, u) \<notin> set rows" for u using r by auto
    then show ?case using Cons.IH(2)[of "set_links y k w m"] other r by simp
  }
qed simp_all

text \<open>The two passes over the rows of a map, one that writes and one that removes, prune it.\<close>

lemma pruned_rows:
  fixes P :: "'a \<Rightarrow> nat \<Rightarrow> nat \<times> 'a \<Rightarrow> bool" and m :: "'a link_map"
  assumes its: "distinct (map (\<lambda>(x, n, v). (x, n)) its)" "set its = {(x, n, v). m x n = Some v}"
  defines "rows \<equiv> map (\<lambda>(x, n, v). (x, n, v, filter (P x n) v)) its"
  shows "fold (\<lambda>(x, n, _) m. remove_links x n m) (filter (\<lambda>(_, _, _, f). f = []) rows)
      (fold (\<lambda>(x, n, _, f). set_links x n f) (filter (\<lambda>(_, _, v, f). f \<noteq> [] \<and> v \<noteq> f) rows) m) x n =
    prune (P x n) (m x n)"
proof -
  define ups where "ups = map (\<lambda>(x, n, _, f). (x, n, f)) (filter (\<lambda>(_, _, v, f). f \<noteq> [] \<and> v \<noteq> f) rows)"
  define rms where "rms = map (\<lambda>(x, n, _). (x, n, [] :: 'a links)) (filter (\<lambda>(_, _, _, f). f = []) rows)"
  have rm: "remove_links x n = set_links x n ([] :: 'a links)" for x n by (rule ext) (simp add: set_links_def)
  have "fold (\<lambda>(x, n, _) m. remove_links x n m) (filter (\<lambda>(_, _, _, f). f = []) rows)
      (fold (\<lambda>(x, n, _, f). set_links x n f) (filter (\<lambda>(_, _, v, f). f \<noteq> [] \<and> v \<noteq> f) rows) m) =
      fold (\<lambda>(x, n, v). set_links x n v) (ups @ rms) m"
    by (simp add: ups_def rms_def fold_map comp_def case_prod_unfold rm)
  moreover have key: "distinct (map (\<lambda>(x, n, v). (x, n)) (ups @ rms))"
  proof -
    have d: "distinct (map (\<lambda>(x, n, _). (x, n)) rows)"
      using its(1) by (simp add: rows_def comp_def case_prod_unfold)
    let ?A = "\<lambda>(_, _, v, f). f \<noteq> [] \<and> v \<noteq> f" and ?B = "\<lambda>(_, _, _, f). f = []"
    have eq: "map (\<lambda>(x, n, v). (x, n)) (ups @ rms) = map (\<lambda>(x, n, _). (x, n)) (filter ?A rows @ filter ?B rows)"
      by (simp add: ups_def rms_def comp_def case_prod_unfold)
    have "distinct rows" "inj_on (\<lambda>(x, n, _). (x, n)) (set rows)" using d by (simp_all add: distinct_map)
    then have "distinct (filter ?A rows @ filter ?B rows)"
      "inj_on (\<lambda>(x, n, _). (x, n)) (set (filter ?A rows @ filter ?B rows))"
      by (auto intro: inj_on_subset)
    then show ?thesis unfolding eq by (simp only: distinct_map)
  qed
  moreover have "fold (\<lambda>(x, n, v). set_links x n v) (ups @ rms) m x n = prune (P x n) (m x n)"
  proof (cases "m x n")
    case None
    then have "(x, n, v) \<notin> set (ups @ rms)" for v using its(2) by (auto simp: ups_def rms_def rows_def)
    then show ?thesis using fold_set_rows(2)[of x n "ups @ rms" m] None by (simp add: prune_def)
  next
    case (Some v)
    then have row: "(x, n, v, filter (P x n) v) \<in> set rows" using its(2) by (force simp: rows_def)
    have uniq: "(x, n, w, f) \<in> set rows \<Longrightarrow> w = v \<and> f = filter (P x n) v" for w f
      using its(2) Some by (auto simp: rows_def)
    consider "filter (P x n) v = []" | "filter (P x n) v \<noteq> []" "v \<noteq> filter (P x n) v" | "filter (P x n) v = v" "v \<noteq> []"
      by fastforce
    then show ?thesis
    proof cases
      case 1
      then have "(x, n, []) \<in> set (ups @ rms)" using row by (force simp: rms_def)
      then show ?thesis using fold_set_rows(1)[OF key] Some 1 by (simp add: prune_def)
    next
      case 2
      then have "(x, n, filter (P x n) v) \<in> set (ups @ rms)" using row by (force simp: ups_def)
      then show ?thesis using fold_set_rows(1)[OF key] Some 2 by (simp add: prune_def)
    next
      case 3
      then have "(x, n, w) \<notin> set (ups @ rms)" for w using uniq by (auto simp: ups_def rms_def)
      then show ?thesis using fold_set_rows(2)[of x n "ups @ rms" m] Some 3 by (simp add: prune_def)
    qed
  qed
  ultimately show ?thesis by simp
qed

lemma fold_rows_set:
  "fold (\<lambda>(x, n, _, f). set_childkeys x n f) rows st = st\<lparr>ChildKeys := fold (\<lambda>(x, n, _, f). set_links x n f) rows (ChildKeys st)\<rparr>"
  "fold (\<lambda>(x, n, _, f). set_parentkeys x n f) rows st = st\<lparr>ParentKeys := fold (\<lambda>(x, n, _, f). set_links x n f) rows (ParentKeys st)\<rparr>"
  by (induction rows arbitrary: st) (auto simp: set_keys_links)

lemma fold_rows_remove:
  "fold (\<lambda>(x, n, _) st. st\<lparr>ChildKeys := remove_links x n (ChildKeys st)\<rparr>) rows st =
     st\<lparr>ChildKeys := fold (\<lambda>(x, n, _) m. remove_links x n m) rows (ChildKeys st)\<rparr>"
  "fold (\<lambda>(x, n, _) st. st\<lparr>ParentKeys := remove_links x n (ParentKeys st)\<rparr>) rows st =
     st\<lparr>ParentKeys := fold (\<lambda>(x, n, _) m. remove_links x n m) rows (ParentKeys st)\<rparr>"
  by (induction rows arbitrary: st) auto

lemma list_ex_mem: "list_ex (\<lambda>(pr, pa). pr = p \<and> pa = q) l \<longleftrightarrow> (p, q) \<in> set l"
  by (auto simp: list_ex_iff)

lemma repair_childkeys_prunes:
  assumes "iterates_links env" "finite {(x, n). ChildKeys st x n \<noteq> None}"
  shows "repair_childkeys env st = st\<lparr>ChildKeys :=
    (\<lambda>q n. prune (\<lambda>(p, c). (p, q) \<in> set (get_links (ParentKeys st) c n)) (ChildKeys st q n))\<rparr>"
proof -
  have "distinct (map (\<lambda>(x, n, v). (x, n)) (iter_links env (ChildKeys st)))"
    "set (iter_links env (ChildKeys st)) = {(x, n, v). ChildKeys st x n = Some v}"
    using assms by (auto simp: iterates_links_def)
  note p = ext[OF ext[OF pruned_rows[OF this, of "\<lambda>q n (p, c). (p, q) \<in> set (get_links (ParentKeys st) c n)"]]]
  show ?thesis
    unfolding repair_childkeys_def Let_def list_ex_mem fold_rows_set fold_rows_remove by (simp add: p)
qed

lemma repair_parentkeys_prunes:
  assumes "iterates_links env" "finite {(x, n). ParentKeys st x n \<noteq> None}"
  shows "repair_parentkeys env st = st\<lparr>ParentKeys :=
    (\<lambda>c n. prune (\<lambda>(p, q). (p, c) \<in> set (get_links (ChildKeys st) q n)) (ParentKeys st c n))\<rparr>"
proof -
  have "distinct (map (\<lambda>(x, n, v). (x, n)) (iter_links env (ParentKeys st)))"
    "set (iter_links env (ParentKeys st)) = {(x, n, v). ParentKeys st x n = Some v}"
    using assms by (auto simp: iterates_links_def)
  note p = ext[OF ext[OF pruned_rows[OF this, of "\<lambda>c n (p, q). (p, c) \<in> set (get_links (ChildKeys st) q n)"]]]
  show ?thesis
    unfolding repair_parentkeys_def Let_def list_ex_mem fold_rows_set fold_rows_remove by (simp add: p)
qed

section \<open>Properties\<close>

text \<open>
  C5: In every state reached from empty relations, by any operations in any order, the relation stored
  under a parent is the one stored under the child, with the same proportion; nobody is its own
  child or both child and parent of the same key; the proportions of a parent fit in a \<^verbatim>\<open>u64\<close>; and no
  child has more than a hundred parents.
\<close>

theorem families_sound:
  fixes st0 st :: "('a::linorder, 'm) childkey_storage_scheme"
  assumes "childkey_run env W st0 st" "ChildKeys st0 = (\<lambda>_ _. None)" "ParentKeys st0 = (\<lambda>_ _. None)"
  shows "((p, c) \<in> set (get_links (ChildKeys st) q n) \<longleftrightarrow> (p, q) \<in> set (get_links (ParentKeys st) c n)) \<and>
    (p, q) \<notin> set (get_links (ChildKeys st) q n) \<and>
    snd ` set (get_links (ChildKeys st) q n) \<inter> snd ` set (get_links (ParentKeys st) q n) = {} \<and>
    sum_list (map fst (get_links (ChildKeys st) q n)) \<le> U64_MAX \<and>
    length (get_links (ParentKeys st) c n) \<le> 100"
proof -
  have "family_ok st0"
    using assms(2,3) by (simp add: family_ok_def consistent_def mirrored_def links_ok_def edges_def get_links_def)
  then have fam: "family_ok st" by (rule childkey_run_family[OF assms(1)])
  then have mir: "(w, y) \<in> set (get_links (ChildKeys st) x k) \<longleftrightarrow> (w, x) \<in> set (get_links (ParentKeys st) y k)" for w x y k
    by (simp add: family_ok_def consistent_def mirrored_def)
  have no: "(x, x, w) \<notin> edges st k" "(x, y, w) \<in> edges st k \<Longrightarrow> (y, x, w') \<notin> edges st k" for x y w w' k
    using fam unfolding family_ok_def by blast+
  have "snd ` set (get_links (ChildKeys st) q n) \<inter> snd ` set (get_links (ParentKeys st) q n) = {}"
    using no(2)[of q _ _ n] mir by (fastforce simp: edges_def)
  moreover have "(p, q) \<notin> set (get_links (ChildKeys st) q n)" using no(1)[of q p n] by (simp add: edges_def)
  ultimately show ?thesis
    using fam mir by (auto simp: family_ok_def MAX_PARENTS_PER_CHILD_def)
qed

text \<open>
  C14: Storing valid relations of a hotkey replaces exactly the edges at that hotkey, in both
  directions, and touches neither the other edges of the subnet nor other subnets.
\<close>

theorem persist_replaces_star:
  assumes "consistent st" "relations_ok rel" "persist_child_parent_relations rel n st = Inr st'"
  shows "edges st' n = replace_star (pivot rel) (btree_get (children rel)) (btree_get (parents rel)) (edges st n) \<and>
    consistent st' \<and> (if n' = n then True else edges st' n' = edges st n')"
  using persist_refines[OF assms] edges_other_net[of st' n' st] by auto

text \<open>
  C16: A hotkey swap renames the hotkey in all its relations on the subnet, whatever relations the new
  hotkey had before are gone, all other relations are untouched and the invariant is kept.  Under the
  old hotkey an empty list of children stays stored.
\<close>

theorem swap_renames_hotkey:
  assumes "family_ok st" "parent_child_swap_hotkey old new n st = Inr st'"
  shows "edges st' n = renamed_star old new (edges st n) \<and> family_ok st' \<and>
    (if n' = n then True else edges st' n' = edges st n') \<and>
    (if old = new then True else ChildKeys st' old n = Some [])"
  using swap_refines[OF assms] by auto

text \<open>
  C32: The repair keeps exactly the entries whose mirror entry exists, leaves no empty list behind, and
  afterwards both directions hold the same relations, from whatever state it starts.
\<close>

theorem repair_keeps_matches:
  assumes "iterates_links env" "finite {(x, n). ChildKeys st x n \<noteq> None}" "finite {(x, n). ParentKeys st x n \<noteq> None}"
  defines "st' \<equiv> repair_child_parent_consistency env st"
  shows "((p, c) \<in> set (get_links (ChildKeys st') q n) \<longleftrightarrow>
      (p, c) \<in> set (get_links (ChildKeys st) q n) \<and> (p, q) \<in> set (get_links (ParentKeys st) c n)) \<and>
    ((p, q) \<in> set (get_links (ParentKeys st') c n) \<longleftrightarrow> (p, c) \<in> set (get_links (ChildKeys st') q n)) \<and>
    ChildKeys st' q n \<noteq> Some [] \<and> ParentKeys st' c n \<noteq> Some []"
proof -
  let ?st1 = "repair_childkeys env st"
  note r1 = repair_childkeys_prunes[OF assms(1,2)]
  have fin: "finite {(x, n). ParentKeys ?st1 x n \<noteq> None}" using assms(3) by (simp add: r1)
  note r2 = repair_parentkeys_prunes[OF assms(1) fin]
  have ck: "ChildKeys st' q n = prune (\<lambda>(p, c). (p, q) \<in> set (get_links (ParentKeys st) c n)) (ChildKeys st q n)" for q n
    unfolding st'_def repair_child_parent_consistency_def r2 by (simp add: r1)
  have pk: "ParentKeys st' c n = prune (\<lambda>(p, q). (p, c) \<in> set (get_links (ChildKeys st') q n)) (ParentKeys st c n)" for c n
    unfolding st'_def repair_child_parent_consistency_def r2 by (simp add: r1)
  have "prune P row \<noteq> Some []" for P and row :: "'b links option" by (auto simp: prune_def split: option.splits)
  moreover have "get_links (ChildKeys st') q n =
      filter (\<lambda>(p, c). (p, q) \<in> set (get_links (ParentKeys st) c n)) (get_links (ChildKeys st) q n)" for q n
    by (rule get_prune) (rule ck)
  moreover have "get_links (ParentKeys st') c n =
      filter (\<lambda>(p, q). (p, c) \<in> set (get_links (ChildKeys st') q n)) (get_links (ParentKeys st) c n)" for c n
    by (rule get_prune) (rule pk)
  ultimately show ?thesis by (auto simp: ck pk)
qed

text \<open>
  C33: The relations that stake inheritance sees agree in both directions, and a parent that a re-check
  finds below the threshold is in none of them on any subnet it does not own.
\<close>

theorem suspended_parent_inert:
  assumes "family_ok st" "st' = recheck_childkey_threshold env q st"
  shows "((p, c) \<in> set (get_children st' x n) \<longleftrightarrow> (p, x) \<in> set (get_parents st' c n)) \<and>
    (if get_total_stake_for_hotkey env q < StakeThreshold st \<and> SubnetOwnerHotkey st n \<noteq> Some q
     then get_children st' q n = [] \<and> (p, q) \<notin> set (get_parents st' c n)
     else True)"
proof -
  have "ChildKeys st' = ChildKeys st" "ParentKeys st' = ParentKeys st" "SubnetOwnerHotkey st' = SubnetOwnerHotkey st"
    "get_total_stake_for_hotkey env q < StakeThreshold st \<Longrightarrow> q \<in> ChildkeyThresholdSuspended st'"
    using assms(2) by (simp_all add: recheck_childkey_threshold_def)
  then show ?thesis
    using assms(1) by (auto simp: family_ok_def consistent_def mirrored_def get_children_def get_parents_def
        childkeys_suspended_def)
qed

section \<open>Pending children\<close>

lemma persist_pending_frame:
  "PendingChildKeys (persist_pending_chidren_ok n hotkey childs st) = PendingChildKeys st"
proof -
  have "PendingChildKeys st1 = PendingChildKeys st" if "persist_child_parent_relations rel n st = Inr st1" for rel st1
  proof -
    have "st1 = st\<lparr>ChildKeys := ChildKeys st1, ParentKeys := ParentKeys st1\<rparr>"
      by (rule persist_cases[OF that])
    from arg_cong[OF this, of PendingChildKeys] show ?thesis by simp
  qed
  then show ?thesis by (auto simp: persist_pending_chidren_ok_def emit_def split: sum.split)
qed

lemma apply_pending_frame:
  "PendingChildKeys (fold (\<lambda>(hotkey, childs, _). apply_pending_children env n hotkey childs) due st) = PendingChildKeys st"
proof (induction due arbitrary: st)
  case (Cons d due)
  obtain h ch b where "d = (h, ch, b)" by (cases d)
  then show ?case
    using Cons[of "apply_pending_children env n h ch st"]
    by (simp add: apply_pending_children_def Let_def persist_pending_frame)
qed simp

lemma drop_pending:
  "PendingChildKeys (fold (\<lambda>(hotkey, _) st. st\<lparr>PendingChildKeys := (PendingChildKeys st)(n :=
      (PendingChildKeys st n)(hotkey := None))\<rparr>) due st) k h =
    (if k = n \<and> h \<in> fst ` set due then None else PendingChildKeys st k h)"
  by (induction due arbitrary: st) auto

definition iterates_pending :: "('o, 'a) childkey_env \<Rightarrow> bool" where
  "iterates_pending env \<longleftrightarrow> (\<forall>m. finite (dom m) \<longrightarrow> set (iter_pending env m) = {(h, e). m h = Some e})"

text \<open>
  When the pending children of a subnet are processed, exactly the entries whose cool-down is over
  (all of them when the subnet has not started) leave the queue, applied or dropped, and every other
  entry stays as it was.
\<close>

lemma due_children_leave_queue:
  assumes "iterates_pending env" "finite (dom (PendingChildKeys st n))"
  shows "PendingChildKeys (do_set_pending_children env n st) k h =
    (case PendingChildKeys st k h of
       None \<Rightarrow> None
     | Some (childs, cool_down_block) \<Rightarrow>
         if k = n \<and> (cool_down_block < current_block st \<or> \<not> SubtokenEnabled st n) then None
         else Some (childs, cool_down_block))"
proof -
  have "set (iter_pending env (PendingChildKeys st n)) = {(h, e). PendingChildKeys st n h = Some e}"
    using assms by (simp add: iterates_pending_def)
  then have "h \<in> fst ` set (filter (\<lambda>(_, _, b). b < current_block st \<or> \<not> SubtokenEnabled st n)
      (iter_pending env (PendingChildKeys st n))) \<longleftrightarrow>
    (\<exists>ch b. PendingChildKeys st n h = Some (ch, b) \<and> (b < current_block st \<or> \<not> SubtokenEnabled st n))"
    by (force simp: image_iff)
  then show ?thesis
    unfolding do_set_pending_children_def Let_def drop_pending apply_pending_frame
    by (auto split: option.split prod.split)
qed

text \<open>
  A childkey take is accepted only from the owner of the hotkey, within the minimum of the subnet
  and the maximum, and raised only when its rate limit has passed; it is then what the getter returns.
\<close>

lemma childkey_take_bounded:
  assumes "do_set_childkey_take coldkey hotkey n v st = Inr st'"
  shows "coldkey_owns_hotkey st coldkey hotkey \<and> get_childkey_take st' hotkey n = v \<and>
    get_effective_min_childkey_take st n \<le> v \<and> v \<le> MaxChildkeyTake st \<and>
    (v \<le> get_childkey_take st hotkey n \<or> passes_rate_limit_on_subnet SetChildkeyTake hotkey n st) \<and>
    last_block_on_subnet SetChildkeyTake hotkey n st' = current_block st"
  using assms
  by (auto simp: do_set_childkey_take_def Let_def get_childkey_take_def get_effective_min_childkey_take_def
      emit_def split: if_splits)

section \<open>An instance\<close>

text \<open>
  Hotkeys are numbers, every origin signs as itself, a hotkey has ten times its number as stake, and
  the iterators list the rows of a map in the order of their keys.
\<close>

definition example_env :: "(nat, nat) childkey_env" where
  "example_env = \<lparr>ensure_signed = Inr, get_total_stake_for_hotkey = (\<lambda>h. 10 * h),
     iter_pending = (\<lambda>m. map (\<lambda>h. (h, the (m h))) (sorted_list_of_set (dom m))),
     iter_links = (\<lambda>m. map (\<lambda>k. case prod_decode k of (x, n) \<Rightarrow> (x, n, the (m x n)))
       (sorted_list_of_set (prod_encode ` {(x, n). m x n \<noteq> None}))),
     iter_checks = sorted_list_of_set,
     has_link_entry = (\<lambda>r. \<exists>n. r n \<noteq> None), root_validators = [], all_subnet_netuids = [2]\<rparr>"

lemma example_iterates: "iterates_pending example_env" "iterates_links example_env"
proof -
  show "iterates_pending example_env" by (force simp: iterates_pending_def example_env_def)
  have "distinct (map (\<lambda>(x, n, v). (x, n)) (iter_links example_env m)) \<and>
      set (iter_links example_env m) = {(x, n, v). m x n = Some v}" if "finite {(x, n). m x n \<noteq> None}" for m
  proof -
    let ?K = "prod_encode ` {(x, n). m x n \<noteq> None}"
    have fin: "finite ?K" using that by simp
    have "map (\<lambda>(x, n, v). (x, n)) (iter_links example_env m) = map prod_decode (sorted_list_of_set ?K)"
      by (simp add: example_env_def comp_def case_prod_unfold)
    moreover have "distinct (map prod_decode (sorted_list_of_set ?K))"
      using inj_prod_decode by (simp add: distinct_map inj_on_def)
    moreover have "set (iter_links example_env m) = {(x, n, v). m x n = Some v}"
      using fin by (force simp: example_env_def image_image)
    ultimately show ?thesis by simp
  qed
  then show "iterates_links example_env" by (simp add: iterates_links_def)
qed

definition example_start :: "nat childkey_storage" where
  "example_start = \<lparr>current_block = 9, TxChildkeyTakeRateLimit = 30, NetworkRateLimit = 40,
     MechanismCountSetRateLimit = 50, MechanismEmissionRateLimit = 60, MaxUidsTrimmingRateLimit = 70,
     WeightsVersionKeyRateLimit = 5, SubnetEmissionWeightsRateLimit = 80, OwnerHyperparamRateLimit = 2,
     TxRateLimit = 3, TxDelegateTakeRateLimit = 9, Tempo = (\<lambda>_. 360),
     LastRateLimitedBlock = (\<lambda>_. 0), TransactionKeyLastBlock = (\<lambda>_. 0),
     ChildKeys = (\<lambda>_ _. None), ParentKeys = (\<lambda>_ _. None), PendingChildKeys = (\<lambda>_ _. None),
     ChildkeyTake = (\<lambda>_ _. 0), ChildkeyThresholdSuspended = {}, ChildkeyThresholdChecks = {},
     AutoParentDelegationEnabled = (\<lambda>_. True), StakeThreshold = 60, PendingChildKeyCooldown = 100,
     MinChildkeyTakeValue = 3, MinChildkeyTakePerSubnet = (\<lambda>_. 5), MaxChildkeyTake = 900,
     NetworksAdded = (\<lambda>_. True), SubtokenEnabled = (\<lambda>_. False), SubnetOwnerHotkey = (\<lambda>_. None),
     Owner = (\<lambda>h. Some (h + 100)), TotalNetworks = 4, ck_events = []\<rparr>"

text \<open>The same without storage iteration, for calls that do not iterate.\<close>

definition example_call_env :: "(nat, nat) childkey_env" where
  "example_call_env = \<lparr>ensure_signed = Inr, get_total_stake_for_hotkey = (\<lambda>h. 10 * h),
     iter_pending = (\<lambda>_. []), iter_links = (\<lambda>_. []), iter_checks = (\<lambda>_. []),
     has_link_entry = (\<lambda>r. r 2 \<noteq> None), root_validators = [], all_subnet_netuids = [2]\<rparr>"

definition example_parent :: "nat childkey_storage" where
  "example_parent = projr (do_schedule_children example_call_env 107 7 2 [(10, 5)] example_start)"

lemmas relation_evals = load_relations_from_pending_def load_child_parent_relations_def link_children_def
  link_parents_def new_relations_def ensure_pending_consistency_def ensure_unique_children.simps
  ensure_no_self_loop_def ensure_childkey_count_def ensure_total_proportions_def ensure_bipartite_separation_def
  rebind_pivot_def btree_of_def btree_get_def btree_keys_def btree_set_def contains_key_def
  get_links_def insert_links_def remove_links_def set_childkeys_def set_parentkeys_def
  persist_child_parent_relations_def persist_children_def persist_parents_def
  MAX_PARENTS_PER_CHILD_def remove_edge_def ensure_def saturating_add_def U64_MAX_def U128_MAX_def Let_def

lemma example_scheduled:
  "do_schedule_children example_call_env 107 7 2 [(10, 5)] example_start = Inr example_parent"
  "ChildKeys example_parent 7 2 = Some [(10, 5)]" "ParentKeys example_parent 5 2 = Some [(10, 7)]"
  "StakeThreshold example_parent = 60" "SubnetOwnerHotkey example_parent 2 = None"
proof -
  have "\<exists>st'. do_schedule_children example_call_env 107 7 2 [(10, 5)] example_start = Inr st' \<and>
      ChildKeys st' 7 2 = Some [(10, 5)] \<and> ParentKeys st' 5 2 = Some [(10, 7)] \<and>
      StakeThreshold st' = 60 \<and> SubnetOwnerHotkey st' 2 = None"
    by (simp add: do_schedule_children_def schedule_or_apply_ck_def persist_pending_chidren_ok_def relation_evals
        passes_rate_limit_on_subnet_def check_passes_rate_limit_def is_root_def NETUID_ROOT_def if_subnet_exist_def
        coldkey_owns_hotkey_def hotkey_meets_childkey_threshold_def emit_def example_start_def example_call_env_def)
  then show "do_schedule_children example_call_env 107 7 2 [(10, 5)] example_start = Inr example_parent"
    "ChildKeys example_parent 7 2 = Some [(10, 5)]" "ParentKeys example_parent 5 2 = Some [(10, 7)]"
    "StakeThreshold example_parent = 60" "SubnetOwnerHotkey example_parent 2 = None"
    by (auto simp: example_parent_def)
qed

definition example_weights :: "nat weight_ops" where
  "example_weights = \<lparr>reads = (\<lambda>n. n), writes = (\<lambda>n. n), reads_writes = (+), weight_zero = 0,
     weight_add = (+), weight_sub = (-), all_lte = (\<le>)\<rparr>"

lemma families_sound_witness:
  "(10, 5) \<in> set (get_links (ChildKeys example_parent) 7 2) \<and> (10, 7) \<in> set (get_links (ParentKeys example_parent) 5 2)"
proof -
  have "childkey_run example_call_env example_weights example_start example_parent"
    by (rule childkey_run.continue[OF childkey_run.start step_schedule[OF example_scheduled(1)]])
  from families_sound[OF this, of 10 5 7 2] show ?thesis
    using example_scheduled(2) by (simp add: example_start_def get_links_def)
qed

definition example_pair :: "nat childkey_storage" where
  "example_pair = example_start\<lparr>ChildKeys := (\<lambda>x n. if x = 7 \<and> n = 2 then Some [(10, 5)] else None),
     ParentKeys := (\<lambda>x n. if x = 5 \<and> n = 2 then Some [(10, 7)] else None)\<rparr>"

lemma example_pair_ok: "family_ok example_pair"
  by (auto simp: family_ok_def consistent_def mirrored_def links_ok_def edges_def get_links_def example_pair_def
      U64_MAX_def MAX_PARENTS_PER_CHILD_def)

definition example_relations :: "nat PCRelations" where
  "example_relations = \<lparr>pivot = 7, children = [(6, 30)], parents = [(8, 20)]\<rparr>"

lemma persist_replaces_star_witness:
  "\<exists>st'. persist_child_parent_relations example_relations 2 example_pair = Inr st' \<and>
     (7, 6, 30) \<in> edges st' 2 \<and> (8, 7, 20) \<in> edges st' 2 \<and> (7, 5, 10) \<notin> edges st' 2"
proof -
  have "\<exists>st'. persist_child_parent_relations example_relations 2 example_pair = Inr st'"
    by (simp add: relation_evals example_relations_def example_pair_def)
  then obtain st' where st': "persist_child_parent_relations example_relations 2 example_pair = Inr st'" by blast
  have ok: "consistent example_pair" using example_pair_ok by (simp add: family_ok_def)
  have rel: "relations_ok example_relations"
    by (simp add: relations_ok_def example_relations_def btree_ok_def contains_key_def btree_get_def U64_MAX_def)
  show ?thesis
    using persist_replaces_star[OF ok rel st', of 2] st'
    by (auto simp: example_relations_def replace_star_def btree_get_def)
qed

lemma swap_renames_hotkey_witness:
  "\<exists>st'. parent_child_swap_hotkey 7 8 2 example_pair = Inr st' \<and> (8, 5, 10) \<in> edges st' 2 \<and>
     ChildKeys st' 7 2 = Some []"
proof -
  have "\<exists>st'. parent_child_swap_hotkey 7 8 2 example_pair = Inr st'"
    by (simp add: parent_child_swap_hotkey_def relation_evals example_pair_def example_start_def)
  then obtain st' where st': "parent_child_swap_hotkey 7 8 2 example_pair = Inr st'" by blast
  have "(7, 5, 10) \<in> edges example_pair 2" by (simp add: edges_def get_links_def example_pair_def)
  then show ?thesis
    using swap_renames_hotkey[OF example_pair_ok st', of 2] st' by (auto simp: renamed_star_def)
qed

definition example_broken :: "nat childkey_storage" where
  "example_broken = example_start\<lparr>ChildKeys := (\<lambda>x n. if x = 7 \<and> n = 2 then Some [(10, 5), (20, 6)] else None),
     ParentKeys := (\<lambda>x n. if x = 6 \<and> n = 2 then Some [(20, 7)] else None)\<rparr>"

lemma repair_keeps_matches_witness:
  "(20, 6) \<in> set (get_links (ChildKeys (repair_child_parent_consistency example_env example_broken)) 7 2) \<and>
   (10, 5) \<notin> set (get_links (ChildKeys (repair_child_parent_consistency example_env example_broken)) 7 2)"
proof -
  have "{(x, n). ChildKeys example_broken x n \<noteq> None} = {(7, 2)}" "{(x, n). ParentKeys example_broken x n \<noteq> None} = {(6, 2)}"
    by (auto simp: example_broken_def split: if_splits)
  then have fin: "finite {(x, n). ChildKeys example_broken x n \<noteq> None}" "finite {(x, n). ParentKeys example_broken x n \<noteq> None}"
    by simp_all
  show ?thesis
    using repair_keeps_matches[OF example_iterates(2) fin, of 20 6 7 2] repair_keeps_matches[OF example_iterates(2) fin, of 10 5 7 2]
    by (simp add: example_broken_def get_links_def)
qed

lemma suspended_parent_inert_witness:
  "get_children (recheck_childkey_threshold (example_call_env\<lparr>get_total_stake_for_hotkey := (\<lambda>_. 3)\<rparr>) 7 example_pair) 7 2 = []"
  using suspended_parent_inert[OF example_pair_ok refl,
      where env = "example_call_env\<lparr>get_total_stake_for_hotkey := (\<lambda>_. 3)\<rparr>" and q = 7 and n = 2]
  by (simp add: example_pair_def example_start_def)

end
