(* ===== verification/Epoch_Schedule.thy ===== *)
theory Epoch_Schedule
  imports Child_Keys
begin

text \<open>
  When the epoch of a subnet runs: the schedule kept in \<^verbatim>\<open>Tempo\<close>, \<^verbatim>\<open>LastEpochBlock\<close>, \<^verbatim>\<open>PendingEpochAt\<close> and
  \<^verbatim>\<open>BlocksSinceLastStep\<close> (\<^verbatim>\<open>src/pallets/subtensor/src/coinbase/run_coinbase.rs\<close>), the calls of subnet owners
  and root that move it (\<^verbatim>\<open>coinbase/tempo_control.rs\<close>, \<^verbatim>\<open>utils/misc.rs\<close>), the slots of one block with their cap
  (\<^verbatim>\<open>drain_pending\<close>, and \<^verbatim>\<open>epochs_deferred_this_block\<close> which forecasts it), the epoch numbers that
  commit and reveal read (\<^verbatim>\<open>subnets/weights.rs\<close>), and the migration that introduced the schedule.

  The storage extends the one of the child keys.  The signer or root behind an origin, and the order
  of storage iteration, are arguments.  So is the change of the subnet owner at the end of an epoch
  (\<^verbatim>\<open>change_subnet_owner_if_needed\<close>, which compares locked stake and may register a neuron): what the
  schedule relies on is that it leaves the storage of the schedule alone, the predicate \<open>leaves_schedule\<close>.
\<close>

section \<open>Storage\<close>

datatype EpochConsensus = Yuma | Null

datatype 'a EpochEvent =
    TempoSet nat nat
  | ActivityCutoffFactorMilliSet nat nat
  | EpochTriggered nat 'a nat
  | EpochDeferred nat nat nat
  | EpochSkipped nat nat
  | AdminFreezeWindowSet nat
  | OwnerHyperparamRateLimitSet nat
  | MaxEpochsPerBlockSet nat
  | EpochConsensusSet nat EpochConsensus
  | CommitRevealPeriodsSet nat nat

type_synonym weight_commit = "nat \<times> nat \<times> nat \<times> nat"

record 'a epoch_storage = "'a childkey_storage" +
  SubnetOwner :: "nat \<Rightarrow> 'a"
  LastEpochBlock :: "nat \<Rightarrow> nat"
  PendingEpochAt :: "nat \<Rightarrow> nat"
  BlocksSinceLastStep :: "nat \<Rightarrow> nat"
  SubnetEpochIndex :: "nat \<Rightarrow> nat"
  MaxEpochsPerBlock :: nat
  AdminFreezeWindow :: nat
  SubnetEpochConsensus :: "nat \<Rightarrow> EpochConsensus"
  CommitRevealWeightsEnabled :: "nat \<Rightarrow> bool"
  RevealPeriodEpochs :: "nat \<Rightarrow> nat"
  ActivityCutoff :: "nat \<Rightarrow> nat"
  ActivityCutoffFactorMilli :: "nat \<Rightarrow> nat"
  Keys :: "nat \<Rightarrow> (nat \<times> 'a) list"
  PendingServerEmission :: "nat \<Rightarrow> nat"
  PendingValidatorEmission :: "nat \<Rightarrow> nat"
  PendingRootAlphaDivs :: "nat \<Rightarrow> nat"
  PendingOwnerCut :: "nat \<Rightarrow> nat"
  MechanismCountCurrent :: "nat \<Rightarrow> nat"
  WeightCommits :: "((nat \<times> 'a) \<times> weight_commit list) list"
  HasMigrationRun :: "string \<Rightarrow> bool"
  epoch_events :: "'a EpochEvent list"

record ('o, 'a) epoch_env = "('o, 'a) childkey_env" +
  ensure_signed_or_root :: "'o \<Rightarrow> Error + 'a option"

definition MAX_TEMPO :: nat where "MAX_TEMPO = 50400"
definition MIN_ACTIVITY_CUTOFF_FACTOR_MILLI :: nat where "MIN_ACTIVITY_CUTOFF_FACTOR_MILLI = 1000"
definition MAX_ACTIVITY_CUTOFF_FACTOR_MILLI :: nat where "MAX_ACTIVITY_CUTOFF_FACTOR_MILLI = 50000"
definition INITIAL_ACTIVITY_CUTOFF_FACTOR_MILLI :: nat where "INITIAL_ACTIVITY_CUTOFF_FACTOR_MILLI = 13889"
definition MIN_COMMIT_REVEAL_PEROIDS :: nat where "MIN_COMMIT_REVEAL_PEROIDS = 1"
definition MAX_COMMIT_REVEAL_PEROIDS :: nat where "MAX_COMMIT_REVEAL_PEROIDS = 100"
definition GLOBAL_MAX_SUBNET_COUNT :: nat where "GLOBAL_MAX_SUBNET_COUNT = 4096"

definition emit_epoch :: "'a EpochEvent \<Rightarrow> ('a, 'm) epoch_storage_scheme \<Rightarrow> ('a, 'm) epoch_storage_scheme" where
  "emit_epoch e st = st\<lparr>epoch_events := epoch_events st @ [e]\<rparr>"

section \<open>Getters and setters\<close>

definition get_tempo :: "nat \<Rightarrow> ('a, 'm) epoch_storage_scheme \<Rightarrow> nat" where
  "get_tempo netuid st = Tempo st netuid"

definition get_max_epochs_per_block :: "('a, 'm) epoch_storage_scheme \<Rightarrow> nat" where
  "get_max_epochs_per_block st = MaxEpochsPerBlock st"

definition set_max_epochs_per_block ::
    "nat \<Rightarrow> ('a, 'm) epoch_storage_scheme \<Rightarrow> ('a, 'm) epoch_storage_scheme" where
  "set_max_epochs_per_block v st = emit_epoch (MaxEpochsPerBlockSet v) (st\<lparr>MaxEpochsPerBlock := v\<rparr>)"

definition get_epoch_consensus :: "nat \<Rightarrow> ('a, 'm) epoch_storage_scheme \<Rightarrow> EpochConsensus" where
  "get_epoch_consensus netuid st = SubnetEpochConsensus st netuid"

definition set_epoch_consensus ::
    "nat \<Rightarrow> EpochConsensus \<Rightarrow> ('a, 'm) epoch_storage_scheme \<Rightarrow> ('a, 'm) epoch_storage_scheme" where
  "set_epoch_consensus netuid mode st = emit_epoch (EpochConsensusSet netuid mode)
     (st\<lparr>SubnetEpochConsensus := (SubnetEpochConsensus st)(netuid := mode)\<rparr>)"

definition set_admin_freeze_window ::
    "nat \<Rightarrow> ('a, 'm) epoch_storage_scheme \<Rightarrow> ('a, 'm) epoch_storage_scheme" where
  "set_admin_freeze_window window st = emit_epoch (AdminFreezeWindowSet window) (st\<lparr>AdminFreezeWindow := window\<rparr>)"

definition set_owner_hyperparam_rate_limit ::
    "nat \<Rightarrow> ('a, 'm) epoch_storage_scheme \<Rightarrow> ('a, 'm) epoch_storage_scheme" where
  "set_owner_hyperparam_rate_limit epochs st =
     emit_epoch (OwnerHyperparamRateLimitSet epochs) (st\<lparr>OwnerHyperparamRateLimit := epochs\<rparr>)"

definition set_blocks_since_last_step ::
    "nat \<Rightarrow> nat \<Rightarrow> ('a, 'm) epoch_storage_scheme \<Rightarrow> ('a, 'm) epoch_storage_scheme" where
  "set_blocks_since_last_step netuid v st =
     st\<lparr>BlocksSinceLastStep := (BlocksSinceLastStep st)(netuid := v)\<rparr>"

definition get_blocks_since_last_step :: "nat \<Rightarrow> ('a, 'm) epoch_storage_scheme \<Rightarrow> nat" where
  "get_blocks_since_last_step netuid st = BlocksSinceLastStep st netuid"

definition set_tempo_unchecked ::
    "nat \<Rightarrow> nat \<Rightarrow> ('a, 'm) epoch_storage_scheme \<Rightarrow> ('a, 'm) epoch_storage_scheme" where
  "set_tempo_unchecked netuid tempo st =
     emit_epoch (TempoSet netuid tempo) (st\<lparr>Tempo := (Tempo st)(netuid := tempo)\<rparr>)"

definition apply_tempo_with_cycle_reset ::
    "nat \<Rightarrow> nat \<Rightarrow> ('a, 'm) epoch_storage_scheme \<Rightarrow> ('a, 'm) epoch_storage_scheme" where
  "apply_tempo_with_cycle_reset netuid tempo st =
     (let st1 = set_tempo_unchecked netuid tempo st in
      st1\<lparr>LastEpochBlock := (LastEpochBlock st1)(netuid := current_block st1)\<rparr>)"

definition get_activity_cutoff_factor_milli :: "nat \<Rightarrow> ('a, 'm) epoch_storage_scheme \<Rightarrow> nat" where
  "get_activity_cutoff_factor_milli netuid st = ActivityCutoffFactorMilli st netuid"

definition set_activity_cutoff_factor_milli ::
    "nat \<Rightarrow> nat \<Rightarrow> ('a, 'm) epoch_storage_scheme \<Rightarrow> ('a, 'm) epoch_storage_scheme" where
  "set_activity_cutoff_factor_milli netuid factor_milli st =
     emit_epoch (ActivityCutoffFactorMilliSet netuid factor_milli)
       (st\<lparr>ActivityCutoffFactorMilli := (ActivityCutoffFactorMilli st)(netuid := factor_milli)\<rparr>)"

definition get_activity_cutoff_blocks :: "nat \<Rightarrow> ('a, 'm) epoch_storage_scheme \<Rightarrow> nat" where
  "get_activity_cutoff_blocks netuid st =
     max (unwrap_or (checked_div (saturating_mul U64_MAX (ActivityCutoffFactorMilli st netuid) (get_tempo netuid st)) 1000) 0) 1"

definition get_commit_reveal_weights_enabled :: "nat \<Rightarrow> ('a, 'm) epoch_storage_scheme \<Rightarrow> bool" where
  "get_commit_reveal_weights_enabled netuid st = CommitRevealWeightsEnabled st netuid"

section \<open>When an epoch is due\<close>

definition should_run_epoch_with_tempo :: "nat \<Rightarrow> nat \<Rightarrow> nat \<Rightarrow> ('a, 'm) epoch_storage_scheme \<Rightarrow> bool" where
  "should_run_epoch_with_tempo netuid now tempo st =
     (if tempo = 0 then False
      else
        (let pending = PendingEpochAt st netuid in
         if pending > 0 \<and> now \<ge> pending then True
         else if BlocksSinceLastStep st netuid > tempo then True
         else
           (let blocks_since = saturating_sub now (LastEpochBlock st netuid) in
            blocks_since \<ge> tempo)))"

definition should_run_epoch :: "nat \<Rightarrow> nat \<Rightarrow> ('a, 'm) epoch_storage_scheme \<Rightarrow> bool" where
  "should_run_epoch netuid now st = should_run_epoch_with_tempo netuid now (get_tempo netuid st) st"

definition blocks_until_next_auto_epoch :: "nat \<Rightarrow> nat \<Rightarrow> nat \<Rightarrow> ('a, 'm) epoch_storage_scheme \<Rightarrow> nat" where
  "blocks_until_next_auto_epoch netuid tempo block_number st =
     (if tempo = 0 then U64_MAX
      else
        (let next_auto = saturating_add U64_MAX (LastEpochBlock st netuid) tempo in
         saturating_sub next_auto block_number))"

definition get_next_epoch_start_block :: "nat \<Rightarrow> ('a, 'm) epoch_storage_scheme \<Rightarrow> nat option" where
  "get_next_epoch_start_block netuid st =
     (let tempo = get_tempo netuid st in
      if tempo = 0 then None
      else
        (let auto_next = saturating_add U64_MAX (LastEpochBlock st netuid) tempo;
             pending = PendingEpochAt st netuid in
         if pending > 0 then Some (min auto_next pending) else Some auto_next))"

section \<open>Calls of the subnet owner and root\<close>

definition ensure_subnet_owner_or_root ::
    "('o, 'a, 'e) epoch_env_scheme \<Rightarrow> 'o \<Rightarrow> nat \<Rightarrow> ('a, 'm) epoch_storage_scheme \<Rightarrow> Error + 'a option" where
  "ensure_subnet_owner_or_root env origin netuid st =
     (case ensure_signed_or_root env origin of
        Inr (Some who) \<Rightarrow> if SubnetOwner st netuid = who then Inr (Some who) else Inl BadOrigin
      | Inr None \<Rightarrow> Inr None
      | Inl x \<Rightarrow> Inl x)"

definition ensure_subnet_owner ::
    "('o, 'a, 'e) epoch_env_scheme \<Rightarrow> 'o \<Rightarrow> nat \<Rightarrow> ('a, 'm) epoch_storage_scheme \<Rightarrow> Error + 'a" where
  "ensure_subnet_owner env origin netuid st =
     (case ensure_signed env origin of
        Inr who \<Rightarrow> if SubnetOwner st netuid = who then Inr who else Inl BadOrigin
      | Inl x \<Rightarrow> Inl x)"

definition ensure_sn_owner_or_root_with_limits ::
    "('o, 'a, 'e) epoch_env_scheme \<Rightarrow> 'o \<Rightarrow> nat \<Rightarrow> TransactionType list \<Rightarrow> ('a, 'm) epoch_storage_scheme \<Rightarrow>
     Error + 'a option" where
  "ensure_sn_owner_or_root_with_limits env origin netuid limits st =
     bind_result (ensure_subnet_owner_or_root env origin netuid st) (\<lambda>maybe_who.
     case maybe_who of
       None \<Rightarrow> Inr maybe_who
     | Some who \<Rightarrow>
         bind_result (fold_result (\<lambda>tx u. ensure (passes_rate_limit_on_subnet tx who netuid st) TxRateLimitExceeded)
           limits ()) (\<lambda>_. Inr maybe_who))"

definition record_owner_rl ::
    "'a option \<Rightarrow> nat \<Rightarrow> TransactionType list \<Rightarrow> ('a, 'm) epoch_storage_scheme \<Rightarrow> ('a, 'm) epoch_storage_scheme" where
  "record_owner_rl maybe_owner netuid txs st =
     (case maybe_owner of
        None \<Rightarrow> st
      | Some who \<Rightarrow> fold (\<lambda>tx. set_last_block_on_subnet tx who netuid (current_block st)) txs st)"

definition is_in_admin_freeze_window :: "nat \<Rightarrow> nat \<Rightarrow> ('a, 'm) epoch_storage_scheme \<Rightarrow> bool" where
  "is_in_admin_freeze_window netuid now st =
     (let tempo = get_tempo netuid st in
      if tempo = 0 then False
      else
        (let pending = PendingEpochAt st netuid in
         if pending > 0 \<and> pending > now then True
         else
           (let remaining = blocks_until_next_auto_epoch netuid tempo now st in
            remaining < AdminFreezeWindow st)))"

definition ensure_admin_window_open :: "nat \<Rightarrow> ('a, 'm) epoch_storage_scheme \<Rightarrow> Error + unit" where
  "ensure_admin_window_open netuid st =
     ensure (\<not> is_in_admin_freeze_window netuid (current_block st) st) AdminActionProhibitedDuringWeightsWindow"

definition do_set_tempo ::
    "('o, 'a, 'e) epoch_env_scheme \<Rightarrow> 'o \<Rightarrow> nat \<Rightarrow> nat \<Rightarrow> ('a, 'm) epoch_storage_scheme \<Rightarrow>
     Error + ('a, 'm) epoch_storage_scheme" where
  "do_set_tempo env origin netuid tempo st =
     bind_result (ensure_subnet_owner_or_root env origin netuid st) (\<lambda>maybe_who.
     bind_result (ensure (if_subnet_exist st netuid) SubnetNotExists) (\<lambda>_.
     bind_result (if maybe_who \<noteq> None then ensure (MIN_TEMPO \<le> tempo \<and> tempo \<le> MAX_TEMPO) TempoOutOfBounds
                  else Inr ()) (\<lambda>_.
     bind_result (ensure_admin_window_open netuid st) (\<lambda>_.
     bind_result (case maybe_who of
                    Some who \<Rightarrow> ensure (passes_rate_limit_on_subnet TempoUpdate who netuid st) TxRateLimitExceeded
                  | None \<Rightarrow> Inr ()) (\<lambda>_.
     let st1 = apply_tempo_with_cycle_reset netuid tempo st in
     Inr (case maybe_who of
            Some who \<Rightarrow> set_last_block_on_subnet TempoUpdate who netuid (current_block st1) st1
          | None \<Rightarrow> st1))))))"

definition do_set_activity_cutoff_factor ::
    "('o, 'a, 'e) epoch_env_scheme \<Rightarrow> 'o \<Rightarrow> nat \<Rightarrow> nat \<Rightarrow> ('a, 'm) epoch_storage_scheme \<Rightarrow>
     Error + ('a, 'm) epoch_storage_scheme" where
  "do_set_activity_cutoff_factor env origin netuid factor_milli st =
     bind_result (ensure_subnet_owner_or_root env origin netuid st) (\<lambda>maybe_who.
     bind_result (ensure (MIN_ACTIVITY_CUTOFF_FACTOR_MILLI \<le> factor_milli \<and>
                          factor_milli \<le> MAX_ACTIVITY_CUTOFF_FACTOR_MILLI) ActivityCutoffFactorMilliOutOfBounds) (\<lambda>_.
     let tx = OwnerHyperparamUpdate Rate_Limiting.ActivityCutoffFactorMilli in
     bind_result (case maybe_who of
                    Some who \<Rightarrow>
                      bind_result (ensure_admin_window_open netuid st) (\<lambda>_.
                      ensure (passes_rate_limit_on_subnet tx who netuid st) TxRateLimitExceeded)
                  | None \<Rightarrow> Inr ()) (\<lambda>_.
     let st1 = set_activity_cutoff_factor_milli netuid factor_milli st in
     Inr (case maybe_who of
            Some who \<Rightarrow> set_last_block_on_subnet tx who netuid (current_block st1) st1
          | None \<Rightarrow> st1))))"

definition do_trigger_epoch ::
    "('o, 'a, 'e) epoch_env_scheme \<Rightarrow> 'o \<Rightarrow> nat \<Rightarrow> ('a, 'm) epoch_storage_scheme \<Rightarrow>
     Error + ('a, 'm) epoch_storage_scheme" where
  "do_trigger_epoch env origin netuid st =
     bind_result (ensure_subnet_owner env origin netuid st) (\<lambda>who.
     bind_result (ensure (\<not> get_commit_reveal_weights_enabled netuid st) DynamicTempoBlockedByCommitReveal) (\<lambda>_.
     bind_result (ensure (PendingEpochAt st netuid = 0) EpochTriggerAlreadyPending) (\<lambda>_.
     let now = current_block st;
         window = AdminFreezeWindow st;
         tempo = get_tempo netuid st;
         remaining = blocks_until_next_auto_epoch netuid tempo now st in
     bind_result (ensure (remaining \<ge> window) AutoEpochAlreadyImminent) (\<lambda>_.
     let tx = OwnerHyperparamUpdate TriggerEpoch in
     bind_result (ensure (passes_rate_limit_on_subnet tx who netuid st) TxRateLimitExceeded) (\<lambda>_.
     let fires_at = saturating_add U64_MAX now window;
         st1 = st\<lparr>PendingEpochAt := (PendingEpochAt st)(netuid := fires_at)\<rparr>;
         st2 = set_last_block_on_subnet tx who netuid now st1 in
     Inr (emit_epoch (EpochTriggered netuid who fires_at) st2))))))"

section \<open>The slots of one block\<close>

definition epoch_schedule_for_block ::
    "nat list \<Rightarrow> nat \<Rightarrow> ('a, 'm) epoch_storage_scheme \<Rightarrow> nat \<times> nat list" where
  "epoch_schedule_for_block subnets now st =
     (let configured = get_max_epochs_per_block st;
          due_null = List.find (\<lambda>netuid. \<not> is_root netuid \<and> get_epoch_consensus netuid st = Null \<and>
                       should_run_epoch netuid now st) subnets in
      case due_null of
        Some due_null \<Rightarrow> (min configured 1, due_null # filter (\<lambda>netuid. netuid \<noteq> due_null) subnets)
      | None \<Rightarrow> (configured, subnets))"

fun has_duplicate_hotkey :: "(nat \<times> 'a) list \<Rightarrow> 'a list \<Rightarrow> bool" where
  "has_duplicate_hotkey [] hotkey_set = False"
| "has_duplicate_hotkey ((_, hotkey) # rest) hotkey_set =
     (if hotkey \<in> set hotkey_set then True else has_duplicate_hotkey rest (hotkey # hotkey_set))"

definition is_epoch_input_state_consistent :: "nat \<Rightarrow> ('a, 'm) epoch_storage_scheme \<Rightarrow> bool" where
  "is_epoch_input_state_consistent netuid st = (\<not> has_duplicate_hotkey (Keys st netuid) [])"

definition deferral_slot ::
    "nat \<Rightarrow> nat \<Rightarrow> ('a, 'm) epoch_storage_scheme \<Rightarrow> nat \<Rightarrow> nat list \<times> nat \<Rightarrow> nat list \<times> nat" where
  "deferral_slot cap now st netuid = (\<lambda>(deferred, epochs_run_this_block).
     if \<not> should_run_epoch netuid now st then (deferred, epochs_run_this_block)
     else if epochs_run_this_block \<ge> cap then (btree_set (netuid # deferred), epochs_run_this_block)
     else if is_epoch_input_state_consistent netuid st
     then (deferred, saturating_add U32_MAX epochs_run_this_block 1)
     else (deferred, epochs_run_this_block))"

definition epochs_deferred_this_block :: "nat list \<Rightarrow> nat \<Rightarrow> ('a, 'm) epoch_storage_scheme \<Rightarrow> nat list" where
  "epochs_deferred_this_block subnets now st =
     (case epoch_schedule_for_block subnets now st of
        (cap, slot_order) \<Rightarrow> fst (fold (deferral_slot cap now st) slot_order ([], 0)))"

type_synonym pending_emissions = "(nat \<times> nat \<times> nat \<times> nat \<times> nat) list"

definition advance_schedule ::
    "nat \<Rightarrow> nat \<Rightarrow> ('a, 'm) epoch_storage_scheme \<Rightarrow> ('a, 'm) epoch_storage_scheme" where
  "advance_schedule netuid now st =
     st\<lparr>LastEpochBlock := (LastEpochBlock st)(netuid := now),
        PendingEpochAt := (PendingEpochAt st)(netuid := 0),
        SubnetEpochIndex := (SubnetEpochIndex st)(netuid := saturating_add U64_MAX (SubnetEpochIndex st netuid) 1)\<rparr>"

definition drain_emissions ::
    "nat \<Rightarrow> ('a, 'm) epoch_storage_scheme \<Rightarrow> ('a, 'm) epoch_storage_scheme \<times> (nat \<times> nat \<times> nat \<times> nat)" where
  "drain_emissions netuid st =
     (st\<lparr>BlocksSinceLastStep := (BlocksSinceLastStep st)(netuid := 0),
         PendingServerEmission := (PendingServerEmission st)(netuid := 0),
         PendingValidatorEmission := (PendingValidatorEmission st)(netuid := 0),
         PendingRootAlphaDivs := (PendingRootAlphaDivs st)(netuid := 0),
         PendingOwnerCut := (PendingOwnerCut st)(netuid := 0)\<rparr>,
      (PendingServerEmission st netuid, PendingValidatorEmission st netuid,
       PendingRootAlphaDivs st netuid, PendingOwnerCut st netuid))"

definition drain_slot ::
    "(nat \<Rightarrow> ('a, 'm) epoch_storage_scheme \<Rightarrow> ('a, 'm) epoch_storage_scheme) \<Rightarrow> nat \<Rightarrow> nat \<Rightarrow> nat \<Rightarrow>
     ('a, 'm) epoch_storage_scheme \<times> pending_emissions \<times> nat \<Rightarrow>
     ('a, 'm) epoch_storage_scheme \<times> pending_emissions \<times> nat" where
  "drain_slot change_subnet_owner_if_needed max_epochs_per_block now netuid =
     (\<lambda>(st, emissions_to_distribute, epochs_run_this_block).
     let tempo = get_tempo netuid st;
         max_blocks_since_last_step = saturating_add U64_MAX tempo 1;
         st1 = st\<lparr>BlocksSinceLastStep := (BlocksSinceLastStep st)(netuid :=
                 min (saturating_add U64_MAX (BlocksSinceLastStep st netuid) 1) max_blocks_since_last_step)\<rparr> in
     if \<not> should_run_epoch_with_tempo netuid now tempo st1
     then (st1, emissions_to_distribute, epochs_run_this_block)
     else if epochs_run_this_block \<ge> max_epochs_per_block
     then (let next_block = saturating_add U64_MAX now 1 in
           (emit_epoch (EpochDeferred netuid now next_block)
              (st1\<lparr>PendingEpochAt := (PendingEpochAt st1)(netuid := next_block)\<rparr>),
            emissions_to_distribute, epochs_run_this_block))
     else if is_epoch_input_state_consistent netuid st1
     then (case drain_emissions netuid st1 of (st2, pending) \<Rightarrow>
            (advance_schedule netuid now (change_subnet_owner_if_needed netuid st2),
             btree_insert netuid pending emissions_to_distribute,
             saturating_add U32_MAX epochs_run_this_block 1))
     else (advance_schedule netuid now (emit_epoch (EpochSkipped netuid now) st1),
           emissions_to_distribute, epochs_run_this_block))"

definition drain_pending ::
    "(nat \<Rightarrow> ('a, 'm) epoch_storage_scheme \<Rightarrow> ('a, 'm) epoch_storage_scheme) \<Rightarrow> nat list \<Rightarrow> nat \<Rightarrow>
     ('a, 'm) epoch_storage_scheme \<Rightarrow> ('a, 'm) epoch_storage_scheme \<times> pending_emissions" where
  "drain_pending change_subnet_owner_if_needed subnets now st =
     (case epoch_schedule_for_block subnets now st of
        (max_epochs_per_block, slot_order) \<Rightarrow>
          (case fold (drain_slot change_subnet_owner_if_needed max_epochs_per_block now) slot_order (st, [], 0) of
             (st', emissions_to_distribute, _) \<Rightarrow> (st', emissions_to_distribute)))"

definition try_set_pending_children ::
    "('o, 'a::linorder) childkey_env \<Rightarrow> nat \<Rightarrow> ('a, 'm) epoch_storage_scheme \<Rightarrow> ('a, 'm) epoch_storage_scheme" where
  "try_set_pending_children env block_number st =
     fold (\<lambda>netuid st. if LastEpochBlock st netuid = block_number then do_set_pending_children env netuid st else st)
       (all_subnet_netuids env) st"

section \<open>Epoch numbers for commit and reveal\<close>

definition get_epoch_index :: "nat \<Rightarrow> nat \<Rightarrow> ('a, 'm) epoch_storage_scheme \<Rightarrow> nat" where
  "get_epoch_index netuid block_number st = SubnetEpochIndex st netuid"

definition current_epoch_with_lookahead :: "nat \<Rightarrow> ('a, 'm) epoch_storage_scheme \<Rightarrow> nat" where
  "current_epoch_with_lookahead netuid st =
     (let base = SubnetEpochIndex st netuid in
      if should_run_epoch netuid (current_block st) st then saturating_add U64_MAX base 1 else base)"

definition get_reveal_period :: "nat \<Rightarrow> ('a, 'm) epoch_storage_scheme \<Rightarrow> nat" where
  "get_reveal_period netuid st = RevealPeriodEpochs st netuid"

definition set_reveal_period ::
    "nat \<Rightarrow> nat \<Rightarrow> ('a, 'm) epoch_storage_scheme \<Rightarrow> Error + ('a, 'm) epoch_storage_scheme" where
  "set_reveal_period netuid reveal_period st =
     bind_result (ensure (reveal_period \<le> MAX_COMMIT_REVEAL_PEROIDS) RevealPeriodTooLarge) (\<lambda>_.
     bind_result (ensure (reveal_period \<ge> MIN_COMMIT_REVEAL_PEROIDS) RevealPeriodTooSmall) (\<lambda>_.
     Inr (emit_epoch (CommitRevealPeriodsSet netuid reveal_period)
       (st\<lparr>RevealPeriodEpochs := (RevealPeriodEpochs st)(netuid := reveal_period)\<rparr>))))"

definition is_reveal_block_range :: "nat \<Rightarrow> nat \<Rightarrow> ('a, 'm) epoch_storage_scheme \<Rightarrow> bool" where
  "is_reveal_block_range netuid commit_epoch st =
     (let current_epoch = current_epoch_with_lookahead netuid st;
          reveal_period = get_reveal_period netuid st in
      current_epoch = saturating_add U64_MAX commit_epoch reveal_period)"

definition is_commit_expired :: "nat \<Rightarrow> nat \<Rightarrow> ('a, 'm) epoch_storage_scheme \<Rightarrow> bool" where
  "is_commit_expired netuid commit_epoch st =
     (let current_epoch = current_epoch_with_lookahead netuid st;
          reveal_period = get_reveal_period netuid st in
      current_epoch > saturating_add U64_MAX commit_epoch reveal_period)"

section \<open>An example state\<close>

definition example_epochs :: "nat epoch_storage" where
  "example_epochs = \<lparr>current_block = 9, TxChildkeyTakeRateLimit = 30, NetworkRateLimit = 40,
     MechanismCountSetRateLimit = 50, MechanismEmissionRateLimit = 60, MaxUidsTrimmingRateLimit = 70,
     WeightsVersionKeyRateLimit = 5, SubnetEmissionWeightsRateLimit = 80, OwnerHyperparamRateLimit = 2,
     TxRateLimit = 3, TxDelegateTakeRateLimit = 9, Tempo = (\<lambda>_. 4),
     LastRateLimitedBlock = (\<lambda>_. 0), TransactionKeyLastBlock = (\<lambda>_. 0),
     ChildKeys = (\<lambda>_ _. None), ParentKeys = (\<lambda>_ _. None), PendingChildKeys = (\<lambda>_ _. None),
     ChildkeyTake = (\<lambda>_ _. 0), ChildkeyThresholdSuspended = {}, ChildkeyThresholdChecks = {},
     AutoParentDelegationEnabled = (\<lambda>_. True), StakeThreshold = 60, PendingChildKeyCooldown = 100,
     MinChildkeyTakeValue = 3, MinChildkeyTakePerSubnet = (\<lambda>_. 5), MaxChildkeyTake = 900,
     NetworksAdded = (\<lambda>_. True), SubtokenEnabled = (\<lambda>_. False), SubnetOwnerHotkey = (\<lambda>_. None),
     Owner = (\<lambda>h. Some (h + 100)), TotalNetworks = 4, ck_events = [],
     SubnetOwner = (\<lambda>n. 50 + n), LastEpochBlock = (\<lambda>_. 9), PendingEpochAt = (\<lambda>_. 0), BlocksSinceLastStep = (\<lambda>_. 0),
     SubnetEpochIndex = (\<lambda>_. 2), MaxEpochsPerBlock = 1, AdminFreezeWindow = 1, SubnetEpochConsensus = (\<lambda>_. Yuma),
     CommitRevealWeightsEnabled = (\<lambda>_. False), RevealPeriodEpochs = (\<lambda>_. 1), ActivityCutoff = (\<lambda>_. 50),
     ActivityCutoffFactorMilli = (\<lambda>_. 13889), Keys = (\<lambda>n. [(0, 10 * n), (1, 10 * n + 1)]),
     PendingServerEmission = (\<lambda>_. 5), PendingValidatorEmission = (\<lambda>_. 6), PendingRootAlphaDivs = (\<lambda>_. 7),
     PendingOwnerCut = (\<lambda>_. 8), MechanismCountCurrent = (\<lambda>_. 1), WeightCommits = [],
     HasMigrationRun = (\<lambda>_. False), epoch_events = []\<rparr>"

end
