(* ===== verification/Mechanisms.thy ===== *)
theory Mechanisms
  imports Epoch_Schedule
begin

text \<open>
  The emission mechanisms of a subnet, \<^verbatim>\<open>src/pallets/subtensor/src/subnets/mechanism.rs\<close>: the storage index
  that a subnet and a mechanism share, the number of mechanisms and the storage that goes away with one,
  the choice between Yuma and Null consensus with its budget of uids, and the split of an emission over the
  mechanisms.  The stakes that decide the single validator of a Null subnet are an argument, raw bits of their fixed
  point type; the epoch itself is not part of this theory.
\<close>

section \<open>Storage\<close>

datatype MechanismEvent = MaxAllowedUidsSet nat nat | MaxAllowedValidatorsSet nat nat

record 'a mechanism_storage = "'a epoch_storage" +
  MaxMechanismCount :: nat
  MechanismEmissionSplit :: "nat \<Rightarrow> nat list option"
  MaxAllowedUids :: "nat \<Rightarrow> nat"
  MinAllowedUids :: "nat \<Rightarrow> nat"
  SubnetworkN :: "nat \<Rightarrow> nat"
  MaxAllowedValidators :: "nat \<Rightarrow> nat"
  SavedYumaMaxAllowedValidators :: "nat \<Rightarrow> nat option"
  NullPruningTarget :: "nat \<Rightarrow> nat option"
  ValidatorPermit :: "nat \<Rightarrow> bool list"
  LastMechansimStepBlock :: "nat \<Rightarrow> nat"
  LastYumaStepBlock :: "nat \<Rightarrow> nat option"
  Weights :: "nat \<Rightarrow> (nat \<times> (nat \<times> nat) list) list"
  Bonds :: "nat \<Rightarrow> (nat \<times> (nat \<times> nat) list) list"
  Incentive :: "nat \<Rightarrow> nat list"
  ConsensusByMechanism :: "nat \<Rightarrow> nat list"
  LastUpdate :: "nat \<Rightarrow> nat list"
  TimelockedWeightCommits :: "nat \<Rightarrow> (nat \<times> ('a \<times> nat \<times> nat list \<times> nat) list) list"
  mechanism_events :: "MechanismEvent list"

text \<open>Constants that the runtime configures.\<close>

record mechanism_config =
  DefaultMaxAllowedUids :: nat
  DefaultMaxAllowedValidators :: nat

definition MAX_MECHANISM_COUNT_PER_SUBNET :: nat where "MAX_MECHANISM_COUNT_PER_SUBNET = 16"
definition NULL_UID_BUDGET :: nat where "NULL_UID_BUDGET = 2500"

section \<open>Storage index\<close>

definition get_mechanism_storage_index :: "nat \<Rightarrow> nat \<Rightarrow> nat" where
  "get_mechanism_storage_index netuid sub_id =
     saturating_add U16_MAX (saturating_mul U16_MAX sub_id GLOBAL_MAX_SUBNET_COUNT) netuid"

definition get_netuid :: "nat \<Rightarrow> nat" where
  "get_netuid netuid_index =
     (if GLOBAL_MAX_SUBNET_COUNT \<noteq> 0 then netuid_index mod GLOBAL_MAX_SUBNET_COUNT else NETUID_ROOT)"

definition get_netuid_and_subid :: "nat \<Rightarrow> ('a, 'm) mechanism_storage_scheme \<Rightarrow> Error + nat \<times> nat" where
  "get_netuid_and_subid netuid_index st =
     (let netuid = netuid_index mod GLOBAL_MAX_SUBNET_COUNT in
      bind_result (ensure (if_subnet_exist st netuid) MechanismDoesNotExist) (\<lambda>_.
      bind_result (let q = netuid_index div GLOBAL_MAX_SUBNET_COUNT in
                   if q \<le> U8_MAX then Inr q else Inl MechanismDoesNotExist) (\<lambda>sub_id.
      if MechanismCountCurrent st netuid > sub_id then Inr (netuid, sub_id) else Inl MechanismDoesNotExist)))"

definition get_current_mechanism_count :: "nat \<Rightarrow> ('a, 'm) mechanism_storage_scheme \<Rightarrow> nat" where
  "get_current_mechanism_count netuid st = MechanismCountCurrent st netuid"

definition ensure_mechanism_exists :: "nat \<Rightarrow> nat \<Rightarrow> ('a, 'm) mechanism_storage_scheme \<Rightarrow> Error + unit" where
  "ensure_mechanism_exists netuid sub_id st =
     bind_result (ensure (if_subnet_exist st netuid) MechanismDoesNotExist) (\<lambda>_.
     ensure (MechanismCountCurrent st netuid > sub_id) MechanismDoesNotExist)"

section \<open>Consensus mode and uid budget\<close>

definition epoch_uid_budget :: "mechanism_config \<Rightarrow> EpochConsensus \<Rightarrow> nat" where
  "epoch_uid_budget cfg mode = (case mode of Yuma \<Rightarrow> DefaultMaxAllowedUids cfg | Null \<Rightarrow> NULL_UID_BUDGET)"

definition ensure_max_uids_over_all_mechanisms ::
    "mechanism_config \<Rightarrow> nat \<Rightarrow> nat \<Rightarrow> nat \<Rightarrow> ('a, 'm) mechanism_storage_scheme \<Rightarrow> Error + unit" where
  "ensure_max_uids_over_all_mechanisms cfg netuid max_uids mechanism_count st =
     (let max_uids_over_all_mechanisms = saturating_mul U32_MAX max_uids mechanism_count in
      ensure (max_uids_over_all_mechanisms \<le> epoch_uid_budget cfg (get_epoch_consensus netuid st))
        TooManyUIDsPerMechanism)"

definition set_max_allowed_uids ::
    "nat \<Rightarrow> nat \<Rightarrow> ('a, 'm) mechanism_storage_scheme \<Rightarrow> ('a, 'm) mechanism_storage_scheme" where
  "set_max_allowed_uids netuid max_allowed st =
     st\<lparr>MaxAllowedUids := (MaxAllowedUids st)(netuid := max_allowed),
        mechanism_events := mechanism_events st @ [MaxAllowedUidsSet netuid max_allowed],
        NullPruningTarget := (NullPruningTarget st)(netuid := None)\<rparr>"

definition put_max_allowed_validators ::
    "nat \<Rightarrow> nat \<Rightarrow> ('a, 'm) mechanism_storage_scheme \<Rightarrow> ('a, 'm) mechanism_storage_scheme" where
  "put_max_allowed_validators netuid v st =
     st\<lparr>MaxAllowedValidators := (MaxAllowedValidators st)(netuid := v),
        mechanism_events := mechanism_events st @ [MaxAllowedValidatorsSet netuid v]\<rparr>"

definition set_max_allowed_validators ::
    "nat \<Rightarrow> nat \<Rightarrow> ('a, 'm) mechanism_storage_scheme \<Rightarrow> ('a, 'm) mechanism_storage_scheme" where
  "set_max_allowed_validators netuid max_allowed_validators st =
     (let v = (if get_epoch_consensus netuid st = Null then 1 else max_allowed_validators) in
      put_max_allowed_validators netuid v st)"

definition null_validator_winner :: "int list \<Rightarrow> nat option" where
  "null_validator_winner stakes =
     fold (\<lambda>uid winner.
         (case winner of
            None \<Rightarrow> Some uid
          | Some previous \<Rightarrow>
              if previous < length stakes \<and> stakes ! uid > stakes ! previous then Some uid else winner))
       [0..<length stakes] None"

definition commits_at :: "nat \<Rightarrow> ('a, 'm) mechanism_storage_scheme \<Rightarrow> ((nat \<times> 'a) \<times> weight_commit list) list" where
  "commits_at index st = filter (\<lambda>((i, _), _). i = index) (WeightCommits st)"

definition no_timelocked_commits :: "nat \<Rightarrow> ('a, 'm) mechanism_storage_scheme \<Rightarrow> bool" where
  "no_timelocked_commits netuid st =
     list_all (\<lambda>mechanism. TimelockedWeightCommits st (get_mechanism_storage_index netuid mechanism) = [])
       [0..<MAX_MECHANISM_COUNT_PER_SUBNET]"

text \<open>The writes of \<^verbatim>\<open>do_set_epoch_consensus\<close>, after all its checks and in its order.\<close>

definition clamp_uids ::
    "nat \<Rightarrow> nat \<Rightarrow> ('a, 'm) mechanism_storage_scheme \<Rightarrow> ('a, 'm) mechanism_storage_scheme" where
  "clamp_uids netuid max_ceiling st =
     (if MaxAllowedUids st netuid > max_ceiling then set_max_allowed_uids netuid max_ceiling st else st)"

definition remember_yuma_step ::
    "nat \<Rightarrow> EpochConsensus \<Rightarrow> ('a, 'm) mechanism_storage_scheme \<Rightarrow> ('a, 'm) mechanism_storage_scheme" where
  "remember_yuma_step netuid mode st =
     (if mode = Null \<and> get_epoch_consensus netuid st = Yuma \<and> LastYumaStepBlock st netuid = None
      then st\<lparr>LastYumaStepBlock := (LastYumaStepBlock st)(netuid := Some (LastMechansimStepBlock st netuid))\<rparr>
      else st)"

definition enter_null ::
    "(nat \<Rightarrow> int list) \<Rightarrow> nat \<Rightarrow> EpochConsensus \<Rightarrow> ('a, 'm) mechanism_storage_scheme \<Rightarrow> ('a, 'm) mechanism_storage_scheme" where
  "enter_null null_stakes netuid mode st =
     (if mode = Null \<and> mode \<noteq> get_epoch_consensus netuid st
      then
        (let st1 = st\<lparr>SavedYumaMaxAllowedValidators :=
                     (SavedYumaMaxAllowedValidators st)(netuid := Some (MaxAllowedValidators st netuid))\<rparr>;
             st2 = set_max_allowed_validators netuid 1 st1;
             stakes = null_stakes netuid;
             winner = null_validator_winner stakes in
         st2\<lparr>ValidatorPermit := (ValidatorPermit st2)(netuid := map (\<lambda>uid. Some uid = winner) [0..<length stakes])\<rparr>)
      else st)"

definition restore_yuma ::
    "mechanism_config \<Rightarrow> nat \<Rightarrow> EpochConsensus \<Rightarrow> ('a, 'm) mechanism_storage_scheme \<Rightarrow> ('a, 'm) mechanism_storage_scheme" where
  "restore_yuma cfg netuid mode st =
     (if mode \<noteq> get_epoch_consensus netuid st
      then
        (let st1 = st\<lparr>NullPruningTarget := (NullPruningTarget st)(netuid := None)\<rparr> in
         if mode = Yuma then
           (let restored = min (unwrap_or (SavedYumaMaxAllowedValidators st1 netuid) (DefaultMaxAllowedValidators cfg))
                  (MaxAllowedUids st1 netuid) in
            put_max_allowed_validators netuid restored
              (st1\<lparr>SavedYumaMaxAllowedValidators := (SavedYumaMaxAllowedValidators st1)(netuid := None)\<rparr>))
         else st1)
      else st)"

definition do_set_epoch_consensus ::
    "mechanism_config \<Rightarrow> (nat \<Rightarrow> int list) \<Rightarrow> nat \<Rightarrow> EpochConsensus \<Rightarrow> ('a, 'm) mechanism_storage_scheme \<Rightarrow>
     Error + ('a, 'm) mechanism_storage_scheme" where
  "do_set_epoch_consensus cfg null_stakes netuid mode st =
     bind_result (ensure (if_subnet_exist st netuid) SubnetNotExists) (\<lambda>_.
     bind_result (ensure (\<not> is_root netuid) InvalidValue) (\<lambda>_.
     bind_result (if mode \<noteq> get_epoch_consensus netuid st then ensure (no_timelocked_commits netuid st) InvalidValue
                  else Inr ()) (\<lambda>_.
     let count = get_current_mechanism_count netuid st in
     bind_result (ok_or (checked_div (epoch_uid_budget cfg mode) count) InvalidValue) (\<lambda>ceiling.
     bind_result (ensure (SubnetworkN st netuid \<le> ceiling) TooManyUIDsPerMechanism) (\<lambda>_.
     bind_result (ensure (MinAllowedUids st netuid \<le> ceiling) TooManyUIDsPerMechanism) (\<lambda>_.
     Inr (set_epoch_consensus netuid mode
       (restore_yuma cfg netuid mode (enter_null null_stakes netuid mode
         (remember_yuma_step netuid mode (clamp_uids netuid ceiling st)))))))))))"

section \<open>Number of mechanisms\<close>

definition clear_mechanism ::
    "nat \<Rightarrow> ('a, 'm) mechanism_storage_scheme \<Rightarrow> ('a, 'm) mechanism_storage_scheme" where
  "clear_mechanism netuid_index st =
     st\<lparr>Weights := (Weights st)(netuid_index := []),
        Incentive := (Incentive st)(netuid_index := []),
        ConsensusByMechanism := (ConsensusByMechanism st)(netuid_index := []),
        LastUpdate := (LastUpdate st)(netuid_index := []),
        Bonds := (Bonds st)(netuid_index := []),
        WeightCommits := filter (\<lambda>((i, _), _). i \<noteq> netuid_index) (WeightCommits st),
        TimelockedWeightCommits := (TimelockedWeightCommits st)(netuid_index := [])\<rparr>"

definition update_mechanism_counts_if_needed ::
    "nat \<Rightarrow> nat \<Rightarrow> ('a, 'm) mechanism_storage_scheme \<Rightarrow> ('a, 'm) mechanism_storage_scheme" where
  "update_mechanism_counts_if_needed netuid new_count st =
     (let old_count = MechanismCountCurrent st netuid in
      if old_count \<noteq> new_count then
        (let st1 = (if old_count > new_count
                    then fold (\<lambda>mecid. clear_mechanism (get_mechanism_storage_index netuid mecid)) [new_count..<old_count] st
                    else st);
             st2 = st1\<lparr>MechanismCountCurrent := (MechanismCountCurrent st1)(netuid := new_count)\<rparr> in
         st2\<lparr>MechanismEmissionSplit := (MechanismEmissionSplit st2)(netuid := None)\<rparr>)
      else st)"

definition do_set_mechanism_count ::
    "mechanism_config \<Rightarrow> nat \<Rightarrow> nat \<Rightarrow> ('a, 'm) mechanism_storage_scheme \<Rightarrow>
     Error + ('a, 'm) mechanism_storage_scheme" where
  "do_set_mechanism_count cfg netuid mechanism_count st =
     bind_result (ensure (if_subnet_exist st netuid) MechanismDoesNotExist) (\<lambda>_.
     bind_result (ensure (mechanism_count > 0) InvalidValue) (\<lambda>_.
     bind_result
       (if get_epoch_consensus netuid st = Null \<and> mechanism_count \<noteq> get_current_mechanism_count netuid st
        then
          fold_result (\<lambda>mechanism _.
              let index = get_mechanism_storage_index netuid mechanism in
              bind_result (ensure (TimelockedWeightCommits st index = []) InvalidValue) (\<lambda>_.
              ensure (commits_at index st = []) InvalidValue))
            [0..<MAX_MECHANISM_COUNT_PER_SUBNET] ()
        else Inr ()) (\<lambda>_.
     bind_result (ensure (mechanism_count \<le> MaxMechanismCount st) InvalidValue) (\<lambda>_.
     bind_result (ensure_max_uids_over_all_mechanisms cfg netuid (MaxAllowedUids st netuid) mechanism_count st) (\<lambda>_.
     bind_result (ensure (mechanism_count \<le> MAX_MECHANISM_COUNT_PER_SUBNET) InvalidValue) (\<lambda>_.
     Inr (update_mechanism_counts_if_needed netuid mechanism_count st)))))))"

definition do_set_max_mechanism_count ::
    "nat \<Rightarrow> ('a, 'm) mechanism_storage_scheme \<Rightarrow> Error + ('a, 'm) mechanism_storage_scheme" where
  "do_set_max_mechanism_count max_mechanism_count st =
     bind_result (ensure (max_mechanism_count > 0) InvalidValue) (\<lambda>_.
     bind_result (ensure (max_mechanism_count \<le> MAX_MECHANISM_COUNT_PER_SUBNET) InvalidValue) (\<lambda>_.
     Inr (st\<lparr>MaxMechanismCount := max_mechanism_count\<rparr>)))"

section \<open>Emission split\<close>

definition do_set_emission_split ::
    "nat \<Rightarrow> nat list option \<Rightarrow> ('a, 'm) mechanism_storage_scheme \<Rightarrow> Error + ('a, 'm) mechanism_storage_scheme" where
  "do_set_emission_split netuid maybe_split st =
     bind_result (ensure (if_subnet_exist st netuid) MechanismDoesNotExist) (\<lambda>_.
     case maybe_split of
       Some split \<Rightarrow>
         bind_result (ensure (split \<noteq> []) InvalidValue) (\<lambda>_.
         bind_result (ensure (length split = MechanismCountCurrent st netuid) InvalidValue) (\<lambda>_.
         let total = sum_list split in
         bind_result (ensure (total = U16_MAX) InvalidValue) (\<lambda>_.
         Inr (st\<lparr>MechanismEmissionSplit := (MechanismEmissionSplit st)(netuid := Some split)\<rparr>))))
     | None \<Rightarrow> Inr (st\<lparr>MechanismEmissionSplit := (MechanismEmissionSplit st)(netuid := None)\<rparr>))"

definition safe_div :: "nat \<Rightarrow> nat \<Rightarrow> nat" where
  "safe_div a b = (if b = 0 then 0 else a div b)"

definition split_emissions :: "nat \<Rightarrow> nat \<Rightarrow> ('a, 'm) mechanism_storage_scheme \<Rightarrow> nat list" where
  "split_emissions netuid alpha st =
     (let mechanism_count = MechanismCountCurrent st netuid;
          maybe_split = (case MechanismEmissionSplit st netuid of
             Some split \<Rightarrow> if length split = mechanism_count then Some split else None
           | None \<Rightarrow> None);
          result = (case maybe_split of
             Some split \<Rightarrow> map (\<lambda>s. safe_div (saturating_mul U128_MAX alpha s) U16_MAX mod 2 ^ 64) split
           | None \<Rightarrow> replicate mechanism_count (safe_div alpha mechanism_count));
          rounding_err = saturating_sub alpha (sum_list result) in
      case result of
        cell # rest \<Rightarrow> saturating_add U64_MAX cell rounding_err # rest
      | [] \<Rightarrow> [])"

section \<open>Invariant\<close>

definition mechanisms_ok :: "mechanism_config \<Rightarrow> ('a, 'm) mechanism_storage_scheme \<Rightarrow> bool" where
  "mechanisms_ok cfg st \<longleftrightarrow>
     (\<forall>n. 0 < MechanismCountCurrent st n \<and> MechanismCountCurrent st n \<le> MAX_MECHANISM_COUNT_PER_SUBNET \<and>
       MaxAllowedUids st n * MechanismCountCurrent st n \<le> epoch_uid_budget cfg (SubnetEpochConsensus st n) \<and>
       (\<forall>split. MechanismEmissionSplit st n = Some split \<longrightarrow> sum_list split = U16_MAX))"


inductive mechanism_step ::
    "mechanism_config \<Rightarrow> ('a, 'm) mechanism_storage_scheme \<Rightarrow> ('a, 'm) mechanism_storage_scheme \<Rightarrow> bool"
  for cfg :: mechanism_config where
  set_count: "do_set_mechanism_count cfg netuid count st = Inr st' \<Longrightarrow> mechanism_step cfg st st'"
| set_max: "do_set_max_mechanism_count count st = Inr st' \<Longrightarrow> mechanism_step cfg st st'"
| set_split: "do_set_emission_split netuid split st = Inr st' \<Longrightarrow> mechanism_step cfg st st'"
| set_consensus: "do_set_epoch_consensus cfg null_stakes netuid mode st = Inr st' \<Longrightarrow> mechanism_step cfg st st'"

inductive mechanism_run ::
    "mechanism_config \<Rightarrow> ('a, 'm) mechanism_storage_scheme \<Rightarrow> ('a, 'm) mechanism_storage_scheme \<Rightarrow> bool"
  for cfg :: mechanism_config where
  no_steps: "mechanism_run cfg st st"
| more_steps: "mechanism_run cfg st st' \<Longrightarrow> mechanism_step cfg st' st'' \<Longrightarrow> mechanism_run cfg st st''"

lemma clear_mechanisms_frame:
  "MechanismCountCurrent (fold (\<lambda>mecid. clear_mechanism (f mecid)) xs st) = MechanismCountCurrent st"
  "MaxAllowedUids (fold (\<lambda>mecid. clear_mechanism (f mecid)) xs st) = MaxAllowedUids st"
  "SubnetEpochConsensus (fold (\<lambda>mecid. clear_mechanism (f mecid)) xs st) = SubnetEpochConsensus st"
  "MechanismEmissionSplit (fold (\<lambda>mecid. clear_mechanism (f mecid)) xs st) = MechanismEmissionSplit st"
  by (induction xs arbitrary: st) (simp_all add: clear_mechanism_def)

lemma set_count_ok:
  assumes "do_set_mechanism_count cfg netuid count st = Inr st'" "mechanisms_ok cfg st"
    and "epoch_uid_budget cfg (SubnetEpochConsensus st netuid) < U32_MAX"
  shows "mechanisms_ok cfg st'"
proof -
  have ok: "0 < count" "count \<le> MAX_MECHANISM_COUNT_PER_SUBNET"
      "saturating_mul U32_MAX (MaxAllowedUids st netuid) count \<le> epoch_uid_budget cfg (SubnetEpochConsensus st netuid)"
    and st': "st' = update_mechanism_counts_if_needed netuid count st"
    using assms(1) by (auto simp: do_set_mechanism_count_def result_iffs ensure_max_uids_over_all_mechanisms_def
        get_epoch_consensus_def Let_def split: if_splits)
  have "MaxAllowedUids st netuid * count \<le> epoch_uid_budget cfg (SubnetEpochConsensus st netuid)"
    using ok(3) assms(3) by (auto simp: saturating_mul_def min_def split: if_splits)
  then show ?thesis
    using assms(2) ok(1,2) unfolding st' mechanisms_ok_def update_mechanism_counts_if_needed_def
    by (auto simp: Let_def clear_mechanisms_frame)
qed

lemma consensus_frame:
  "MechanismCountCurrent (restore_yuma cfg netuid mode st) = MechanismCountCurrent st"
  "MechanismEmissionSplit (restore_yuma cfg netuid mode st) = MechanismEmissionSplit st"
  "SubnetEpochConsensus (restore_yuma cfg netuid mode st) = SubnetEpochConsensus st"
  "MaxAllowedUids (restore_yuma cfg netuid mode st) = MaxAllowedUids st"
  "MechanismCountCurrent (enter_null null_stakes netuid mode st) = MechanismCountCurrent st"
  "MechanismEmissionSplit (enter_null null_stakes netuid mode st) = MechanismEmissionSplit st"
  "SubnetEpochConsensus (enter_null null_stakes netuid mode st) = SubnetEpochConsensus st"
  "MaxAllowedUids (enter_null null_stakes netuid mode st) = MaxAllowedUids st"
  "MechanismCountCurrent (remember_yuma_step netuid mode st) = MechanismCountCurrent st"
  "MechanismEmissionSplit (remember_yuma_step netuid mode st) = MechanismEmissionSplit st"
  "SubnetEpochConsensus (remember_yuma_step netuid mode st) = SubnetEpochConsensus st"
  "MaxAllowedUids (remember_yuma_step netuid mode st) = MaxAllowedUids st"
  by (simp_all add: restore_yuma_def enter_null_def remember_yuma_step_def Let_def put_max_allowed_validators_def
      set_max_allowed_validators_def)

lemma set_consensus_ok:
  assumes "do_set_epoch_consensus cfg null_stakes netuid mode st = Inr st'" "mechanisms_ok cfg st"
  shows "mechanisms_ok cfg st'"
proof -
  define lim where "lim = epoch_uid_budget cfg mode div MechanismCountCurrent st netuid"
  have st': "st' = set_epoch_consensus netuid mode
       (restore_yuma cfg netuid mode (enter_null null_stakes netuid mode
         (remember_yuma_step netuid mode (clamp_uids netuid lim st))))"
    using assms(1) by (auto simp: do_set_epoch_consensus_def result_iffs Let_def get_current_mechanism_count_def
        checked_div_def lim_def split: if_splits)
  have "MechanismCountCurrent st' = MechanismCountCurrent st" "MechanismEmissionSplit st' = MechanismEmissionSplit st"
    "SubnetEpochConsensus st' = (SubnetEpochConsensus st)(netuid := mode)"
    "MaxAllowedUids st' = (MaxAllowedUids st)(netuid := min (MaxAllowedUids st netuid) lim)"
    unfolding st' by (simp_all add: set_epoch_consensus_def emit_epoch_def consensus_frame clamp_uids_def
        set_max_allowed_uids_def min_def)
  moreover have "min m lim * MechanismCountCurrent st netuid \<le> epoch_uid_budget cfg mode" for m
    by (metis lim_def div_times_less_eq_dividend le_trans min.cobounded2 mult_le_mono1)
  ultimately show ?thesis using assms(2) by (auto simp: mechanisms_ok_def)
qed

lemma mechanism_step_ok:
  assumes "mechanism_step cfg st st'" "mechanisms_ok cfg st" "\<forall>mode. epoch_uid_budget cfg mode < U32_MAX"
  shows "mechanisms_ok cfg st'"
  using assms
proof cases
  case set_split
  then show ?thesis using assms(2)
    by (auto simp: do_set_emission_split_def result_iffs Let_def mechanisms_ok_def split: option.splits if_splits)
next
  case set_max
  then show ?thesis using assms(2) by (auto simp: do_set_max_mechanism_count_def result_iffs mechanisms_ok_def)
qed (use set_count_ok set_consensus_ok in blast)+

lemma mechanism_run_ok:
  "mechanism_run cfg st st' \<Longrightarrow> mechanisms_ok cfg st \<Longrightarrow> \<forall>mode. epoch_uid_budget cfg mode < U32_MAX \<Longrightarrow> mechanisms_ok cfg st'"
  by (induction rule: mechanism_run.induct) (auto intro: mechanism_step_ok)

section \<open>Conservation of an emission\<close>

lemma sum_list_parts:
  fixes xs :: "nat list"
  assumes "sum_list xs = d" "0 < d"
  shows "sum_list (map (\<lambda>s. a * s div d) xs) \<le> a"
proof -
  have "sum_list (map (\<lambda>s. a * s div d) xs) * d \<le> sum_list (map (\<lambda>s. a * s) xs)" for xs
    by (induction xs) (simp_all add: add_mult_distrib add_mono)
  also have "sum_list (map (\<lambda>s. a * s) xs) = a * d"
    unfolding assms(1)[symmetric] by (simp add: sum_list_const_mult)
  finally show ?thesis using assms(2) by simp
qed

lemma split_total:
  assumes "xs \<noteq> []" "sum_list xs \<le> a" "a \<le> U64_MAX"
  shows "sum_list (case xs of cell # rest \<Rightarrow> saturating_add U64_MAX cell (a - sum_list xs) # rest | [] \<Rightarrow> []) = a"
  using assms by (cases xs) (auto simp: saturating_add_def)

lemma split_conserves:
  assumes "mechanisms_ok cfg st" "alpha \<le> U64_MAX"
  shows "sum_list (split_emissions netuid alpha st) = alpha \<and>
    length (split_emissions netuid alpha st) = MechanismCountCurrent st netuid"
proof -
  have count: "0 < MechanismCountCurrent st netuid" using assms(1) by (simp add: mechanisms_ok_def)
  show ?thesis
  proof (cases "\<exists>split. MechanismEmissionSplit st netuid = Some split \<and> length split = MechanismCountCurrent st netuid")
    case True
    then obtain xs where xs: "MechanismEmissionSplit st netuid = Some xs" "length xs = MechanismCountCurrent st netuid" by blast
    then have sum: "sum_list xs = U16_MAX" using assms(1) by (simp add: mechanisms_ok_def)
    define part where "part = (\<lambda>s. safe_div (saturating_mul U128_MAX alpha s) U16_MAX mod 2 ^ 64)"
    have "part s = alpha * s div U16_MAX" if "s \<in> set xs" for s
    proof -
      have s: "s \<le> U16_MAX" using member_le_sum_list[OF that] sum by simp
      then have "alpha * s \<le> U64_MAX * U16_MAX" using assms(2) mult_le_mono by blast
      moreover have "alpha * s div U16_MAX \<le> alpha" using s
        by (metis div_le_mono div_mult_self_is_m div_by_0 mult_le_mono2 neq0_conv zero_le)
      ultimately show ?thesis using assms(2) by (simp add: part_def safe_div_def saturating_mul_def int_bounds)
    qed
    then have "map part xs = map (\<lambda>s. alpha * s div U16_MAX) xs" by simp
    moreover have "split_emissions netuid alpha st =
        (case map part xs of cell # rest \<Rightarrow> saturating_add U64_MAX cell (alpha - sum_list (map part xs)) # rest | [] \<Rightarrow> [])"
      by (simp add: split_emissions_def Let_def xs part_def cong: list.case_cong)
    ultimately have "split_emissions netuid alpha st =
        (case map (\<lambda>s. alpha * s div U16_MAX) xs of cell # rest \<Rightarrow>
           saturating_add U64_MAX cell (alpha - sum_list (map (\<lambda>s. alpha * s div U16_MAX) xs)) # rest | [] \<Rightarrow> [])"
      by (simp only:)
    moreover have "sum_list (map (\<lambda>s. alpha * s div U16_MAX) xs) \<le> alpha"
      by (rule sum_list_parts[OF sum]) (simp add: int_bounds)
    ultimately show ?thesis using split_total[OF _ _ assms(2), of "map (\<lambda>s. alpha * s div U16_MAX) xs"] xs(2) count
      by (cases xs) auto
  next
    case False
    let ?k = "MechanismCountCurrent st netuid"
    have "split_emissions netuid alpha st =
        (case replicate ?k (safe_div alpha ?k) of cell # rest \<Rightarrow>
           saturating_add U64_MAX cell (alpha - sum_list (replicate ?k (safe_div alpha ?k))) # rest | [] \<Rightarrow> [])"
      using False by (auto simp: split_emissions_def Let_def split: option.splits)
    moreover have "sum_list (replicate ?k (safe_div alpha ?k)) \<le> alpha"
      by (simp add: sum_list_replicate safe_div_def)
    ultimately show ?thesis using split_total[OF _ _ assms(2), of "replicate ?k (safe_div alpha ?k)"] count
      by (cases ?k) auto
  qed
qed

section \<open>Properties\<close>

text \<open>
  C20: In every state reached by changes of the number of mechanisms, of their emission split and of the
  consensus mode, a subnet has between one and sixteen mechanisms, the uids over all its mechanisms are within the
  budget of its consensus mode, and an emission is split over its mechanisms without loss.
\<close>

theorem mechanisms_sound:
  assumes "mechanism_run cfg st0 st" "\<forall>n. MechanismCountCurrent st0 n = 1" "\<forall>n. MechanismEmissionSplit st0 n = None"
    and "\<forall>n. MaxAllowedUids st0 n \<le> epoch_uid_budget cfg (SubnetEpochConsensus st0 n)"
    and "DefaultMaxAllowedUids cfg \<le> U16_MAX" "alpha \<le> U64_MAX"
  shows "1 \<le> MechanismCountCurrent st netuid \<and> MechanismCountCurrent st netuid \<le> 16 \<and>
    MaxAllowedUids st netuid * MechanismCountCurrent st netuid \<le> epoch_uid_budget cfg (SubnetEpochConsensus st netuid) \<and>
    length (split_emissions netuid alpha st) = MechanismCountCurrent st netuid \<and>
    sum_list (split_emissions netuid alpha st) = alpha"
proof -
  have "mechanisms_ok cfg st0" using assms(2-4) by (simp add: mechanisms_ok_def MAX_MECHANISM_COUNT_PER_SUBNET_def)
  moreover have "epoch_uid_budget cfg mode < U32_MAX" for mode
    using assms(5) by (cases mode) (simp_all add: epoch_uid_budget_def NULL_UID_BUDGET_def int_bounds)
  ultimately have ok: "mechanisms_ok cfg st" using mechanism_run_ok[OF assms(1)] by blast
  then show ?thesis using split_conserves[OF ok assms(6), of netuid]
    by (auto simp: mechanisms_ok_def MAX_MECHANISM_COUNT_PER_SUBNET_def Suc_le_eq)
qed

text \<open>
  The storage index of a subnet and a mechanism fits its type and determines both; reading it back succeeds
  exactly for a mechanism that exists.
\<close>

lemma mechanism_index_roundtrip:
  assumes "netuid < GLOBAL_MAX_SUBNET_COUNT" "sub_id < MAX_MECHANISM_COUNT_PER_SUBNET"
  shows "get_mechanism_storage_index netuid sub_id \<le> U16_MAX \<and>
    get_netuid (get_mechanism_storage_index netuid sub_id) = netuid \<and>
    get_netuid_and_subid (get_mechanism_storage_index netuid sub_id) st =
      (if ensure_mechanism_exists netuid sub_id st = Inr () then Inr (netuid, sub_id) else Inl MechanismDoesNotExist)"
proof -
  have lt: "netuid < 4096" "sub_id < 16"
    using assms by (simp_all add: GLOBAL_MAX_SUBNET_COUNT_def MAX_MECHANISM_COUNT_PER_SUBNET_def)
  then have "sub_id * 4096 + netuid \<le> 65535" by simp
  then have "get_mechanism_storage_index netuid sub_id = sub_id * 4096 + netuid"
    by (simp add: get_mechanism_storage_index_def GLOBAL_MAX_SUBNET_COUNT_def saturating_add_def saturating_mul_def U16_MAX_def)
  moreover have "(sub_id * 4096 + netuid) mod 4096 = netuid" "(sub_id * 4096 + netuid) div 4096 = sub_id"
    using lt by simp_all
  ultimately show ?thesis using lt
    by (simp add: get_netuid_def get_netuid_and_subid_def ensure_mechanism_exists_def GLOBAL_MAX_SUBNET_COUNT_def
        int_bounds Let_def bind_ensure ensure_def)
qed

section \<open>An example\<close>

definition example_config :: mechanism_config where
  "example_config = \<lparr>DefaultMaxAllowedUids = 256, DefaultMaxAllowedValidators = 64\<rparr>"

definition no_rows :: "nat \<Rightarrow> 'b list" where
  "no_rows index = []"

definition example_subnets :: "nat mechanism_storage" where
  "example_subnets = epoch_storage.extend example_epochs
     (mechanism_storage.fields 4 (\<lambda>_. None) (\<lambda>_. 100) (\<lambda>_. 10) (\<lambda>_. 20) (\<lambda>_. 64) (\<lambda>_. None) (\<lambda>_. None) no_rows
       (\<lambda>_. 0) (\<lambda>_. None) no_rows no_rows no_rows no_rows no_rows no_rows [])"

definition example_two :: "nat mechanism_storage" where
  "example_two = update_mechanism_counts_if_needed 3 2 example_subnets"

definition example_split :: "nat mechanism_storage" where
  "example_split = example_two\<lparr>MechanismEmissionSplit := (MechanismEmissionSplit example_two)(3 := Some [45535, 20000])\<rparr>"

lemmas example_mechanisms = example_subnets_def example_epochs_def epoch_storage.defs mechanism_storage.defs

lemma example_two_counts:
  "MechanismCountCurrent example_two 3 = 2" "NetworksAdded example_two = (\<lambda>_. True)"
  by (simp_all add: example_two_def update_mechanism_counts_if_needed_def example_mechanisms)

lemma example_mechanism_run: "mechanism_run example_config example_subnets example_split"
proof -
  have "do_set_mechanism_count example_config 3 2 example_subnets = Inr example_two"
    unfolding example_two_def
    by (simp add: do_set_mechanism_count_def ensure_max_uids_over_all_mechanisms_def epoch_uid_budget_def ensure_def
        get_epoch_consensus_def if_subnet_exist_def saturating_mul_def int_bounds MAX_MECHANISM_COUNT_PER_SUBNET_def
        example_config_def example_mechanisms)
  moreover have "do_set_emission_split 3 (Some [45535, 20000]) example_two = Inr example_split"
    by (simp add: do_set_emission_split_def example_split_def ensure_def if_subnet_exist_def example_two_counts U16_MAX_def)
  ultimately show ?thesis by (meson mechanism_run.intros mechanism_step.intros)
qed

lemma mechanisms_sound_witness:
  "split_emissions 3 100 example_split = [70, 30] \<and> sum_list (split_emissions 3 100 example_split) = 100"
proof -
  have "split_emissions 3 100 example_split = [70, 30]"
    by (simp add: split_emissions_def example_split_def example_two_counts safe_div_def saturating_mul_def
        saturating_add_def int_bounds Let_def)
  moreover have "sum_list (split_emissions 3 100 example_split) = 100"
    using mechanisms_sound[OF example_mechanism_run, of 100 3]
    by (simp add: example_mechanisms example_config_def epoch_uid_budget_def int_bounds)
  ultimately show ?thesis by simp
qed

end
