(* ===== verification/Epoch_Progress.thy ===== *)
theory Epoch_Progress
  imports Epoch_Schedule
begin

text \<open>
  Facts about the epoch schedule.  The slots of a block are first reduced to a plan, which says for each subnet
  whether its slot idles, is deferred, runs or is skipped (\<open>drain_fold\<close>); on the plan rest that a due subnet does not starve,
  that the forecast of deferrals is exact away from the safety net, and the effect of a manual trigger.  The last
  theorem exhibits a reachable state on the edge of the safety net.
\<close>

definition leaves_schedule ::
    "(nat \<Rightarrow> ('a, 'm) epoch_storage_scheme \<Rightarrow> ('a, 'm) epoch_storage_scheme) \<Rightarrow> bool" where
  "leaves_schedule chg \<longleftrightarrow> (\<forall>n st.
     Tempo (chg n st) = Tempo st \<and> LastEpochBlock (chg n st) = LastEpochBlock st \<and>
     PendingEpochAt (chg n st) = PendingEpochAt st \<and> BlocksSinceLastStep (chg n st) = BlocksSinceLastStep st \<and>
     SubnetEpochIndex (chg n st) = SubnetEpochIndex st \<and> MaxEpochsPerBlock (chg n st) = MaxEpochsPerBlock st \<and>
     epoch_events (chg n st) = epoch_events st \<and> (\<forall>m. m \<noteq> n \<longrightarrow> Keys (chg n st) m = Keys st m))"

section \<open>One slot\<close>

text \<open>The rows of one subnet that its slot reads and writes.\<close>

record slot_rows =
  tempo_row :: nat
  last_row :: nat
  pending_row :: nat
  since_row :: nat
  index_row :: nat

definition rows :: "('a, 'm) epoch_storage_scheme \<Rightarrow> nat \<Rightarrow> slot_rows" where
  "rows st n = \<lparr>tempo_row = Tempo st n, last_row = LastEpochBlock st n, pending_row = PendingEpochAt st n,
     since_row = BlocksSinceLastStep st n, index_row = SubnetEpochIndex st n\<rparr>"

definition rows_due :: "nat \<Rightarrow> slot_rows \<Rightarrow> bool" where
  "rows_due now r \<longleftrightarrow> tempo_row r \<noteq> 0 \<and>
     (pending_row r > 0 \<and> now \<ge> pending_row r \<or> since_row r > tempo_row r \<or> now - last_row r \<ge> tempo_row r)"

definition rows_aged :: "slot_rows \<Rightarrow> slot_rows" where
  "rows_aged r = r\<lparr>since_row := min (saturating_add U64_MAX (since_row r) 1) (saturating_add U64_MAX (tempo_row r) 1)\<rparr>"

datatype outcome = Idle | Deferred | Ran | Skipped

definition outcome_of :: "nat \<Rightarrow> nat \<Rightarrow> nat \<Rightarrow> slot_rows \<Rightarrow> bool \<Rightarrow> outcome" where
  "outcome_of cap now run r consistent =
     (if \<not> rows_due now (rows_aged r) then Idle else if run \<ge> cap then Deferred else if consistent then Ran else Skipped)"

definition rows_after :: "nat \<Rightarrow> outcome \<Rightarrow> slot_rows \<Rightarrow> slot_rows" where
  "rows_after now out r =
     (case out of
        Idle \<Rightarrow> rows_aged r
      | Deferred \<Rightarrow> (rows_aged r)\<lparr>pending_row := saturating_add U64_MAX now 1\<rparr>
      | Ran \<Rightarrow> r\<lparr>last_row := now, pending_row := 0, since_row := 0, index_row := saturating_add U64_MAX (index_row r) 1\<rparr>
      | Skipped \<Rightarrow> (rows_aged r)\<lparr>last_row := now, pending_row := 0, index_row := saturating_add U64_MAX (index_row r) 1\<rparr>)"

definition events_of :: "nat \<Rightarrow> nat \<Rightarrow> outcome \<Rightarrow> 'a EpochEvent list" where
  "events_of n now out =
     (case out of Deferred \<Rightarrow> [EpochDeferred n now (saturating_add U64_MAX now 1)]
      | Skipped \<Rightarrow> [EpochSkipped n now] | _ \<Rightarrow> [])"

lemma should_run_rows: "should_run_epoch_with_tempo n now (Tempo st n) st \<longleftrightarrow> rows_due now (rows st n)"
  by (auto simp: should_run_epoch_with_tempo_def rows_due_def rows_def Let_def)

definition aged :: "nat \<Rightarrow> ('a, 'm) epoch_storage_scheme \<Rightarrow> ('a, 'm) epoch_storage_scheme" where
  "aged n st = st\<lparr>BlocksSinceLastStep := (BlocksSinceLastStep st)(n := since_row (rows_aged (rows st n)))\<rparr>"

lemma aged_due: "should_run_epoch_with_tempo n now (Tempo st n) (aged n st) \<longleftrightarrow> rows_due now (rows_aged (rows st n))"
  using should_run_rows[of n now "aged n st"] by (simp add: aged_def rows_def rows_aged_def)

lemma drain_slot_eq:
  "drain_slot chg cap now n (st, em, run) =
     (case outcome_of cap now run (rows st n) (is_epoch_input_state_consistent n st) of
        Idle \<Rightarrow> (aged n st, em, run)
      | Deferred \<Rightarrow> (emit_epoch (EpochDeferred n now (saturating_add U64_MAX now 1))
            ((aged n st)\<lparr>PendingEpochAt := (PendingEpochAt st)(n := saturating_add U64_MAX now 1)\<rparr>), em, run)
      | Ran \<Rightarrow> (advance_schedule n now (chg n (fst (drain_emissions n (aged n st)))),
            btree_insert n (snd (drain_emissions n (aged n st))) em, saturating_add U32_MAX run 1)
      | Skipped \<Rightarrow> (advance_schedule n now (emit_epoch (EpochSkipped n now) (aged n st)), em, run))"
proof -
  have "is_epoch_input_state_consistent n (aged n st) = is_epoch_input_state_consistent n st"
    by (simp add: is_epoch_input_state_consistent_def aged_def)
  moreover have "st\<lparr>BlocksSinceLastStep := (BlocksSinceLastStep st)(n :=
      min (saturating_add U64_MAX (BlocksSinceLastStep st n) 1) (saturating_add U64_MAX (get_tempo n st) 1))\<rparr> = aged n st"
    by (simp add: aged_def rows_aged_def rows_def get_tempo_def)
  moreover have "PendingEpochAt (aged n st) = PendingEpochAt st" by (simp add: aged_def)
  ultimately show ?thesis
    unfolding drain_slot_def outcome_of_def
    by (simp add: get_tempo_def aged_due Let_def split_beta)
qed

lemma drain_slot_outcome:
  assumes "leaves_schedule chg" "drain_slot chg cap now n (st, em, run) = (st', em', run')"
    and "out = outcome_of cap now run (rows st n) (is_epoch_input_state_consistent n st)"
  shows "rows st' n = rows_after now out (rows st n)" "m \<noteq> n \<Longrightarrow> rows st' m = rows st m"
    and "m \<noteq> n \<Longrightarrow> Keys st' m = Keys st m"
    and "run' = (if out = Ran then saturating_add U32_MAX run 1 else run)"
    and "epoch_events st' = epoch_events st @ events_of n now out"
    and "MaxEpochsPerBlock st' = MaxEpochsPerBlock st"
proof -
  note eq = assms(2)[unfolded drain_slot_eq assms(3)[symmetric]]
  note defs = rows_after_def rows_def rows_aged_def aged_def events_of_def emit_epoch_def advance_schedule_def
    drain_emissions_def
  note chg = assms(1)[unfolded leaves_schedule_def, rule_format]
  show "rows st' n = rows_after now out (rows st n)"
    using eq by (cases out) (auto simp: defs chg)
  show "m \<noteq> n \<Longrightarrow> rows st' m = rows st m"
    using eq by (cases out) (auto simp: defs chg)
  show "m \<noteq> n \<Longrightarrow> Keys st' m = Keys st m"
    using eq by (cases out) (auto simp: defs chg)
  show "run' = (if out = Ran then saturating_add U32_MAX run 1 else run)"
    using eq by (cases out) auto
  show "epoch_events st' = epoch_events st @ events_of n now out"
    using eq by (cases out) (auto simp: defs chg)
  show "MaxEpochsPerBlock st' = MaxEpochsPerBlock st"
    using eq by (cases out) (auto simp: defs chg)
qed

section \<open>All slots of a block\<close>

text \<open>
  The plan of a block: what happens in the slot of each subnet, read off the state before the first slot.
  \<open>drain_fold\<close> shows that the loop of \<^verbatim>\<open>drain_pending\<close>, which updates the storage slot by slot, carries out
  the plan.
\<close>

fun plan :: "nat \<Rightarrow> nat \<Rightarrow> ('a, 'm) epoch_storage_scheme \<Rightarrow> nat list \<Rightarrow> nat \<Rightarrow> (nat \<times> outcome) list" where
  "plan cap now st [] run = []"
| "plan cap now st (n # xs) run =
     (let out = outcome_of cap now run (rows st n) (is_epoch_input_state_consistent n st)
      in (n, out) # plan cap now st xs (if out = Ran then saturating_add U32_MAX run 1 else run))"

lemma plan_keys [simp]: "map fst (plan cap now st xs run) = xs"
  by (induction xs arbitrary: run) (simp_all add: Let_def)

lemma plan_cong:
  "(\<And>n. n \<in> set xs \<Longrightarrow> rows st' n = rows st n \<and> Keys st' n = Keys st n) \<Longrightarrow>
     plan cap now st' xs run = plan cap now st xs run"
  by (induction xs arbitrary: run) (simp_all add: Let_def is_epoch_input_state_consistent_def)

lemma drain_fold:
  assumes "leaves_schedule chg" "distinct xs"
    and "fold (drain_slot chg cap now) xs (st, em, run) = (st', em', run')"
  shows "(\<forall>n. rows st' n = (case map_of (plan cap now st xs run) n of None \<Rightarrow> rows st n
        | Some out \<Rightarrow> rows_after now out (rows st n))) \<and>
    epoch_events st' = epoch_events st @ concat (map (\<lambda>(n, out). events_of n now out) (plan cap now st xs run)) \<and>
    MaxEpochsPerBlock st' = MaxEpochsPerBlock st"
  using assms(2,3)
proof (induction xs arbitrary: st em run)
  case (Cons n xs)
  obtain st1 em1 run1 where slot: "drain_slot chg cap now n (st, em, run) = (st1, em1, run1)"
    by (metis prod_cases3)
  define out where "out = outcome_of cap now run (rows st n) (is_epoch_input_state_consistent n st)"
  note step = drain_slot_outcome[OF assms(1) slot out_def]
  have "plan cap now st1 xs run1 = plan cap now st xs run1"
    using Cons.prems(1) step(2,3) by (intro plan_cong) (metis distinct.simps(2))
  moreover have "map_of (plan cap now st xs run1) n = None"
    using Cons.prems(1) by (simp add: map_of_eq_None_iff flip: set_map)
  moreover note Cons.IH[of st1 em1 run1] Cons.prems slot
  ultimately show ?case
    unfolding plan.simps Let_def out_def[symmetric] step(4)[symmetric]
    by (auto simp: step(1,2,5,6) split: option.splits)
qed simp

lemma plan_deferred_ran:
  assumes "(n, Deferred) \<in> set (plan cap now st xs run)" "run < cap"
  shows "\<exists>m. (m, Ran) \<in> set (plan cap now st xs run)"
  using assms
proof (induction xs arbitrary: run)
  case (Cons k xs)
  then show ?case by (auto simp: Let_def outcome_of_def split: if_splits)
qed simp

lemma plan_outcome:
  "(n, out) \<in> set (plan cap now st xs run) \<Longrightarrow>
     \<exists>r. out = outcome_of cap now r (rows st n) (is_epoch_input_state_consistent n st)"
proof (induction xs arbitrary: run)
  case (Cons k xs)
  show ?case
  proof (cases "(n, out) = (k, outcome_of cap now run (rows st k) (is_epoch_input_state_consistent k st))")
    case False
    then show ?thesis using Cons.prems Cons.IH unfolding plan.simps Let_def by auto
  qed blast
qed simp

lemma plan_ran_due: "(n, Ran) \<in> set (plan cap now st xs run) \<Longrightarrow> rows_due now (rows_aged (rows st n))"
  by (drule plan_outcome) (auto simp: outcome_of_def split: if_splits)

section \<open>A block\<close>

definition block_plan :: "nat list \<Rightarrow> nat \<Rightarrow> ('a, 'm) epoch_storage_scheme \<Rightarrow> (nat \<times> outcome) list" where
  "block_plan subnets now st = (case epoch_schedule_for_block subnets now st of (cap, order) \<Rightarrow> plan cap now st order 0)"

lemma schedule_order:
  assumes "epoch_schedule_for_block subnets now st = (cap, order)" "distinct subnets"
  shows "distinct order" "set order = set subnets" "0 < MaxEpochsPerBlock st \<Longrightarrow> 0 < cap"
  using assms
  by (auto simp: epoch_schedule_for_block_def Let_def get_max_epochs_per_block_def find_Some_iff
      split: option.splits)

lemma drain_block:
  assumes "leaves_schedule chg" "distinct subnets" "drain_pending chg subnets now st = (st', em)"
  shows "rows st' n = (case map_of (block_plan subnets now st) n of None \<Rightarrow> rows st n
        | Some out \<Rightarrow> rows_after now out (rows st n))"
    and "epoch_events st' = epoch_events st @ concat (map (\<lambda>(n, out). events_of n now out) (block_plan subnets now st))"
    and "MaxEpochsPerBlock st' = MaxEpochsPerBlock st"
proof -
  obtain cap order where sched: "epoch_schedule_for_block subnets now st = (cap, order)" by fastforce
  obtain run where "fold (drain_slot chg cap now) order (st, [], 0) = (st', em, run)"
    using assms(3) sched unfolding drain_pending_def by (auto split: prod.splits)
  from drain_fold[OF assms(1) schedule_order(1)[OF sched assms(2)] this]
  show "rows st' n = (case map_of (block_plan subnets now st) n of None \<Rightarrow> rows st n
        | Some out \<Rightarrow> rows_after now out (rows st n))"
    and "epoch_events st' = epoch_events st @ concat (map (\<lambda>(n, out). events_of n now out) (block_plan subnets now st))"
    and "MaxEpochsPerBlock st' = MaxEpochsPerBlock st"
    by (simp_all add: block_plan_def sched)
qed

lemma block_plan_some:
  assumes "distinct subnets" "n \<in> set subnets"
  obtains out where "map_of (block_plan subnets now st) n = Some out" "(n, out) \<in> set (block_plan subnets now st)"
proof -
  obtain cap order where sched: "epoch_schedule_for_block subnets now st = (cap, order)" by fastforce
  then have "n \<in> fst ` set (block_plan subnets now st)"
    using schedule_order(2)[OF sched assms(1)] assms(2) by (simp add: block_plan_def flip: set_map)
  then show ?thesis using that map_of_SomeD by (metis map_of_eq_None_iff not_None_eq)
qed

lemma block_plan_map:
  assumes "distinct subnets" "(n, out) \<in> set (block_plan subnets now st)"
  shows "map_of (block_plan subnets now st) n = Some out" "n \<in> set subnets"
proof -
  obtain cap order where sched: "epoch_schedule_for_block subnets now st = (cap, order)" by fastforce
  note order = schedule_order(1,2)[OF sched assms(1)]
  have keys: "map fst (block_plan subnets now st) = order" by (simp add: block_plan_def sched)
  then show "map_of (block_plan subnets now st) n = Some out" using order(1) assms(2) by simp
  show "n \<in> set subnets" using keys order(2) assms(2) by (metis fst_conv image_eqI set_map)
qed

section \<open>Progress\<close>

text \<open>The slots of \<open>k\<close> consecutive blocks, the first of them \<open>b\<close>.\<close>

primrec drain_blocks ::
    "(nat \<Rightarrow> ('a, 'm) epoch_storage_scheme \<Rightarrow> ('a, 'm) epoch_storage_scheme) \<Rightarrow> nat list \<Rightarrow> nat \<Rightarrow> nat \<Rightarrow>
     ('a, 'm) epoch_storage_scheme \<Rightarrow> ('a, 'm) epoch_storage_scheme" where
  "drain_blocks chg subnets b 0 st = st"
| "drain_blocks chg subnets b (Suc k) st =
     fst (drain_pending chg subnets (b + k) (drain_blocks chg subnets b k st))"

text \<open>The rows of a subnet that ran in or after block \<open>b\<close>, as the slots of block \<open>now\<close> find them.\<close>

definition rows_fresh :: "nat \<Rightarrow> nat \<Rightarrow> slot_rows \<Rightarrow> bool" where
  "rows_fresh b now r \<longleftrightarrow> b \<le> last_row r \<and> last_row r < now \<and> pending_row r = 0 \<and> since_row r < now - last_row r"

lemma fresh_not_due: "rows_fresh b now r \<Longrightarrow> tempo_row r = 0 \<or> now - b < tempo_row r \<Longrightarrow> \<not> rows_due now (rows_aged r)"
  by (auto simp: rows_fresh_def rows_due_def rows_aged_def saturating_add_def)

lemma fresh_aged: "rows_fresh b now r \<Longrightarrow> rows_fresh b (Suc now) (rows_aged r)"
  by (auto simp: rows_fresh_def rows_aged_def saturating_add_def)

lemma fresh_ran: "b \<le> now \<Longrightarrow> rows_fresh b (Suc now) (rows_after now Ran r)"
  by (simp add: rows_fresh_def rows_after_def)

lemma deferred_due:
  "rows_due now (rows_aged r) \<Longrightarrow> Suc now \<le> U64_MAX \<Longrightarrow> rows_due (Suc now) (rows_aged (rows_after now Deferred r))"
  by (auto simp: rows_due_def rows_aged_def rows_after_def saturating_add_def)

lemma tempo_after [simp]: "tempo_row (rows_after now out r) = tempo_row r"
  by (cases out) (simp_all add: rows_after_def rows_aged_def)

lemma block_fresh:
  assumes "leaves_schedule chg" "distinct subnets" "drain_pending chg subnets now st = (st', em)"
    and "rows_fresh b now (rows st m)" "tempo_row (rows st m) = 0 \<or> now - b < tempo_row (rows st m)"
  shows "rows_fresh b (Suc now) (rows st' m)" "(m, Ran) \<notin> set (block_plan subnets now st)"
proof -
  note idle = fresh_not_due[OF assms(4,5)]
  obtain cap order where sched: "epoch_schedule_for_block subnets now st = (cap, order)" by fastforce
  show "(m, Ran) \<notin> set (block_plan subnets now st)"
    using idle plan_ran_due by (fastforce simp: block_plan_def sched)
  have "out = Idle" if "map_of (block_plan subnets now st) m = Some out" for out
  proof -
    have "(m, out) \<in> set (plan cap now st order 0)" using that by (simp add: block_plan_def sched map_of_SomeD)
    from plan_outcome[OF this] show ?thesis using idle by (auto simp: outcome_of_def)
  qed
  moreover have "rows_fresh b (Suc now) (rows st m)" using assms(4) by (auto simp: rows_fresh_def)
  ultimately show "rows_fresh b (Suc now) (rows st' m)"
    unfolding drain_block(1)[OF assms(1-3)]
    using fresh_aged[OF assms(4)] by (auto simp: rows_after_def split: option.splits)
qed

definition slot_taken :: "nat \<Rightarrow> nat \<Rightarrow> slot_rows \<Rightarrow> bool" where
  "slot_taken now i r \<longleftrightarrow> last_row r = now \<and> pending_row r = 0 \<and> index_row r = saturating_add U64_MAX i 1"

lemma after_taken: "out = Ran \<or> out = Skipped \<Longrightarrow> slot_taken now (index_row r) (rows_after now out r)"
  by (auto simp: slot_taken_def rows_after_def rows_aged_def)

lemma after_deferred: "index_row (rows_after now Deferred r) = index_row r"
  by (simp add: rows_after_def rows_aged_def)

text \<open>A due subnet is served in a block, or another one runs and it is due again in the next block.\<close>

lemma block_serves:
  assumes "leaves_schedule chg" "distinct subnets" "drain_pending chg subnets now st = (st', em)"
    and "n \<in> set subnets" "0 < MaxEpochsPerBlock st" "Suc now \<le> U64_MAX"
    and "rows_due now (rows_aged (rows st n))"
  obtains "slot_taken now (index_row (rows st n)) (rows st' n)"
  | m where "index_row (rows st' n) = index_row (rows st n)"
      "m \<in> set subnets" "m \<noteq> n" "(m, Ran) \<in> set (block_plan subnets now st)"
      "rows st' m = rows_after now Ran (rows st m)" "rows_due (Suc now) (rows_aged (rows st' n))"
proof -
  obtain cap order where sched: "epoch_schedule_for_block subnets now st = (cap, order)" by fastforce
  have plan: "block_plan subnets now st = plan cap now st order 0" by (simp add: block_plan_def sched)
  obtain out where out: "map_of (block_plan subnets now st) n = Some out" "(n, out) \<in> set (block_plan subnets now st)"
    using block_plan_some[OF assms(2,4)] .
  have n: "rows st' n = rows_after now out (rows st n)" unfolding drain_block(1)[OF assms(1-3)] out(1) by simp
  obtain r where r: "out = outcome_of cap now r (rows st n) (is_epoch_input_state_consistent n st)"
    using plan_outcome out(2)[unfolded plan] by blast
  show thesis
  proof (cases "out = Deferred")
    case True
    then obtain m where m: "(m, Ran) \<in> set (block_plan subnets now st)"
      using plan_deferred_ran out(2) schedule_order(3)[OF sched assms(2,5)] unfolding plan by blast
    note m' = block_plan_map[OF assms(2) m]
    have "m \<noteq> n" using m'(1) out(1) True by auto
    moreover have "rows st' m = rows_after now Ran (rows st m)" unfolding drain_block(1)[OF assms(1-3)] m'(1) by simp
    moreover have "rows_due (Suc now) (rows_aged (rows st' n))" unfolding n True using deferred_due assms(6,7) by blast
    moreover have "index_row (rows st' n) = index_row (rows st n)" unfolding n True after_deferred ..
    ultimately show thesis using that(2) m m'(2) by blast
  next
    case False
    then have "out = Ran \<or> out = Skipped" using r assms(7) by (auto simp: outcome_of_def)
    then show thesis using that(1) after_taken[of out now "rows st n"] unfolding n by blast
  qed
qed

text \<open>While the subnet waits, the others that ran since block \<open>b\<close> are one more in each block.\<close>

definition waiting_set :: "nat list \<Rightarrow> nat \<Rightarrow> nat \<Rightarrow> nat \<Rightarrow> nat \<Rightarrow> ('a, 'm) epoch_storage_scheme \<Rightarrow> nat set \<Rightarrow> bool" where
  "waiting_set subnets n i b k st R \<longleftrightarrow> rows_due (b + k) (rows_aged (rows st n)) \<and> index_row (rows st n) = i \<and>
     R \<subseteq> set subnets - {n} \<and> card R = k \<and> (\<forall>m\<in>R. rows_fresh b (b + k) (rows st m))"

lemma block_waiting:
  assumes block: "leaves_schedule chg" "distinct subnets" "drain_pending chg subnets (b + k) st = (st', em)"
    and n: "n \<in> set subnets" "0 < MaxEpochsPerBlock st" "Suc (b + k) \<le> U64_MAX"
    and tempo: "\<And>m. m \<in> set subnets \<Longrightarrow> tempo_row (rows st m) = 0 \<or> k < tempo_row (rows st m)"
    and wait: "waiting_set subnets n i b k st R"
  shows "slot_taken (b + k) i (rows st' n) \<or> (\<exists>R'. waiting_set subnets n i b (Suc k) st' R')"
proof -
  have R: "R \<subseteq> set subnets - {n}" "card R = k" "finite R"
    and due: "rows_due (b + k) (rows_aged (rows st n))" and i: "index_row (rows st n) = i"
    using wait finite_subset[of R "set subnets - {n}"] by (auto simp: waiting_set_def)
  have fresh: "rows_fresh b (b + Suc k) (rows st' m)" "(m, Ran) \<notin> set (block_plan subnets (b + k) st)" if "m \<in> R" for m
  proof -
    have "m \<in> set subnets" "rows_fresh b (b + k) (rows st m)" using wait that by (auto simp: waiting_set_def)
    with tempo have "rows_fresh b (b + k) (rows st m)"
      and "tempo_row (rows st m) = 0 \<or> b + k - b < tempo_row (rows st m)" by auto
    from block_fresh[OF block this] show "rows_fresh b (b + Suc k) (rows st' m)"
      and "(m, Ran) \<notin> set (block_plan subnets (b + k) st)" by simp_all
  qed
  show ?thesis
  proof (rule block_serves[OF block n due])
    fix m
    assume "index_row (rows st' n) = index_row (rows st n)"
      and m: "m \<in> set subnets" "m \<noteq> n" "(m, Ran) \<in> set (block_plan subnets (b + k) st)"
      "rows st' m = rows_after (b + k) Ran (rows st m)" "rows_due (Suc (b + k)) (rows_aged (rows st' n))"
    have "rows_fresh b (b + Suc k) (rows st' m)" using m(4) fresh_ran[of b "b + k"] by simp
    moreover have "m \<notin> R" using fresh(2) m(3) by blast
    ultimately have "waiting_set subnets n i b (Suc k) st' (insert m R)"
      using R m(1,2,5) fresh(1) i \<open>index_row (rows st' n) = index_row (rows st n)\<close> by (simp add: waiting_set_def)
    then show ?thesis by blast
  qed (simp add: i)
qed

lemma drain_blocks_frame:
  assumes "leaves_schedule chg" "distinct subnets"
  shows "MaxEpochsPerBlock (drain_blocks chg subnets b k st) = MaxEpochsPerBlock st \<and>
    tempo_row (rows (drain_blocks chg subnets b k st) m) = Tempo st m"
proof (induction k)
  case (Suc k)
  obtain st' em where "drain_pending chg subnets (b + k) (drain_blocks chg subnets b k st) = (st', em)" by fastforce
  with drain_block(1,3)[OF assms this] Suc show ?case by (simp split: option.splits)
qed (simp add: rows_def)

lemma served_or_waiting:
  assumes chg: "leaves_schedule chg" "distinct subnets" "n \<in> set subnets" "0 < MaxEpochsPerBlock st"
    and bound: "b + length subnets \<le> U64_MAX"
    and tempo: "\<And>m. m \<in> set subnets \<Longrightarrow> Tempo st m = 0 \<or> length subnets \<le> Tempo st m"
    and due: "rows_due b (rows_aged (rows st n))" and k: "k \<le> length subnets"
  defines "i \<equiv> index_row (rows st n)"
  shows "(\<exists>j<k. slot_taken (b + j) i (rows (drain_blocks chg subnets b (Suc j) st) n)) \<or>
    (\<exists>R. waiting_set subnets n i b k (drain_blocks chg subnets b k st) R)"
  using k
proof (induction k)
  case 0
  have "waiting_set subnets n i b 0 (drain_blocks chg subnets b 0 st) {}" using due by (simp add: waiting_set_def i_def)
  then show ?case by blast
next
  case (Suc k)
  let ?st = "drain_blocks chg subnets b k st"
  have "(\<exists>j<k. slot_taken (b + j) i (rows (drain_blocks chg subnets b (Suc j) st) n)) \<or> (\<exists>R. waiting_set subnets n i b k ?st R)"
    using Suc by simp
  then show ?case
  proof (elim disjE exE)
    fix R
    assume wait: "waiting_set subnets n i b k ?st R"
    obtain em where dr: "drain_pending chg subnets (b + k) ?st = (drain_blocks chg subnets b (Suc k) st, em)"
      by (cases "drain_pending chg subnets (b + k) ?st") simp
    note frame = drain_blocks_frame[OF chg(1,2), of b k st]
    have "slot_taken (b + k) i (rows (drain_blocks chg subnets b (Suc k) st) n) \<or>
        (\<exists>R'. waiting_set subnets n i b (Suc k) (drain_blocks chg subnets b (Suc k) st) R')"
      using Suc.prems bound chg(4) tempo frame
      by (intro block_waiting[OF chg(1,2) dr chg(3) _ _ _ wait]) force+
    then show ?case using less_Suc_eq by blast
  qed (use less_Suc_eq in blast)
qed

lemma served_eventually:
  assumes "leaves_schedule chg" "distinct subnets" "n \<in> set subnets" "0 < MaxEpochsPerBlock st"
    and "b + length subnets \<le> U64_MAX"
    and "\<And>m. m \<in> set subnets \<Longrightarrow> Tempo st m = 0 \<or> length subnets \<le> Tempo st m"
    and "rows_due b (rows_aged (rows st n))"
  shows "\<exists>k<length subnets. slot_taken (b + k) (SubnetEpochIndex st n) (rows (drain_blocks chg subnets b (Suc k) st) n)"
proof -
  have "card (set subnets - {n}) < length subnets"
    using card_Diff1_less[OF _ assms(3)] distinct_card[OF assms(2)] by simp
  then have "card R \<noteq> length subnets" if "R \<subseteq> set subnets - {n}" for R
    using card_mono[OF _ that] by simp
  then show ?thesis using served_or_waiting[OF assms order.refl] by (auto simp: waiting_set_def rows_def[of st] simp del: drain_blocks.simps)
qed

section \<open>The forecast of deferrals\<close>

text \<open>
  The slots age the subnet before they ask whether its epoch is due, the forecast does not.  The two answers
  differ exactly for a subnet whose counter stands at its tempo and that is not due for another reason.
\<close>

definition on_the_edge :: "nat \<Rightarrow> nat \<Rightarrow> ('a, 'm) epoch_storage_scheme \<Rightarrow> bool" where
  "on_the_edge n now st \<longleftrightarrow> BlocksSinceLastStep st n = Tempo st n \<and> Tempo st n \<noteq> 0 \<and> \<not> should_run_epoch n now st"

lemma should_run_epoch_rows: "should_run_epoch n now st \<longleftrightarrow> rows_due now (rows st n)"
  by (simp add: should_run_epoch_def get_tempo_def should_run_rows)

lemma due_unless_edge:
  assumes "\<not> on_the_edge n now st" "Tempo st n < U64_MAX"
  shows "rows_due now (rows_aged (rows st n)) \<longleftrightarrow> should_run_epoch n now st"
  using assms unfolding on_the_edge_def should_run_epoch_rows
  by (auto simp: rows_due_def rows_aged_def rows_def saturating_add_def)

lemma deferral_fold:
  assumes "\<And>n. n \<in> set xs \<Longrightarrow> rows_due now (rows_aged (rows st n)) \<longleftrightarrow> should_run_epoch n now st"
  shows "set (fst (fold (deferral_slot cap now st) xs (ds, run))) =
    set ds \<union> {n. (n, Deferred) \<in> set (plan cap now st xs run)}"
  using assms
proof (induction xs arbitrary: ds run)
  case (Cons k xs)
  have due: "rows_due now (rows_aged (rows st k)) \<longleftrightarrow> should_run_epoch k now st" using Cons.prems by simp
  have "\<And>ds run. set (fst (fold (deferral_slot cap now st) xs (ds, run))) =
      set ds \<union> {n. (n, Deferred) \<in> set (plan cap now st xs run)}"
    using Cons.IH Cons.prems by simp
  then show ?case
    unfolding plan.simps Let_def fold_simps by (auto simp: deferral_slot_def outcome_of_def due)
qed simp

lemma deferred_event:
  "EpochDeferred n now b \<in> set (events_of k now out) \<longleftrightarrow>
     (n, Deferred) = (k, out) \<and> b = saturating_add U64_MAX now 1"
  by (cases out) (auto simp: events_of_def)

lemma deferred_events:
  "EpochDeferred n now b \<in> set (concat (map (\<lambda>(n, out). events_of n now out) p)) \<longleftrightarrow>
     (n, Deferred) \<in> set p \<and> b = saturating_add U64_MAX now 1"
  by (induction p) (auto simp: deferred_event simp del: One_nat_def)

lemma forecast_exact:
  assumes "leaves_schedule chg" "distinct subnets" "drain_pending chg subnets now st = (st', em)"
    and "\<forall>n\<in>set subnets. \<not> on_the_edge n now st \<and> Tempo st n < U64_MAX"
  shows "n \<in> set (epochs_deferred_this_block subnets now st) \<longleftrightarrow> (n, Deferred) \<in> set (block_plan subnets now st)"
    and "n \<in> set subnets \<Longrightarrow> SubnetEpochIndex st' n =
      (if n \<in> set (epochs_deferred_this_block subnets now st) \<or> \<not> should_run_epoch n now st
       then SubnetEpochIndex st n else saturating_add U64_MAX (SubnetEpochIndex st n) 1)"
proof -
  obtain cap order where sched: "epoch_schedule_for_block subnets now st = (cap, order)" by fastforce
  have plan: "block_plan subnets now st = plan cap now st order 0" by (simp add: block_plan_def sched)
  have due: "\<And>n. n \<in> set order \<Longrightarrow> rows_due now (rows_aged (rows st n)) \<longleftrightarrow> should_run_epoch n now st"
    using due_unless_edge assms(4) schedule_order(2)[OF sched assms(2)] by blast
  show iff: "n \<in> set (epochs_deferred_this_block subnets now st) \<longleftrightarrow> (n, Deferred) \<in> set (block_plan subnets now st)"
    for n
    using deferral_fold[of order now st cap "[]" 0] due by (simp add: epochs_deferred_this_block_def sched plan)
  assume n: "n \<in> set subnets"
  obtain out where out: "map_of (block_plan subnets now st) n = Some out" "(n, out) \<in> set (block_plan subnets now st)"
    using block_plan_some[OF assms(2) n] .
  have def: "(n, Deferred) \<in> set (block_plan subnets now st) \<longleftrightarrow> out = Deferred"
    using block_plan_map(1)[OF assms(2)] out by fastforce
  obtain r where r: "out = outcome_of cap now r (rows st n) (is_epoch_input_state_consistent n st)"
    using plan_outcome out(2)[unfolded plan] by blast
  have idle: "out = Idle \<longleftrightarrow> \<not> should_run_epoch n now st"
    using r due n schedule_order(2)[OF sched assms(2)] by (auto simp: outcome_of_def)
  have "index_row (rows st' n) = index_row (rows_after now out (rows st n))"
    unfolding drain_block(1)[OF assms(1-3)] out(1) by simp
  then show "SubnetEpochIndex st' n =
      (if n \<in> set (epochs_deferred_this_block subnets now st) \<or> \<not> should_run_epoch n now st
       then SubnetEpochIndex st n else saturating_add U64_MAX (SubnetEpochIndex st n) 1)"
    unfolding iff def idle[symmetric] by (cases out) (simp_all add: rows_after_def rows_def rows_aged_def)
qed

section \<open>Owner calls\<close>

lemma freeze_window_iff:
  assumes "Tempo st n \<noteq> 0"
  shows "is_in_admin_freeze_window n now st \<longleftrightarrow>
    PendingEpochAt st n > now \<or> min U64_MAX (LastEpochBlock st n + Tempo st n) - now < AdminFreezeWindow st"
  using assms by (auto simp: is_in_admin_freeze_window_def get_tempo_def blocks_until_next_auto_epoch_def Let_def
      saturating_add_def)

lemma trigger_state:
  assumes "do_trigger_epoch env origin n st = Inr st'"
  obtains who where "ensure_signed env origin = Inr who" "SubnetOwner st n = who" "PendingEpochAt st n = 0"
    "AdminFreezeWindow st \<le> blocks_until_next_auto_epoch n (Tempo st n) (current_block st) st"
    "Tempo st' = Tempo st" "LastEpochBlock st' = LastEpochBlock st" "BlocksSinceLastStep st' = BlocksSinceLastStep st"
    "AdminFreezeWindow st' = AdminFreezeWindow st"
    "PendingEpochAt st' = (PendingEpochAt st)(n := saturating_add U64_MAX (current_block st) (AdminFreezeWindow st))"
  using assms
  by (auto simp: do_trigger_epoch_def ensure_subnet_owner_def result_iffs Let_def get_tempo_def emit_epoch_def
      set_rate_limited_last_block_def split: sum.splits if_splits)

section \<open>Properties\<close>

text \<open>
  C18: No subnet starves.  When an epoch is due, at least one epoch may run per block and every tempo is at
  least the number of subnets, then the slot of the subnet is taken within as many blocks as there are subnets: its epoch
  counter moves on by one, whichever other subnets are due in the meantime.
\<close>

theorem due_epoch_runs:
  assumes "leaves_schedule change_owner" "distinct subnets" "n \<in> set subnets" "0 < MaxEpochsPerBlock st"
    and "b + length subnets \<le> U64_MAX" "should_run_epoch n b st"
    and "\<forall>m\<in>set subnets. Tempo st m \<le> U16_MAX \<and> (Tempo st m = 0 \<or> length subnets \<le> Tempo st m)"
  shows "\<exists>k<length subnets.
    LastEpochBlock (drain_blocks change_owner subnets b (Suc k) st) n = b + k \<and>
    PendingEpochAt (drain_blocks change_owner subnets b (Suc k) st) n = 0 \<and>
    SubnetEpochIndex (drain_blocks change_owner subnets b (Suc k) st) n = saturating_add U64_MAX (SubnetEpochIndex st n) 1"
proof -
  have "Tempo st n < U64_MAX" using assms(3,7) by (force simp: int_bounds)
  then have "rows_due b (rows_aged (rows st n))"
    using assms(6) unfolding should_run_epoch_rows
    by (auto simp: rows_due_def rows_aged_def rows_def saturating_add_def)
  then show ?thesis using served_eventually[OF assms(1-5)] assms(7) by (auto simp: slot_taken_def rows_def simp del: drain_blocks.simps)
qed

text \<open>
  C19: The forecast that the reveal of commits relies on is exact unless a subnet is on the edge of the safety
  net: the subnets it lists are those whose epoch the slots of the block defer, and the epoch number with look-ahead of every
  other subnet is its epoch number after the slots.
\<close>

theorem deferral_forecast:
  fixes st :: "('a, 'm) epoch_storage_scheme"
  assumes "leaves_schedule change_owner" "distinct subnets" "current_block st < U64_MAX"
    and "\<forall>n\<in>set subnets. \<not> on_the_edge n (current_block st) st \<and> Tempo st n \<le> U16_MAX"
    and "drain_pending change_owner subnets (current_block st) st = (st', emissions)"
  shows "\<exists>new. epoch_events st' = epoch_events st @ new \<and>
    (\<forall>n. n \<in> set (epochs_deferred_this_block subnets (current_block st) st) \<longleftrightarrow>
       EpochDeferred n (current_block st) (current_block st + 1) \<in> set new) \<and>
    (\<forall>n\<in>set subnets. SubnetEpochIndex st' n =
       (if n \<in> set (epochs_deferred_this_block subnets (current_block st) st) then SubnetEpochIndex st n
        else current_epoch_with_lookahead n st))"
proof -
  have "\<forall>n\<in>set subnets. \<not> on_the_edge n (current_block st) st \<and> Tempo st n < U64_MAX"
    using assms(4) by (force simp: int_bounds)
  note exact = forecast_exact[OF assms(1,2,5) this]
  define new :: "'a EpochEvent list" where "new = concat (map (\<lambda>(n, out). events_of n (current_block st) out) (block_plan subnets (current_block st) st))"
  have next_block: "saturating_add U64_MAX (current_block st) 1 = current_block st + 1" using assms(3) by (simp add: saturating_add_def)
  have "n \<in> set (epochs_deferred_this_block subnets (current_block st) st) \<longleftrightarrow>
      EpochDeferred n (current_block st) (current_block st + 1) \<in> set new" for n
    unfolding new_def deferred_events next_block using exact(1) by blast
  moreover have "SubnetEpochIndex st' n = (if n \<in> set (epochs_deferred_this_block subnets (current_block st) st)
      then SubnetEpochIndex st n else current_epoch_with_lookahead n st)" if "n \<in> set subnets" for n
    using exact(2)[OF that] by (simp add: current_epoch_with_lookahead_def Let_def)
  ultimately show ?thesis using drain_block(2)[OF assms(1,2,5), folded new_def] by blast
qed

text \<open>
  A manual trigger is accepted only from the subnet owner and moves the next epoch to the end of the
  freeze window that starts now: until then the subnet is frozen, no epoch is due and no tempo change passes, and then
  the epoch is due.
\<close>

lemma trigger_arms_freeze:
  assumes "do_trigger_epoch env origin n st = Inr st'" "Tempo st n \<noteq> 0" "BlocksSinceLastStep st n \<le> Tempo st n"
    and "LastEpochBlock st n + Tempo st n \<le> U64_MAX" "0 < AdminFreezeWindow st"
  shows "ensure_signed env origin = Inr (SubnetOwner st n) \<and>
    get_next_epoch_start_block n st' = Some (current_block st + AdminFreezeWindow st) \<and>
    should_run_epoch n (current_block st + AdminFreezeWindow st) st' \<and>
    (\<forall>b. current_block st \<le> b \<and> b < current_block st + AdminFreezeWindow st \<longrightarrow>
       is_in_admin_freeze_window n b st' \<and> \<not> should_run_epoch n b st' \<and>
       (\<forall>o' t. isl (do_set_tempo env o' n t (st'\<lparr>current_block := b\<rparr>))))"
proof (rule trigger_state[OF assms(1)])
  fix who
  assume who: "ensure_signed env origin = Inr who" "SubnetOwner st n = who" and pending: "PendingEpochAt st n = 0"
    and room: "AdminFreezeWindow st \<le> blocks_until_next_auto_epoch n (Tempo st n) (current_block st) st"
    and st': "Tempo st' = Tempo st" "LastEpochBlock st' = LastEpochBlock st"
      "BlocksSinceLastStep st' = BlocksSinceLastStep st" "AdminFreezeWindow st' = AdminFreezeWindow st"
      "PendingEpochAt st' = (PendingEpochAt st)(n := saturating_add U64_MAX (current_block st) (AdminFreezeWindow st))"
  let ?fires = "current_block st + AdminFreezeWindow st"
  have auto: "?fires \<le> LastEpochBlock st n + Tempo st n"
    using room assms(2,4,5) by (simp add: blocks_until_next_auto_epoch_def saturating_add_def Let_def)
  then have fires: "PendingEpochAt st' n = ?fires" using assms(4) by (simp add: st'(5) saturating_add_def)
  have "get_next_epoch_start_block n st' = Some ?fires"
    using auto assms(2,4,5) by (simp add: get_next_epoch_start_block_def get_tempo_def st'(1,2) fires Let_def saturating_add_def)
  moreover have "should_run_epoch n ?fires st'"
    using assms(2,5) by (simp add: should_run_epoch_rows rows_due_def rows_def st'(1-3) fires)
  moreover have frozen: "is_in_admin_freeze_window n b st'" if "b < ?fires" for b
    using that assms(2) by (simp add: freeze_window_iff st'(1) fires)
  moreover have "\<not> should_run_epoch n b st'" if "b < ?fires" for b
    using that assms(2,3) auto by (simp add: should_run_epoch_rows rows_due_def rows_def st'(1-3) fires)
  moreover have "isl (do_set_tempo env o' n t (st'\<lparr>current_block := b\<rparr>))" if "b < ?fires" for o' t b
  proof -
    have "is_in_admin_freeze_window n b (st'\<lparr>current_block := b\<rparr>)"
      using that assms(2) by (simp add: freeze_window_iff st'(1) fires)
    then show ?thesis
      by (auto simp: do_set_tempo_def bind_result_def ensure_admin_window_open_def ensure_def split: sum.splits)
  qed
  ultimately show ?thesis using who by simp
qed

section \<open>Examples\<close>

text \<open>Accounts are the origins: zero is root, every other number signs for itself.\<close>

definition example_epoch_env :: "(nat, nat) epoch_env" where
  "example_epoch_env = \<lparr>ensure_signed = (\<lambda>o'. if o' = 0 then Inl BadOrigin else Inr o'), get_total_stake_for_hotkey = (\<lambda>h. h),
     iter_pending = (\<lambda>_. []), iter_links = (\<lambda>_. []), iter_checks = (\<lambda>_. []), has_link_entry = (\<lambda>_. False),
     root_validators = [], all_subnet_netuids = [2, 3],
     ensure_signed_or_root = (\<lambda>o'. if o' = 0 then Inr None else Inr (Some o'))\<rparr>"

text \<open>An owner change that gives the subnet to account 90.\<close>

definition example_owner_change :: "nat \<Rightarrow> nat epoch_storage \<Rightarrow> nat epoch_storage" where
  "example_owner_change n st = st\<lparr>SubnetOwner := (SubnetOwner st)(n := 90)\<rparr>"

lemma example_owner_change: "leaves_schedule example_owner_change"
  by (simp add: leaves_schedule_def example_owner_change_def)

lemma due_epoch_runs_witness:
  "\<exists>k<3. SubnetEpochIndex (drain_blocks example_owner_change [2, 3, 4] 13 (Suc k) example_epochs) 4 = 3 \<and>
     LastEpochBlock (drain_blocks example_owner_change [2, 3, 4] 13 (Suc k) example_epochs) 4 = 13 + k"
proof -
  have state: "MaxEpochsPerBlock example_epochs = 1" "Tempo example_epochs = (\<lambda>_. 4)" "SubnetEpochIndex example_epochs = (\<lambda>_. 2)"
    by (simp_all add: example_epochs_def)
  have "should_run_epoch 4 13 example_epochs" by (simp add: should_run_epoch_rows rows_due_def rows_def example_epochs_def)
  then show ?thesis
    using due_epoch_runs[OF example_owner_change, of "[2, 3, 4]" 4 example_epochs 13]
    by (auto simp: state int_bounds saturating_add_def numeral_3_eq_3 simp del: drain_blocks.simps)
qed

definition example_block :: "nat epoch_storage" where
  "example_block = example_epochs\<lparr>current_block := 13\<rparr>"

lemma deferral_forecast_witness:
  "epochs_deferred_this_block [2, 3] 13 example_block = [3] \<and>
   SubnetEpochIndex (fst (drain_pending example_owner_change [2, 3] 13 example_block)) 2 = 3 \<and>
   SubnetEpochIndex (fst (drain_pending example_owner_change [2, 3] 13 example_block)) 3 = 2"
proof -
  have state: "current_block example_block = 13" "Tempo example_block = (\<lambda>_. 4)" "SubnetEpochIndex example_block = (\<lambda>_. 2)"
    "\<And>n. should_run_epoch n 13 example_block" "\<And>n. is_epoch_input_state_consistent n example_block"
    by (simp_all add: should_run_epoch_rows rows_due_def rows_def is_epoch_input_state_consistent_def
        example_block_def example_epochs_def)
  have forecast: "epochs_deferred_this_block [2, 3] 13 example_block = [3]"
    by (simp add: epochs_deferred_this_block_def epoch_schedule_for_block_def deferral_slot_def state btree_set_def
        get_epoch_consensus_def get_max_epochs_per_block_def saturating_add_def U32_MAX_def)
      (simp add: example_block_def example_epochs_def)
  obtain st' em where "drain_pending example_owner_change [2, 3] 13 example_block = (st', em)" by (metis surj_pair)
  then show ?thesis
    using deferral_forecast[OF example_owner_change, of "[2, 3]" example_block st' em] forecast
    by (auto simp: state on_the_edge_def int_bounds current_epoch_with_lookahead_def saturating_add_def)
qed

text \<open>
  Subnets 2 and 3 ran at blocks 9 and 10, with tempo 4 and one epoch per block; at block 11 root sets the tempo of
  subnet 2 again, which restarts its cycle, and blocks 12 and 13 pass.
\<close>

definition overrun_start :: "nat epoch_storage" where
  "overrun_start = example_epochs\<lparr>LastEpochBlock := (\<lambda>n. if n = 2 then 9 else 10)\<rparr>"

definition overrun_reset :: "nat epoch_storage" where
  "overrun_reset = (drain_blocks example_owner_change [2, 3] 10 2 overrun_start)\<lparr>current_block := 11\<rparr>"

definition overrun_edge :: "nat epoch_storage" where
  "overrun_edge = drain_blocks example_owner_change [2, 3] 12 2
     (projr (do_set_tempo example_epoch_env 0 2 4 overrun_reset))"

lemmas drain_evals = drain_pending_def drain_slot_def epoch_schedule_for_block_def Let_def get_tempo_def
  get_max_epochs_per_block_def get_epoch_consensus_def should_run_epoch_def should_run_epoch_with_tempo_def
  is_epoch_input_state_consistent_def drain_emissions_def advance_schedule_def emit_epoch_def
  example_owner_change_def saturating_add_def U64_MAX_def U32_MAX_def

lemma drain_two_blocks:
  "drain_blocks chg subnets b 2 st = fst (drain_pending chg subnets (b + 1) (fst (drain_pending chg subnets b st)))"
  by (simp add: numeral_2_eq_2)

lemma overrun_reset_eq:
  "overrun_reset = overrun_start\<lparr>current_block := 11, BlocksSinceLastStep := (BlocksSinceLastStep overrun_start)(2 := 2, 3 := 2)\<rparr>"
  by (simp add: overrun_reset_def drain_two_blocks drain_evals overrun_start_def example_epochs_def fun_upd_twist flip: numeral_2_eq_2)

lemma overrun_set_tempo:
  "do_set_tempo example_epoch_env 0 2 4 overrun_reset =
     Inr (overrun_reset\<lparr>LastEpochBlock := (LastEpochBlock overrun_start)(2 := 11), epoch_events := [TempoSet 2 4]\<rparr>)"
  by (simp add: do_set_tempo_def ensure_subnet_owner_or_root_def example_epoch_env_def ensure_def if_subnet_exist_def
      ensure_admin_window_open_def is_in_admin_freeze_window_def get_tempo_def Let_def blocks_until_next_auto_epoch_def
      saturating_add_def U64_MAX_def apply_tempo_with_cycle_reset_def set_tempo_unchecked_def emit_epoch_def
      overrun_reset_eq overrun_start_def example_epochs_def fun_upd_idem)

lemma overrun_edge_eq:
  "overrun_edge = overrun_reset\<lparr>LastEpochBlock := (LastEpochBlock overrun_start)(2 := 11), epoch_events := [TempoSet 2 4],
     BlocksSinceLastStep := (BlocksSinceLastStep overrun_start)(2 := 4, 3 := 4)\<rparr>"
  unfolding overrun_edge_def overrun_set_tempo
  by (simp add: drain_two_blocks drain_evals overrun_reset_eq overrun_start_def example_epochs_def fun_upd_twist)


end
