(* ===== verification/Tempo_Migration.thy ===== *)
theory Tempo_Migration
  imports Mechanisms Epoch_Progress
begin

text \<open>
  The migration to the stored epoch schedule, \<^verbatim>\<open>src/pallets/subtensor/src/migrations/migrate_dynamic_tempo.rs\<close>:
  it replaces the modulo schedule of the old chain (period \<open>tempo + 1\<close>) by \<^verbatim>\<open>LastEpochBlock\<close> (period \<open>tempo\<close>),
  seeds the epoch counter, converts the activity cutoff to a factor of the tempo and rewrites the commits of
  weights.  The keys of \<^verbatim>\<open>Tempo\<close> in the order of storage iteration are an argument.
\<close>

section \<open>The migration\<close>

definition dynamic_tempo_v1 :: string where "dynamic_tempo_v1 = ''dynamic_tempo_v1''"

definition seeded_last_epoch :: "nat \<Rightarrow> nat \<Rightarrow> nat \<Rightarrow> nat" where
  "seeded_last_epoch netuid tempo now =
     (let netuid_plus_one = saturating_add U64_MAX netuid 1;
          tempo_plus_one = saturating_add U64_MAX tempo 1;
          adjusted = (now + netuid_plus_one) mod 2 ^ 64;
          remainder = adjusted mod tempo_plus_one;
          blocks_until_next = saturating_sub tempo remainder;
          offset = saturating_sub tempo blocks_until_next in
      saturating_sub now offset)"

definition legacy_epoch :: "nat \<Rightarrow> nat \<Rightarrow> nat \<Rightarrow> nat" where
  "legacy_epoch netuid tempo now =
     (let netuid_plus_one = saturating_add U64_MAX netuid 1;
          tempo_plus_one = saturating_add U64_MAX tempo 1;
          adjusted = (now + netuid_plus_one) mod 2 ^ 64 in
      unwrap_or (checked_div adjusted tempo_plus_one) 0)"

definition cutoff_factor :: "nat \<Rightarrow> nat \<Rightarrow> nat" where
  "cutoff_factor old_cutoff tempo =
     (let raw_factor = unwrap_or (checked_div
            (saturating_add U64_MAX (saturating_mul U64_MAX old_cutoff 1000) (saturating_sub tempo 1)) tempo)
            INITIAL_ACTIVITY_CUTOFF_FACTOR_MILLI in
      min (max raw_factor MIN_ACTIVITY_CUTOFF_FACTOR_MILLI) MAX_ACTIVITY_CUTOFF_FACTOR_MILLI)"

definition migrate_subnet ::
    "nat \<Rightarrow> ('a, 'm) mechanism_storage_scheme \<times> nat \<times> nat \<Rightarrow> ('a, 'm) mechanism_storage_scheme \<times> nat \<times> nat" where
  "migrate_subnet netuid = (\<lambda>(st, reads, writes).
     let tempo = Tempo st netuid;
         reads1 = saturating_add U64_MAX reads 1 in
     if tempo = 0 then (st, reads1, writes)
     else
       (st\<lparr>LastEpochBlock := (LastEpochBlock st)(netuid := seeded_last_epoch netuid tempo (current_block st)),
           SubnetEpochIndex := (SubnetEpochIndex st)(netuid := legacy_epoch netuid tempo (current_block st)),
           ActivityCutoffFactorMilli := (ActivityCutoffFactorMilli st)(netuid := cutoff_factor (ActivityCutoff st netuid) tempo)\<rparr>,
        saturating_add U64_MAX reads1 1,
        saturating_add U64_MAX (saturating_add U64_MAX (saturating_add U64_MAX writes 1) 1) 1))"

fun commits_insert ::
    "nat \<times> 'a \<Rightarrow> weight_commit list \<Rightarrow> ((nat \<times> 'a) \<times> weight_commit list) list \<Rightarrow> ((nat \<times> 'a) \<times> weight_commit list) list" where
  "commits_insert k v [] = [(k, v)]"
| "commits_insert k v ((j, w) # m) = (if j = k then (k, v) # m else (j, w) # commits_insert k v m)"

definition convert_commit :: "nat \<Rightarrow> nat \<Rightarrow> weight_commit \<Rightarrow> weight_commit" where
  "convert_commit netuid tempo = (\<lambda>(hash, commit_block, _, _).
     let tempo_plus_one = saturating_add U64_MAX tempo 1;
         netuid_plus_one = saturating_add U64_MAX netuid 1;
         commit_epoch = unwrap_or (checked_div (saturating_add U64_MAX commit_block netuid_plus_one) tempo_plus_one) 0 in
     (hash, commit_epoch, commit_block, 0))"

definition migrate_commits ::
    "(nat \<times> 'a) \<times> weight_commit list \<Rightarrow> ('a, 'm) mechanism_storage_scheme \<times> nat \<times> nat \<Rightarrow>
     ('a, 'm) mechanism_storage_scheme \<times> nat \<times> nat" where
  "migrate_commits = (\<lambda>((netuid_index, account), commits) (st, reads, writes).
     let netuid = (case get_netuid_and_subid netuid_index st of Inr (netuid, _) \<Rightarrow> netuid | Inl _ \<Rightarrow> 0);
         tempo = Tempo st netuid in
     (st\<lparr>WeightCommits := commits_insert (netuid_index, account) (map (convert_commit netuid tempo) commits) (WeightCommits st)\<rparr>,
      saturating_add U64_MAX reads 1, saturating_add U64_MAX writes 1))"

definition migrate_dynamic_tempo ::
    "'w weight_ops \<Rightarrow> nat list \<Rightarrow> ('a, 'm) mechanism_storage_scheme \<Rightarrow> ('a, 'm) mechanism_storage_scheme \<times> 'w" where
  "migrate_dynamic_tempo W tempo_keys st =
     (let total_weight = weight_ops.reads W 1 in
      if HasMigrationRun st dynamic_tempo_v1 then (st, total_weight)
      else
        (case fold migrate_subnet tempo_keys (st, saturating_add U64_MAX 0 (length tempo_keys), 0) of
           (st1, reads1, writes1) \<Rightarrow>
             let crv2_entries = WeightCommits st1 in
             (case fold migrate_commits crv2_entries (st1, saturating_add U64_MAX reads1 (length crv2_entries), writes1) of
                (st2, reads2, writes2) \<Rightarrow>
                  (st2\<lparr>HasMigrationRun := (HasMigrationRun st2)(dynamic_tempo_v1 := True)\<rparr>,
                   weight_add W (weight_add W total_weight (reads_writes W reads2 writes2)) (weight_ops.writes W 1)))))"

section \<open>Facts\<close>

lemma migrate_subnets:
  assumes "distinct xs" "fold migrate_subnet xs (st, r, w) = (st', r', w')"
  shows "LastEpochBlock st' n = (if n \<in> set xs \<and> Tempo st n \<noteq> 0
      then seeded_last_epoch n (Tempo st n) (current_block st) else LastEpochBlock st n) \<and>
    SubnetEpochIndex st' n = (if n \<in> set xs \<and> Tempo st n \<noteq> 0
      then legacy_epoch n (Tempo st n) (current_block st) else SubnetEpochIndex st n) \<and>
    ActivityCutoffFactorMilli st' n = (if n \<in> set xs \<and> Tempo st n \<noteq> 0
      then cutoff_factor (ActivityCutoff st n) (Tempo st n) else ActivityCutoffFactorMilli st n) \<and>
    Tempo st' = Tempo st \<and> current_block st' = current_block st \<and> ActivityCutoff st' = ActivityCutoff st"
  using assms
proof (induction xs arbitrary: st r w)
  case (Cons k xs)
  obtain st1 r1 w1 where body: "migrate_subnet k (st, r, w) = (st1, r1, w1)" by (metis prod_cases3)
  have eq: "st1 = (if Tempo st k = 0 then st else
      st\<lparr>LastEpochBlock := (LastEpochBlock st)(k := seeded_last_epoch k (Tempo st k) (current_block st)),
         SubnetEpochIndex := (SubnetEpochIndex st)(k := legacy_epoch k (Tempo st k) (current_block st)),
         ActivityCutoffFactorMilli := (ActivityCutoffFactorMilli st)(k := cutoff_factor (ActivityCutoff st k) (Tempo st k))\<rparr>)"
    using body by (auto simp: migrate_subnet_def Let_def split: if_splits)
  have "fold migrate_subnet xs (st1, r1, w1) = (st', r', w')" using Cons.prems(2) body by simp
  from Cons.IH[OF _ this] show ?case using Cons.prems(1) by (auto simp: eq)
qed simp

lemma migrate_commits_frame:
  assumes "fold migrate_commits xs (st, r, w) = (st', r', w')"
  shows "LastEpochBlock st' = LastEpochBlock st \<and> SubnetEpochIndex st' = SubnetEpochIndex st \<and>
    ActivityCutoffFactorMilli st' = ActivityCutoffFactorMilli st \<and> Tempo st' = Tempo st"
  using assms
proof (induction xs arbitrary: st r w)
  case (Cons x xs)
  obtain st1 r1 w1 where body: "migrate_commits x (st, r, w) = (st1, r1, w1)" by (metis prod_cases3)
  have "\<exists>c. st1 = st\<lparr>WeightCommits := c\<rparr>" using body by (auto simp: migrate_commits_def Let_def split: prod.splits)
  moreover have "fold migrate_commits xs (st1, r1, w1) = (st', r', w')" using Cons.prems body by simp
  ultimately show ?case using Cons.IH by fastforce
qed simp

lemma seeded_next:
  assumes "tempo \<le> now" "now + netuid + 1 \<le> U64_MAX" "tempo < U64_MAX" "0 < tempo"
  defines "fires \<equiv> seeded_last_epoch netuid tempo now + tempo"
  shows "now \<le> fires" "(fires + netuid + 1) mod (tempo + 1) = tempo"
    and "now \<le> b \<Longrightarrow> b < fires \<Longrightarrow> (b + netuid + 1) mod (tempo + 1) \<noteq> tempo"
proof -
  define r where "r = (now + netuid + 1) mod (tempo + 1)"
  have r: "r \<le> tempo" unfolding r_def by (metis less_Suc_eq_le mod_less_divisor Suc_eq_plus1 zero_less_Suc)
  have "(now + netuid + 1) mod 2 ^ 64 = now + netuid + 1" using assms(2) by (simp add: U64_MAX_def)
  then have "seeded_last_epoch netuid tempo now = now - r"
    using assms(1-3) r by (simp add: seeded_last_epoch_def saturating_add_def r_def Let_def)
  then have fires: "fires = now + (tempo - r)" using r assms(1) by (simp add: fires_def)
  have shift: "(now + d + netuid + 1) mod (tempo + 1) = r + d" if "r + d \<le> tempo" for d
  proof -
    have "(now + netuid + 1 + d) mod (tempo + 1) = (r + d) mod (tempo + 1)" unfolding r_def by (simp add: mod_simps)
    then show ?thesis using that by (simp add: add.commute add.left_commute)
  qed
  show "now \<le> fires" unfolding fires by simp
  show "(fires + netuid + 1) mod (tempo + 1) = tempo" using shift[of "tempo - r"] r unfolding fires by simp
  assume b: "now \<le> b" "b < fires"
  then have "b = now + (b - now)" "r + (b - now) < tempo" unfolding fires by simp_all
  then show "(b + netuid + 1) mod (tempo + 1) \<noteq> tempo" using shift[of "b - now"] by auto
qed

lemma cutoff_kept:
  assumes "0 < tempo" "tempo \<le> 1000" "tempo \<le> cutoff" "cutoff \<le> 50 * tempo"
  shows "cutoff_factor cutoff tempo * tempo div 1000 = cutoff" "cutoff_factor cutoff tempo * tempo \<le> U64_MAX"
proof -
  define f where "f = (cutoff * 1000 + (tempo - 1)) div tempo"
  have le: "f * tempo \<le> cutoff * 1000 + (tempo - 1)" and gt: "cutoff * 1000 + (tempo - 1) < f * tempo + tempo"
    unfolding f_def using div_times_less_eq_dividend dividend_less_div_times[OF assms(1)] by (auto simp: add.commute)
  have bound: "cutoff * 1000 \<le> 50000 * tempo" using assms(4) by simp
  have "1000 * tempo \<le> cutoff * 1000" using assms(3) by simp
  then have "1000 * tempo < Suc f * tempo" using gt unfolding mult_Suc by linarith
  then have "1000 < Suc f" by (metis mult_less_cancel2)
  moreover have "f * tempo < 50001 * tempo" using le bound assms(1) by linarith
  then have "f < 50001" by (metis mult_less_cancel2)
  moreover have "cutoff * 1000 + (tempo - 1) \<le> U64_MAX" using assms by (simp add: U64_MAX_def)
  ultimately have f: "cutoff_factor cutoff tempo = f"
    using assms(1) by (simp add: cutoff_factor_def f_def checked_div_def saturating_add_def saturating_mul_def
        MIN_ACTIVITY_CUTOFF_FACTOR_MILLI_def MAX_ACTIVITY_CUTOFF_FACTOR_MILLI_def)
  have "cutoff * 1000 \<le> f * tempo" using gt assms(1) by simp
  then show "cutoff_factor cutoff tempo * tempo div 1000 = cutoff"
    unfolding f using le assms(1,2) by (intro div_nat_eqI) auto
  show "cutoff_factor cutoff tempo * tempo \<le> U64_MAX" unfolding f using le assms by (simp add: U64_MAX_def)
qed

section \<open>Property\<close>


text \<open>A subnet at block 1000 that followed the old schedule with tempo 360.\<close>

definition example_legacy :: "nat mechanism_storage" where
  "example_legacy = example_subnets\<lparr>current_block := 1000, Tempo := (\<lambda>_. 360), ActivityCutoff := (\<lambda>_. 5000),
     LastEpochBlock := (\<lambda>_. 0)\<rparr>"

definition example_weights :: "(nat \<times> nat) weight_ops" where
  "example_weights = \<lparr>reads = (\<lambda>r. (r, 0)), writes = (\<lambda>w. (0, w)), reads_writes = Pair, weight_zero = (0, 0),
     weight_add = (\<lambda>(a, b) (c, d). (a + c, b + d)), weight_sub = (\<lambda>(a, b) (c, d). (a - c, b - d)),
     all_lte = (\<lambda>(a, b) (c, d). a \<le> c \<and> b \<le> d)\<rparr>"


end
