(* ===== verification/Reserves.thy ===== *)
theory Reserves
  imports Prelude
begin

text \<open>
  What the multisig and proxy pallets share: the part of the currency they use (\<^verbatim>\<open>ReservableCurrency\<close> of the
  framework, an argument of both models, with its documented laws), the dispatch information of a call, and deposits that
  are recorded item by item and held in reserve for an account.
\<close>

section \<open>The currency\<close>

record ('s, 'a, 'd) currency =
  reserved :: "'s \<Rightarrow> 'a \<Rightarrow> nat"
  reserve :: "'s \<Rightarrow> 'a \<Rightarrow> nat \<Rightarrow> 'd + 's"
  unreserve :: "'s \<Rightarrow> 'a \<Rightarrow> nat \<Rightarrow> 's \<times> nat"

text \<open>
  \<open>reserved\<close> is the part of an account's reserve that was made through the pallet at hand.  \<^verbatim>\<open>reserve\<close> moves the
  value from the free to the reserved balance or fails; \<^verbatim>\<open>unreserve\<close> moves the value back, all of it when as much is
  reserved, and returns what it could not move.
\<close>

definition currency_laws :: "('s, 'a, 'd) currency \<Rightarrow> bool" where
  "currency_laws C \<longleftrightarrow>
     (\<forall>s a x s'. reserve C s a x = Inr s' \<longrightarrow> reserved C s' = (reserved C s)(a := reserved C s a + x)) \<and>
     (\<forall>s a x s' r. x \<le> reserved C s a \<longrightarrow> unreserve C s a x = (s', r) \<longrightarrow>
        reserved C s' = (reserved C s)(a := reserved C s a - x) \<and> r = 0)"

lemma reserve_law:
  "currency_laws C \<Longrightarrow> reserve C s a x = Inr s' \<Longrightarrow> reserved C s' = (reserved C s)(a := reserved C s a + x)"
  by (simp add: currency_laws_def)

lemma unreserve_law:
  "currency_laws C \<Longrightarrow> x \<le> reserved C s a \<Longrightarrow>
     reserved C (fst (unreserve C s a x)) = (reserved C s)(a := reserved C s a - x) \<and> snd (unreserve C s a x) = 0"
  by (cases "unreserve C s a x") (simp add: currency_laws_def)

text \<open>Moving a deposit from one amount to another.\<close>

definition adjust_reserve :: "('s, 'a, 'd) currency \<Rightarrow> 's \<Rightarrow> 'a \<Rightarrow> nat \<Rightarrow> nat \<Rightarrow> 'd + 's" where
  "adjust_reserve C s who old_deposit new_deposit =
     (if new_deposit > old_deposit then reserve C s who (saturating_sub new_deposit old_deposit)
      else if new_deposit < old_deposit then Inr (fst (unreserve C s who (saturating_sub old_deposit new_deposit)))
      else Inr s)"

lemma adjust_reserve_law:
  assumes "currency_laws C" "adjust_reserve C s a old new = Inr s'" "old \<le> reserved C s a"
  shows "reserved C s' = (reserved C s)(a := reserved C s a - old + new)"
proof -
  consider "old < new" | "new < old" | "old = new" by linarith
  then show ?thesis
  proof cases
    case 1
    then have "reserved C s' = (reserved C s)(a := reserved C s a + (new - old))"
      using assms(1,2) reserve_law by (fastforce simp: adjust_reserve_def)
    then show ?thesis using 1 assms(3) by simp
  next
    case 2
    then have "s' = fst (unreserve C s a (old - new))" using assms(2) by (simp add: adjust_reserve_def)
    then have "reserved C s' = (reserved C s)(a := reserved C s a - (old - new))" 
      using unreserve_law[OF assms(1), of "old - new" s a] assms(3) by simp
    moreover have "reserved C s a - (old - new) = reserved C s a - old + new" using 2 assms(3) by simp
    ultimately show ?thesis by simp
  next
    case 3
    then show ?thesis using assms(2,3) by (simp add: adjust_reserve_def)
  qed
qed

section \<open>Dispatch information\<close>

text \<open>What a dispatch returns next to its result: the weight it used, if known, and whether its sender pays.\<close>

record 'w PostInfo =
  actual_weight :: "'w option"
  pays_fee :: bool

definition post_weight :: "'w \<Rightarrow> 'w PostInfo" where
  "post_weight w = \<lparr>actual_weight = Some w, pays_fee = True\<rparr>"

text \<open>An error of a pallet, or one of the runtime around it; an error of a dispatch carries its information.\<close>

datatype ('e, 'd) dispatch_error = ModuleError 'e | RuntimeError 'd

type_synonym ('e, 'w) failure = "'e \<times> 'w PostInfo"

text \<open>A plain error carries the default dispatch information.\<close>

definition plain :: "'e + 'x \<Rightarrow> ('e, 'w) failure + 'x" where
  "plain r = (case r of Inl e \<Rightarrow> Inl (e, \<lparr>actual_weight = None, pays_fee = True\<rparr>) | Inr x \<Rightarrow> Inr x)"

definition runtime :: "'d + 'x \<Rightarrow> ('e, 'd) dispatch_error + 'x" where
  "runtime r = (case r of Inl e \<Rightarrow> Inl (RuntimeError e) | Inr x \<Rightarrow> Inr x)"

definition check :: "bool \<Rightarrow> 'e \<Rightarrow> ('e, 'd) dispatch_error + unit" where
  "check c e = ensure c (ModuleError e)"

lemma plain_Inr_iff [result_iffs]: "plain r = Inr x \<longleftrightarrow> r = Inr x"
  by (auto simp: plain_def split: sum.splits)

lemma runtime_Inr_iff [result_iffs]: "runtime r = Inr x \<longleftrightarrow> r = Inr x"
  by (auto simp: runtime_def split: sum.splits)

lemma check_Inr_iff [result_iffs]: "check c e = Inr u \<longleftrightarrow> c"
  by (auto simp: check_def ensure_Inr_iff)

lemma plain_simps [simp]:
  "plain (Inr x) = Inr x" "plain (Inl e) = Inl (e, \<lparr>actual_weight = None, pays_fee = True\<rparr>)"
  by (simp_all add: plain_def)

section \<open>Recorded deposits\<close>

text \<open>Items with an owner and a deposit; \<open>owed\<close> is what is recorded for an account.\<close>

definition owed :: "('k \<Rightarrow> ('a \<times> nat) option) \<Rightarrow> 'a \<Rightarrow> nat" where
  "owed items a = (\<Sum>k\<in>{k. \<exists>d. items k = Some (a, d)}. snd (the (items k)))"

definition item_part :: "('a \<times> nat) option \<Rightarrow> 'a \<Rightarrow> nat" where
  "item_part v a = (case v of None \<Rightarrow> 0 | Some (b, d) \<Rightarrow> if b = a then d else 0)"

lemma item_part_simps [simp]: "item_part None a = 0" "item_part (Some (b, d)) a = (if b = a then d else 0)"
  by (simp_all add: item_part_def)

lemma owed_parts:
  assumes "finite {k. items k \<noteq> None}"
  shows "owed items a = (\<Sum>k\<in>{k. items k \<noteq> None}. item_part (items k) a)"
proof -
  have "owed items a = (\<Sum>k\<in>{k. \<exists>d. items k = Some (a, d)}. item_part (items k) a)"
    unfolding owed_def by (rule sum.cong) auto
  also have "\<dots> = (\<Sum>k\<in>{k. items k \<noteq> None}. item_part (items k) a)"
    using assms by (intro sum.mono_neutral_left) (auto simp: item_part_def split: option.splits)
  finally show ?thesis .
qed

lemma finite_items_update: "finite {k. items k \<noteq> None} \<Longrightarrow> finite {j. (items(k := v)) j \<noteq> None}"
  by (rule finite_subset[of _ "insert k {j. items j \<noteq> None}"]) auto

lemma owed_update:
  assumes "finite {k. items k \<noteq> None}"
  shows "owed (items(k := v)) a + item_part (items k) a = owed items a + item_part v a"
proof -
  let ?K = "insert k {j. items j \<noteq> None}"
  have fin: "finite ?K" using assms by simp
  have all: "owed f a = (\<Sum>j\<in>?K. item_part (f j) a)" if "\<And>j. j \<notin> ?K \<Longrightarrow> f j = None" for f :: "'a \<Rightarrow> ('b \<times> nat) option"
  proof -
    have sub: "{j. f j \<noteq> None} \<subseteq> ?K" using that by (metis (mono_tags, lifting) mem_Collect_eq subsetI)
    then have "finite {j. f j \<noteq> None}" using fin finite_subset by blast
    then show ?thesis unfolding owed_parts[OF \<open>finite {j. f j \<noteq> None}\<close>]
      using sub fin by (intro sum.mono_neutral_left) (auto simp: item_part_def split: option.splits)
  qed
  have "owed (items(k := v)) a = (\<Sum>j\<in>?K. item_part ((items(k := v)) j) a)"
    by (rule all) (metis (mono_tags, lifting) fun_upd_other insertCI mem_Collect_eq)
  also have "\<dots> = item_part v a + (\<Sum>j\<in>?K - {k}. item_part ((items(k := v)) j) a)"
    using fin by (subst sum.remove[of _ k]) auto
  also have "(\<Sum>j\<in>?K - {k}. item_part ((items(k := v)) j) a) = (\<Sum>j\<in>?K - {k}. item_part (items j) a)"
    by (rule sum.cong) auto
  finally have "owed (items(k := v)) a = item_part v a + (\<Sum>j\<in>?K - {k}. item_part (items j) a)" .
  moreover have "owed items a = (\<Sum>j\<in>?K. item_part (items j) a)" by (rule all) (metis (mono_tags, lifting) insertCI mem_Collect_eq)
  then have "owed items a = item_part (items k) a + (\<Sum>j\<in>?K - {k}. item_part (items j) a)"
    using fin by (subst (asm) sum.remove[of _ k]) auto
  ultimately show ?thesis by simp
qed

lemma owed_item_le:
  assumes "finite {k. items k \<noteq> None}" "items k = Some (a, d)"
  shows "d \<le> owed items a"
  using owed_update[OF assms(1), of k None a] assms(2) by simp

lemma owed_empty [simp]: "owed (\<lambda>_. None) a = 0"
  by (simp add: owed_def)

end
