(* ===== verification/Safe_Accounts.thy ===== *)
theory Safe_Accounts
  imports Prelude
begin

text \<open>
  The derivation of composite account ids that no legacy key can sign for,
  \<^verbatim>\<open>src/primitives/hashed/src/safe.rs\<close>.  Bytes are numbers below 256.  The hash function and the two curve
  decoders behind \<^verbatim>\<open>rejects_legacy_public_keys\<close> are arguments.
\<close>

type_synonym bytes = "nat list"

definition MAX_DERIVATION_ATTEMPTS :: nat where
  "MAX_DERIVATION_ATTEMPTS = 64"

text \<open>The loop: the last byte of the buffer is the attempt.\<close>

fun derive_attempts :: "(bytes \<Rightarrow> bytes) \<Rightarrow> (bytes \<Rightarrow> bool) \<Rightarrow> bytes \<Rightarrow> nat list \<Rightarrow> bytes option" where
  "derive_attempts hash rejects encoded [] = None"
| "derive_attempts hash rejects encoded (attempt # attempts) =
     (let encoded' = encoded[length encoded - 1 := attempt];
          account = hash encoded'
      in if rejects account then Some account else derive_attempts hash rejects encoded' attempts)"

definition derive_with :: "(bytes \<Rightarrow> bytes) \<Rightarrow> (bytes \<Rightarrow> bool) \<Rightarrow> bytes \<Rightarrow> bytes option" where
  "derive_with hash rejects encoded = derive_attempts hash rejects (encoded @ [0]) [0..<MAX_DERIVATION_ATTEMPTS]"

lemma derive_attempts_find:
  "derive_attempts hash rejects (encoded @ [b]) attempts = find rejects (map (\<lambda>k. hash (encoded @ [k])) attempts)"
  by (induction attempts arbitrary: b) (auto simp: Let_def list_update_append)

text \<open>The loop returns the first candidate that both decoders reject, among exactly 64.\<close>

lemma derive_with_find:
  "derive_with hash rejects encoded = find rejects (map (\<lambda>k. hash (encoded @ [k])) [0..<MAX_DERIVATION_ATTEMPTS])"
  by (simp add: derive_with_def derive_attempts_find)

lemma derive_with_rejected: "derive_with hash rejects encoded = Some account \<Longrightarrow> rejects account"
  by (auto simp: derive_with_find find_Some_iff)

lemma derive_with_exhausted:
  "derive_with hash rejects encoded = None \<longleftrightarrow> (\<forall>k<MAX_DERIVATION_ATTEMPTS. \<not> rejects (hash (encoded @ [k])))"
  by (auto simp: derive_with_find find_None_iff)

end
