(* ===== verification/Multisig.thy ===== *)
theory Multisig
  imports Reserves Safe_Accounts
begin

text \<open>
  The multisig pallet, \<^verbatim>\<open>src/pallets/multisig/src/lib.rs\<close>: open operations with the approvals they have, the
  reserve that backs each, and the dispatchables over them.

  A runtime call is a datatype: the calls of this pallet, which carry calls themselves, or a call of another pallet.
  The dispatch of a call recurses over it, so that a call executed for a multisig account may itself open, approve,
  execute or cancel operations.  A call that fails leaves the storage as it was (the framework rolls it back).  The
  encodings, hashes, weights, the currency, and what other pallets do to the rest of the chain are the record
  \<open>multisig_env\<close>.
\<close>

section \<open>Data\<close>

record Timepoint =
  height :: nat
  tp_index :: nat

record 'a Multisig =
  op_when :: Timepoint
  op_deposit :: nat
  depositor :: 'a
  approvals :: "'a list"

type_synonym CallHash = bytes

datatype Error =
    MinimumThreshold
  | AlreadyApproved
  | NoApprovalsNeeded
  | TooFewSignatories
  | TooManySignatories
  | SignatoriesOutOfOrder
  | SenderInSignatories
  | NotFound
  | NotOwner
  | NoTimepoint
  | WrongTimepoint
  | UnexpectedTimepoint
  | MaxWeightTooLow
  | AlreadyStored
  | SafeDerivationFailed
  | InvalidSafeAccountId
  | ThresholdTooHigh

type_synonym 'd DispatchError = "(Error, 'd) dispatch_error"

datatype ('a, 'd) Event =
    NewMultisig 'a 'a CallHash
  | MultisigApproval 'a Timepoint 'a CallHash
  | MultisigExecuted 'a Timepoint 'a CallHash "'d DispatchError + unit"
  | MultisigCancelled 'a Timepoint 'a CallHash
  | DepositPoked 'a CallHash nat nat

datatype ('a, 'w, 'c) RuntimeCall =
    Call_as_multi_threshold_1 "'a list" "('a, 'w, 'c) RuntimeCall"
  | Call_as_multi nat "'a list" "Timepoint option" "('a, 'w, 'c) RuntimeCall" 'w
  | Call_approve_as_multi nat "'a list" "Timepoint option" CallHash 'w
  | Call_cancel_as_multi nat "'a list" Timepoint CallHash
  | Call_poke_deposit nat "'a list" CallHash
  | Call_as_multi_threshold_1_safe "'a list" "('a, 'w, 'c) RuntimeCall"
  | Call_as_multi_safe nat "'a list" "Timepoint option" "('a, 'w, 'c) RuntimeCall" 'w
  | Call_approve_as_multi_safe nat "'a list" "Timepoint option" CallHash 'w
  | Call_cancel_as_multi_safe nat "'a list" Timepoint CallHash
  | Call_poke_deposit_safe nat "'a list" CallHash
  | Call_other 'c

datatype ('a, 'w, 'c) CallOrHash = Call "('a, 'w, 'c) RuntimeCall" | Hash CallHash

record ('a, 'd, 's) multisig_storage =
  Multisigs :: "'a \<Rightarrow> CallHash \<Rightarrow> 'a Multisig option"
  chain :: 's
  events :: "('a, 'd) Event list"

type_synonym ('a, 'd, 's, 'w) outcome = "('d DispatchError, 'w) failure + 'w PostInfo \<times> ('a, 'd, 's) multisig_storage"

record ('o, 'a, 'c, 's, 'd, 'w) multisig_env =
  ensure_signed :: "'o \<Rightarrow> 'd + 'a"
  signed :: "'a \<Rightarrow> 'o"
  current_block_number :: "'s \<Rightarrow> nat"
  extrinsic_index :: "'s \<Rightarrow> nat option"
  encode_call :: "('a, 'w, 'c) RuntimeCall \<Rightarrow> bytes"
  encode_legacy :: "'a list \<Rightarrow> nat \<Rightarrow> bytes"
  encode_safe :: "'a list \<Rightarrow> nat \<Rightarrow> bytes"
  blake2_256 :: "bytes \<Rightarrow> bytes"
  rejects_legacy_public_keys :: "bytes \<Rightarrow> bool"
  decode_padded :: "bytes \<Rightarrow> 'a"
  decode_account :: "bytes \<Rightarrow> ('a \<times> bytes) option"
  encode_account :: "'a \<Rightarrow> bytes"
  call_weight :: "('a, 'w, 'c) RuntimeCall \<Rightarrow> 'w"
  weight_threshold_1 :: "nat \<Rightarrow> 'w"
  weight_create :: "nat \<Rightarrow> nat \<Rightarrow> 'w"
  weight_approve :: "nat \<Rightarrow> nat \<Rightarrow> 'w"
  weight_complete :: "nat \<Rightarrow> nat \<Rightarrow> 'w"
  SafeDerivationWeight :: 'w
  weights :: "'w weight_ops"
  DepositBase :: nat
  DepositFactor :: nat
  MaxSignatories :: nat
  Currency :: "('s, 'a, 'd) currency"
  dispatch_other :: "'c \<Rightarrow> 'o \<Rightarrow> 's \<Rightarrow> ('d DispatchError \<times> 'w PostInfo) + 'w PostInfo \<times> 's"

section \<open>Helpers\<close>

definition deposit_event :: "('a, 'd) Event \<Rightarrow> ('a, 'd, 's) multisig_storage \<Rightarrow> ('a, 'd, 's) multisig_storage" where
  "deposit_event e st = st\<lparr>events := events st @ [e]\<rparr>"

definition multi_account_id :: "('o, 'a, 'c, 's, 'd, 'w) multisig_env \<Rightarrow> 'a list \<Rightarrow> nat \<Rightarrow> 'a" where
  "multi_account_id R who threshold = decode_padded R (blake2_256 R (encode_legacy R who threshold))"

definition safe_multi_account_id ::
  "('o, 'a :: linorder, 'c, 's, 'd, 'w) multisig_env \<Rightarrow> 'a list \<Rightarrow> nat \<Rightarrow> 'd DispatchError + 'a" where
  "safe_multi_account_id R who threshold =
     bind_result (check (length who \<ge> 2) TooFewSignatories) (\<lambda>_.
     bind_result (check (length who \<le> MaxSignatories R) TooManySignatories) (\<lambda>_.
     bind_result (check (threshold > 0) MinimumThreshold) (\<lambda>_.
     bind_result (check (threshold \<le> length who) ThresholdTooHigh) (\<lambda>_.
     bind_result (check (\<forall>i\<in>set [0..<length who - 1]. who ! i < who ! Suc i) SignatoriesOutOfOrder) (\<lambda>_.
     bind_result (ok_or (derive_with (blake2_256 R) (rejects_legacy_public_keys R) (encode_safe R who threshold))
       (ModuleError SafeDerivationFailed)) (\<lambda>hash.
     bind_result (ok_or (decode_account R hash) (ModuleError InvalidSafeAccountId)) (\<lambda>(account, rest).
     bind_result (check (rest = [] \<and> encode_account R account = hash) InvalidSafeAccountId) (\<lambda>_.
     Inr account))))))))"

definition account_id_for ::
  "('o, 'a :: linorder, 'c, 's, 'd, 'w) multisig_env \<Rightarrow> 'a list \<Rightarrow> nat \<Rightarrow> bool \<Rightarrow> 'd DispatchError + 'a" where
  "account_id_for R who threshold safe =
     (if safe then safe_multi_account_id R who threshold else Inr (multi_account_id R who threshold))"

definition add_derivation_weight :: "('o, 'a, 'c, 's, 'd, 'w) multisig_env \<Rightarrow> 'w PostInfo \<Rightarrow> 'w PostInfo" where
  "add_derivation_weight R info =
     info\<lparr>actual_weight := map_option (\<lambda>weight. weight_add (weights R) weight (SafeDerivationWeight R)) (actual_weight info)\<rparr>"

definition with_safe_derivation_weight ::
  "('o, 'a, 'c, 's, 'd, 'w) multisig_env \<Rightarrow> ('a, 'd, 's, 'w) outcome \<Rightarrow> ('a, 'd, 's, 'w) outcome" where
  "with_safe_derivation_weight R result =
     (case result of
        Inr (info, st) \<Rightarrow> Inr (add_derivation_weight R info, st)
      | Inl (e, info) \<Rightarrow> Inl (e, add_derivation_weight R info))"

definition timepoint :: "('o, 'a, 'c, 's, 'd, 'w) multisig_env \<Rightarrow> ('a, 'd, 's) multisig_storage \<Rightarrow> Timepoint" where
  "timepoint R st = \<lparr>height = current_block_number R (chain st), tp_index = unwrap_or (extrinsic_index R (chain st)) 0\<rparr>"

text \<open>The loop of \<^verbatim>\<open>ensure_sorted_and_insert\<close>: the position at which the sender goes in.\<close>

fun sorted_index :: "'a :: linorder \<Rightarrow> 'a option \<Rightarrow> nat \<Rightarrow> 'a list \<Rightarrow> 'd DispatchError + nat" where
  "sorted_index who maybe_last index [] = Inr index"
| "sorted_index who maybe_last index (item # items) =
     bind_result (case maybe_last of None \<Rightarrow> Inr () | Some prev \<Rightarrow> check (prev < item) SignatoriesOutOfOrder) (\<lambda>_.
     if item \<le> who then
       bind_result (check (item \<noteq> who) SenderInSignatories) (\<lambda>_. sorted_index who (Some item) (index + 1) items)
     else sorted_index who (Some item) index items)"

definition ensure_sorted_and_insert :: "'a :: linorder list \<Rightarrow> 'a \<Rightarrow> 'd DispatchError + 'a list" where
  "ensure_sorted_and_insert other_signatories who =
     bind_result (sorted_index who None 0 other_signatories) (\<lambda>index.
     Inr (take index other_signatories @ who # drop index other_signatories))"

text \<open>The balance type is 64 bits wide and its \<^verbatim>\<open>+\<close> and \<^verbatim>\<open>*\<close> wrap.\<close>

definition multi_deposit :: "('o, 'a, 'c, 's, 'd, 'w) multisig_env \<Rightarrow> nat \<Rightarrow> nat" where
  "multi_deposit R threshold = (DepositBase R + DepositFactor R * threshold mod 2 ^ 64) mod 2 ^ 64"

definition get_result_weight :: "('a, 'd, 's, 'w) outcome \<Rightarrow> 'w option" where
  "get_result_weight result = (case result of Inr (post_info, _) \<Rightarrow> actual_weight post_info | Inl (_, post_info) \<Rightarrow> actual_weight post_info)"

text \<open>The result an event records, and the storage after a dispatch.\<close>

definition dispatch_result :: "('a, 'd, 's, 'w) outcome \<Rightarrow> 'd DispatchError + unit" where
  "dispatch_result result = (case result of Inr _ \<Rightarrow> Inr () | Inl (e, _) \<Rightarrow> Inl e)"

definition storage_after :: "('a, 'd, 's, 'w) outcome \<Rightarrow> ('a, 'd, 's) multisig_storage \<Rightarrow> ('a, 'd, 's) multisig_storage" where
  "storage_after result st = (case result of Inr (_, st') \<Rightarrow> st' | Inl _ \<Rightarrow> st)"

text \<open>The checks every operation on a multisig account starts with.\<close>

definition checked_signatories ::
  "('o, 'a :: linorder, 'c, 's, 'd, 'w) multisig_env \<Rightarrow> 'a list \<Rightarrow> 'a \<Rightarrow> 'd DispatchError + 'a list" where
  "checked_signatories R other_signatories who =
     bind_result (check (other_signatories \<noteq> []) TooFewSignatories) (\<lambda>_.
     bind_result (check (length other_signatories < MaxSignatories R) TooManySignatories) (\<lambda>_.
     ensure_sorted_and_insert other_signatories who))"

section \<open>Operations\<close>

definition do_as_multi_threshold_1 ::
  "('o, 'a :: linorder, 'c, 's, 'd, 'w) multisig_env \<Rightarrow>
   ('o \<Rightarrow> ('a, 'd, 's) multisig_storage \<Rightarrow> ('a, 'd, 's, 'w) outcome) \<Rightarrow>
   'o \<Rightarrow> 'a list \<Rightarrow> ('a, 'w, 'c) RuntimeCall \<Rightarrow> bool \<Rightarrow> ('a, 'd, 's) multisig_storage \<Rightarrow> ('a, 'd, 's, 'w) outcome" where
  "do_as_multi_threshold_1 R run origin other_signatories call safe st =
     bind_result (plain (runtime (ensure_signed R origin))) (\<lambda>who.
     bind_result (plain (checked_signatories R other_signatories who)) (\<lambda>signatories.
     bind_result (plain (account_id_for R signatories 1 safe)) (\<lambda>ident.
     let call_len = length (encode_call R call);
         call_hash = blake2_256 R (encode_call R call);
         result = run (signed R ident) st;
         st' = storage_after result st;
         executed = deposit_event (MultisigExecuted who (timepoint R st') ident call_hash (dispatch_result result)) st';
         used = (\<lambda>w. weight_add (weights R) (weight_threshold_1 R call_len) w)
     in case result of
          Inr (post_info, _) \<Rightarrow> Inr (\<lparr>actual_weight = map_option used (actual_weight post_info), pays_fee = True\<rparr>, executed)
        | Inl (e, post_info) \<Rightarrow>
            (case actual_weight post_info of
               Some w \<Rightarrow> Inl (e, post_weight (used w))
             | None \<Rightarrow> Inl (e, post_info)))))"

text \<open>An operation leaves the storage and its deposit goes back to the depositor.\<close>

definition close_operation ::
  "('o, 'a, 'c, 's, 'd, 'w) multisig_env \<Rightarrow> 'a \<Rightarrow> CallHash \<Rightarrow> 'a Multisig \<Rightarrow>
   ('a, 'd, 's) multisig_storage \<Rightarrow> ('a, 'd, 's) multisig_storage" where
  "close_operation R ident call_hash m st =
     st\<lparr>Multisigs := (Multisigs st)(ident := (Multisigs st ident)(call_hash := None)),
        chain := fst (unreserve (Currency R) (chain st) (depositor m) (op_deposit m))\<rparr>"

definition do_cancel_as_multi ::
  "('o, 'a :: linorder, 'c, 's, 'd, 'w) multisig_env \<Rightarrow> 'o \<Rightarrow> nat \<Rightarrow> 'a list \<Rightarrow> Timepoint \<Rightarrow> CallHash \<Rightarrow> bool \<Rightarrow>
   ('a, 'd, 's) multisig_storage \<Rightarrow> 'd DispatchError + ('a, 'd, 's) multisig_storage" where
  "do_cancel_as_multi R origin threshold other_signatories tp call_hash safe st =
     bind_result (runtime (ensure_signed R origin)) (\<lambda>who.
     bind_result (check (threshold \<ge> 2) MinimumThreshold) (\<lambda>_.
     bind_result (checked_signatories R other_signatories who) (\<lambda>signatories.
     bind_result (account_id_for R signatories threshold safe) (\<lambda>ident.
     bind_result (ok_or (Multisigs st ident call_hash) (ModuleError NotFound)) (\<lambda>m.
     bind_result (check (op_when m = tp) WrongTimepoint) (\<lambda>_.
     bind_result (check (depositor m = who) NotOwner) (\<lambda>_.
     Inr (deposit_event (MultisigCancelled who tp ident call_hash) (close_operation R ident call_hash m st)))))))))"

definition set_operation ::
  "'a \<Rightarrow> CallHash \<Rightarrow> 'a Multisig \<Rightarrow> ('a, 'd, 's) multisig_storage \<Rightarrow> ('a, 'd, 's) multisig_storage" where
  "set_operation ident call_hash m st = st\<lparr>Multisigs := (Multisigs st)(ident := (Multisigs st ident)(call_hash \<mapsto> m))\<rparr>"

definition do_poke_deposit ::
  "('o, 'a :: linorder, 'c, 's, 'd, 'w) multisig_env \<Rightarrow> 'o \<Rightarrow> nat \<Rightarrow> 'a list \<Rightarrow> CallHash \<Rightarrow> bool \<Rightarrow>
   ('a, 'd, 's) multisig_storage \<Rightarrow> ('a, 'd, 's, 'w) outcome" where
  "do_poke_deposit R origin threshold other_signatories call_hash safe st = plain (
     bind_result (runtime (ensure_signed R origin)) (\<lambda>who.
     bind_result (check (threshold \<ge> 2) MinimumThreshold) (\<lambda>_.
     bind_result (checked_signatories R other_signatories who) (\<lambda>signatories.
     bind_result (account_id_for R signatories threshold safe) (\<lambda>ident.
     bind_result (ok_or (Multisigs st ident call_hash) (ModuleError NotFound)) (\<lambda>multisig.
     bind_result (check (depositor multisig = who) NotOwner) (\<lambda>_.
     let new_deposit = multi_deposit R threshold;
         old_deposit = op_deposit multisig
     in if new_deposit = old_deposit then Inr (\<lparr>actual_weight = None, pays_fee = True\<rparr>, st)
        else bind_result (runtime (adjust_reserve (Currency R) (chain st) who old_deposit new_deposit)) (\<lambda>s'.
             Inr (\<lparr>actual_weight = None, pays_fee = False\<rparr>,
                  deposit_event (DepositPoked who call_hash old_deposit new_deposit)
                    (set_operation ident call_hash (multisig\<lparr>op_deposit := new_deposit\<rparr>) (st\<lparr>chain := s'\<rparr>)))))))))))"

text \<open>
  \<^verbatim>\<open>operate\<close>, branch by branch.  The approvals are kept sorted, so the binary search finds the sender, or the number of
  smaller approvals as the position to insert at.
\<close>

definition approval_position :: "'a :: linorder Multisig \<Rightarrow> 'a \<Rightarrow> nat \<Rightarrow> nat option" where
  "approval_position m who threshold =
     (if who \<in> set (approvals m) then None
      else if length (approvals m) mod 2 ^ 16 < threshold then Some (length (takeWhile (\<lambda>a. a < who) (approvals m)))
      else None)"

definition approval_count :: "'a :: linorder Multisig \<Rightarrow> 'a \<Rightarrow> nat \<Rightarrow> nat" where
  "approval_count m who threshold =
     (if approval_position m who threshold \<noteq> None then (length (approvals m) mod 2 ^ 16 + 1) mod 2 ^ 16
      else length (approvals m) mod 2 ^ 16)"

definition execute_operation ::
  "('o, 'a, 'c, 's, 'd, 'w) multisig_env \<Rightarrow>
   ('o \<Rightarrow> ('a, 'd, 's) multisig_storage \<Rightarrow> ('a, 'd, 's, 'w) outcome) \<Rightarrow>
   'a \<Rightarrow> 'a \<Rightarrow> CallHash \<Rightarrow> Timepoint \<Rightarrow> nat \<Rightarrow> nat \<Rightarrow> 'a Multisig \<Rightarrow> ('a, 'd, 's) multisig_storage \<Rightarrow> ('a, 'd, 's, 'w) outcome" where
  "execute_operation R run who ident call_hash tp other_signatories_len call_len m st =
     (let st1 = close_operation R ident call_hash m st;
          result = run (signed R ident) st1;
          st2 = deposit_event (MultisigExecuted who tp ident call_hash (dispatch_result result)) (storage_after result st1)
      in Inr (\<lparr>actual_weight = map_option (\<lambda>w. weight_add (weights R) (weight_complete R other_signatories_len call_len) w)
                 (get_result_weight result), pays_fee = True\<rparr>, st2))"

definition approve_operation ::
  "('o, 'a :: linorder, 'c, 's, 'd, 'w) multisig_env \<Rightarrow> 'a \<Rightarrow> 'a \<Rightarrow> CallHash \<Rightarrow> Timepoint \<Rightarrow> nat option \<Rightarrow>
   'a Multisig \<Rightarrow> ('a, 'd, 's) multisig_storage \<Rightarrow> 'd DispatchError + ('a, 'd, 's) multisig_storage" where
  "approve_operation R who ident call_hash tp maybe_pos m st =
     (case maybe_pos of
        Some pos \<Rightarrow>
          bind_result (check (length (approvals m) < MaxSignatories R) TooManySignatories) (\<lambda>_.
          Inr (deposit_event (MultisigApproval who tp ident call_hash)
            (set_operation ident call_hash (m\<lparr>approvals := take pos (approvals m) @ who # drop pos (approvals m)\<rparr>) st)))
      | None \<Rightarrow> Inl (ModuleError AlreadyApproved))"

definition create_operation ::
  "('o, 'a, 'c, 's, 'd, 'w) multisig_env \<Rightarrow> 'a \<Rightarrow> 'a \<Rightarrow> CallHash \<Rightarrow> nat \<Rightarrow>
   ('a, 'd, 's) multisig_storage \<Rightarrow> 'd DispatchError + ('a, 'd, 's) multisig_storage" where
  "create_operation R who ident call_hash threshold st =
     (let d = multi_deposit R threshold
      in bind_result (runtime (reserve (Currency R) (chain st) who d)) (\<lambda>s'.
         bind_result (check (1 \<le> MaxSignatories R) TooManySignatories) (\<lambda>_.
         Inr (deposit_event (NewMultisig who ident call_hash)
           (set_operation ident call_hash
              \<lparr>op_when = timepoint R (st\<lparr>chain := s'\<rparr>), op_deposit = d, depositor = who, approvals = [who]\<rparr>
              (st\<lparr>chain := s'\<rparr>))))))"

definition split_call :: "('o, 'a, 'c, 's, 'd, 'w) multisig_env \<Rightarrow> ('a, 'w, 'c) CallOrHash \<Rightarrow>
    CallHash \<times> nat \<times> ('a, 'w, 'c) RuntimeCall option" where
  "split_call R call_or_hash =
     (case call_or_hash of
        Call call \<Rightarrow> (blake2_256 R (encode_call R call), length (encode_call R call), Some call)
      | Hash h \<Rightarrow> (h, 0, None))"

definition operate ::
  "('o, 'a :: linorder, 'c, 's, 'd, 'w) multisig_env \<Rightarrow>
   ('o \<Rightarrow> ('a, 'd, 's) multisig_storage \<Rightarrow> ('a, 'd, 's, 'w) outcome) \<Rightarrow>
   'a \<Rightarrow> nat \<Rightarrow> 'a list \<Rightarrow> Timepoint option \<Rightarrow> ('a, 'w, 'c) CallOrHash \<Rightarrow> 'w \<Rightarrow> bool \<Rightarrow>
   ('a, 'd, 's) multisig_storage \<Rightarrow> ('a, 'd, 's, 'w) outcome" where
  "operate R run who threshold other_signatories maybe_timepoint call_or_hash max_weight safe st =
     bind_result (plain (check (threshold \<ge> 2) MinimumThreshold)) (\<lambda>_.
     bind_result (plain (checked_signatories R other_signatories who)) (\<lambda>signatories.
     bind_result (plain (account_id_for R signatories threshold safe)) (\<lambda>ident.
     case split_call R call_or_hash of (call_hash, call_len, maybe_call) \<Rightarrow>
     (case Multisigs st ident call_hash of
        Some m \<Rightarrow>
          bind_result (plain (ok_or maybe_timepoint (ModuleError NoTimepoint))) (\<lambda>tp.
          bind_result (plain (check (op_when m = tp) WrongTimepoint)) (\<lambda>_.
          let maybe_pos = approval_position m who threshold
          in case (if approval_count m who threshold \<ge> threshold then maybe_call else None) of
               Some call \<Rightarrow>
                 bind_result (plain (check (all_lte (weights R) (call_weight R call) max_weight) MaxWeightTooLow)) (\<lambda>_.
                 execute_operation R run who ident call_hash tp (length other_signatories) call_len m st)
             | None \<Rightarrow>
                 bind_result (plain (approve_operation R who ident call_hash tp maybe_pos m st)) (\<lambda>st'.
                 Inr (post_weight (weight_approve R (length other_signatories) call_len), st'))))
      | None \<Rightarrow>
          bind_result (plain (check (maybe_timepoint = None) UnexpectedTimepoint)) (\<lambda>_.
          bind_result (plain (create_operation R who ident call_hash threshold st)) (\<lambda>st'.
          Inr (post_weight (weight_create R (length other_signatories) call_len), st')))))))"

section \<open>Dispatchables\<close>

type_synonym ('o, 'a, 'd, 's, 'w) runner =
  "'o \<Rightarrow> ('a, 'd, 's) multisig_storage \<Rightarrow> ('a, 'd, 's, 'w) outcome"

definition as_multi_threshold_1 ::
  "('o, 'a :: linorder, 'c, 's, 'd, 'w) multisig_env \<Rightarrow> ('o, 'a, 'd, 's, 'w) runner \<Rightarrow> 'a list \<Rightarrow> ('a, 'w, 'c) RuntimeCall \<Rightarrow>
   ('o, 'a, 'd, 's, 'w) runner" where
  "as_multi_threshold_1 R run other_signatories call origin st = do_as_multi_threshold_1 R run origin other_signatories call False st"

definition as_multi ::
  "('o, 'a :: linorder, 'c, 's, 'd, 'w) multisig_env \<Rightarrow> ('o, 'a, 'd, 's, 'w) runner \<Rightarrow> nat \<Rightarrow> 'a list \<Rightarrow> Timepoint option \<Rightarrow>
   ('a, 'w, 'c) RuntimeCall \<Rightarrow> 'w \<Rightarrow> ('o, 'a, 'd, 's, 'w) runner" where
  "as_multi R run threshold other_signatories maybe_timepoint call max_weight origin st =
     bind_result (plain (runtime (ensure_signed R origin))) (\<lambda>who.
     operate R run who threshold other_signatories maybe_timepoint (Call call) max_weight False st)"

text \<open>A hash carries no call, so nothing is run.\<close>

definition no_run :: "('o, 'a, 'd, 's, 'w) runner" where
  "no_run origin st = Inr (\<lparr>actual_weight = None, pays_fee = True\<rparr>, st)"

definition approve_as_multi ::
  "('o, 'a :: linorder, 'c, 's, 'd, 'w) multisig_env \<Rightarrow> nat \<Rightarrow> 'a list \<Rightarrow> Timepoint option \<Rightarrow> CallHash \<Rightarrow> 'w \<Rightarrow>
   ('o, 'a, 'd, 's, 'w) runner" where
  "approve_as_multi R threshold other_signatories maybe_timepoint call_hash max_weight origin st =
     bind_result (plain (runtime (ensure_signed R origin))) (\<lambda>who.
     operate R no_run who threshold other_signatories maybe_timepoint (Hash call_hash) max_weight False st)"

text \<open>A dispatchable that returns no dispatch information has the default one.\<close>

definition without_info :: "'d DispatchError + ('a, 'd, 's) multisig_storage \<Rightarrow> ('a, 'd, 's, 'w) outcome" where
  "without_info r = bind_result (plain r) (\<lambda>st. Inr (\<lparr>actual_weight = None, pays_fee = True\<rparr>, st))"

definition cancel_as_multi ::
  "('o, 'a :: linorder, 'c, 's, 'd, 'w) multisig_env \<Rightarrow> nat \<Rightarrow> 'a list \<Rightarrow> Timepoint \<Rightarrow> CallHash \<Rightarrow> ('o, 'a, 'd, 's, 'w) runner" where
  "cancel_as_multi R threshold other_signatories tp call_hash origin st =
     without_info (do_cancel_as_multi R origin threshold other_signatories tp call_hash False st)"

definition poke_deposit ::
  "('o, 'a :: linorder, 'c, 's, 'd, 'w) multisig_env \<Rightarrow> nat \<Rightarrow> 'a list \<Rightarrow> CallHash \<Rightarrow> ('o, 'a, 'd, 's, 'w) runner" where
  "poke_deposit R threshold other_signatories call_hash origin st =
     do_poke_deposit R origin threshold other_signatories call_hash False st"

definition as_multi_threshold_1_safe ::
  "('o, 'a :: linorder, 'c, 's, 'd, 'w) multisig_env \<Rightarrow> ('o, 'a, 'd, 's, 'w) runner \<Rightarrow> 'a list \<Rightarrow> ('a, 'w, 'c) RuntimeCall \<Rightarrow>
   ('o, 'a, 'd, 's, 'w) runner" where
  "as_multi_threshold_1_safe R run other_signatories call origin st =
     with_safe_derivation_weight R (do_as_multi_threshold_1 R run origin other_signatories call True st)"

definition as_multi_safe ::
  "('o, 'a :: linorder, 'c, 's, 'd, 'w) multisig_env \<Rightarrow> ('o, 'a, 'd, 's, 'w) runner \<Rightarrow> nat \<Rightarrow> 'a list \<Rightarrow> Timepoint option \<Rightarrow>
   ('a, 'w, 'c) RuntimeCall \<Rightarrow> 'w \<Rightarrow> ('o, 'a, 'd, 's, 'w) runner" where
  "as_multi_safe R run threshold other_signatories maybe_timepoint call max_weight origin st =
     bind_result (plain (runtime (ensure_signed R origin))) (\<lambda>who.
     with_safe_derivation_weight R
       (operate R run who threshold other_signatories maybe_timepoint (Call call) max_weight True st))"

definition approve_as_multi_safe ::
  "('o, 'a :: linorder, 'c, 's, 'd, 'w) multisig_env \<Rightarrow> nat \<Rightarrow> 'a list \<Rightarrow> Timepoint option \<Rightarrow> CallHash \<Rightarrow> 'w \<Rightarrow>
   ('o, 'a, 'd, 's, 'w) runner" where
  "approve_as_multi_safe R threshold other_signatories maybe_timepoint call_hash max_weight origin st =
     bind_result (plain (runtime (ensure_signed R origin))) (\<lambda>who.
     with_safe_derivation_weight R
       (operate R no_run who threshold other_signatories maybe_timepoint (Hash call_hash) max_weight True st))"

definition cancel_as_multi_safe ::
  "('o, 'a :: linorder, 'c, 's, 'd, 'w) multisig_env \<Rightarrow> nat \<Rightarrow> 'a list \<Rightarrow> Timepoint \<Rightarrow> CallHash \<Rightarrow> ('o, 'a, 'd, 's, 'w) runner" where
  "cancel_as_multi_safe R threshold other_signatories tp call_hash origin st =
     without_info (do_cancel_as_multi R origin threshold other_signatories tp call_hash True st)"

definition poke_deposit_safe ::
  "('o, 'a :: linorder, 'c, 's, 'd, 'w) multisig_env \<Rightarrow> nat \<Rightarrow> 'a list \<Rightarrow> CallHash \<Rightarrow> ('o, 'a, 'd, 's, 'w) runner" where
  "poke_deposit_safe R threshold other_signatories call_hash origin st =
     with_safe_derivation_weight R (do_poke_deposit R origin threshold other_signatories call_hash True st)"

text \<open>The dispatch of a runtime call.\<close>

primrec dispatch ::
  "('o, 'a :: linorder, 'c, 's, 'd, 'w) multisig_env \<Rightarrow> ('a, 'w, 'c) RuntimeCall \<Rightarrow> ('o, 'a, 'd, 's, 'w) runner" where
  "dispatch R (Call_as_multi_threshold_1 others call) = as_multi_threshold_1 R (dispatch R call) others call"
| "dispatch R (Call_as_multi t others tp call w) = as_multi R (dispatch R call) t others tp call w"
| "dispatch R (Call_approve_as_multi t others tp h w) = approve_as_multi R t others tp h w"
| "dispatch R (Call_cancel_as_multi t others tp h) = cancel_as_multi R t others tp h"
| "dispatch R (Call_poke_deposit t others h) = poke_deposit R t others h"
| "dispatch R (Call_as_multi_threshold_1_safe others call) = as_multi_threshold_1_safe R (dispatch R call) others call"
| "dispatch R (Call_as_multi_safe t others tp call w) = as_multi_safe R (dispatch R call) t others tp call w"
| "dispatch R (Call_approve_as_multi_safe t others tp h w) = approve_as_multi_safe R t others tp h w"
| "dispatch R (Call_cancel_as_multi_safe t others tp h) = cancel_as_multi_safe R t others tp h"
| "dispatch R (Call_poke_deposit_safe t others h) = poke_deposit_safe R t others h"
| "dispatch R (Call_other c) = (\<lambda>origin st.
     bind_result (dispatch_other R c origin (chain st)) (\<lambda>(info, s'). Inr (info, st\<lparr>chain := s'\<rparr>)))"

text \<open>
  A chain with the pallet: a call is dispatched, or something else happens to the rest of the chain (a new block, a hook
  of another pallet) that leaves what this pallet has reserved.
\<close>

inductive multisig_step ::
  "('o, 'a :: linorder, 'c, 's, 'd, 'w) multisig_env \<Rightarrow> ('a, 'd, 's) multisig_storage \<Rightarrow> ('a, 'd, 's) multisig_storage \<Rightarrow> bool"
  for R where
  dispatched: "dispatch R call origin st = Inr (info, st') \<Longrightarrow> multisig_step R st st'"
| elsewhere: "reserved (Currency R) s' = reserved (Currency R) (chain st) \<Longrightarrow> multisig_step R st (st\<lparr>chain := s'\<rparr>)"

inductive multisig_run ::
  "('o, 'a :: linorder, 'c, 's, 'd, 'w) multisig_env \<Rightarrow> ('a, 'd, 's) multisig_storage \<Rightarrow> ('a, 'd, 's) multisig_storage \<Rightarrow> bool"
  for R where
  start: "multisig_run R st st"
| more: "multisig_run R st st' \<Longrightarrow> multisig_step R st' st'' \<Longrightarrow> multisig_run R st st''"

section \<open>The migration to version 1\<close>

text \<open>
  \<^verbatim>\<open>MigrateToV1\<close> refunds the calls that version 0 stored.  The map \<^verbatim>\<open>Calls\<close> is the list of its entries in storage
  order; the result has the map, the chain, the storage version and the weight.
\<close>

definition refund_call :: "('s, 'a, 'd) currency \<Rightarrow> CallHash \<times> 'x \<times> 'a \<times> nat \<Rightarrow> 's \<Rightarrow> 's" where
  "refund_call C entry s = (case entry of (_, _, caller, d) \<Rightarrow> fst (unreserve C s caller d))"

definition migrate_to_v1 ::
  "('s, 'a, 'd) currency \<Rightarrow> 'w weight_ops \<Rightarrow> nat \<Rightarrow> nat \<Rightarrow> (CallHash \<times> 'x \<times> 'a \<times> nat) list \<Rightarrow> 's \<Rightarrow>
   (CallHash \<times> 'x \<times> 'a \<times> nat) list \<times> 's \<times> nat \<times> 'w" where
  "migrate_to_v1 C W in_code on_chain calls s =
     (if on_chain > 0 then (calls, s, on_chain, reads W 1)
      else let call_count = length calls
           in ([], fold (refund_call C) calls s, in_code,
               reads_writes W (saturating_add U64_MAX call_count 1)
                 (saturating_add U64_MAX (saturating_mul U64_MAX call_count 2) 1)))"

end
