(* ===== verification/Multisig_Quorum.thy ===== *)
theory Multisig_Quorum
  imports Multisig
begin

text \<open>
  What the multisig pallet guarantees: the open operations are well-formed, a call is executed for a multisig account only
  with the approvals of as many of its signatories as its threshold, and the reserves are the deposits on record, no more
  and no less.

  The locale \<open>multisig_invariant\<close> is the interface between the operations and an invariant: the seven ways in which the
  storage changes.  A predicate that they keep is kept by every dispatch, nested calls included, and by every run of the
  chain.  It is interpreted on the two invariants below.
\<close>

section \<open>Signatories\<close>

lemma insert_position:
  fixes xs :: "'a :: linorder list"
  assumes "sorted_wrt (<) xs" "who \<notin> set xs"
  defines "p \<equiv> length (takeWhile (\<lambda>a. a < who) xs)"
  shows "sorted_wrt (<) (take p xs @ who # drop p xs)" (is "sorted_wrt _ ?ys")
    "set (take p xs @ who # drop p xs) = insert who (set xs)" "length (take p xs @ who # drop p xs) = Suc (length xs)"
proof -
  have tw: "take p xs = takeWhile (\<lambda>a. a < who) xs" unfolding p_def by (metis takeWhile_eq_take)
  have dw: "drop p xs = dropWhile (\<lambda>a. a < who) xs" unfolding p_def by (metis dropWhile_eq_drop)
  have before: "a < who" if "a \<in> set (take p xs)" for a using that unfolding tw by (metis set_takeWhileD)
  have sorted_parts: "sorted_wrt (<) (take p xs)" "sorted_wrt (<) (drop p xs)"
    "\<forall>x\<in>set (take p xs). \<forall>y\<in>set (drop p xs). x < y"
    using assms(1) sorted_wrt_append[of "(<)" "take p xs" "drop p xs"] by simp_all
  have after: "who < a" if mem: "a \<in> set (drop p xs)" for a
  proof -
    obtain y ys where d: "drop p xs = y # ys" using mem by (cases "drop p xs") auto
    have "\<not> y < who" using d unfolding dw by (metis dropWhile_eq_Cons_conv)
    moreover have "y \<in> set xs" using d by (metis in_set_dropD list.set_intros(1))
    ultimately have "who < y" using assms(2) by (metis linorder_less_linear)
    then show ?thesis using mem sorted_parts(2) d by auto
  qed
  show "sorted_wrt (<) ?ys" using sorted_parts before after by (auto simp: sorted_wrt_append)
  have "set xs = set (take p xs) \<union> set (drop p xs)" by (metis append_take_drop_id set_append)
  then show "set ?ys = insert who (set xs)" by auto
  have "p \<le> length xs" unfolding p_def by (rule length_takeWhile_le)
  then show "length ?ys = Suc (length xs)" by simp
qed

lemma sorted_index_Inr:
  "sorted_index who prev i xs = (Inr k :: 'd DispatchError + nat) \<Longrightarrow>
     sorted_wrt (<) xs \<and> who \<notin> set xs \<and> (\<forall>l. prev = Some l \<longrightarrow> (\<forall>x\<in>set xs. l < x)) \<and>
     k = i + length (takeWhile (\<lambda>x. x < who) xs)"
proof (induction xs arbitrary: prev i)
  case (Cons x xs)
  have lower: "\<forall>l. prev = Some l \<longrightarrow> l < x" using Cons.prems by (auto simp: result_iffs split: option.splits)
  show ?case
  proof (cases "x \<le> who")
    case True
    then have "x \<noteq> who" "sorted_index who (Some x) (i + 1) xs = (Inr k :: 'd DispatchError + nat)" using Cons.prems by (auto simp: result_iffs)
    then show ?thesis using Cons.IH[of "Some x" "i + 1"] True lower by fastforce
  next
    case False
    then have "sorted_index who (Some x) i xs = (Inr k :: 'd DispatchError + nat)" using Cons.prems by (auto simp: result_iffs)
    note rest = Cons.IH[OF this]
    moreover have "takeWhile (\<lambda>y. y < who) xs = []" using rest False by (cases xs) auto
    ultimately show ?thesis using False lower by fastforce
  qed
qed simp

lemma checked_signatories_Inr:
  assumes "checked_signatories R others who = (Inr sigs :: 'd DispatchError + 'a :: linorder list)"
  shows "sorted_wrt (<) sigs" "set sigs = insert who (set others)" "length sigs = Suc (length others)"
    "length sigs \<le> MaxSignatories R" "who \<notin> set others" "2 \<le> length sigs"
proof -
  obtain k where k: "sorted_index who None 0 others = (Inr k :: 'd DispatchError + nat)"
    and sigs: "sigs = take k others @ who # drop k others"
    and len: "others \<noteq> []" "length others < MaxSignatories R"
    using assms by (auto simp: checked_signatories_def ensure_sorted_and_insert_def result_iffs)
  note spec = sorted_index_Inr[OF k]
  have "k = length (takeWhile (\<lambda>x. x < who) others)" using spec by simp
  note ins = insert_position[OF conjunct1[OF spec] conjunct1[OF conjunct2[OF spec]], folded this sigs]
  show "sorted_wrt (<) sigs" "set sigs = insert who (set others)" "length sigs = Suc (length others)"
    by (fact ins)+
  show "length sigs \<le> MaxSignatories R" "2 \<le> length sigs" using ins(3) len by (auto simp: Suc_le_eq)
  show "who \<notin> set others" using spec by simp
qed

text \<open>An account that signs for a multisig account.\<close>

definition signs :: "('o, 'a :: linorder, 'c, 's, 'd, 'w) multisig_env \<Rightarrow> 'a \<Rightarrow> 'a \<Rightarrow> bool" where
  "signs R ident who \<longleftrightarrow>
     (\<exists>sigs threshold safe. account_id_for R sigs threshold safe = Inr ident \<and> 2 \<le> threshold \<and> who \<in> set sigs)"

lemma signs_sender:
  assumes "checked_signatories R others who = Inr sigs" "account_id_for R sigs threshold safe = Inr ident" "2 \<le> threshold"
  shows "signs R ident who"
  unfolding signs_def using assms checked_signatories_Inr(2)[OF assms(1)] by blast

lemma multi_deposit_bound: "multi_deposit R threshold \<le> U64_MAX"
proof -
  have "multi_deposit R threshold < 2 ^ 64" unfolding multi_deposit_def by (rule mod_less_divisor) simp
  then show ?thesis by (simp add: U64_MAX_def)
qed

section \<open>Invariants\<close>

locale multisig_invariant =
  fixes R :: "('o, 'a :: linorder, 'c, 's, 'd, 'w) multisig_env"
    and I :: "('a, 'd, 's) multisig_storage \<Rightarrow> bool"
  assumes logged: "I st \<Longrightarrow> I (deposit_event e st)"
    and closed: "I st \<Longrightarrow> Multisigs st ident h = Some m \<Longrightarrow> I (close_operation R ident h m st)"
    and created: "I st \<Longrightarrow> Multisigs st ident h = None \<Longrightarrow> signs R ident who \<Longrightarrow>
      create_operation R who ident h threshold st = Inr st' \<Longrightarrow> I st'"
    and approved: "I st \<Longrightarrow> Multisigs st ident h = Some m \<Longrightarrow> signs R ident who \<Longrightarrow>
      approve_operation R who ident h (op_when m) (approval_position m who threshold) m st = Inr st' \<Longrightarrow> I st'"
    and poked: "I st \<Longrightarrow> Multisigs st ident h = Some m \<Longrightarrow> d \<le> U64_MAX \<Longrightarrow>
      adjust_reserve (Currency R) (chain st) (depositor m) (op_deposit m) d = Inr s' \<Longrightarrow>
      I (set_operation ident h (m\<lparr>op_deposit := d\<rparr>) (st\<lparr>chain := s'\<rparr>))"
    and other: "I st \<Longrightarrow> dispatch_other R c origin (chain st) = Inr (info, s') \<Longrightarrow> I (st\<lparr>chain := s'\<rparr>)"
    and elsewhere: "I st \<Longrightarrow> reserved (Currency R) s' = reserved (Currency R) (chain st) \<Longrightarrow> I (st\<lparr>chain := s'\<rparr>)"
begin

definition keeps :: "('o, 'a, 'd, 's, 'w) runner \<Rightarrow> bool" where
  "keeps run \<longleftrightarrow> (\<forall>origin st info st'. I st \<longrightarrow> run origin st = Inr (info, st') \<longrightarrow> I st')"

lemma keeps_after: "keeps run \<Longrightarrow> I st \<Longrightarrow> I (storage_after (run origin st) st)"
  by (auto simp: keeps_def storage_after_def split: sum.splits)

lemma keeps_safe: "keeps run \<Longrightarrow> keeps (\<lambda>origin st. with_safe_derivation_weight R (run origin st))"
  by (auto simp: keeps_def with_safe_derivation_weight_def split: sum.splits)

lemma threshold_1_keeps:
  assumes "keeps run"
  shows "keeps (\<lambda>origin st. do_as_multi_threshold_1 R run origin others call safe st)"
  unfolding keeps_def
proof (intro allI impI)
  fix origin st info st' assume "I st" and step: "do_as_multi_threshold_1 R run origin others call safe st = Inr (info, st')"
  obtain who sigs ident where pre: "ensure_signed R origin = Inr who" "checked_signatories R others who = Inr sigs"
    "account_id_for R sigs 1 safe = Inr ident"
    using step unfolding do_as_multi_threshold_1_def by (simp only: result_iffs) blast
  have "\<exists>e. st' = deposit_event e (storage_after (run (signed R ident) st) st)"
    using step pre by (cases "run (signed R ident) st")
      (auto simp: do_as_multi_threshold_1_def Let_def plain_def runtime_def split: option.splits)
  then show "I st'" using logged keeps_after[OF assms \<open>I st\<close>] by blast
qed

lemma cancel_keeps: "I st \<Longrightarrow> do_cancel_as_multi R origin threshold others tp h safe st = Inr st' \<Longrightarrow> I st'"
  using closed logged by (auto simp: do_cancel_as_multi_def result_iffs)

lemma poke_keeps: "keeps (\<lambda>origin st. do_poke_deposit R origin threshold others h safe st)"
  unfolding keeps_def
proof (intro allI impI)
  fix origin st info st' assume inv: "I st" and step: "do_poke_deposit R origin threshold others h safe st = Inr (info, st')"
  obtain ident m where m: "Multisigs st ident h = Some m" and cases: "st' = st \<or>
    (\<exists>e s'. adjust_reserve (Currency R) (chain st) (depositor m) (op_deposit m) (multi_deposit R threshold) = Inr s' \<and>
       st' = deposit_event e (set_operation ident h (m\<lparr>op_deposit := multi_deposit R threshold\<rparr>) (st\<lparr>chain := s'\<rparr>)))"
    using step unfolding do_poke_deposit_def Let_def
    by (simp only: result_iffs if_distribR) (auto simp: result_iffs split: if_splits)
  then show "I st'" using inv logged poked[OF inv m multi_deposit_bound] by blast
qed

lemma execute_keeps:
  assumes "keeps run" "I st" "Multisigs st ident h = Some m"
    and "execute_operation R run who ident h tp n k m st = Inr (info, st')"
  shows "I st'"
  using assms(4) logged keeps_after[OF assms(1) closed[OF assms(2,3)]] by (auto simp: execute_operation_def Let_def)

lemma operate_keeps:
  assumes "keeps run" "I st" "operate R run who threshold others mtp coh w safe st = Inr (info, st')"
  shows "I st'"
proof -
  obtain sigs ident h n call where t: "2 \<le> threshold" and sigs: "checked_signatories R others who = Inr sigs"
    and ident: "account_id_for R sigs threshold safe = Inr ident" and split: "split_call R coh = (h, n, call)"
    using assms(3) by (auto simp: operate_def result_iffs) (metis prod_cases3)
  have signs: "signs R ident who" using signs_sender[OF sigs ident t] .
  show ?thesis
  proof (cases "Multisigs st ident h")
    case None
    then have "create_operation R who ident h threshold st = Inr st'"
      using assms(3) t sigs ident split by (auto simp: operate_def result_iffs)
    then show ?thesis using created[OF assms(2) None signs] by blast
  next
    case (Some m)
    then consider tp where "execute_operation R run who ident h tp (length others) n m st = Inr (info, st')"
      | "approve_operation R who ident h (op_when m) (approval_position m who threshold) m st = Inr st'"
      using assms(3) t sigs ident split
      by (auto simp: operate_def result_iffs Let_def split: option.splits if_splits)
    then show ?thesis
    proof cases
      case 1
      then show ?thesis using execute_keeps[OF assms(1,2) Some] by blast
    next
      case 2
      then show ?thesis using approved[OF assms(2) Some signs] by blast
    qed
  qed
qed

lemma no_run_keeps: "keeps no_run"
  by (simp add: keeps_def no_run_def)

lemma signed_keeps:
  "(\<And>who. keeps (\<lambda>_. f who)) \<Longrightarrow> keeps (\<lambda>origin st. bind_result (plain (runtime (ensure_signed R origin))) (\<lambda>who. f who st))"
  unfolding keeps_def by (auto simp: result_iffs)

lemma operate_runner_keeps: "keeps run \<Longrightarrow> keeps (\<lambda>_. operate R run who threshold others mtp coh w safe)"
  using operate_keeps unfolding keeps_def by blast

lemma cancel_runner_keeps: "keeps (\<lambda>origin st. without_info (do_cancel_as_multi R origin threshold others tp h safe st))"
  using cancel_keeps unfolding keeps_def without_info_def by (auto simp: result_iffs)

lemmas dispatchables = as_multi_threshold_1_def[abs_def] as_multi_def[abs_def] approve_as_multi_def[abs_def]
  cancel_as_multi_def[abs_def] poke_deposit_def[abs_def] as_multi_threshold_1_safe_def[abs_def] as_multi_safe_def[abs_def]
  approve_as_multi_safe_def[abs_def] cancel_as_multi_safe_def[abs_def] poke_deposit_safe_def[abs_def]

lemma dispatch_keeps: "keeps (dispatch R call)"
proof (induction call)
  case (Call_other c)
  then show ?case using other unfolding keeps_def by (auto simp: result_iffs)
qed (auto simp: dispatchables intro!: threshold_1_keeps signed_keeps operate_runner_keeps keeps_safe cancel_runner_keeps
    poke_keeps no_run_keeps)

lemma step_keeps: "multisig_step R st st' \<Longrightarrow> I st \<Longrightarrow> I st'"
  by (induction rule: multisig_step.induct) (use dispatch_keeps elsewhere in \<open>auto simp: keeps_def\<close>)

lemma run_keeps: "multisig_run R st st' \<Longrightarrow> I st \<Longrightarrow> I st'"
  by (induction rule: multisig_run.induct) (auto intro: step_keeps)

end


section \<open>Open operations\<close>

definition has_approved :: "('a, 'd, 's) multisig_storage \<Rightarrow> 'a \<Rightarrow> CallHash \<Rightarrow> 'a Multisig \<Rightarrow> 'a \<Rightarrow> bool" where
  "has_approved st ident h m a \<longleftrightarrow>
     a = depositor m \<and> NewMultisig a ident h \<in> set (events st) \<or> MultisigApproval a (op_when m) ident h \<in> set (events st)"

definition operation_ok ::
  "('o, 'a :: linorder, 'c, 's, 'd, 'w) multisig_env \<Rightarrow> ('a, 'd, 's) multisig_storage \<Rightarrow> 'a \<Rightarrow> CallHash \<Rightarrow> 'a Multisig \<Rightarrow> bool" where
  "operation_ok R st ident h m \<longleftrightarrow>
     sorted_wrt (<) (approvals m) \<and> depositor m \<in> set (approvals m) \<and> length (approvals m) \<le> MaxSignatories R \<and>
     op_deposit m \<le> U64_MAX \<and> (\<forall>a\<in>set (approvals m). signs R ident a \<and> has_approved st ident h m a)"

definition operations_ok :: "('o, 'a :: linorder, 'c, 's, 'd, 'w) multisig_env \<Rightarrow> ('a, 'd, 's) multisig_storage \<Rightarrow> bool" where
  "operations_ok R st \<longleftrightarrow> (\<forall>ident h m. Multisigs st ident h = Some m \<longrightarrow> operation_ok R st ident h m)"

lemma operation_ok_mono:
  "operation_ok R st ident h m \<Longrightarrow> set (events st) \<subseteq> set (events st') \<Longrightarrow> operation_ok R st' ident h m"
  unfolding operation_ok_def has_approved_def by blast

lemma operations_ok_set:
  assumes "operations_ok R st" "\<And>m. Multisigs st' ident h = Some m \<Longrightarrow> operation_ok R st' ident h m"
    and "\<And>i k. (i, k) \<noteq> (ident, h) \<Longrightarrow> Multisigs st' i k = Multisigs st i k" "set (events st) \<subseteq> set (events st')"
  shows "operations_ok R st'"
  unfolding operations_ok_def
proof (intro allI impI)
  fix i k m assume m: "Multisigs st' i k = Some m"
  show "operation_ok R st' i k m"
  proof (cases "(i, k) = (ident, h)")
    case True
    then show ?thesis using assms(2) m by simp
  next
    case False
    then show ?thesis using assms(1,3,4) m operation_ok_mono unfolding operations_ok_def by metis
  qed
qed

lemma operations_ok_frame:
  "operations_ok R st \<Longrightarrow> Multisigs st' = Multisigs st \<Longrightarrow> set (events st) \<subseteq> set (events st') \<Longrightarrow> operations_ok R st'"
  unfolding operations_ok_def using operation_ok_mono by metis

lemma approve_operation_Inr:
  assumes "approve_operation R who ident h tp (approval_position m who threshold) m st = Inr st'" "sorted_wrt (<) (approvals m)"
  obtains xs where "st' = deposit_event (MultisigApproval who tp ident h) (set_operation ident h (m\<lparr>approvals := xs\<rparr>) st)"
    "sorted_wrt (<) xs" "set xs = insert who (set (approvals m))" "length xs \<le> MaxSignatories R"
proof -
  let ?p = "length (takeWhile (\<lambda>a. a < who) (approvals m))"
  have new: "who \<notin> set (approvals m)" and room: "length (approvals m) < MaxSignatories R"
    and st': "st' = deposit_event (MultisigApproval who tp ident h)
      (set_operation ident h (m\<lparr>approvals := take ?p (approvals m) @ who # drop ?p (approvals m)\<rparr>) st)"
    using assms(1) by (auto simp: approve_operation_def approval_position_def result_iffs split: if_splits option.splits)
  note ins = insert_position[OF assms(2) new]
  show ?thesis by (rule that[OF st' ins(1,2)]) (use ins(3) room in simp)
qed

interpretation ops: multisig_invariant R "operations_ok R" for R :: "('o, 'a :: linorder, 'c, 's, 'd, 'w) multisig_env"
proof unfold_locales
  fix st :: "('a, 'd, 's) multisig_storage" and e
  assume "operations_ok R st"
  then show "operations_ok R (deposit_event e st)" by (rule operations_ok_frame) (auto simp: deposit_event_def)
next
  fix st :: "('a, 'd, 's) multisig_storage" and ident h m
  assume "operations_ok R st"
  then show "operations_ok R (close_operation R ident h m st)"
    by (rule operations_ok_set[where ident = ident and h = h]) (auto simp: close_operation_def)
next
  fix st st' :: "('a, 'd, 's) multisig_storage" and ident h who threshold
  assume ok: "operations_ok R st" and signs: "signs R ident who"
    and step: "create_operation R who ident h threshold st = Inr st'"
  from step have "1 \<le> MaxSignatories R" by (auto simp: create_operation_def result_iffs Let_def)
  with step signs show "operations_ok R st'"
    by (intro operations_ok_set[OF ok, where ident = ident and h = h])
      (auto simp: create_operation_def result_iffs Let_def set_operation_def deposit_event_def operation_ok_def has_approved_def
        multi_deposit_bound)
next
  fix st st' :: "('a, 'd, 's) multisig_storage" and ident h m who threshold
  assume ok: "operations_ok R st" and m: "Multisigs st ident h = Some m" and signs: "signs R ident who"
    and step: "approve_operation R who ident h (op_when m) (approval_position m who threshold) m st = Inr st'"
  have opm: "operation_ok R st ident h m" using ok m by (simp add: operations_ok_def)
  then have sorted: "sorted_wrt (<) (approvals m)" by (simp add: operation_ok_def)
  obtain xs where st': "st' = deposit_event (MultisigApproval who (op_when m) ident h) (set_operation ident h (m\<lparr>approvals := xs\<rparr>) st)"
    and xs: "sorted_wrt (<) xs" "set xs = insert who (set (approvals m))" "length xs \<le> MaxSignatories R"
    using approve_operation_Inr[OF step sorted] .
  show "operations_ok R st'"
    using opm xs signs
    by (intro operations_ok_set[OF ok, where ident = ident and h = h])
      (auto simp: st' set_operation_def deposit_event_def operation_ok_def has_approved_def)
next
  fix st :: "('a, 'd, 's) multisig_storage" and ident h m d s'
  assume ok: "operations_ok R st" and m: "Multisigs st ident h = Some m" and d: "d \<le> U64_MAX"
  have opm: "operation_ok R st ident h m" using ok m by (simp add: operations_ok_def)
  show "operations_ok R (set_operation ident h (m\<lparr>op_deposit := d\<rparr>) (st\<lparr>chain := s'\<rparr>))"
    using opm d by (intro operations_ok_set[OF ok, where ident = ident and h = h])
      (auto simp: set_operation_def operation_ok_def has_approved_def)
qed (auto intro: operations_ok_frame)

lemma operations_ok_empty: "Multisigs st = (\<lambda>_ _. None) \<Longrightarrow> operations_ok R st"
  by (simp add: operations_ok_def)

section \<open>Quorum\<close>

text \<open>No other signatories or threshold derive the account: the hash has no collision there.\<close>

definition sole_manifest :: "('o, 'a :: linorder, 'c, 's, 'd, 'w) multisig_env \<Rightarrow> 'a list \<Rightarrow> nat \<Rightarrow> 'a \<Rightarrow> bool" where
  "sole_manifest R sigs threshold ident \<longleftrightarrow>
     (\<forall>sigs' threshold' safe. account_id_for R sigs' threshold' safe = Inr ident \<longrightarrow> sigs' = sigs \<and> threshold' = threshold)"

lemma signs_sole: "signs R ident a \<Longrightarrow> sole_manifest R sigs threshold ident \<Longrightarrow> a \<in> set sigs"
  unfolding signs_def sole_manifest_def by blast

lemma approval_count_le:
  assumes "sorted_wrt (<) (approvals m)"
  shows "approval_count m who threshold \<le> card (insert who (set (approvals m)))"
proof -
  have "distinct (approvals m)" using assms by (simp add: strict_sorted_iff)
  then have "card (set (approvals m)) = length (approvals m)" by (rule distinct_card)
  then have "card (insert who (set (approvals m))) =
    (if who \<in> set (approvals m) then length (approvals m) else Suc (length (approvals m)))" by (simp add: insert_absorb)
  moreover have "length (approvals m) mod 2 ^ 16 \<le> length (approvals m)" "\<And>k :: nat. (k + 1) mod 2 ^ 16 \<le> k + 1"
    by (rule mod_less_eq_dividend)+
  ultimately show ?thesis unfolding approval_count_def approval_position_def
    by (auto split: if_splits)
qed

text \<open>If the outcome depends on what the call does, the call is executed, and a quorum has been counted.\<close>

lemma operate_depends:
  assumes "checked_signatories R others who = Inr sigs" "account_id_for R sigs threshold safe = Inr ident"
    and "operate R run who threshold others mtp coh w safe st \<noteq> operate R run' who threshold others mtp coh w safe st"
  obtains h n call m where "split_call R coh = (h, n, Some call)" "Multisigs st ident h = Some m" "mtp = Some (op_when m)"
    "threshold \<le> approval_count m who threshold"
    "operate R run who threshold others mtp coh w safe st = execute_operation R run who ident h (op_when m) (length others) n m st"
proof -
  obtain h n mc where split: "split_call R coh = (h, n, mc)" by (metis prod_cases3)
  show ?thesis
    using assms split that
    by (cases "Multisigs st ident h"; cases mtp; cases mc)
      (auto simp: operate_def bind_ensure check_def Let_def plain_def ensure_def split: if_splits)
qed

section \<open>Deposits\<close>

text \<open>The open operations as items with an owner and a deposit.\<close>

definition items :: "('a, 'd, 's) multisig_storage \<Rightarrow> 'a \<times> CallHash \<Rightarrow> ('a \<times> nat) option" where
  "items st k = map_option (\<lambda>m. (depositor m, op_deposit m)) (Multisigs st (fst k) (snd k))"

definition deposits_match :: "('o, 'a, 'c, 's, 'd, 'w) multisig_env \<Rightarrow> ('a, 'd, 's) multisig_storage \<Rightarrow> bool" where
  "deposits_match R st \<longleftrightarrow>
     finite {k. items st k \<noteq> None} \<and> (\<forall>a. reserved (Currency R) (chain st) a = owed (items st) a)"

text \<open>
  The laws of the currency, and that a call of another pallet leaves the reserves made by this one alone.
\<close>

definition multisig_laws :: "('o, 'a, 'c, 's, 'd, 'w) multisig_env \<Rightarrow> bool" where
  "multisig_laws R \<longleftrightarrow> currency_laws (Currency R) \<and>
     (\<forall>c origin s info s'. dispatch_other R c origin s = Inr (info, s') \<longrightarrow>
        reserved (Currency R) s' = reserved (Currency R) s)"

lemma items_set: "items (set_operation ident h m st) = (items st)((ident, h) \<mapsto> (depositor m, op_deposit m))"
  by (auto simp: items_def set_operation_def fun_eq_iff)

lemma items_close: "items (close_operation R ident h m st) = (items st)((ident, h) := None)"
  by (auto simp: items_def close_operation_def fun_eq_iff)

lemma items_frame [simp]: "items (deposit_event e st) = items st" "items (st\<lparr>chain := s\<rparr>) = items st"
  by (auto simp: items_def deposit_event_def)

lemma chain_frame [simp]: "chain (deposit_event e st) = chain st" "chain (set_operation ident h m st) = chain st"
  by (auto simp: deposit_event_def set_operation_def)

text \<open>One item changes, and its owner's reserve by the difference.\<close>

lemma deposits_match_update:
  assumes "deposits_match R st" "items st' = (items st)(k := v)"
    and "\<And>a. reserved (Currency R) (chain st') a + item_part (items st k) a = reserved (Currency R) (chain st) a + item_part v a"
  shows "deposits_match R st'"
proof -
  have fin: "finite {k. items st k \<noteq> None}" using assms(1) by (simp add: deposits_match_def)
  have "reserved (Currency R) (chain st') a = owed (items st') a" for a
    using owed_update[OF fin, of k v a] assms(1,2) assms(3)[of a] by (simp add: deposits_match_def)
  then show ?thesis using finite_items_update[OF fin, of k v] assms(2) by (simp add: deposits_match_def)
qed

lemma deposit_covered:
  assumes "deposits_match R st" "Multisigs st ident h = Some m"
  shows "op_deposit m \<le> reserved (Currency R) (chain st) (depositor m)"
proof -
  have "items st (ident, h) = Some (depositor m, op_deposit m)" using assms(2) by (simp add: items_def)
  then show ?thesis using owed_item_le assms(1) unfolding deposits_match_def by metis
qed

lemma create_operation_Inr:
  assumes "create_operation R who ident h threshold st = Inr st'"
  obtains s' tp where "reserve (Currency R) (chain st) who (multi_deposit R threshold) = Inr s'"
    "chain st' = s'" "items st' = (items st)((ident, h) \<mapsto> (who, multi_deposit R threshold))"
  using assms by (auto simp: create_operation_def Let_def result_iffs items_set)

lemma approve_operation_frame:
  assumes "approve_operation R who ident h tp pos m st = Inr st'" "Multisigs st ident h = Some m"
  shows "chain st' = chain st" "items st' = items st"
  using assms
  by (auto simp: approve_operation_def result_iffs set_operation_def deposit_event_def items_def fun_eq_iff split: option.splits)

interpretation deposits: multisig_invariant R "\<lambda>st. multisig_laws R \<longrightarrow> deposits_match R st"
  for R :: "('o, 'a :: linorder, 'c, 's, 'd, 'w) multisig_env"
proof (unfold_locales; (intro impI)?)
  fix st :: "('a, 'd, 's) multisig_storage" and ident h m
  assume inv: "multisig_laws R \<longrightarrow> deposits_match R st" and m: "Multisigs st ident h = Some m" and laws: "multisig_laws R"
  then have ok: "deposits_match R st" and C: "currency_laws (Currency R)" by (simp_all add: multisig_laws_def)
  note covered = deposit_covered[OF ok m]
  show "deposits_match R (close_operation R ident h m st)"
    using unreserve_law[OF C covered] covered m
    by (intro deposits_match_update[OF ok items_close]) (auto simp: close_operation_def items_def)
next
  fix st st' :: "('a, 'd, 's) multisig_storage" and ident h who threshold
  assume inv: "multisig_laws R \<longrightarrow> deposits_match R st" and none: "Multisigs st ident h = None" and laws: "multisig_laws R"
    and step: "create_operation R who ident h threshold st = Inr st'"
  then have ok: "deposits_match R st" and C: "currency_laws (Currency R)" by (simp_all add: multisig_laws_def)
  obtain s' where r: "reserve (Currency R) (chain st) who (multi_deposit R threshold) = Inr s'" and s': "chain st' = s'"
    and it: "items st' = (items st)((ident, h) \<mapsto> (who, multi_deposit R threshold))" using create_operation_Inr[OF step] by metis
  show "deposits_match R st'"
    using reserve_law[OF C r] none by (intro deposits_match_update[OF ok it]) (auto simp: s' items_def)
next
  fix st st' :: "('a, 'd, 's) multisig_storage" and ident h m who threshold
  assume inv: "multisig_laws R \<longrightarrow> deposits_match R st" and m: "Multisigs st ident h = Some m" and laws: "multisig_laws R"
    and step: "approve_operation R who ident h (op_when m) (approval_position m who threshold) m st = Inr st'"
  then show "deposits_match R st'" using approve_operation_frame[OF step m] by (simp add: deposits_match_def)
next
  fix st :: "('a, 'd, 's) multisig_storage" and ident h m d s'
  assume inv: "multisig_laws R \<longrightarrow> deposits_match R st" and m: "Multisigs st ident h = Some m" and laws: "multisig_laws R"
    and adj: "adjust_reserve (Currency R) (chain st) (depositor m) (op_deposit m) d = Inr s'"
  then have ok: "deposits_match R st" and C: "currency_laws (Currency R)" by (simp_all add: multisig_laws_def)
  note covered = deposit_covered[OF ok m]
  have it: "items (set_operation ident h (m\<lparr>op_deposit := d\<rparr>) (st\<lparr>chain := s'\<rparr>)) = (items st)((ident, h) \<mapsto> (depositor m, d))"
    by (simp add: items_set)
  show "deposits_match R (set_operation ident h (m\<lparr>op_deposit := d\<rparr>) (st\<lparr>chain := s'\<rparr>))"
    using adjust_reserve_law[OF C adj covered] covered m by (intro deposits_match_update[OF ok it]) (auto simp: items_def)
qed (auto simp: deposits_match_def multisig_laws_def)

lemma deposits_match_empty:
  "Multisigs st = (\<lambda>_ _. None) \<Longrightarrow> (\<And>a. reserved (Currency R) (chain st) a = 0) \<Longrightarrow> deposits_match R st"
  by (simp add: deposits_match_def items_def[abs_def])

section \<open>An example\<close>

text \<open>
  A chain whose state is the reserve of each account.  The signatories 10, 20 and 30 with threshold 2 have the account 100,
  every other list the account 0.
\<close>

definition example_currency :: "(nat \<Rightarrow> nat, nat, unit) currency" where
  "example_currency = \<lparr>reserved = (\<lambda>s. s), reserve = (\<lambda>s a x. Inr (s(a := s a + x))),
     unreserve = (\<lambda>s a x. (s(a := s a - x), x - s a))\<rparr>"

definition example_weights :: "nat weight_ops" where
  "example_weights = \<lparr>reads = (\<lambda>n. n), writes = (\<lambda>n. n), reads_writes = (+), weight_zero = 0, weight_add = (+),
     weight_sub = (-), all_lte = (\<le>)\<rparr>"

definition example_multisig :: "(nat, nat, unit, nat \<Rightarrow> nat, unit, nat) multisig_env" where
  "example_multisig = \<lparr>ensure_signed = Inr, signed = (\<lambda>a. a), current_block_number = (\<lambda>_. 5), extrinsic_index = (\<lambda>_. Some 3),
     encode_call = (\<lambda>_. [7]), encode_legacy = (\<lambda>sigs t. t # sigs), encode_safe = (\<lambda>sigs t. t # sigs),
     blake2_256 = (\<lambda>b. b), rejects_legacy_public_keys = (\<lambda>_. False),
     decode_padded = (\<lambda>b. if b = [2, 10, 20, 30] then 100 else 0), decode_account = (\<lambda>_. None), encode_account = (\<lambda>a. [a]),
     call_weight = (\<lambda>_. 4), weight_threshold_1 = (\<lambda>n. n), weight_create = (+), weight_approve = (+), weight_complete = (+),
     SafeDerivationWeight = 6, weights = example_weights, DepositBase = 50, DepositFactor = 5, MaxSignatories = 8,
     Currency = example_currency, dispatch_other = (\<lambda>_ _ s. Inr (\<lparr>actual_weight = None, pays_fee = True\<rparr>, s))\<rparr>"

definition example_start :: "(nat, unit, nat \<Rightarrow> nat) multisig_storage" where
  "example_start = \<lparr>Multisigs = (\<lambda>_ _. None), chain = (\<lambda>_. 0), events = []\<rparr>"

definition example_op :: "nat Multisig" where
  "example_op = \<lparr>op_when = \<lparr>height = 5, tp_index = 3\<rparr>, op_deposit = 60, depositor = 10, approvals = [10]\<rparr>"

definition example_opened :: "(nat, unit, nat \<Rightarrow> nat) multisig_storage" where
  "example_opened = \<lparr>Multisigs = (\<lambda>_ _. None)(100 := (\<lambda>_. None)([7] \<mapsto> example_op)), chain = (\<lambda>_. 0)(10 := 60),
     events = [NewMultisig 10 100 [7]]\<rparr>"

lemmas example_defs = example_multisig_def example_currency_def example_weights_def example_start_def example_op_def
  example_opened_def

lemmas operate_defs = operate_def checked_signatories_def ensure_sorted_and_insert_def account_id_for_def multi_account_id_def
  check_def plain_def runtime_def ensure_def split_call_def post_weight_def multi_deposit_def timepoint_def
  set_operation_def deposit_event_def

lemma multisig_example_opens:
  "dispatch example_multisig (Call_as_multi 2 [20, 30] None (Call_other ()) 9) 10 example_start =
     Inr (\<lparr>actual_weight = Some 3, pays_fee = True\<rparr>, example_opened)"
  by (simp add: as_multi_def operate_defs create_operation_def example_defs Let_def)

lemma multisig_example_run: "multisig_run example_multisig example_start example_opened"
  using multisig_run.more[OF multisig_run.start multisig_step.dispatched[OF multisig_example_opens]] .

lemma multisig_example_laws: "multisig_laws example_multisig"
  by (auto simp: multisig_laws_def currency_laws_def example_multisig_def example_currency_def)

lemma example_account:
  "checked_signatories example_multisig [10, 30] 20 = Inr [10, 20, 30]"
  "account_id_for example_multisig [10, 20, 30] 2 False = Inr 100"
  by (simp_all add: operate_defs example_multisig_def)

lemma example_sole: "sole_manifest example_multisig [10, 20, 30] 2 100"
  by (auto simp: sole_manifest_def account_id_for_def multi_account_id_def safe_multi_account_id_def derive_with_find
      find_None_iff example_multisig_def result_iffs split: if_splits)

section \<open>Properties\<close>

text \<open>
  C21: Quorum.  In every state a chain reaches from one without open operations, and for a multisig account that no other
  list of signatories and no other threshold derive: if the outcome of \<^verbatim>\<open>operate\<close> depends in any way on what the
  call would do, then the operation was open with the timepoint given, its recorded approvals are signatories of the account
  that approved this operation in the logged calls, and together with the sender they are at least as many distinct
  accounts as the threshold; and what \<^verbatim>\<open>operate\<close> does is the execution, which removes the operation and returns its
  deposit before the call runs.
\<close>

theorem quorum_needed:
  assumes "multisig_run R st0 st" "Multisigs st0 = (\<lambda>_ _. None)"
    and "checked_signatories R others who = Inr sigs" "account_id_for R sigs threshold safe = Inr ident"
    and "sole_manifest R sigs threshold ident"
    and "operate R run who threshold others mtp coh w safe st \<noteq> operate R run' who threshold others mtp coh w safe st"
  shows "\<exists>h n call m. split_call R coh = (h, n, Some call) \<and> Multisigs st ident h = Some m \<and> mtp = Some (op_when m) \<and>
    set (approvals m) \<subseteq> set sigs \<and> (\<forall>a\<in>set (approvals m). has_approved st ident h m a) \<and>
    who \<in> set sigs \<and> threshold \<le> card (insert who (set (approvals m))) \<and>
    operate R run who threshold others mtp coh w safe st =
      execute_operation R run who ident h (op_when m) (length others) n m st"
proof -
  obtain h n call m where found: "split_call R coh = (h, n, Some call)" "Multisigs st ident h = Some m" "mtp = Some (op_when m)"
    and count: "threshold \<le> approval_count m who threshold"
    and exec: "operate R run who threshold others mtp coh w safe st =
      execute_operation R run who ident h (op_when m) (length others) n m st"
    using operate_depends[OF assms(3,4,6)] .
  have "operations_ok R st" using ops.run_keeps[OF assms(1) operations_ok_empty[OF assms(2)]] .
  then have ok: "operation_ok R st ident h m" using found(2) by (simp add: operations_ok_def)
  then have "set (approvals m) \<subseteq> set sigs" using signs_sole[OF _ assms(5)] by (auto simp: operation_ok_def)
  moreover have "threshold \<le> card (insert who (set (approvals m)))"
    using count approval_count_le[of m who threshold] ok by (auto simp: operation_ok_def)
  moreover have "who \<in> set sigs" using checked_signatories_Inr(2)[OF assms(3)] by simp
  ultimately show ?thesis using found exec ok unfolding operation_ok_def by blast
qed

theorem quorum_needed_witness:
  "\<exists>h n call m. split_call example_multisig (Call (Call_other ()) :: (nat, nat, unit) CallOrHash) = (h, n, Some call) \<and>
    Multisigs example_opened 100 h = Some m \<and>
    set (approvals m) \<subseteq> set [10, 20, 30] \<and> 20 \<in> set [10, 20, 30 :: nat] \<and> 2 \<le> card (insert 20 (set (approvals m)))"
proof -
  have "operate example_multisig (dispatch example_multisig (Call_other ())) 20 2 [10, 30] (Some \<lparr>height = 5, tp_index = 3\<rparr>)
      (Call (Call_other ())) 9 False example_opened \<noteq>
    operate example_multisig (\<lambda>_ _. Inl (RuntimeError (), \<lparr>actual_weight = None, pays_fee = True\<rparr>)) 20 2 [10, 30]
      (Some \<lparr>height = 5, tp_index = 3\<rparr>) (Call (Call_other ())) 9 False example_opened"
    by (simp add: operate_defs approval_count_def approval_position_def execute_operation_def close_operation_def example_defs
        Let_def dispatch_result_def storage_after_def get_result_weight_def)
  from quorum_needed[OF multisig_example_run _ example_account example_sole this] show ?thesis
    by (auto simp: example_start_def)
qed

text \<open>
  Types of the open operations.  In every state a chain reaches from one without open operations, each operation has its
  approvals in strictly ascending order, at most \<^verbatim>\<open>MaxSignatories\<close> of them, the depositor among them, and a deposit
  that fits the balance type.
\<close>

lemma operations_typed:
  assumes "multisig_run R st0 st" "Multisigs st0 = (\<lambda>_ _. None)" "Multisigs st ident h = Some m"
  shows "sorted_wrt (<) (approvals m) \<and> distinct (approvals m) \<and> length (approvals m) \<le> MaxSignatories R \<and>
    depositor m \<in> set (approvals m) \<and> op_deposit m \<le> U64_MAX"
proof -
  have "operations_ok R st" using ops.run_keeps[OF assms(1) operations_ok_empty[OF assms(2)]] .
  then show ?thesis using assms(3) by (auto simp: operations_ok_def operation_ok_def strict_sorted_iff)
qed

text \<open>
  C34: Deposits.  When the currency reserves and returns as documented and other pallets leave this pallet's reserves alone,
  then in every state a chain reaches from one without open operations the reserve that the pallet holds of an account is
  exactly the sum of the deposits of the operations it opened, and returning a deposit never falls short.
\<close>

theorem deposits_exact:
  assumes "multisig_laws R" "multisig_run R st0 st"
    and "Multisigs st0 = (\<lambda>_ _. None)" "\<forall>a. reserved (Currency R) (chain st0) a = 0"
  shows "reserved (Currency R) (chain st) a = owed (items st) a \<and>
    (Multisigs st ident h = Some m \<longrightarrow> snd (unreserve (Currency R) (chain st) (depositor m) (op_deposit m)) = 0)"
proof -
  have "deposits_match R st0" using deposits_match_empty assms(3,4) by blast
  then have ok: "deposits_match R st" using deposits.run_keeps[OF assms(2)] assms(1) by blast
  moreover have C: "currency_laws (Currency R)" using assms(1) by (simp add: multisig_laws_def)
  ultimately show ?thesis using unreserve_law[OF C deposit_covered[OF ok]] by (simp add: deposits_match_def)
qed

theorem deposits_exact_witness:
  "reserved (Currency example_multisig) (chain example_opened) 10 = owed (items example_opened) 10 \<and>
   Multisigs example_opened 100 [7] = Some example_op \<and>
   snd (unreserve (Currency example_multisig) (chain example_opened) 10 60) = 0"
  using deposits_exact[OF multisig_example_laws multisig_example_run, of 10 100 "[7]" example_op]
  by (simp add: example_start_def example_opened_def example_op_def example_multisig_def example_currency_def)

section \<open>The migration\<close>

text \<open>One run refunds every stored call and empties the map; a second one changes nothing.\<close>

lemma migrate_to_v1_once:
  assumes "0 < in_code" "migrate_to_v1 C W in_code 0 calls s = (calls', s', v, w)"
  shows "calls' = [] \<and> s' = fold (refund_call C) calls s \<and> fst (snd (migrate_to_v1 C W in_code v calls' s')) = s'"
  using assms by (auto simp: migrate_to_v1_def Let_def)

lemma refund_calls_exact:
  assumes "currency_laws C" "\<forall>a. (\<Sum>(h, x, b, d)\<leftarrow>calls. if b = a then d else 0) \<le> reserved C s a"
  shows "reserved C (fold (refund_call C) calls s) a = reserved C s a - (\<Sum>(h, x, b, d)\<leftarrow>calls. if b = a then d else 0)"
  using assms(2)
proof (induction calls arbitrary: s)
  case (Cons entry calls)
  obtain h x b d where e: "entry = (h, x, b, d)" by (metis prod_cases4)
  have "d \<le> reserved C s b" using Cons.prems[rule_format, of b] by (simp add: e)
  then have r: "reserved C (refund_call C entry s) = (reserved C s)(b := reserved C s b - d)"
    using unreserve_law[OF assms(1)] by (simp add: e refund_call_def)
  have "\<forall>a. (\<Sum>(h, x, b, d)\<leftarrow>calls. if b = a then d else 0) \<le> reserved C (refund_call C entry s) a"
    using Cons.prems by (auto simp: r[unfolded e] e split: if_splits)
  then show ?case using Cons.IH[of "refund_call C entry s"] by (simp add: r[unfolded e] e)
qed simp

end
