(* ===== verification/Proxy.thy ===== *)
theory Proxy
  imports Reserves Safe_Accounts
begin

text \<open>
  The proxy pallet, \<^verbatim>\<open>src/pallets/proxy/src/lib.rs\<close>: delegations, announcements, pure accounts and the dispatchables
  over them, for any proxy type with a filter, a superset relation and a default.

  A runtime call is a datatype: the calls of this pallet, two of which carry a call, or a call of another pallet.  A dispatch
  first asks the filters of its origin; it recurses over the call, so that proxies of proxies are covered.  A call that fails
  leaves the storage as it was.  Origins with their filters, encodings, hashes, weights, the currency, the account policy's
  queries and what other pallets do to the rest of the chain are the record \<open>proxy_env\<close>.
\<close>

section \<open>Data\<close>

record ('a, 'p) ProxyDefinition =
  delegate :: 'a
  proxy_type :: 'p
  delay :: nat

text \<open>The derived order compares field by field.\<close>

definition def_less :: "('a :: linorder, 'p :: linorder) ProxyDefinition \<Rightarrow> ('a, 'p) ProxyDefinition \<Rightarrow> bool" where
  "def_less d e \<longleftrightarrow> delegate d < delegate e \<or> delegate d = delegate e \<and>
     (proxy_type d < proxy_type e \<or> proxy_type d = proxy_type e \<and> delay d < delay e)"

record ('a, 'h) Announcement =
  ann_real :: 'a
  ann_call_hash :: 'h
  ann_height :: nat

datatype DepositKind = Proxies_deposit | Announcements_deposit

datatype Error =
    TooMany
  | NotFound
  | NotProxy
  | Unproxyable
  | Duplicate
  | NoPermission
  | Unannounced
  | NoSelfProxy
  | AnnouncementDepositInvariantViolated
  | InvalidDerivedAccountId
  | AccountPolicyViolation
  | SafeDerivationFailed

type_synonym 'd DispatchError = "(Error, 'd) dispatch_error"

datatype ('a, 'p, 'h, 'd) Event =
    ProxyExecuted "'d DispatchError + unit"
  | PureCreated 'a 'a 'p nat
  | PureKilled 'a 'a 'p nat
  | Announced 'a 'a 'h
  | ProxyAdded 'a 'a 'p nat
  | ProxyRemoved 'a 'a 'p nat
  | DepositPoked 'a DepositKind nat nat
  | RealPaysFeeSet 'a 'a bool

text \<open>The calls name accounts by what the runtime's lookup takes.\<close>

datatype ('l, 'p, 'h, 'c) RuntimeCall =
    Call_proxy 'l "'p option" "('l, 'p, 'h, 'c) RuntimeCall"
  | Call_add_proxy 'l 'p nat
  | Call_remove_proxy 'l 'p nat
  | Call_remove_proxies
  | Call_create_pure 'p nat nat
  | Call_kill_pure 'l 'p nat nat nat
  | Call_announce 'l 'h
  | Call_remove_announcement 'l 'h
  | Call_reject_announcement 'l 'h
  | Call_proxy_announced 'l 'l "'p option" "('l, 'p, 'h, 'c) RuntimeCall"
  | Call_poke_deposit
  | Call_set_real_pays_fee 'l bool
  | Call_create_protected_pure 'p nat nat
  | Call_create_safe_pure 'p nat nat
  | Call_kill_safe_pure 'l 'p nat nat nat
  | Call_other 'c

record ('a, 'p, 'h, 'd, 's) proxy_storage =
  Proxies :: "'a \<Rightarrow> (('a, 'p) ProxyDefinition list \<times> nat) option"
  Announcements :: "'a \<Rightarrow> (('a, 'h) Announcement list \<times> nat) option"
  AnnouncementValidFrom :: "nat option"
  LastCallResult :: "'a \<Rightarrow> ('d DispatchError + unit) option"
  RealPaysFee :: "'a \<Rightarrow> 'a \<Rightarrow> bool"
  chain :: 's
  events :: "('a, 'p, 'h, 'd) Event list"

type_synonym ('a, 'p, 'h, 'd, 's, 'w) outcome =
  "('d DispatchError, 'w) failure + 'w PostInfo \<times> ('a, 'p, 'h, 'd, 's) proxy_storage"

type_synonym ('o, 'a, 'p, 'h, 'd, 's, 'w) runner =
  "'o \<Rightarrow> ('a, 'p, 'h, 'd, 's) proxy_storage \<Rightarrow> ('a, 'p, 'h, 'd, 's, 'w) outcome"

record ('o, 'a, 'l, 'p, 'c, 'h, 's, 'd, 'w) proxy_env =
  ensure_signed :: "'o \<Rightarrow> 'd + 'a"
  signed :: "'a \<Rightarrow> 'o"
  add_filter :: "(('l, 'p, 'h, 'c) RuntimeCall \<Rightarrow> bool) \<Rightarrow> 'o \<Rightarrow> 'o"
  filter_call :: "'o \<Rightarrow> ('l, 'p, 'h, 'c) RuntimeCall \<Rightarrow> bool"
  CallFiltered :: 'd
  lookup :: "'l \<Rightarrow> 'd + 'a"
  current_block_number :: "'s \<Rightarrow> nat"
  extrinsic_index :: "'s \<Rightarrow> nat option"
  hash_of :: "('l, 'p, 'h, 'c) RuntimeCall \<Rightarrow> 'h"
  encode_pure :: "'a \<Rightarrow> nat \<Rightarrow> nat \<Rightarrow> 'p \<Rightarrow> nat \<Rightarrow> bytes"
  encode_safe_pure :: "'a \<Rightarrow> 'p \<Rightarrow> nat \<Rightarrow> nat \<Rightarrow> nat \<Rightarrow> bytes"
  blake2_256 :: "bytes \<Rightarrow> bytes"
  rejects_legacy_public_keys :: "bytes \<Rightarrow> bool"
  decode_padded :: "bytes \<Rightarrow> 'a option"
  decode_account :: "bytes \<Rightarrow> ('a \<times> bytes) option"
  encode_account :: "'a \<Rightarrow> bytes"
  policy_contains :: "'s \<Rightarrow> 'a \<Rightarrow> 'a \<Rightarrow> bool"
  requires_protection :: "'s \<Rightarrow> 'a \<Rightarrow> bool"
  is_protected :: "'s \<Rightarrow> 'a \<Rightarrow> bool"
  on_create_protected_pure :: "'a \<Rightarrow> 'a \<Rightarrow> 'p \<Rightarrow> nat \<Rightarrow> nat \<Rightarrow> nat \<Rightarrow> 's \<Rightarrow> 'd + 's"
  type_filter :: "'p \<Rightarrow> ('l, 'p, 'h, 'c) RuntimeCall \<Rightarrow> bool"
  type_superset :: "'p \<Rightarrow> 'p \<Rightarrow> bool"
  type_default :: 'p
  extract_actual_weight :: "'w option \<Rightarrow> ('l, 'p, 'h, 'c) RuntimeCall \<Rightarrow> 'w"
  weight_proxy :: 'w
  weight_proxy_announced :: 'w
  weight_policy :: 'w
  weights :: "'w weight_ops"
  ProxyDepositBase :: nat
  ProxyDepositFactor :: nat
  MaxProxies :: nat
  MaxPending :: nat
  AnnouncementDepositBase :: nat
  AnnouncementDepositFactor :: nat
  Currency :: "('s, 'a, 'd) currency"
  dispatch_other :: "'c \<Rightarrow> 'o \<Rightarrow> 's \<Rightarrow> ('d DispatchError \<times> 'w PostInfo) + 'w PostInfo \<times> 's"

section \<open>Storage\<close>

definition deposit_event ::
  "('a, 'p, 'h, 'd) Event \<Rightarrow> ('a, 'p, 'h, 'd, 's) proxy_storage \<Rightarrow> ('a, 'p, 'h, 'd, 's) proxy_storage" where
  "deposit_event e st = st\<lparr>events := events st @ [e]\<rparr>"

definition proxies ::
  "('a, 'p, 'h, 'd, 's) proxy_storage \<Rightarrow> 'a \<Rightarrow> ('a, 'p) ProxyDefinition list \<times> nat" where
  "proxies st account = unwrap_or (Proxies st account) ([], 0)"

definition announcements ::
  "('a, 'p, 'h, 'd, 's) proxy_storage \<Rightarrow> 'a \<Rightarrow> ('a, 'h) Announcement list \<times> nat" where
  "announcements st account = unwrap_or (Announcements st account) ([], 0)"

definition set_proxies ::
  "'a \<Rightarrow> (('a, 'p) ProxyDefinition list \<times> nat) option \<Rightarrow> ('a, 'p, 'h, 'd, 's) proxy_storage \<Rightarrow>
   ('a, 'p, 'h, 'd, 's) proxy_storage" where
  "set_proxies a v st = st\<lparr>Proxies := (Proxies st)(a := v)\<rparr>"

definition set_announcements ::
  "'a \<Rightarrow> (('a, 'h) Announcement list \<times> nat) option \<Rightarrow> ('a, 'p, 'h, 'd, 's) proxy_storage \<Rightarrow>
   ('a, 'p, 'h, 'd, 's) proxy_storage" where
  "set_announcements a v st = st\<lparr>Announcements := (Announcements st)(a := v)\<rparr>"

definition set_chain :: "'s \<Rightarrow> ('a, 'p, 'h, 'd, 's) proxy_storage \<Rightarrow> ('a, 'p, 'h, 'd, 's) proxy_storage" where
  "set_chain s st = st\<lparr>chain := s\<rparr>"

definition is_real_pays_fee :: "('a, 'p, 'h, 'd, 's) proxy_storage \<Rightarrow> 'a \<Rightarrow> 'a \<Rightarrow> bool" where
  "is_real_pays_fee st real_acc del = RealPaysFee st real_acc del"

section \<open>Derived accounts\<close>

definition creation_time :: "('o, 'a, 'l, 'p, 'c, 'h, 's, 'd, 'w) proxy_env \<Rightarrow> 's \<Rightarrow> (nat \<times> nat) option \<Rightarrow> nat \<times> nat" where
  "creation_time R s maybe_when =
     (case maybe_when of Some when \<Rightarrow> when | None \<Rightarrow> (current_block_number R s, unwrap_or (extrinsic_index R s) 0))"

definition pure_account ::
  "('o, 'a, 'l, 'p, 'c, 'h, 's, 'd, 'w) proxy_env \<Rightarrow> 's \<Rightarrow> 'a \<Rightarrow> 'p \<Rightarrow> nat \<Rightarrow> (nat \<times> nat) option \<Rightarrow> 'd DispatchError + 'a" where
  "pure_account R s who ptype index maybe_when =
     (case creation_time R s maybe_when of (height, ext_index) \<Rightarrow>
        ok_or (decode_padded R (blake2_256 R (encode_pure R who height ext_index ptype index)))
          (ModuleError InvalidDerivedAccountId))"

definition safe_pure_account ::
  "('o, 'a, 'l, 'p, 'c, 'h, 's, 'd, 'w) proxy_env \<Rightarrow> 's \<Rightarrow> 'a \<Rightarrow> 'p \<Rightarrow> nat \<Rightarrow> (nat \<times> nat) option \<Rightarrow> 'd DispatchError + 'a" where
  "safe_pure_account R s who ptype index maybe_when =
     (case creation_time R s maybe_when of (height, ext_index) \<Rightarrow>
        bind_result (ok_or (derive_with (blake2_256 R) (rejects_legacy_public_keys R)
          (encode_safe_pure R who ptype index height ext_index)) (ModuleError SafeDerivationFailed)) (\<lambda>b.
        bind_result (ok_or (decode_account R b) (ModuleError SafeDerivationFailed)) (\<lambda>(account, input).
        bind_result (check (input = [] \<and> encode_account R account = b) SafeDerivationFailed) (\<lambda>_.
        Inr account))))"

section \<open>Deposits\<close>

definition proxy_deposit :: "('o, 'a, 'l, 'p, 'c, 'h, 's, 'd, 'w) proxy_env \<Rightarrow> nat \<Rightarrow> nat" where
  "proxy_deposit R num_proxies =
     (if num_proxies = 0 then 0
      else saturating_add U64_MAX (ProxyDepositBase R) (saturating_mul U64_MAX (ProxyDepositFactor R) num_proxies))"

definition rejig_deposit ::
  "('o, 'a, 'l, 'p, 'c, 'h, 's, 'd, 'w) proxy_env \<Rightarrow> 'a \<Rightarrow> nat \<Rightarrow> nat \<Rightarrow> nat \<Rightarrow> nat \<Rightarrow> 's \<Rightarrow>
   'd DispatchError + nat option \<times> 's" where
  "rejig_deposit R who old_deposit base factor len s =
     (let new_deposit =
            (if len = 0 then 0 else saturating_add U64_MAX base (saturating_mul U64_MAX factor (len mod 2 ^ 32)))
      in bind_result (runtime (adjust_reserve (Currency R) s who old_deposit new_deposit)) (\<lambda>s'.
         Inr (if len = 0 then None else Some new_deposit, s')))"

section \<open>Delegations\<close>

text \<open>
  The list of an account is kept sorted, so the binary search finds the definition, or the number of smaller ones as the
  position to insert at.
\<close>

definition insert_definition ::
  "('a :: linorder, 'p :: linorder) ProxyDefinition \<Rightarrow> ('a, 'p) ProxyDefinition list \<Rightarrow> ('a, 'p) ProxyDefinition list" where
  "insert_definition d ds =
     (let i = length (takeWhile (\<lambda>e. def_less e d) ds) in take i ds @ d # drop i ds)"

text \<open>The runtime's policy drops the announcements of a delegate that a protected account is about to trust again.\<close>

definition invalidate_announcements ::
  "('o, 'a, 'l, 'p, 'c, 'h, 's, 'd, 'w) proxy_env \<Rightarrow> 'a \<Rightarrow> 'a \<Rightarrow> ('a, 'p, 'h, 'd, 's) proxy_storage \<Rightarrow>
   ('a, 'p, 'h, 'd, 's) proxy_storage" where
  "invalidate_announcements R real_acc del st =
     (case Announcements st del of
        None \<Rightarrow> st
      | Some (pending, dep) \<Rightarrow>
          (let pending' = filter (\<lambda>a. ann_real a \<noteq> real_acc) pending
           in if pending' = [] then
                set_announcements del None (set_chain (fst (unreserve (Currency R) (chain st) del dep)) st)
              else set_announcements del (Some (pending', dep)) st))"

definition on_grant ::
  "('o, 'a, 'l, 'p, 'c, 'h, 's, 'd, 'w) proxy_env \<Rightarrow> 'a \<Rightarrow> 'a \<Rightarrow> ('a, 'p, 'h, 'd, 's) proxy_storage \<Rightarrow>
   ('a, 'p, 'h, 'd, 's) proxy_storage" where
  "on_grant R real_acc del st = (if is_protected R (chain st) real_acc then invalidate_announcements R real_acc del st else st)"

definition add_proxy_delegate ::
  "('o, 'a :: linorder, 'l, 'p :: linorder, 'c, 'h, 's, 'd, 'w) proxy_env \<Rightarrow> 'a \<Rightarrow> 'a \<Rightarrow> 'p \<Rightarrow> nat \<Rightarrow>
   ('a, 'p, 'h, 'd, 's) proxy_storage \<Rightarrow> 'd DispatchError + ('a, 'p, 'h, 'd, 's) proxy_storage" where
  "add_proxy_delegate R delegator delegatee ptype dly st =
     bind_result (check (delegator \<noteq> delegatee) NoSelfProxy) (\<lambda>_.
     bind_result (check (policy_contains R (chain st) delegator delegatee) AccountPolicyViolation) (\<lambda>_.
     case proxies st delegator of (ds, dep) \<Rightarrow>
     let d = \<lparr>delegate = delegatee, proxy_type = ptype, delay = dly\<rparr> in
     bind_result (check (d \<notin> set ds) Duplicate) (\<lambda>_.
     bind_result (check (length ds < MaxProxies R) TooMany) (\<lambda>_.
     let ds' = insert_definition d ds;
         new_deposit = proxy_deposit R (length ds' mod 2 ^ 32) in
     bind_result (runtime (adjust_reserve (Currency R) (chain st) delegator dep new_deposit)) (\<lambda>s'.
     Inr (on_grant R delegator delegatee
       (deposit_event (ProxyAdded delegator delegatee ptype dly)
         (set_proxies delegator (Some (ds', new_deposit)) (set_chain s' st)))))))))"

definition remove_proxy_delegate ::
  "('o, 'a :: linorder, 'l, 'p :: linorder, 'c, 'h, 's, 'd, 'w) proxy_env \<Rightarrow> 'a \<Rightarrow> 'a \<Rightarrow> 'p \<Rightarrow> nat \<Rightarrow>
   ('a, 'p, 'h, 'd, 's) proxy_storage \<Rightarrow> 'd DispatchError + ('a, 'p, 'h, 'd, 's) proxy_storage" where
  "remove_proxy_delegate R delegator delegatee ptype dly st =
     bind_result (ok_or (Proxies st delegator) (ModuleError NotFound)) (\<lambda>(ds, old_deposit).
     let d = \<lparr>delegate = delegatee, proxy_type = ptype, delay = dly\<rparr> in
     bind_result (check (d \<in> set ds) NotFound) (\<lambda>_.
     let ds' = remove1 d ds;
         new_deposit = proxy_deposit R (length ds' mod 2 ^ 32) in
     bind_result (runtime (adjust_reserve (Currency R) (chain st) delegator old_deposit new_deposit)) (\<lambda>s'.
     let st1 = set_proxies delegator (if ds' \<noteq> [] then Some (ds', new_deposit) else None) (set_chain s' st);
         st2 = st1\<lparr>RealPaysFee := (RealPaysFee st1)(delegator := (RealPaysFee st1 delegator)(delegatee := False))\<rparr>
     in Inr (deposit_event (ProxyRemoved delegator delegatee ptype dly) st2))))"

definition remove_all_proxy_delegates ::
  "('o, 'a, 'l, 'p, 'c, 'h, 's, 'd, 'w) proxy_env \<Rightarrow> 'a \<Rightarrow> ('a, 'p, 'h, 'd, 's) proxy_storage \<Rightarrow>
   ('a, 'p, 'h, 'd, 's) proxy_storage" where
  "remove_all_proxy_delegates R delegator st =
     (let old_deposit = snd (proxies st delegator);
          st1 = set_chain (fst (unreserve (Currency R) (chain st) delegator old_deposit)) (set_proxies delegator None st)
      in st1\<lparr>RealPaysFee := (RealPaysFee st1)(delegator := (\<lambda>_. False))\<rparr>)"

definition find_proxy ::
  "('o, 'a, 'l, 'p, 'c, 'h, 's, 'd, 'w) proxy_env \<Rightarrow> 'a \<Rightarrow> 'a \<Rightarrow> 'p option \<Rightarrow> ('a, 'p, 'h, 'd, 's) proxy_storage \<Rightarrow>
   'd DispatchError + ('a, 'p) ProxyDefinition" where
  "find_proxy R real_acc del force_proxy_type st =
     bind_result (check (policy_contains R (chain st) real_acc del) AccountPolicyViolation) (\<lambda>_.
     ok_or (List.find (\<lambda>x. delegate x = del \<and> (case force_proxy_type of None \<Rightarrow> True | Some y \<Rightarrow> proxy_type x = y))
       (fst (proxies st real_acc))) (ModuleError NotProxy))"

definition do_create_pure ::
  "('o, 'a, 'l, 'p, 'c, 'h, 's, 'd, 'w) proxy_env \<Rightarrow> 'a \<Rightarrow> 'p \<Rightarrow> nat \<Rightarrow> nat \<Rightarrow> bool \<Rightarrow> bool \<Rightarrow>
   ('a, 'p, 'h, 'd, 's) proxy_storage \<Rightarrow> 'd DispatchError + ('a, 'p, 'h, 'd, 's) proxy_storage" where
  "do_create_pure R who ptype dly index protected safe st =
     (let height = current_block_number R (chain st);
          ext_index = unwrap_or (extrinsic_index R (chain st)) 0
      in bind_result
           (if safe then safe_pure_account R (chain st) who ptype index (Some (height, ext_index))
            else pure_account R (chain st) who ptype index (Some (height, ext_index))) (\<lambda>pure.
         bind_result (check (Proxies st pure = None) Duplicate) (\<lambda>_.
         bind_result (check (1 \<le> MaxProxies R) TooMany) (\<lambda>_.
         let dep = saturating_add U64_MAX (ProxyDepositBase R) (ProxyDepositFactor R) in
         bind_result (runtime (reserve (Currency R) (chain st) who dep)) (\<lambda>s1.
         let st1 = set_proxies pure (Some ([\<lparr>delegate = who, proxy_type = ptype, delay = dly\<rparr>], dep)) (set_chain s1 st) in
         bind_result
           (if protected then runtime (on_create_protected_pure R pure who ptype index height ext_index s1) else Inr s1) (\<lambda>s2.
         Inr (deposit_event (PureCreated pure who ptype index) (set_chain s2 st1))))))))"

text \<open>Both ways of killing a pure account, once its derivation has been checked.\<close>

definition kill_account ::
  "('o, 'a, 'l, 'p, 'c, 'h, 's, 'd, 'w) proxy_env \<Rightarrow> 'a \<Rightarrow> 'a \<Rightarrow> 'p \<Rightarrow> nat \<Rightarrow> ('a, 'p, 'h, 'd, 's) proxy_storage \<Rightarrow>
   ('a, 'p, 'h, 'd, 's) proxy_storage" where
  "kill_account R who spawner ptype index st =
     (let dep = snd (proxies st who)
      in deposit_event (PureKilled who spawner ptype index)
           (set_chain (fst (unreserve (Currency R) (chain st) spawner dep)) (set_proxies who None st)))"

section \<open>Announcements\<close>

definition edit_announcements ::
  "('o, 'a, 'l, 'p, 'c, 'h, 's, 'd, 'w) proxy_env \<Rightarrow> 'a \<Rightarrow> (('a, 'h) Announcement \<Rightarrow> bool) \<Rightarrow>
   ('a, 'p, 'h, 'd, 's) proxy_storage \<Rightarrow> 'd DispatchError + ('a, 'p, 'h, 'd, 's) proxy_storage" where
  "edit_announcements R del f st =
     bind_result (ok_or (Announcements st del) (ModuleError NotFound)) (\<lambda>(pending, old_deposit).
     let pending' = filter f pending in
     bind_result (check (length pending > length pending') NotFound) (\<lambda>_.
     bind_result (rejig_deposit R del old_deposit (AnnouncementDepositBase R) (AnnouncementDepositFactor R) (length pending')
       (chain st)) (\<lambda>(new_deposit, s').
     Inr (set_announcements del (map_option (\<lambda>dep. (pending', dep)) new_deposit) (set_chain s' st)))))"

section \<open>Proxied calls\<close>

definition call_allowed ::
  "('o, 'a, 'l, 'p, 'c, 'h, 's, 'd, 'w) proxy_env \<Rightarrow> 'p \<Rightarrow> 'o \<Rightarrow> ('l, 'p, 'h, 'c) RuntimeCall \<Rightarrow> bool" where
  "call_allowed R ptype inherited_origin c =
     (if \<not> filter_call R inherited_origin c then False
      else case c of
        Call_add_proxy _ t _ \<Rightarrow> (if \<not> type_superset R ptype t then False else type_filter R ptype c)
      | Call_remove_proxy _ t _ \<Rightarrow> (if \<not> type_superset R ptype t then False else type_filter R ptype c)
      | Call_remove_proxies \<Rightarrow> (if ptype \<noteq> type_default R then False else type_filter R ptype c)
      | Call_kill_pure _ _ _ _ _ \<Rightarrow> (if ptype \<noteq> type_default R then False else type_filter R ptype c)
      | Call_kill_safe_pure _ _ _ _ _ \<Rightarrow> (if ptype \<noteq> type_default R then False else type_filter R ptype c)
      | Call_set_real_pays_fee _ pays \<Rightarrow>
          (if pays \<and> ptype \<noteq> type_default R then False else type_filter R ptype c)
      | Call_announce _ _ \<Rightarrow> (if ptype \<noteq> type_default R then False else type_filter R ptype c)
      | _ \<Rightarrow> type_filter R ptype c)"

definition dispatch_result :: "('a, 'p, 'h, 'd, 's, 'w) outcome \<Rightarrow> 'd DispatchError + unit" where
  "dispatch_result result = (case result of Inr _ \<Rightarrow> Inr () | Inl (e, _) \<Rightarrow> Inl e)"

definition storage_after ::
  "('a, 'p, 'h, 'd, 's, 'w) outcome \<Rightarrow> ('a, 'p, 'h, 'd, 's) proxy_storage \<Rightarrow> ('a, 'p, 'h, 'd, 's) proxy_storage" where
  "storage_after result st = (case result of Inr (_, st') \<Rightarrow> st' | Inl _ \<Rightarrow> st)"

definition result_weight :: "('a, 'p, 'h, 'd, 's, 'w) outcome \<Rightarrow> 'w option" where
  "result_weight result = (case result of Inr (info, _) \<Rightarrow> actual_weight info | Inl (_, info) \<Rightarrow> actual_weight info)"

definition do_proxy ::
  "('o, 'a, 'l, 'p, 'c, 'h, 's, 'd, 'w) proxy_env \<Rightarrow> ('o, 'a, 'p, 'h, 'd, 's, 'w) runner \<Rightarrow> ('a, 'p) ProxyDefinition \<Rightarrow> 'a \<Rightarrow>
   ('l, 'p, 'h, 'c) RuntimeCall \<Rightarrow> 'o \<Rightarrow> ('a, 'p, 'h, 'd, 's) proxy_storage \<Rightarrow> 'w \<times> ('a, 'p, 'h, 'd, 's) proxy_storage" where
  "do_proxy R run def real_acc call inherited_origin st =
     (let origin = add_filter R (call_allowed R (proxy_type def) inherited_origin) (signed R real_acc);
          e = run origin st;
          st1 = storage_after e st;
          st2 = st1\<lparr>LastCallResult := (LastCallResult st1)(real_acc \<mapsto> dispatch_result e)\<rparr>
      in (extract_actual_weight R (result_weight e) call, deposit_event (ProxyExecuted (dispatch_result e)) st2))"

section \<open>Dispatchables\<close>

definition proxy ::
  "('o, 'a, 'l, 'p, 'c, 'h, 's, 'd, 'w) proxy_env \<Rightarrow> ('o, 'a, 'p, 'h, 'd, 's, 'w) runner \<Rightarrow> 'l \<Rightarrow> 'p option \<Rightarrow>
   ('l, 'p, 'h, 'c) RuntimeCall \<Rightarrow> ('o, 'a, 'p, 'h, 'd, 's, 'w) runner" where
  "proxy R run real_source force_proxy_type call origin st =
     bind_result (plain (runtime (ensure_signed R origin))) (\<lambda>who.
     bind_result (plain (runtime (lookup R real_source))) (\<lambda>real_acc.
     bind_result (plain (find_proxy R real_acc who force_proxy_type st)) (\<lambda>def.
     bind_result (plain (check (delay def = 0) Unannounced)) (\<lambda>_.
     case do_proxy R run def real_acc call origin st of (used, st') \<Rightarrow>
     let W = weights R;
         weight = weight_add W (weight_add W (weight_add W (weight_proxy R) (weight_policy R)) (reads_writes W 1 1)) used
     in Inr (post_weight weight, st')))))"

text \<open>A dispatchable that returns no dispatch information has the default one.\<close>

definition without_info ::
  "'d DispatchError + ('a, 'p, 'h, 'd, 's) proxy_storage \<Rightarrow> ('a, 'p, 'h, 'd, 's, 'w) outcome" where
  "without_info r = bind_result (plain r) (\<lambda>st. Inr (\<lparr>actual_weight = None, pays_fee = True\<rparr>, st))"

definition add_proxy ::
  "('o, 'a :: linorder, 'l, 'p :: linorder, 'c, 'h, 's, 'd, 'w) proxy_env \<Rightarrow> 'l \<Rightarrow> 'p \<Rightarrow> nat \<Rightarrow> 'o \<Rightarrow>
   ('a, 'p, 'h, 'd, 's) proxy_storage \<Rightarrow> 'd DispatchError + ('a, 'p, 'h, 'd, 's) proxy_storage" where
  "add_proxy R delegate_source ptype dly origin st =
     bind_result (runtime (ensure_signed R origin)) (\<lambda>who.
     bind_result (runtime (lookup R delegate_source)) (\<lambda>del.
     add_proxy_delegate R who del ptype dly st))"

definition remove_proxy ::
  "('o, 'a :: linorder, 'l, 'p :: linorder, 'c, 'h, 's, 'd, 'w) proxy_env \<Rightarrow> 'l \<Rightarrow> 'p \<Rightarrow> nat \<Rightarrow> 'o \<Rightarrow>
   ('a, 'p, 'h, 'd, 's) proxy_storage \<Rightarrow> 'd DispatchError + ('a, 'p, 'h, 'd, 's) proxy_storage" where
  "remove_proxy R delegate_source ptype dly origin st =
     bind_result (runtime (ensure_signed R origin)) (\<lambda>who.
     bind_result (runtime (lookup R delegate_source)) (\<lambda>del.
     remove_proxy_delegate R who del ptype dly st))"

definition remove_proxies ::
  "('o, 'a, 'l, 'p, 'c, 'h, 's, 'd, 'w) proxy_env \<Rightarrow> 'o \<Rightarrow> ('a, 'p, 'h, 'd, 's) proxy_storage \<Rightarrow>
   'd DispatchError + ('a, 'p, 'h, 'd, 's) proxy_storage" where
  "remove_proxies R origin st =
     bind_result (runtime (ensure_signed R origin)) (\<lambda>who. Inr (remove_all_proxy_delegates R who st))"

definition create_pure ::
  "('o, 'a, 'l, 'p, 'c, 'h, 's, 'd, 'w) proxy_env \<Rightarrow> 'p \<Rightarrow> nat \<Rightarrow> nat \<Rightarrow> 'o \<Rightarrow> ('a, 'p, 'h, 'd, 's) proxy_storage \<Rightarrow>
   'd DispatchError + ('a, 'p, 'h, 'd, 's) proxy_storage" where
  "create_pure R ptype dly index origin st =
     bind_result (runtime (ensure_signed R origin)) (\<lambda>who.
     bind_result (check (\<not> requires_protection R (chain st) who) AccountPolicyViolation) (\<lambda>_.
     do_create_pure R who ptype dly index False False st))"

definition kill_pure ::
  "('o, 'a, 'l, 'p, 'c, 'h, 's, 'd, 'w) proxy_env \<Rightarrow> 'l \<Rightarrow> 'p \<Rightarrow> nat \<Rightarrow> nat \<Rightarrow> nat \<Rightarrow> 'o \<Rightarrow>
   ('a, 'p, 'h, 'd, 's) proxy_storage \<Rightarrow> 'd DispatchError + ('a, 'p, 'h, 'd, 's) proxy_storage" where
  "kill_pure R spawner_source ptype index height ext_index origin st =
     bind_result (runtime (ensure_signed R origin)) (\<lambda>who.
     bind_result (runtime (lookup R spawner_source)) (\<lambda>spawner.
     bind_result (pure_account R (chain st) spawner ptype index (Some (height, ext_index))) (\<lambda>pure.
     bind_result (check (pure = who) NoPermission) (\<lambda>_.
     Inr (kill_account R who spawner ptype index st)))))"

definition announce ::
  "('o, 'a, 'l, 'p, 'c, 'h, 's, 'd, 'w) proxy_env \<Rightarrow> 'l \<Rightarrow> 'h \<Rightarrow> 'o \<Rightarrow> ('a, 'p, 'h, 'd, 's) proxy_storage \<Rightarrow>
   'd DispatchError + ('a, 'p, 'h, 'd, 's) proxy_storage" where
  "announce R real_source call_hash origin st =
     bind_result (runtime (ensure_signed R origin)) (\<lambda>who.
     bind_result (runtime (lookup R real_source)) (\<lambda>real_acc.
     bind_result (ok_or (List.find (\<lambda>x. delegate x = who) (fst (proxies st real_acc))) (ModuleError NotProxy)) (\<lambda>_.
     case announcements st who of (pending, dep) \<Rightarrow>
     bind_result (check (length pending < MaxPending R) TooMany) (\<lambda>_.
     let pending' = pending @ [\<lparr>ann_real = real_acc, ann_call_hash = call_hash, ann_height = current_block_number R (chain st)\<rparr>] in
     bind_result (rejig_deposit R who dep (AnnouncementDepositBase R) (AnnouncementDepositFactor R) (length pending') (chain st))
       (\<lambda>(maybe_new, s').
     bind_result (ok_or maybe_new (ModuleError AnnouncementDepositInvariantViolated)) (\<lambda>new_deposit.
     Inr (deposit_event (Announced real_acc who call_hash) (set_announcements who (Some (pending', new_deposit)) (set_chain s' st)))))))))"

definition remove_announcement ::
  "('o, 'a, 'l, 'p, 'c, 'h, 's, 'd, 'w) proxy_env \<Rightarrow> 'l \<Rightarrow> 'h \<Rightarrow> 'o \<Rightarrow> ('a, 'p, 'h, 'd, 's) proxy_storage \<Rightarrow>
   'd DispatchError + ('a, 'p, 'h, 'd, 's) proxy_storage" where
  "remove_announcement R real_source call_hash origin st =
     bind_result (runtime (ensure_signed R origin)) (\<lambda>who.
     bind_result (runtime (lookup R real_source)) (\<lambda>real_acc.
     edit_announcements R who (\<lambda>a. ann_real a \<noteq> real_acc \<or> ann_call_hash a \<noteq> call_hash) st))"

definition reject_announcement ::
  "('o, 'a, 'l, 'p, 'c, 'h, 's, 'd, 'w) proxy_env \<Rightarrow> 'l \<Rightarrow> 'h \<Rightarrow> 'o \<Rightarrow> ('a, 'p, 'h, 'd, 's) proxy_storage \<Rightarrow>
   'd DispatchError + ('a, 'p, 'h, 'd, 's) proxy_storage" where
  "reject_announcement R delegate_source call_hash origin st =
     bind_result (runtime (ensure_signed R origin)) (\<lambda>who.
     bind_result (runtime (lookup R delegate_source)) (\<lambda>del.
     edit_announcements R del (\<lambda>a. ann_real a \<noteq> who \<or> ann_call_hash a \<noteq> call_hash) st))"

text \<open>An announcement stays when it is too old for the runtime, for another call, or not yet mature.\<close>

definition keep_announcement :: "nat option \<Rightarrow> 'a \<Rightarrow> 'h \<Rightarrow> nat \<Rightarrow> nat \<Rightarrow> ('a, 'h) Announcement \<Rightarrow> bool" where
  "keep_announcement valid_from real_acc call_hash now dly a \<longleftrightarrow>
     (case valid_from of Some boundary \<Rightarrow> ann_height a < boundary | None \<Rightarrow> False) \<or>
     ann_real a \<noteq> real_acc \<or> ann_call_hash a \<noteq> call_hash \<or> saturating_sub now (ann_height a) < dly"

definition proxy_announced ::
  "('o, 'a, 'l, 'p, 'c, 'h, 's, 'd, 'w) proxy_env \<Rightarrow> ('o, 'a, 'p, 'h, 'd, 's, 'w) runner \<Rightarrow> 'l \<Rightarrow> 'l \<Rightarrow> 'p option \<Rightarrow>
   ('l, 'p, 'h, 'c) RuntimeCall \<Rightarrow> ('o, 'a, 'p, 'h, 'd, 's, 'w) runner" where
  "proxy_announced R run delegate_source real_source force_proxy_type call origin st =
     bind_result (plain (runtime (ensure_signed R origin))) (\<lambda>_.
     bind_result (plain (runtime (lookup R delegate_source))) (\<lambda>del.
     bind_result (plain (runtime (lookup R real_source))) (\<lambda>real_acc.
     bind_result (plain (find_proxy R real_acc del force_proxy_type st)) (\<lambda>def.
     bind_result (plain (case edit_announcements R del
         (keep_announcement (AnnouncementValidFrom st) real_acc (hash_of R call) (current_block_number R (chain st)) (delay def)) st of
           Inl _ \<Rightarrow> Inl (ModuleError Unannounced) | Inr st1 \<Rightarrow> Inr st1)) (\<lambda>st1.
     case do_proxy R run def real_acc call origin st1 of (used, st2) \<Rightarrow>
     let W = weights R;
         weight = weight_add W (weight_add W (weight_add W (weight_add W (weight_proxy_announced R) (weight_policy R)) (reads W 1))
                    (reads_writes W 1 1)) used
     in Inr (post_weight weight, st2))))))"

definition poke_proxies ::
  "('o, 'a, 'l, 'p, 'c, 'h, 's, 'd, 'w) proxy_env \<Rightarrow> 'a \<Rightarrow> ('a, 'p, 'h, 'd, 's) proxy_storage \<Rightarrow>
   'd DispatchError + bool \<times> ('a, 'p, 'h, 'd, 's) proxy_storage" where
  "poke_proxies R who st =
     (case proxies st who of (ds, old_deposit) \<Rightarrow>
      bind_result (rejig_deposit R who old_deposit (ProxyDepositBase R) (ProxyDepositFactor R) (length ds) (chain st))
        (\<lambda>(maybe_new, s').
      Inr (case maybe_new of
             Some new_deposit \<Rightarrow>
               if new_deposit \<noteq> old_deposit then
                 (True, deposit_event (DepositPoked who Proxies_deposit old_deposit new_deposit)
                          (set_proxies who (Some (ds, new_deposit)) (set_chain s' st)))
               else (False, set_proxies who (Some (ds, old_deposit)) (set_chain s' st))
           | None \<Rightarrow>
               if old_deposit \<noteq> 0 then
                 (True, deposit_event (DepositPoked who Proxies_deposit old_deposit 0) (set_proxies who None (set_chain s' st)))
               else (False, set_proxies who None (set_chain s' st)))))"

definition poke_announcements ::
  "('o, 'a, 'l, 'p, 'c, 'h, 's, 'd, 'w) proxy_env \<Rightarrow> 'a \<Rightarrow> ('a, 'p, 'h, 'd, 's) proxy_storage \<Rightarrow>
   'd DispatchError + bool \<times> ('a, 'p, 'h, 'd, 's) proxy_storage" where
  "poke_announcements R who st =
     (case announcements st who of (pending, old_deposit) \<Rightarrow>
      bind_result (rejig_deposit R who old_deposit (AnnouncementDepositBase R) (AnnouncementDepositFactor R) (length pending)
        (chain st)) (\<lambda>(maybe_new, s').
      Inr (case maybe_new of
             Some new_deposit \<Rightarrow>
               if new_deposit \<noteq> old_deposit then
                 (True, deposit_event (DepositPoked who Announcements_deposit old_deposit new_deposit)
                          (set_announcements who (Some (pending, new_deposit)) (set_chain s' st)))
               else (False, set_announcements who (Some (pending, old_deposit)) (set_chain s' st))
           | None \<Rightarrow>
               if old_deposit \<noteq> 0 then
                 (True, deposit_event (DepositPoked who Announcements_deposit old_deposit 0)
                          (set_announcements who None (set_chain s' st)))
               else (False, set_announcements who None (set_chain s' st)))))"

definition poke_deposit ::
  "('o, 'a, 'l, 'p, 'c, 'h, 's, 'd, 'w) proxy_env \<Rightarrow> ('o, 'a, 'p, 'h, 'd, 's, 'w) runner" where
  "poke_deposit R origin st = plain (
     bind_result (runtime (ensure_signed R origin)) (\<lambda>who.
     bind_result (poke_proxies R who st) (\<lambda>(updated1, st1).
     bind_result (poke_announcements R who st1) (\<lambda>(updated2, st2).
     Inr (\<lparr>actual_weight = None, pays_fee = \<not> (updated1 \<or> updated2)\<rparr>, st2)))))"

definition set_real_pays_fee ::
  "('o, 'a, 'l, 'p, 'c, 'h, 's, 'd, 'w) proxy_env \<Rightarrow> 'l \<Rightarrow> bool \<Rightarrow> 'o \<Rightarrow> ('a, 'p, 'h, 'd, 's) proxy_storage \<Rightarrow>
   'd DispatchError + ('a, 'p, 'h, 'd, 's) proxy_storage" where
  "set_real_pays_fee R delegate_source pays origin st =
     bind_result (runtime (ensure_signed R origin)) (\<lambda>real_acc.
     bind_result (runtime (lookup R delegate_source)) (\<lambda>del.
     bind_result (find_proxy R real_acc del None st) (\<lambda>_.
     Inr (deposit_event (RealPaysFeeSet real_acc del pays)
       (st\<lparr>RealPaysFee := (RealPaysFee st)(real_acc := (RealPaysFee st real_acc)(del := pays))\<rparr>)))))"

definition create_protected_pure ::
  "('o, 'a, 'l, 'p, 'c, 'h, 's, 'd, 'w) proxy_env \<Rightarrow> 'p \<Rightarrow> nat \<Rightarrow> nat \<Rightarrow> 'o \<Rightarrow> ('a, 'p, 'h, 'd, 's) proxy_storage \<Rightarrow>
   'd DispatchError + ('a, 'p, 'h, 'd, 's) proxy_storage" where
  "create_protected_pure R ptype dly index origin st =
     bind_result (runtime (ensure_signed R origin)) (\<lambda>who.
     bind_result (check (requires_protection R (chain st) who) AccountPolicyViolation) (\<lambda>_.
     do_create_pure R who ptype dly index True False st))"

definition create_safe_pure ::
  "('o, 'a, 'l, 'p, 'c, 'h, 's, 'd, 'w) proxy_env \<Rightarrow> 'p \<Rightarrow> nat \<Rightarrow> nat \<Rightarrow> 'o \<Rightarrow> ('a, 'p, 'h, 'd, 's) proxy_storage \<Rightarrow>
   'd DispatchError + ('a, 'p, 'h, 'd, 's) proxy_storage" where
  "create_safe_pure R ptype dly index origin st =
     bind_result (runtime (ensure_signed R origin)) (\<lambda>who. do_create_pure R who ptype dly index False True st)"

definition kill_safe_pure ::
  "('o, 'a, 'l, 'p, 'c, 'h, 's, 'd, 'w) proxy_env \<Rightarrow> 'l \<Rightarrow> 'p \<Rightarrow> nat \<Rightarrow> nat \<Rightarrow> nat \<Rightarrow> 'o \<Rightarrow>
   ('a, 'p, 'h, 'd, 's) proxy_storage \<Rightarrow> 'd DispatchError + ('a, 'p, 'h, 'd, 's) proxy_storage" where
  "kill_safe_pure R spawner_source ptype index height ext_index origin st =
     bind_result (runtime (ensure_signed R origin)) (\<lambda>who.
     bind_result (runtime (lookup R spawner_source)) (\<lambda>spawner.
     bind_result (safe_pure_account R (chain st) spawner ptype index (Some (height, ext_index))) (\<lambda>pure.
     bind_result (check (pure = who) NoPermission) (\<lambda>_.
     Inr (kill_account R who spawner ptype index st)))))"

section \<open>Dispatch and hooks\<close>

text \<open>The dispatch of a runtime call refuses what the filters of the origin exclude.\<close>

definition filtered ::
  "('o, 'a, 'l, 'p, 'c, 'h, 's, 'd, 'w) proxy_env \<Rightarrow> ('l, 'p, 'h, 'c) RuntimeCall \<Rightarrow> ('o, 'a, 'p, 'h, 'd, 's, 'w) runner \<Rightarrow>
   ('o, 'a, 'p, 'h, 'd, 's, 'w) runner" where
  "filtered R call run origin st =
     (if filter_call R origin call then run origin st else plain (runtime (Inl (CallFiltered R))))"

primrec dispatch ::
  "('o, 'a :: linorder, 'l, 'p :: linorder, 'c, 'h, 's, 'd, 'w) proxy_env \<Rightarrow> ('l, 'p, 'h, 'c) RuntimeCall \<Rightarrow>
   ('o, 'a, 'p, 'h, 'd, 's, 'w) runner" where
  "dispatch R (Call_proxy real_acc ft call) = filtered R (Call_proxy real_acc ft call) (proxy R (dispatch R call) real_acc ft call)"
| "dispatch R (Call_add_proxy del t dly) =
     filtered R (Call_add_proxy del t dly) (\<lambda>origin st. without_info (add_proxy R del t dly origin st))"
| "dispatch R (Call_remove_proxy del t dly) =
     filtered R (Call_remove_proxy del t dly) (\<lambda>origin st. without_info (remove_proxy R del t dly origin st))"
| "dispatch R Call_remove_proxies = filtered R Call_remove_proxies (\<lambda>origin st. without_info (remove_proxies R origin st))"
| "dispatch R (Call_create_pure t dly i) =
     filtered R (Call_create_pure t dly i) (\<lambda>origin st. without_info (create_pure R t dly i origin st))"
| "dispatch R (Call_kill_pure sp t i h x) =
     filtered R (Call_kill_pure sp t i h x) (\<lambda>origin st. without_info (kill_pure R sp t i h x origin st))"
| "dispatch R (Call_announce real_acc h) = filtered R (Call_announce real_acc h) (\<lambda>origin st. without_info (announce R real_acc h origin st))"
| "dispatch R (Call_remove_announcement real_acc h) =
     filtered R (Call_remove_announcement real_acc h) (\<lambda>origin st. without_info (remove_announcement R real_acc h origin st))"
| "dispatch R (Call_reject_announcement del h) =
     filtered R (Call_reject_announcement del h) (\<lambda>origin st. without_info (reject_announcement R del h origin st))"
| "dispatch R (Call_proxy_announced del real_acc ft call) =
     filtered R (Call_proxy_announced del real_acc ft call) (proxy_announced R (dispatch R call) del real_acc ft call)"
| "dispatch R Call_poke_deposit = filtered R Call_poke_deposit (poke_deposit R)"
| "dispatch R (Call_set_real_pays_fee del pays) =
     filtered R (Call_set_real_pays_fee del pays) (\<lambda>origin st. without_info (set_real_pays_fee R del pays origin st))"
| "dispatch R (Call_create_protected_pure t dly i) =
     filtered R (Call_create_protected_pure t dly i) (\<lambda>origin st. without_info (create_protected_pure R t dly i origin st))"
| "dispatch R (Call_create_safe_pure t dly i) =
     filtered R (Call_create_safe_pure t dly i) (\<lambda>origin st. without_info (create_safe_pure R t dly i origin st))"
| "dispatch R (Call_kill_safe_pure sp t i h x) =
     filtered R (Call_kill_safe_pure sp t i h x) (\<lambda>origin st. without_info (kill_safe_pure R sp t i h x origin st))"
| "dispatch R (Call_other c) = filtered R (Call_other c) (\<lambda>origin st.
     bind_result (dispatch_other R c origin (chain st)) (\<lambda>(info, s'). Inr (info, set_chain s' st)))"

definition on_runtime_upgrade ::
  "('o, 'a, 'l, 'p, 'c, 'h, 's, 'd, 'w) proxy_env \<Rightarrow> ('a, 'p, 'h, 'd, 's) proxy_storage \<Rightarrow>
   ('a, 'p, 'h, 'd, 's) proxy_storage \<times> 'w" where
  "on_runtime_upgrade R st =
     (if AnnouncementValidFrom st \<noteq> None then (st, reads (weights R) 1)
      else (st\<lparr>AnnouncementValidFrom := Some (saturating_add U32_MAX (current_block_number R (chain st)) 1)\<rparr>,
            reads_writes (weights R) 1 1))"

definition on_finalize :: "('a, 'p, 'h, 'd, 's) proxy_storage \<Rightarrow> ('a, 'p, 'h, 'd, 's) proxy_storage" where
  "on_finalize st = st\<lparr>LastCallResult := (\<lambda>_. None)\<rparr>"

end
