(* ===== verification/Proxy_Filters.thy ===== *)
theory Proxy_Filters
  imports Prelude
begin

text \<open>
  What each proxy type may call: the proxy types of \<^verbatim>\<open>src/common/src/proxy.rs\<close>, the call groups and allow-lists of
  \<^verbatim>\<open>src/runtime/src/proxy_filters\<close>, and the meaning of \<^verbatim>\<open>call_filter_group!\<close> of \<^verbatim>\<open>src/support/macros\<close>, which
  makes from one list of rules both the executable filter and the metadata for clients.

  A runtime call is seen the way the generated patterns see it: its pallet, the name of the call, the numeric arguments and
  the boxed calls by field name.  The filter is the one of a production build, where the faucet call does not exist.
\<close>

section \<open>Proxy types\<close>

datatype ProxyType =
    Any
  | Owner
  | NonCritical
  | NonTransfer
  | Senate
  | NonFungible
  | Triumvirate
  | Governance
  | Staking
  | Registration
  | Transfer
  | SmallTransfer
  | RootWeights
  | ChildKeys
  | SudoUncheckedSetCode
  | SwapHotkey
  | SubnetLeaseBeneficiary
  | RootClaim
  | BasketTrading
  | Validate
  | Weights
  | Lock
  | GammaSpend

definition proxy_types :: "ProxyType list" where
  "proxy_types =
     [Any, Owner, NonCritical, NonTransfer, Senate, NonFungible, Triumvirate, Governance,
      Staking, Registration, Transfer, SmallTransfer, RootWeights, ChildKeys, SudoUncheckedSetCode, SwapHotkey,
      SubnetLeaseBeneficiary, RootClaim, BasketTrading, Validate, Weights, Lock, GammaSpend]"

definition proxy_type_of_u8 :: "nat \<Rightarrow> ProxyType option" where
  "proxy_type_of_u8 value = (if value < length proxy_types then Some (proxy_types ! value) else None)"

primrec u8_of_proxy_type :: "ProxyType \<Rightarrow> nat" where
  "u8_of_proxy_type Any = 0"
| "u8_of_proxy_type Owner = 1"
| "u8_of_proxy_type NonCritical = 2"
| "u8_of_proxy_type NonTransfer = 3"
| "u8_of_proxy_type Senate = 4"
| "u8_of_proxy_type NonFungible = 5"
| "u8_of_proxy_type Triumvirate = 6"
| "u8_of_proxy_type Governance = 7"
| "u8_of_proxy_type Staking = 8"
| "u8_of_proxy_type Registration = 9"
| "u8_of_proxy_type Transfer = 10"
| "u8_of_proxy_type SmallTransfer = 11"
| "u8_of_proxy_type RootWeights = 12"
| "u8_of_proxy_type ChildKeys = 13"
| "u8_of_proxy_type SudoUncheckedSetCode = 14"
| "u8_of_proxy_type SwapHotkey = 15"
| "u8_of_proxy_type SubnetLeaseBeneficiary = 16"
| "u8_of_proxy_type RootClaim = 17"
| "u8_of_proxy_type BasketTrading = 18"
| "u8_of_proxy_type Validate = 19"
| "u8_of_proxy_type Weights = 20"
| "u8_of_proxy_type Lock = 21"
| "u8_of_proxy_type GammaSpend = 22"

text \<open>The derived order is the order of declaration.\<close>

lemma u8_of_proxy_type_inj: "u8_of_proxy_type t = u8_of_proxy_type u \<longleftrightarrow> t = u"
  by (cases t; cases u) simp_all

instantiation ProxyType :: linorder
begin

definition less_eq_ProxyType :: "ProxyType \<Rightarrow> ProxyType \<Rightarrow> bool" where
  "less_eq_ProxyType t u \<longleftrightarrow> u8_of_proxy_type t \<le> u8_of_proxy_type u"

definition less_ProxyType :: "ProxyType \<Rightarrow> ProxyType \<Rightarrow> bool" where
  "less_ProxyType t u \<longleftrightarrow> u8_of_proxy_type t < u8_of_proxy_type u"

instance
  by standard (auto simp: less_eq_ProxyType_def less_ProxyType_def u8_of_proxy_type_inj)

end

definition is_deprecated :: "ProxyType \<Rightarrow> bool" where
  "is_deprecated t \<longleftrightarrow> t \<in> {Triumvirate, Senate, Governance, RootWeights}"

definition default_proxy_type :: ProxyType where
  "default_proxy_type = Any"

section \<open>Runtime calls and rules\<close>

text \<open>The pallets with calls, by the names and indices of \<^verbatim>\<open>construct_runtime!\<close>.\<close>

datatype Pallet =
    System
  | Timestamp
  | Grandpa
  | Balances
  | SubtensorModule
  | Utility
  | Sudo
  | Multisig
  | Preimage
  | Scheduler
  | Proxy
  | Commitments
  | AdminUtils
  | SafeMode
  | Ethereum
  | EVM
  | BaseFee
  | Drand
  | Crowdloan
  | Swap
  | Contracts
  | MevShield
  | LimitOrders
  | HashedAccounts

primrec pallet_name :: "Pallet \<Rightarrow> string" where
  "pallet_name System = ''System''"
| "pallet_name Timestamp = ''Timestamp''"
| "pallet_name Grandpa = ''Grandpa''"
| "pallet_name Balances = ''Balances''"
| "pallet_name SubtensorModule = ''SubtensorModule''"
| "pallet_name Utility = ''Utility''"
| "pallet_name Sudo = ''Sudo''"
| "pallet_name Multisig = ''Multisig''"
| "pallet_name Preimage = ''Preimage''"
| "pallet_name Scheduler = ''Scheduler''"
| "pallet_name Proxy = ''Proxy''"
| "pallet_name Commitments = ''Commitments''"
| "pallet_name AdminUtils = ''AdminUtils''"
| "pallet_name SafeMode = ''SafeMode''"
| "pallet_name Ethereum = ''Ethereum''"
| "pallet_name EVM = ''EVM''"
| "pallet_name BaseFee = ''BaseFee''"
| "pallet_name Drand = ''Drand''"
| "pallet_name Crowdloan = ''Crowdloan''"
| "pallet_name Swap = ''Swap''"
| "pallet_name Contracts = ''Contracts''"
| "pallet_name MevShield = ''MevShield''"
| "pallet_name LimitOrders = ''LimitOrders''"
| "pallet_name HashedAccounts = ''HashedAccounts''"

primrec pallet_index :: "Pallet \<Rightarrow> nat" where
  "pallet_index System = 0"
| "pallet_index Timestamp = 2"
| "pallet_index Grandpa = 4"
| "pallet_index Balances = 5"
| "pallet_index SubtensorModule = 7"
| "pallet_index Utility = 11"
| "pallet_index Sudo = 12"
| "pallet_index Multisig = 13"
| "pallet_index Preimage = 14"
| "pallet_index Scheduler = 15"
| "pallet_index Proxy = 16"
| "pallet_index Commitments = 18"
| "pallet_index AdminUtils = 19"
| "pallet_index SafeMode = 20"
| "pallet_index Ethereum = 21"
| "pallet_index EVM = 22"
| "pallet_index BaseFee = 25"
| "pallet_index Drand = 26"
| "pallet_index Crowdloan = 27"
| "pallet_index Swap = 28"
| "pallet_index Contracts = 29"
| "pallet_index MevShield = 30"
| "pallet_index LimitOrders = 32"
| "pallet_index HashedAccounts = 33"

record RuntimeCallView =
  view_pallet :: Pallet
  view_call :: string
  view_fields :: "(string \<times> nat) list"
  view_nested :: "(string \<times> Pallet \<times> string) list"

datatype CallConstraint =
    ParamLessThan string nat
  | NestedCallMustBe string Pallet string

record CallRule =
  rule_pallet :: Pallet
  rule_call :: string
  condition :: "CallConstraint option"

definition allow :: "Pallet \<Rightarrow> string \<Rightarrow> CallRule" where
  "allow p c = \<lparr>rule_pallet = p, rule_call = c, condition = None\<rparr>"

definition allow_if :: "Pallet \<Rightarrow> string \<Rightarrow> CallConstraint \<Rightarrow> CallRule" where
  "allow_if p c cond = \<lparr>rule_pallet = p, rule_call = c, condition = Some cond\<rparr>"

text \<open>The predicate generated for one rule, and for a group.\<close>

definition call_pattern :: "CallRule \<Rightarrow> RuntimeCallView \<Rightarrow> bool" where
  "call_pattern r c \<longleftrightarrow> view_pallet c = rule_pallet r \<and> view_call c = rule_call r"

definition condition_holds :: "CallConstraint \<Rightarrow> RuntimeCallView \<Rightarrow> bool" where
  "condition_holds cond c =
     (case cond of
        ParamLessThan field limit \<Rightarrow> (case map_of (view_fields c) field of Some v \<Rightarrow> v < limit | None \<Rightarrow> False)
      | NestedCallMustBe field p n \<Rightarrow> map_of (view_nested c) field = Some (p, n))"

definition contains_rule :: "CallRule \<Rightarrow> RuntimeCallView \<Rightarrow> bool" where
  "contains_rule r c \<longleftrightarrow>
     (case condition r of
        None \<Rightarrow> call_pattern r c
      | Some cond \<Rightarrow> call_pattern r c \<and> condition_holds cond c)"

definition contains :: "CallRule list \<Rightarrow> RuntimeCallView \<Rightarrow> bool" where
  "contains rules c \<longleftrightarrow> list_ex (\<lambda>r. contains_rule r c) rules"

definition SMALL_TRANSFER_LIMIT :: nat where
  "SMALL_TRANSFER_LIMIT = 500000000"

definition SMALL_ALPHA_TRANSFER_LIMIT :: nat where
  "SMALL_ALPHA_TRANSFER_LIMIT = 500000000"

section \<open>Call groups\<close>

definition SystemCalls :: "CallRule list" where
  "SystemCalls = [
     allow System ''remark'',
     allow System ''remark_with_event'',
     allow System ''set_heap_pages'',
     allow System ''set_code'',
     allow System ''set_code_without_checks'',
     allow System ''set_storage'',
     allow System ''kill_storage'',
     allow System ''kill_prefix'',
     allow System ''authorize_upgrade'',
     allow System ''authorize_upgrade_without_checks'',
     allow System ''apply_authorized_upgrade'']"

definition TimestampCalls :: "CallRule list" where
  "TimestampCalls = [
     allow Timestamp ''set'']"

definition GrandpaCalls :: "CallRule list" where
  "GrandpaCalls = [
     allow Grandpa ''report_equivocation'',
     allow Grandpa ''report_equivocation_unsigned'',
     allow Grandpa ''note_stalled'']"

definition SafeModeCalls :: "CallRule list" where
  "SafeModeCalls = [
     allow SafeMode ''enter'',
     allow SafeMode ''force_enter'',
     allow SafeMode ''extend'',
     allow SafeMode ''force_extend'',
     allow SafeMode ''force_exit'',
     allow SafeMode ''force_slash_deposit'',
     allow SafeMode ''release_deposit'',
     allow SafeMode ''force_release_deposit'']"

definition EthereumCalls :: "CallRule list" where
  "EthereumCalls = [
     allow Ethereum ''transact'']"

definition HashedAccountsCalls :: "CallRule list" where
  "HashedAccountsCalls = [
     allow HashedAccounts ''register'',
     allow HashedAccounts ''register_derived'',
     allow HashedAccounts ''register_derived_sponsored'']"

definition HashedAccountChecks :: "CallRule list" where
  "HashedAccountChecks = [
     allow HashedAccounts ''check_registration_deposit'',
     allow HashedAccounts ''check_registered'',
     allow HashedAccounts ''check_derived'']"

definition RecipientGuardCalls :: "CallRule list" where
  "RecipientGuardCalls = [
     allow HashedAccounts ''check_registration_deposit'',
     allow HashedAccounts ''check_registered'',
     allow HashedAccounts ''check_derived'',
     allow Utility ''batch_all'']"

definition EvmCalls :: "CallRule list" where
  "EvmCalls = [
     allow EVM ''withdraw'',
     allow EVM ''call'',
     allow EVM ''create'',
     allow EVM ''create2'',
     allow EVM ''set_whitelist'',
     allow EVM ''disable_whitelist'']"

definition BaseFeeCalls :: "CallRule list" where
  "BaseFeeCalls = [
     allow BaseFee ''set_base_fee_per_gas'',
     allow BaseFee ''set_elasticity'']"

definition DrandCalls :: "CallRule list" where
  "DrandCalls = [
     allow Drand ''write_pulse'',
     allow Drand ''set_beacon_config'',
     allow Drand ''set_oldest_stored_round'']"

definition CrowdloanCalls :: "CallRule list" where
  "CrowdloanCalls = [
     allow Crowdloan ''create'',
     allow Crowdloan ''contribute'',
     allow Crowdloan ''withdraw'',
     allow Crowdloan ''finalize'',
     allow Crowdloan ''refund'',
     allow Crowdloan ''dissolve'',
     allow Crowdloan ''update_min_contribution'',
     allow Crowdloan ''update_end'',
     allow Crowdloan ''update_cap'',
     allow Crowdloan ''set_max_contribution'']"

definition SwapCalls :: "CallRule list" where
  "SwapCalls = [
     allow Swap ''toggle_user_liquidity'',
     allow Swap ''add_liquidity'',
     allow Swap ''remove_liquidity'',
     allow Swap ''modify_position'',
     allow Swap ''disable_lp'',
     allow Swap ''set_fee_rate'']"

definition ContractsCalls :: "CallRule list" where
  "ContractsCalls = [
     allow Contracts ''call_old_weight'',
     allow Contracts ''instantiate_with_code_old_weight'',
     allow Contracts ''instantiate_old_weight'',
     allow Contracts ''upload_code'',
     allow Contracts ''remove_code'',
     allow Contracts ''set_code'',
     allow Contracts ''call'',
     allow Contracts ''instantiate_with_code'',
     allow Contracts ''instantiate'',
     allow Contracts ''migrate'']"

definition MevShieldCalls :: "CallRule list" where
  "MevShieldCalls = [
     allow MevShield ''announce_next_key'',
     allow MevShield ''submit_encrypted'',
     allow MevShield ''set_max_pending_extrinsics_number'',
     allow MevShield ''set_on_initialize_weight'',
     allow MevShield ''set_stored_extrinsic_lifetime'',
     allow MevShield ''set_max_extrinsic_weight'']"

definition MevShieldStoreEncryptedCalls :: "CallRule list" where
  "MevShieldStoreEncryptedCalls = [
     allow MevShield ''store_encrypted'']"

definition LimitOrdersCalls :: "CallRule list" where
  "LimitOrdersCalls = [
     allow LimitOrders ''execute_orders'',
     allow LimitOrders ''execute_batched_orders'',
     allow LimitOrders ''cancel_order'',
     allow LimitOrders ''set_pallet_status'',
     allow LimitOrders ''prune_linked_output'']"

definition LimitOrderApprovalCalls :: "CallRule list" where
  "LimitOrderApprovalCalls = [
     allow LimitOrders ''authorize_order'']"

definition ProtectedAccountCreationCalls :: "CallRule list" where
  "ProtectedAccountCreationCalls = [
     allow Utility ''as_protected_derivative'',
     allow Proxy ''create_protected_pure'']"

definition UtilityCalls :: "CallRule list" where
  "UtilityCalls = [
     allow Utility ''batch'',
     allow Utility ''as_derivative'',
     allow Utility ''as_safe_derivative'',
     allow Utility ''batch_all'',
     allow Utility ''dispatch_as'',
     allow Utility ''force_batch'',
     allow Utility ''with_weight'',
     allow Utility ''if_else'',
     allow Utility ''dispatch_as_fallible'']"

definition SudoCalls :: "CallRule list" where
  "SudoCalls = [
     allow Sudo ''sudo'',
     allow Sudo ''sudo_unchecked_weight'',
     allow Sudo ''set_key'',
     allow Sudo ''sudo_as'',
     allow Sudo ''remove_key'']"

definition MultisigCalls :: "CallRule list" where
  "MultisigCalls = [
     allow Multisig ''as_multi_threshold_1'',
     allow Multisig ''as_multi'',
     allow Multisig ''approve_as_multi'',
     allow Multisig ''cancel_as_multi'',
     allow Multisig ''poke_deposit'',
     allow Multisig ''as_multi_threshold_1_safe'',
     allow Multisig ''as_multi_safe'',
     allow Multisig ''approve_as_multi_safe'',
     allow Multisig ''cancel_as_multi_safe'',
     allow Multisig ''poke_deposit_safe'']"

definition PreimageCalls :: "CallRule list" where
  "PreimageCalls = [
     allow Preimage ''note_preimage'',
     allow Preimage ''unnote_preimage'',
     allow Preimage ''request_preimage'',
     allow Preimage ''unrequest_preimage'',
     allow Preimage ''ensure_updated'']"

definition SchedulerCalls :: "CallRule list" where
  "SchedulerCalls = [
     allow Scheduler ''schedule'',
     allow Scheduler ''cancel'',
     allow Scheduler ''schedule_named'',
     allow Scheduler ''cancel_named'',
     allow Scheduler ''schedule_after'',
     allow Scheduler ''schedule_named_after'',
     allow Scheduler ''set_retry'',
     allow Scheduler ''set_retry_named'',
     allow Scheduler ''cancel_retry'',
     allow Scheduler ''cancel_retry_named'']"

definition RestrictedProxyCalls :: "CallRule list" where
  "RestrictedProxyCalls = [
     allow Proxy ''proxy'',
     allow Proxy ''add_proxy'',
     allow Proxy ''remove_proxy'',
     allow Proxy ''remove_proxies'',
     allow Proxy ''create_pure'',
     allow Proxy ''kill_pure'',
     allow Proxy ''create_safe_pure'',
     allow Proxy ''kill_safe_pure'',
     allow Proxy ''remove_announcement'',
     allow Proxy ''reject_announcement'',
     allow Proxy ''proxy_announced'',
     allow Proxy ''poke_deposit'',
     allow Proxy ''set_real_pays_fee'']"

definition CommitmentCalls :: "CallRule list" where
  "CommitmentCalls = [
     allow Commitments ''set_commitment'']"

definition CommitmentsAdminCalls :: "CallRule list" where
  "CommitmentsAdminCalls = [
     allow Commitments ''set_max_space'']"

definition BalanceTransferCalls :: "CallRule list" where
  "BalanceTransferCalls = [
     allow Balances ''transfer_keep_alive'',
     allow Balances ''transfer_allow_death'',
     allow Balances ''transfer_all'',
     allow EVM ''deposit'']"

definition BalanceMaintenanceCalls :: "CallRule list" where
  "BalanceMaintenanceCalls = [
     allow Balances ''force_transfer'',
     allow Balances ''force_unreserve'',
     allow Balances ''upgrade_accounts'',
     allow Balances ''force_set_balance'',
     allow Balances ''force_adjust_total_issuance'',
     allow Balances ''burn'']"

definition StakeManagementCalls :: "CallRule list" where
  "StakeManagementCalls = [
     allow SubtensorModule ''add_stake'',
     allow SubtensorModule ''add_stake_limit'',
     allow SubtensorModule ''remove_stake'',
     allow SubtensorModule ''remove_stake_limit'',
     allow SubtensorModule ''remove_stake_full_limit'',
     allow SubtensorModule ''unstake_all'',
     allow SubtensorModule ''unstake_all_alpha'',
     allow SubtensorModule ''move_stake'',
     allow SubtensorModule ''move_stake_limit'',
     allow SubtensorModule ''swap_stake'',
     allow SubtensorModule ''swap_stake_limit'',
     allow SubtensorModule ''stake_into_basket'',
     allow SubtensorModule ''add_collateral'',
     allow SubtensorModule ''set_min_collateral'']"

definition StakeTransferCalls :: "CallRule list" where
  "StakeTransferCalls = [
     allow SubtensorModule ''transfer_stake'',
     allow SubtensorModule ''transfer_stake_and_hotkey'']"

definition PowRegistrationCalls :: "CallRule list" where
  "PowRegistrationCalls = [
     allow SubtensorModule ''pow_register'']"

definition BurnedRegistrationCalls :: "CallRule list" where
  "BurnedRegistrationCalls = [
     allow SubtensorModule ''register'',
     allow SubtensorModule ''register_limit'',
     allow SubtensorModule ''burned_register'']"

definition RootRegistrationCalls :: "CallRule list" where
  "RootRegistrationCalls = [
     allow SubtensorModule ''root_register'']"

definition HotkeySwapCalls :: "CallRule list" where
  "HotkeySwapCalls = [
     allow SubtensorModule ''swap_hotkey'',
     allow SubtensorModule ''swap_hotkey_v2'']"

definition ColdkeySwapCalls :: "CallRule list" where
  "ColdkeySwapCalls = [
     allow SubtensorModule ''schedule_swap_coldkey'',
     allow SubtensorModule ''swap_coldkey'',
     allow SubtensorModule ''announce_coldkey_swap'',
     allow SubtensorModule ''announce_coldkey_swap_v2'',
     allow SubtensorModule ''swap_coldkey_announced'',
     allow SubtensorModule ''clear_coldkey_swap_announcement'',
     allow SubtensorModule ''dispute_coldkey_swap'',
     allow SubtensorModule ''reset_coldkey_swap'',
     allow SubtensorModule ''reset_coldkey_swap_keep_locked'',
     allow SubtensorModule ''release_own_coldkey_swap_destination_reservation'']"

definition CriticalNetworkCalls :: "CallRule list" where
  "CriticalNetworkCalls = [
     allow SubtensorModule ''dissolve_network'',
     allow SubtensorModule ''root_dissolve_network'']"

definition ChildKeyCalls :: "CallRule list" where
  "ChildKeyCalls = [
     allow SubtensorModule ''set_children'',
     allow SubtensorModule ''set_childkey_take'']"

definition RootClaimCalls :: "CallRule list" where
  "RootClaimCalls = [
     allow SubtensorModule ''claim_root'',
     allow SubtensorModule ''claim_root_with_hotkey'']"

definition BasketTradingCalls :: "CallRule list" where
  "BasketTradingCalls = [
     allow SubtensorModule ''swap_basket'',
     allow SubtensorModule ''swap_basket_many'']"

definition GammaSpendCalls :: "CallRule list" where
  "GammaSpendCalls = [
     allow SubtensorModule ''spend_gamma'']"

definition GammaCreditCalls :: "CallRule list" where
  "GammaCreditCalls = [
     allow SubtensorModule ''mint_gamma'',
     allow SubtensorModule ''mint_gamma_with_stake'',
     allow SubtensorModule ''move_gamma'']"

definition GammaDepositAuthorityCalls :: "CallRule list" where
  "GammaDepositAuthorityCalls = [
     allow SubtensorModule ''set_gamma_deposit_spender'',
     allow SubtensorModule ''set_gamma_deposit_daily_spend_cap'']"

definition ServiceCalls :: "CallRule list" where
  "ServiceCalls = [
     allow SubtensorModule ''set_service'']"

definition SubnetIdentityCalls :: "CallRule list" where
  "SubnetIdentityCalls = [
     allow SubtensorModule ''set_subnet_identity'',
     allow SubtensorModule ''update_symbol'']"

definition SubnetActivationCalls :: "CallRule list" where
  "SubnetActivationCalls = [
     allow SubtensorModule ''start_call'']"

definition LockCalls :: "CallRule list" where
  "LockCalls = [
     allow SubtensorModule ''lock_stake'',
     allow SubtensorModule ''move_lock'',
     allow SubtensorModule ''set_perpetual_lock'']"

definition SubtensorValueCalls :: "CallRule list" where
  "SubtensorValueCalls = [
     allow SubtensorModule ''add_stake_burn'',
     allow SubtensorModule ''recycle_alpha'',
     allow SubtensorModule ''burn_alpha'',
     allow SubtensorModule ''register_network'',
     allow SubtensorModule ''register_network_with_identity'',
     allow SubtensorModule ''register_leased_network'',
     allow SubtensorModule ''close_gamma_deposit'']"

definition WeightCalls :: "CallRule list" where
  "WeightCalls = [
     allow SubtensorModule ''set_weights'',
     allow SubtensorModule ''set_mechanism_weights'',
     allow SubtensorModule ''batch_set_weights'',
     allow SubtensorModule ''commit_weights'',
     allow SubtensorModule ''commit_mechanism_weights'',
     allow SubtensorModule ''batch_commit_weights'',
     allow SubtensorModule ''commit_crv3_mechanism_weights'',
     allow SubtensorModule ''commit_timelocked_weights'',
     allow SubtensorModule ''commit_timelocked_mechanism_weights'',
     allow SubtensorModule ''reveal_weights'',
     allow SubtensorModule ''reveal_mechanism_weights'',
     allow SubtensorModule ''batch_reveal_weights'']"

definition NeuronServingCalls :: "CallRule list" where
  "NeuronServingCalls = [
     allow SubtensorModule ''serve_axon'',
     allow SubtensorModule ''serve_axon_tls'',
     allow SubtensorModule ''serve_prometheus'',
     allow SubtensorModule ''associate_evm_key'']"

definition SubtensorCommonCalls :: "CallRule list" where
  "SubtensorCommonCalls = [
     allow SubtensorModule ''set_reject_locked_alpha'',
     allow SubtensorModule ''set_reject_staking_hotkey_growth'',
     allow SubtensorModule ''decrease_take'',
     allow SubtensorModule ''increase_take'',
     allow SubtensorModule ''set_identity'',
     allow SubtensorModule ''try_associate_hotkey'',
     allow SubtensorModule ''set_coldkey_auto_stake_hotkey'',
     allow SubtensorModule ''set_pending_childkey_cooldown'',
     allow SubtensorModule ''set_auto_parent_delegation_enabled'',
     allow SubtensorModule ''sudo_set_tx_childkey_take_rate_limit'',
     allow SubtensorModule ''sudo_set_min_childkey_take'',
     allow SubtensorModule ''sudo_set_max_childkey_take'',
     allow SubtensorModule ''terminate_lease'',
     allow SubtensorModule ''trigger_epoch'',
     allow SubtensorModule ''sudo_set_root_claim_threshold'',
     allow SubtensorModule ''enable_voting_power_tracking'',
     allow SubtensorModule ''disable_voting_power_tracking'',
     allow SubtensorModule ''sudo_set_voting_power_ema_alpha'']"

definition SubnetManagementCalls :: "CallRule list" where
  "SubnetManagementCalls = [
     allow SubtensorModule ''set_tempo'',
     allow SubtensorModule ''set_activity_cutoff_factor'',
     allow AdminUtils ''sudo_set_serving_rate_limit'',
     allow AdminUtils ''sudo_set_max_difficulty'',
     allow AdminUtils ''sudo_set_network_pow_registration_allowed'',
     allow AdminUtils ''sudo_set_difficulty'',
     allow AdminUtils ''sudo_set_min_difficulty'',
     allow AdminUtils ''sudo_set_weights_version_key'',
     allow AdminUtils ''sudo_set_adjustment_alpha'',
     allow AdminUtils ''sudo_set_immunity_period'',
     allow AdminUtils ''sudo_set_min_allowed_weights'',
     allow AdminUtils ''sudo_set_rho'',
     allow AdminUtils ''sudo_set_activity_cutoff'',
     allow AdminUtils ''sudo_set_activity_cutoff_factor'',
     allow AdminUtils ''sudo_set_tempo'',
     allow AdminUtils ''sudo_set_min_burn'',
     allow AdminUtils ''sudo_set_max_burn'',
     allow AdminUtils ''sudo_set_bonds_moving_average'',
     allow AdminUtils ''sudo_set_bonds_penalty'',
     allow AdminUtils ''sudo_set_min_childkey_take_per_subnet'',
     allow AdminUtils ''sudo_set_commit_reveal_weights_enabled'',
     allow AdminUtils ''sudo_set_liquid_alpha_enabled'',
     allow AdminUtils ''sudo_set_alpha_values'',
     allow AdminUtils ''sudo_set_liquid_alpha_consensus_mode'',
     allow AdminUtils ''sudo_set_commit_reveal_weights_interval'',
     allow AdminUtils ''sudo_set_toggle_transfer'',
     allow AdminUtils ''sudo_set_recycle_or_burn'',
     allow AdminUtils ''sudo_set_alpha_sigmoid_steepness'',
     allow AdminUtils ''sudo_set_yuma3_enabled'',
     allow AdminUtils ''sudo_set_bonds_reset_enabled'',
     allow AdminUtils ''sudo_set_owner_immune_neuron_limit'',
     allow AdminUtils ''sudo_set_mechanism_count'',
     allow AdminUtils ''sudo_set_epoch_consensus'',
     allow AdminUtils ''sudo_set_mechanism_emission_split'',
     allow AdminUtils ''sudo_set_subnet_emission_weights'',
     allow AdminUtils ''sudo_trim_to_max_allowed_uids'',
     allow AdminUtils ''sudo_trim_null_uids_batch'',
     allow AdminUtils ''sudo_set_max_allowed_uids'',
     allow AdminUtils ''sudo_set_burn_half_life'',
     allow AdminUtils ''sudo_set_burn_increase_mult'',
     allow AdminUtils ''sudo_set_owner_cut_enabled'',
     allow AdminUtils ''sudo_set_owner_cut_auto_lock_enabled'',
     allow AdminUtils ''sudo_set_collateral_lock_share'',
     allow AdminUtils ''sudo_set_collateral_drain_ratio'',
     allow AdminUtils ''sudo_set_subnet_gamma_enabled'']"

definition RootConfigCalls :: "CallRule list" where
  "RootConfigCalls = [
     allow AdminUtils ''swap_authorities'',
     allow AdminUtils ''schedule_grandpa_change'',
     allow AdminUtils ''sudo_set_default_take'',
     allow AdminUtils ''sudo_set_tx_rate_limit'',
     allow AdminUtils ''sudo_set_weights_set_rate_limit'',
     allow AdminUtils ''sudo_set_adjustment_interval'',
     allow AdminUtils ''sudo_set_kappa'',
     allow AdminUtils ''sudo_set_network_registration_allowed'',
     allow AdminUtils ''sudo_set_target_registrations_per_interval'',
     allow AdminUtils ''sudo_set_max_allowed_validators'',
     allow AdminUtils ''sudo_set_max_registrations_per_block'',
     allow AdminUtils ''sudo_set_subnet_owner_cut'',
     allow AdminUtils ''sudo_set_network_rate_limit'',
     allow AdminUtils ''sudo_set_total_issuance'',
     allow AdminUtils ''sudo_set_network_immunity_period'',
     allow AdminUtils ''sudo_set_network_min_lock_cost'',
     allow AdminUtils ''sudo_set_subnet_limit'',
     allow AdminUtils ''sudo_set_lock_reduction_interval'',
     allow AdminUtils ''sudo_set_rao_recycled'',
     allow AdminUtils ''sudo_set_stake_threshold'',
     allow AdminUtils ''sudo_set_nominator_min_required_stake'',
     allow AdminUtils ''sudo_set_tx_delegate_take_rate_limit'',
     allow AdminUtils ''sudo_set_min_delegate_take'',
     allow AdminUtils ''sudo_set_dissolve_network_schedule_duration'',
     allow AdminUtils ''sudo_set_evm_chain_id'',
     allow AdminUtils ''sudo_toggle_evm_precompile'',
     allow AdminUtils ''sudo_set_subnet_moving_alpha'',
     allow AdminUtils ''sudo_set_ema_price_halving_period'',
     allow AdminUtils ''sudo_set_subtoken_enabled'',
     allow AdminUtils ''sudo_set_commit_reveal_version'',
     allow AdminUtils ''sudo_set_ck_burn'',
     allow AdminUtils ''sudo_set_admin_freeze_window'',
     allow AdminUtils ''sudo_set_owner_hparam_rate_limit'',
     allow AdminUtils ''sudo_set_min_allowed_uids'',
     allow AdminUtils ''sudo_set_min_non_immune_uids'',
     allow AdminUtils ''sudo_set_tao_flow_cutoff'',
     allow AdminUtils ''sudo_set_tao_flow_normalization_exponent'',
     allow AdminUtils ''sudo_set_emission_bar_quantile'',
     allow AdminUtils ''sudo_set_emission_bar_rank'',
     allow AdminUtils ''sudo_set_emission_gate_exponent'',
     allow AdminUtils ''sudo_set_tao_flow_smoothing_factor'',
     allow AdminUtils ''sudo_set_net_tao_flow_enabled'',
     allow AdminUtils ''sudo_set_max_mechanism_count'',
     allow AdminUtils ''sudo_set_start_call_delay'',
     allow AdminUtils ''sudo_set_coldkey_swap_announcement_delay'',
     allow AdminUtils ''sudo_set_coldkey_swap_reannouncement_delay'',
     allow AdminUtils ''sudo_set_subnet_emission_enabled'',
     allow AdminUtils ''sudo_set_max_epochs_per_block'',
     allow AdminUtils ''sudo_set_basket_concentration_cap'',
     allow AdminUtils ''sudo_set_basket_trading_enabled'',
     allow AdminUtils ''sudo_set_hashed_accounts_enabled'',
     allow AdminUtils ''sudo_set_hashed_account_registration_deposit'',
     allow AdminUtils ''sudo_set_basket_trading_frozen'',
     allow AdminUtils ''sudo_set_basket_daily_turnover_cap'',
     allow AdminUtils ''sudo_set_basket_liquidity_cap'',
     allow AdminUtils ''sudo_set_basket_min_trade_tao'',
     allow AdminUtils ''sudo_set_basket_claim_dust'',
     allow AdminUtils ''sudo_set_tao_usd_price_oracle'',
     allow AdminUtils ''sudo_set_gamma_enabled'']"

definition OwnerKeyCalls :: "CallRule list" where
  "OwnerKeyCalls = [
     allow AdminUtils ''sudo_set_sn_owner_hotkey'']"

definition TaoUsdPriceFeedCalls :: "CallRule list" where
  "TaoUsdPriceFeedCalls = [
     allow SubtensorModule ''feed_tao_usd_price'']"

definition SmallTransferCalls :: "CallRule list" where
  "SmallTransferCalls = [
     allow_if Balances ''transfer_keep_alive'' (ParamLessThan ''value'' SMALL_TRANSFER_LIMIT),
     allow_if Balances ''transfer_allow_death'' (ParamLessThan ''value'' SMALL_TRANSFER_LIMIT),
     allow_if SubtensorModule ''transfer_stake'' (ParamLessThan ''alpha_amount'' SMALL_ALPHA_TRANSFER_LIMIT),
     allow_if SubtensorModule ''transfer_stake_and_hotkey'' (ParamLessThan ''alpha_amount'' SMALL_ALPHA_TRANSFER_LIMIT)]"

definition SudoSetCodeCalls :: "CallRule list" where
  "SudoSetCodeCalls = [
     allow_if Sudo ''sudo_unchecked_weight'' (NestedCallMustBe ''call'' System ''set_code'')]"

text \<open>The faucet exists only in builds with \<^verbatim>\<open>pow-faucet\<close>.\<close>

definition FaucetCalls :: "CallRule list" where
  "FaucetCalls = []"

definition InfraCommonCalls :: "CallRule list" where
  "InfraCommonCalls =
     SystemCalls @ TimestampCalls @ GrandpaCalls @ UtilityCalls @ PreimageCalls @ SchedulerCalls @
     RestrictedProxyCalls @ CommitmentCalls @ CommitmentsAdminCalls @ SafeModeCalls @ EthereumCalls @ BaseFeeCalls
     @ DrandCalls @ SwapCalls @ MevShieldCalls @ LimitOrdersCalls"

section \<open>Allow-lists\<close>

text \<open>A tuple of groups contains what one of its members contains.\<close>

definition AdminAll :: "CallRule list" where
  "AdminAll =
     SubnetManagementCalls @ RootConfigCalls"

definition TransferAllowed :: "CallRule list" where
  "TransferAllowed =
     BalanceTransferCalls @ StakeTransferCalls"

definition StakingAllowed :: "CallRule list" where
  "StakingAllowed =
     StakeManagementCalls @ RootClaimCalls"

definition LockAllowed :: "CallRule list" where
  "LockAllowed =
     LockCalls"

definition RegistrationAllowed :: "CallRule list" where
  "RegistrationAllowed =
     PowRegistrationCalls @ BurnedRegistrationCalls"

definition OwnerAllowed :: "CallRule list" where
  "OwnerAllowed =
     SubnetIdentityCalls @ SubnetManagementCalls"

definition SubnetLeaseAllowed :: "CallRule list" where
  "SubnetLeaseAllowed =
     SubnetActivationCalls @ SubnetIdentityCalls @ SubnetManagementCalls @ ServiceCalls"

definition WeightsAllowed :: "CallRule list" where
  "WeightsAllowed =
     WeightCalls"

definition ValidateAllowed :: "CallRule list" where
  "ValidateAllowed =
     WeightCalls @ NeuronServingCalls @ CommitmentCalls"

definition NonTransferAllowed :: "CallRule list" where
  "NonTransferAllowed =
     InfraCommonCalls @ AdminAll @ StakeManagementCalls @ PowRegistrationCalls @ BurnedRegistrationCalls @
     FaucetCalls @ RootRegistrationCalls @ HotkeySwapCalls @ CriticalNetworkCalls @ ChildKeyCalls @ RootClaimCalls
     @ SubnetIdentityCalls @ SubnetActivationCalls @ LockCalls @ SubtensorValueCalls @ WeightCalls @
     NeuronServingCalls @ SubtensorCommonCalls"

definition NonFungibleAllowed :: "CallRule list" where
  "NonFungibleAllowed =
     InfraCommonCalls @ AdminAll @ PowRegistrationCalls @ FaucetCalls @ CriticalNetworkCalls @ ChildKeyCalls @
     RootClaimCalls @ SubnetIdentityCalls @ SubnetActivationCalls @ WeightCalls @ NeuronServingCalls @
     SubtensorCommonCalls"

definition NonCriticalAllowed :: "CallRule list" where
  "NonCriticalAllowed =
     InfraCommonCalls @ ContractsCalls @ AdminAll @ BalanceTransferCalls @ BalanceMaintenanceCalls @
     StakeManagementCalls @ StakeTransferCalls @ PowRegistrationCalls @ FaucetCalls @ HotkeySwapCalls @
     ChildKeyCalls @ RootClaimCalls @ SubnetIdentityCalls @ SubnetActivationCalls @ LockCalls @ SubtensorValueCalls
     @ WeightCalls @ NeuronServingCalls @ GammaCreditCalls @ GammaDepositAuthorityCalls @ ServiceCalls @
     SubtensorCommonCalls"

definition supports_recipient_guards :: "ProxyType \<Rightarrow> bool" where
  "supports_recipient_guards t \<longleftrightarrow> \<not> is_deprecated t \<and> t \<notin> {Validate, Weights}"

definition proxy_type_filter :: "ProxyType \<Rightarrow> RuntimeCallView \<Rightarrow> bool" where
  "proxy_type_filter t c =
     (if supports_recipient_guards t \<and> contains RecipientGuardCalls c then True
      else case t of
        Any \<Rightarrow> True
      | Owner \<Rightarrow> contains OwnerAllowed c
      | NonCritical \<Rightarrow> contains NonCriticalAllowed c
      | NonTransfer \<Rightarrow> contains NonTransferAllowed c
      | Senate \<Rightarrow> False
      | NonFungible \<Rightarrow> contains NonFungibleAllowed c
      | Triumvirate \<Rightarrow> False
      | Governance \<Rightarrow> False
      | Staking \<Rightarrow> contains StakingAllowed c
      | Registration \<Rightarrow> contains RegistrationAllowed c
      | Transfer \<Rightarrow> contains TransferAllowed c
      | SmallTransfer \<Rightarrow> contains SmallTransferCalls c
      | RootWeights \<Rightarrow> False
      | ChildKeys \<Rightarrow> contains ChildKeyCalls c
      | SudoUncheckedSetCode \<Rightarrow> contains SudoSetCodeCalls c
      | SwapHotkey \<Rightarrow> contains HotkeySwapCalls c
      | SubnetLeaseBeneficiary \<Rightarrow> contains SubnetLeaseAllowed c
      | RootClaim \<Rightarrow> contains RootClaimCalls c
      | BasketTrading \<Rightarrow> contains BasketTradingCalls c
      | Validate \<Rightarrow> contains ValidateAllowed c
      | Weights \<Rightarrow> contains WeightsAllowed c
      | Lock \<Rightarrow> contains LockAllowed c
      | GammaSpend \<Rightarrow> contains GammaSpendCalls c)"

definition is_superset :: "ProxyType \<Rightarrow> ProxyType \<Rightarrow> bool" where
  "is_superset t other =
     (if t = other then True
      else if t = Any then True
      else if other = Any then False
      else if t = NonTransfer then
        other \<in> {Owner, Senate, NonFungible, Triumvirate, Governance, Staking, Registration, RootWeights, ChildKeys, SwapHotkey,
                 RootClaim, Validate, Weights, Lock}
      else if t = Transfer then other = SmallTransfer
      else if t = Staking then other = RootClaim
      else if t = Validate then other = Weights
      else False)"

section \<open>Metadata\<close>

datatype InfoConstraint =
    InfoParamLessThan string nat
  | InfoNestedCallMustBe string string string

record CallInfo =
  info_pallet_name :: string
  info_pallet_index :: nat
  info_call_name :: string
  info_call_index :: nat
  info_constraint :: "InfoConstraint option"

text \<open>The index of a call in its pallet comes from the pallet's own metadata.\<close>

type_synonym call_indices = "Pallet \<Rightarrow> string \<Rightarrow> nat"

definition call_info_by_name :: "call_indices \<Rightarrow> Pallet \<Rightarrow> string \<Rightarrow> CallInfo" where
  "call_info_by_name M p name =
     \<lparr>info_pallet_name = pallet_name p, info_pallet_index = pallet_index p, info_call_name = name,
      info_call_index = M p name, info_constraint = None\<rparr>"

definition generate_call_info :: "call_indices \<Rightarrow> CallRule \<Rightarrow> CallInfo" where
  "generate_call_info M r =
     (let base = call_info_by_name M (rule_pallet r) (rule_call r)
      in case condition r of
           None \<Rightarrow> base
         | Some (ParamLessThan field limit) \<Rightarrow> base\<lparr>info_constraint := Some (InfoParamLessThan field limit)\<rparr>
         | Some (NestedCallMustBe field p n) \<Rightarrow>
             (let nested = call_info_by_name M p n
              in base\<lparr>info_constraint :=
                   Some (InfoNestedCallMustBe field (info_pallet_name nested) (info_call_name nested))\<rparr>))"

definition call_infos :: "call_indices \<Rightarrow> CallRule list \<Rightarrow> CallInfo list" where
  "call_infos M rules = map (generate_call_info M) rules"

datatype FilterMode = AllowAll | Allow "CallInfo list"

definition allow_list :: "ProxyType \<Rightarrow> CallRule list" where
  "allow_list t =
     (case t of
        Any \<Rightarrow> []
      | Owner \<Rightarrow> OwnerAllowed
      | NonCritical \<Rightarrow> NonCriticalAllowed
      | NonTransfer \<Rightarrow> NonTransferAllowed
      | Senate \<Rightarrow> []
      | NonFungible \<Rightarrow> NonFungibleAllowed
      | Triumvirate \<Rightarrow> []
      | Governance \<Rightarrow> []
      | Staking \<Rightarrow> StakingAllowed
      | Registration \<Rightarrow> RegistrationAllowed
      | Transfer \<Rightarrow> TransferAllowed
      | SmallTransfer \<Rightarrow> SmallTransferCalls
      | RootWeights \<Rightarrow> []
      | ChildKeys \<Rightarrow> ChildKeyCalls
      | SudoUncheckedSetCode \<Rightarrow> SudoSetCodeCalls
      | SwapHotkey \<Rightarrow> HotkeySwapCalls
      | SubnetLeaseBeneficiary \<Rightarrow> SubnetLeaseAllowed
      | RootClaim \<Rightarrow> RootClaimCalls
      | BasketTrading \<Rightarrow> BasketTradingCalls
      | Validate \<Rightarrow> ValidateAllowed
      | Weights \<Rightarrow> WeightsAllowed
      | Lock \<Rightarrow> LockAllowed
      | GammaSpend \<Rightarrow> GammaSpendCalls)"

definition add_guards :: "call_indices \<Rightarrow> CallInfo list \<Rightarrow> CallInfo list" where
  "add_guards M calls = fold (\<lambda>call cs. if call \<notin> set cs then cs @ [call] else cs) (call_infos M RecipientGuardCalls) calls"

definition proxy_filter_mode :: "call_indices \<Rightarrow> ProxyType \<Rightarrow> FilterMode" where
  "proxy_filter_mode M t =
     (case (if t = Any then AllowAll else Allow (call_infos M (allow_list t))) of
        Allow calls \<Rightarrow> Allow (if supports_recipient_guards t then add_guards M calls else calls)
      | AllowAll \<Rightarrow> AllowAll)"

primrec proxy_type_name :: "ProxyType \<Rightarrow> string" where
  "proxy_type_name Any = ''Any''"
| "proxy_type_name Owner = ''Owner''"
| "proxy_type_name NonCritical = ''NonCritical''"
| "proxy_type_name NonTransfer = ''NonTransfer''"
| "proxy_type_name Senate = ''Senate''"
| "proxy_type_name NonFungible = ''NonFungible''"
| "proxy_type_name Triumvirate = ''Triumvirate''"
| "proxy_type_name Governance = ''Governance''"
| "proxy_type_name Staking = ''Staking''"
| "proxy_type_name Registration = ''Registration''"
| "proxy_type_name Transfer = ''Transfer''"
| "proxy_type_name SmallTransfer = ''SmallTransfer''"
| "proxy_type_name RootWeights = ''RootWeights''"
| "proxy_type_name ChildKeys = ''ChildKeys''"
| "proxy_type_name SudoUncheckedSetCode = ''SudoUncheckedSetCode''"
| "proxy_type_name SwapHotkey = ''SwapHotkey''"
| "proxy_type_name SubnetLeaseBeneficiary = ''SubnetLeaseBeneficiary''"
| "proxy_type_name RootClaim = ''RootClaim''"
| "proxy_type_name BasketTrading = ''BasketTrading''"
| "proxy_type_name Validate = ''Validate''"
| "proxy_type_name Weights = ''Weights''"
| "proxy_type_name Lock = ''Lock''"
| "proxy_type_name GammaSpend = ''GammaSpend''"

record ProxyTypeInfo =
  type_name :: string
  type_index :: nat
  type_deprecated :: bool

definition get_all_proxy_type_infos :: "ProxyTypeInfo list" where
  "get_all_proxy_type_infos =
     List.map_filter (\<lambda>index. map_option (\<lambda>t. \<lparr>type_name = proxy_type_name t, type_index = index, type_deprecated = is_deprecated t\<rparr>)
       (proxy_type_of_u8 index)) [0..<U8_MAX + 1]"

record ProxyFilterInfo =
  filter_proxy_type :: nat
  filter_name :: string
  filter_deprecated :: bool
  filter_mode :: FilterMode

definition get_proxy_filters :: "call_indices \<Rightarrow> nat list option \<Rightarrow> ProxyFilterInfo list" where
  "get_proxy_filters M selection =
     map (\<lambda>(index, t). \<lparr>filter_proxy_type = index, filter_name = proxy_type_name t, filter_deprecated = is_deprecated t,
            filter_mode = proxy_filter_mode M t\<rparr>)
       (filter (\<lambda>(index, _). case selection of None \<Rightarrow> True | Some selected \<Rightarrow> index \<in> set selected)
         (List.map_filter (\<lambda>index. map_option (\<lambda>t. (index, t)) (proxy_type_of_u8 index)) [0..<U8_MAX + 1]))"

section \<open>The filter as one list\<close>

definition guard_list :: "ProxyType \<Rightarrow> CallRule list" where
  "guard_list t = (if supports_recipient_guards t then RecipientGuardCalls else [])"

lemma contains_append [simp]: "contains (xs @ ys) c \<longleftrightarrow> contains xs c \<or> contains ys c"
  by (simp add: contains_def)

lemma contains_Nil [simp]: "\<not> contains [] c"
  by (simp add: contains_def)

lemma proxy_type_filter_lists:
  "proxy_type_filter t c \<longleftrightarrow> t = Any \<or> contains (guard_list t) c \<or> contains (allow_list t) c"
  by (cases t) (simp_all add: proxy_type_filter_def guard_list_def allow_list_def)

section \<open>Supersets\<close>

lemma small_transfers: "contains SmallTransferCalls c \<Longrightarrow> contains TransferAllowed c"
  by (auto simp: contains_def SmallTransferCalls_def TransferAllowed_def BalanceTransferCalls_def StakeTransferCalls_def
      contains_rule_def call_pattern_def allow_def allow_if_def)

lemma guards_superset: "is_superset a b \<Longrightarrow> supports_recipient_guards b \<Longrightarrow> supports_recipient_guards a"
  by (auto simp: is_superset_def supports_recipient_guards_def is_deprecated_def split: if_splits)

lemmas allowed_defs = AdminAll_def StakingAllowed_def RegistrationAllowed_def OwnerAllowed_def ValidateAllowed_def
  WeightsAllowed_def LockAllowed_def NonTransferAllowed_def NonFungibleAllowed_def InfraCommonCalls_def

lemma allow_list_superset:
  "is_superset a b \<Longrightarrow> a \<noteq> Any \<Longrightarrow> contains (allow_list b) c \<Longrightarrow> contains (allow_list a) c"
  by (cases a; cases b) (auto simp: is_superset_def allow_list_def allowed_defs dest: small_transfers)

text \<open>A type allows whatever a type that it is declared a superset of allows.\<close>

lemma superset_sound: "is_superset a b \<Longrightarrow> proxy_type_filter b c \<Longrightarrow> proxy_type_filter a c"
  using allow_list_superset[of a b c] guards_superset[of a b]
  by (auto simp: proxy_type_filter_lists guard_list_def is_superset_def split: if_splits)

lemma is_superset_refl [simp]: "is_superset t t"
  by (simp add: is_superset_def)

lemma is_superset_trans: "is_superset a b \<Longrightarrow> is_superset b c \<Longrightarrow> is_superset a c"
  by (auto simp: is_superset_def split: if_splits)

lemma superset_of_Any: "is_superset t Any \<longleftrightarrow> t = Any"
  by (auto simp: is_superset_def)

section \<open>Calls that need full authority\<close>

text \<open>
  The calls that the comments of the source keep off every restricted grant: wrappers that dispatch a call on a fresh origin,
  approvals that outlive the origin, changes of the authority over an account, and a few more.
\<close>

definition full_authority_calls :: "CallRule list" where
  "full_authority_calls =
     MultisigCalls @ MevShieldStoreEncryptedCalls @ EvmCalls @ CrowdloanCalls @ LimitOrderApprovalCalls @
     ProtectedAccountCreationCalls @ HashedAccountsCalls @ ColdkeySwapCalls @ OwnerKeyCalls @ TaoUsdPriceFeedCalls @
     [allow Proxy ''announce'']"

text \<open>
  The names of these calls by pallet; every call of a pallet whose calls are all among them is left to a test of the pallet.
\<close>

definition denied :: "Pallet \<Rightarrow> string \<Rightarrow> bool" where
  "denied p name \<longleftrightarrow>
     (case p of
        Multisig \<Rightarrow> True
      | Crowdloan \<Rightarrow> True
      | Sudo \<Rightarrow> True
      | MevShield \<Rightarrow> name = ''store_encrypted''
      | EVM \<Rightarrow> name \<noteq> ''deposit''
      | LimitOrders \<Rightarrow> name = ''authorize_order''
      | Utility \<Rightarrow> name = ''as_protected_derivative''
      | Proxy \<Rightarrow> name \<in> {''create_protected_pure'', ''announce''}
      | HashedAccounts \<Rightarrow> name \<in> {''register'', ''register_derived'', ''register_derived_sponsored''}
      | AdminUtils \<Rightarrow> name = ''sudo_set_sn_owner_hotkey''
      | SubtensorModule \<Rightarrow>
          name \<in> {''schedule_swap_coldkey'', ''swap_coldkey'', ''announce_coldkey_swap'', ''announce_coldkey_swap_v2'',
            ''swap_coldkey_announced'', ''clear_coldkey_swap_announcement'', ''dispute_coldkey_swap'', ''reset_coldkey_swap'',
            ''reset_coldkey_swap_keep_locked'', ''release_own_coldkey_swap_destination_reservation'', ''feed_tao_usd_price''}
      | _ \<Rightarrow> False)"

lemma contains_rule_call: "contains rules c \<Longrightarrow> \<exists>r\<in>set rules. view_pallet c = rule_pallet r \<and> view_call c = rule_call r"
  by (auto simp: contains_def contains_rule_def call_pattern_def list_ex_iff split: option.splits)

lemma full_authority_denied:
  assumes "contains (full_authority_calls @ SudoCalls) c"
  shows "denied (view_pallet c) (view_call c)"
proof -
  have "list_all (\<lambda>r. denied (rule_pallet r) (rule_call r)) (full_authority_calls @ SudoCalls)"
    by (simp add: full_authority_calls_def MultisigCalls_def MevShieldStoreEncryptedCalls_def EvmCalls_def CrowdloanCalls_def
        LimitOrderApprovalCalls_def ProtectedAccountCreationCalls_def HashedAccountsCalls_def ColdkeySwapCalls_def
        OwnerKeyCalls_def TaoUsdPriceFeedCalls_def SudoCalls_def allow_def denied_def)
  then show ?thesis using contains_rule_call[OF assms] by (auto simp: list_all_iff)
qed

definition undenied :: "CallRule list \<Rightarrow> bool" where
  "undenied rules \<longleftrightarrow> list_all (\<lambda>r. \<not> denied (rule_pallet r) (rule_call r)) rules"

lemma undenied_append [simp]: "undenied (xs @ ys) \<longleftrightarrow> undenied xs \<and> undenied ys"
  by (simp add: undenied_def)

lemma undenied_Nil: "undenied []"
  by (simp add: undenied_def)

lemma contains_undenied: "undenied rules \<Longrightarrow> contains rules c \<Longrightarrow> \<not> denied (view_pallet c) (view_call c)"
  using contains_rule_call by (fastforce simp: undenied_def list_all_iff)

lemma undenied_infra:
  "undenied SystemCalls" "undenied TimestampCalls" "undenied GrandpaCalls" "undenied UtilityCalls" "undenied PreimageCalls"
  "undenied SchedulerCalls" "undenied RestrictedProxyCalls" "undenied CommitmentCalls" "undenied CommitmentsAdminCalls"
  "undenied SafeModeCalls" "undenied EthereumCalls" "undenied BaseFeeCalls" "undenied DrandCalls" "undenied SwapCalls"
  "undenied MevShieldCalls" "undenied LimitOrdersCalls" "undenied RecipientGuardCalls" "undenied ContractsCalls"
  by (simp_all add: undenied_def denied_def allow_def SystemCalls_def TimestampCalls_def GrandpaCalls_def UtilityCalls_def
      PreimageCalls_def SchedulerCalls_def RestrictedProxyCalls_def CommitmentCalls_def CommitmentsAdminCalls_def
      SafeModeCalls_def EthereumCalls_def BaseFeeCalls_def DrandCalls_def SwapCalls_def MevShieldCalls_def
      LimitOrdersCalls_def RecipientGuardCalls_def ContractsCalls_def)

lemma undenied_admin: "undenied SubnetManagementCalls" "undenied RootConfigCalls"
  by (simp_all add: undenied_def denied_def allow_def SubnetManagementCalls_def RootConfigCalls_def)

lemma undenied_value:
  "undenied BalanceTransferCalls" "undenied BalanceMaintenanceCalls" "undenied StakeManagementCalls" "undenied StakeTransferCalls"
  "undenied SmallTransferCalls" "undenied SubtensorValueCalls" "undenied LockCalls" "undenied RootClaimCalls"
  "undenied BasketTradingCalls" "undenied GammaSpendCalls" "undenied GammaCreditCalls" "undenied GammaDepositAuthorityCalls"
  by (simp_all add: undenied_def denied_def allow_def allow_if_def BalanceTransferCalls_def BalanceMaintenanceCalls_def
      StakeManagementCalls_def StakeTransferCalls_def SmallTransferCalls_def SubtensorValueCalls_def LockCalls_def
      RootClaimCalls_def BasketTradingCalls_def GammaSpendCalls_def GammaCreditCalls_def GammaDepositAuthorityCalls_def)

lemma undenied_subtensor:
  "undenied PowRegistrationCalls" "undenied BurnedRegistrationCalls" "undenied RootRegistrationCalls" "undenied FaucetCalls"
  "undenied HotkeySwapCalls" "undenied CriticalNetworkCalls" "undenied ChildKeyCalls" "undenied ServiceCalls"
  "undenied SubnetIdentityCalls" "undenied SubnetActivationCalls" "undenied WeightCalls" "undenied NeuronServingCalls"
  "undenied SubtensorCommonCalls"
  by (simp_all add: undenied_def denied_def allow_def PowRegistrationCalls_def BurnedRegistrationCalls_def
      RootRegistrationCalls_def FaucetCalls_def HotkeySwapCalls_def CriticalNetworkCalls_def ChildKeyCalls_def ServiceCalls_def
      SubnetIdentityCalls_def SubnetActivationCalls_def WeightCalls_def NeuronServingCalls_def SubtensorCommonCalls_def)

lemma undenied_allow_list: "t \<noteq> Any \<Longrightarrow> t \<noteq> SudoUncheckedSetCode \<Longrightarrow> undenied (allow_list t)"
  by (cases t) (simp_all add: allow_list_def allowed_defs TransferAllowed_def SubnetLeaseAllowed_def NonCriticalAllowed_def
      undenied_Nil undenied_infra undenied_admin undenied_value undenied_subtensor)

text \<open>No restricted type allows such a call, but for the one sudo call that installs code.\<close>

lemma restricted_denied:
  assumes "t \<noteq> Any" "proxy_type_filter t c"
  shows "\<not> contains full_authority_calls c" "contains SudoCalls c \<Longrightarrow> contains SudoSetCodeCalls c"
proof -
  consider "contains RecipientGuardCalls c" | "contains (allow_list t) c" "t \<noteq> SudoUncheckedSetCode" | "contains SudoSetCodeCalls c"
    using assms by (cases "t = SudoUncheckedSetCode") (auto simp: proxy_type_filter_lists guard_list_def allow_list_def split: if_splits)
  then have "\<not> denied (view_pallet c) (view_call c) \<or> contains SudoSetCodeCalls c"
    using contains_undenied undenied_infra(17) undenied_allow_list[OF assms(1)] by cases blast+
  moreover have "\<not> contains full_authority_calls c" if "contains SudoSetCodeCalls c"
  proof -
    have "view_pallet c = Sudo" using contains_rule_call[OF that] by (simp add: SudoSetCodeCalls_def allow_if_def)
    moreover have "list_all (\<lambda>r. rule_pallet r \<noteq> Sudo) full_authority_calls"
      by (simp add: full_authority_calls_def MultisigCalls_def MevShieldStoreEncryptedCalls_def EvmCalls_def CrowdloanCalls_def
          LimitOrderApprovalCalls_def ProtectedAccountCreationCalls_def HashedAccountsCalls_def ColdkeySwapCalls_def
          OwnerKeyCalls_def TaoUsdPriceFeedCalls_def allow_def)
    ultimately show ?thesis using contains_rule_call[of full_authority_calls c] unfolding list_all_iff by metis
  qed
  ultimately show "\<not> contains full_authority_calls c" "contains SudoCalls c \<Longrightarrow> contains SudoSetCodeCalls c"
    using full_authority_denied[of c] by auto
qed

section \<open>Metadata and filter\<close>

text \<open>What a client reads off the metadata.\<close>

definition info_allows :: "CallInfo \<Rightarrow> RuntimeCallView \<Rightarrow> bool" where
  "info_allows i c \<longleftrightarrow> info_pallet_name i = pallet_name (view_pallet c) \<and> info_call_name i = view_call c \<and>
     (case info_constraint i of
        None \<Rightarrow> True
      | Some (InfoParamLessThan field limit) \<Rightarrow>
          (case map_of (view_fields c) field of Some v \<Rightarrow> v < limit | None \<Rightarrow> False)
      | Some (InfoNestedCallMustBe field p n) \<Rightarrow>
          (case map_of (view_nested c) field of Some (q, k) \<Rightarrow> pallet_name q = p \<and> k = n | None \<Rightarrow> False))"

definition mode_allows :: "FilterMode \<Rightarrow> RuntimeCallView \<Rightarrow> bool" where
  "mode_allows mode c = (case mode of AllowAll \<Rightarrow> True | Allow infos \<Rightarrow> list_ex (\<lambda>i. info_allows i c) infos)"

lemma pallet_name_inj: "pallet_name p = pallet_name q \<longleftrightarrow> p = q"
  by (cases p; cases q) simp_all

lemma generate_call_info_allows: "info_allows (generate_call_info M r) c \<longleftrightarrow> contains_rule r c"
  by (auto simp: info_allows_def generate_call_info_def call_info_by_name_def contains_rule_def call_pattern_def
      condition_holds_def pallet_name_inj Let_def split: option.splits CallConstraint.splits)

lemma set_fold_add: "set (fold (\<lambda>call cs. if call \<notin> set cs then cs @ [call] else cs) xs ys) = set xs \<union> set ys"
  by (induction xs arbitrary: ys) auto

lemma mode_allows_call_infos: "list_ex (\<lambda>i. info_allows i c) (call_infos M rules) \<longleftrightarrow> contains rules c"
  by (auto simp: call_infos_def contains_def list_ex_iff generate_call_info_allows)

lemma proxy_filter_mode_allows: "mode_allows (proxy_filter_mode M t) c \<longleftrightarrow> proxy_type_filter t c"
proof -
  have "list_ex (\<lambda>i. info_allows i c) (add_guards M (call_infos M rules)) \<longleftrightarrow> contains RecipientGuardCalls c \<or> contains rules c" for rules
    using mode_allows_call_infos[of c M] by (simp add: add_guards_def list_ex_iff set_fold_add Bex_def ex_disj_distrib conj_disj_distribR)
  then show ?thesis
    by (auto simp: proxy_filter_mode_def mode_allows_def mode_allows_call_infos proxy_type_filter_lists guard_list_def)
qed

lemma proxy_type_of_u8_inverse: "proxy_type_of_u8 (u8_of_proxy_type t) = Some t"
  by (cases t) (simp_all add: proxy_type_of_u8_def proxy_types_def)

lemma u8_of_proxy_type_inverse: "proxy_type_of_u8 n = Some t \<Longrightarrow> u8_of_proxy_type t = n"
  by (auto simp: proxy_type_of_u8_def proxy_types_def less_Suc_eq nth_Cons' split: if_splits)

lemma u8_of_proxy_type_bound: "u8_of_proxy_type t < 23"
  by (cases t) simp_all

lemma map_filter_bounded:
  assumes "k \<le> n" "\<And>i. k \<le> i \<Longrightarrow> f i = None"
  shows "List.map_filter f [0..<n] = List.map_filter f [0..<k]"
  using assms(1) by (induction n rule: nat_induct_at_least) (auto simp: map_filter_def assms(2))

lemma listed_types:
  "List.map_filter (\<lambda>i. map_option (\<lambda>t. (i, t)) (proxy_type_of_u8 i)) [0..<U8_MAX + 1] = map (\<lambda>i. (i, proxy_types ! i)) [0..<23]"
proof -
  have "List.map_filter (\<lambda>i. map_option (\<lambda>t. (i, t)) (proxy_type_of_u8 i)) [0..<U8_MAX + 1] =
    List.map_filter (\<lambda>i. map_option (\<lambda>t. (i, t)) (proxy_type_of_u8 i)) [0..<23]"
    by (rule map_filter_bounded) (auto simp: U8_MAX_def proxy_type_of_u8_def proxy_types_def)
  also have "\<dots> = map (\<lambda>i. (i, proxy_types ! i)) [0..<23]"
  proof -
    have "map_option (\<lambda>t. (i, t)) (proxy_type_of_u8 i) = Some (i, proxy_types ! i)" if "i \<in> set [0..<23]" for i
      using that by (simp add: proxy_type_of_u8_def proxy_types_def del: upt_rec_numeral)
    then have "map (\<lambda>i. map_option (\<lambda>t. (i, t)) (proxy_type_of_u8 i)) [0..<23] = map (\<lambda>i. Some (i, proxy_types ! i)) [0..<23]"
      by (intro map_cong refl)
    then show ?thesis by (simp add: map_filter_def filter_cong map_eq_conv del: upt_rec_numeral)
  qed
  finally show ?thesis .
qed

lemma proxy_types_nth: "proxy_types ! u8_of_proxy_type t = t"
  using proxy_type_of_u8_inverse[of t] by (auto simp: proxy_type_of_u8_def split: if_splits)

section \<open>Property\<close>

text \<open>
  C38: Metadata.  The API lists the 23 proxy types; every type is listed under its on-chain index, and what the listing says of
  it is what the filter does: a client that follows the metadata allows a call exactly when the filter of the type lets the
  call through.
\<close>

theorem filter_metadata_agrees:
  "length (get_proxy_filters M None) = 23 \<and>
   \<lparr>filter_proxy_type = u8_of_proxy_type t, filter_name = proxy_type_name t, filter_deprecated = is_deprecated t,
    filter_mode = proxy_filter_mode M t\<rparr> \<in> set (get_proxy_filters M None) \<and>
   mode_allows (proxy_filter_mode M t) c = proxy_type_filter t c"
proof -
  have listing: "get_proxy_filters M None = map (\<lambda>i. \<lparr>filter_proxy_type = i, filter_name = proxy_type_name (proxy_types ! i),
    filter_deprecated = is_deprecated (proxy_types ! i), filter_mode = proxy_filter_mode M (proxy_types ! i)\<rparr>) [0..<23]"
    by (simp only: get_proxy_filters_def listed_types option.case) (simp add: comp_def del: upt_rec_numeral)
  have "u8_of_proxy_type t \<in> set [0..<23]" using u8_of_proxy_type_bound by (simp del: upt_rec_numeral)
  then show ?thesis using proxy_filter_mode_allows proxy_types_nth[of t]
    unfolding listing by (force simp del: upt_rec_numeral)
qed

end
