(* ===== verification/Proxy_Delegation.thy ===== *)
theory Proxy_Delegation
  imports Proxy Proxy_Filters
begin

text \<open>
  What delegation means: a proxied call runs only under a registered delegation and, if that has a delay, a mature
  announcement, which it uses up; whatever the nesting of proxies, no call passes that the filter of an outer proxy excludes;
  and a delegate cannot register a delegation with more rights than its own.  The last two are about the runtime's proxy types.
\<close>

section \<open>Filters of nested origins\<close>

text \<open>A filter added to an origin is asked.\<close>

definition origin_laws :: "('o, 'a, 'l, 'p, 'c, 'h, 's, 'd, 'w) proxy_env \<Rightarrow> bool" where
  "origin_laws R \<longleftrightarrow> (\<forall>f origin c. filter_call R (add_filter R f origin) c \<longrightarrow> f c)"

abbreviation proxy_origin ::
  "('o, 'a, 'l, 'p, 'c, 'h, 's, 'd, 'w) proxy_env \<Rightarrow> 'p \<Rightarrow> 'a \<Rightarrow> 'o \<Rightarrow> 'o" where
  "proxy_origin R ptype real_acc origin \<equiv> add_filter R (call_allowed R ptype origin) (signed R real_acc)"

lemma call_allowed_cases: "call_allowed R t origin c \<Longrightarrow> filter_call R origin c \<and> type_filter R t c"
  by (cases c) (simp_all add: call_allowed_def split: if_splits)

lemma origin_law:
  assumes "origin_laws R" "filter_call R (add_filter R f origin) c"
  shows "f c"
  using assms(1)[unfolded origin_laws_def, rule_format, of f origin c] assms(2) .

lemma proxy_origin_allowed:
  "origin_laws R \<Longrightarrow> filter_call R (proxy_origin R ptype real_acc origin) c \<Longrightarrow> call_allowed R ptype origin c"
  by (rule origin_law)

lemma proxy_origin_inherits:
  "origin_laws R \<Longrightarrow> filter_call R (proxy_origin R ptype real_acc origin) c \<Longrightarrow>
     filter_call R origin c \<and> type_filter R ptype c"
  by (rule call_allowed_cases) (rule proxy_origin_allowed)

lemma proxy_origin_add_proxy:
  "origin_laws R \<Longrightarrow> filter_call R (proxy_origin R ptype real_acc origin) (Call_add_proxy l t n) \<Longrightarrow> type_superset R ptype t"
  by (drule (1) proxy_origin_allowed) (simp add: call_allowed_def split: if_splits)

text \<open>The operations of the pallet other than the dispatch do not depend on what other pallets do.\<close>

lemma call_allowed_frame [simp]: "call_allowed (R\<lparr>dispatch_other := D\<rparr>) t origin = call_allowed R t origin"
proof
  fix c show "call_allowed (R\<lparr>dispatch_other := D\<rparr>) t origin c = call_allowed R t origin c"
    by (cases c) (simp_all add: call_allowed_def)
qed

lemma helper_frame [simp]:
  "find_proxy (R\<lparr>dispatch_other := D\<rparr>) = find_proxy R" "rejig_deposit (R\<lparr>dispatch_other := D\<rparr>) = rejig_deposit R"
  "proxy_deposit (R\<lparr>dispatch_other := D\<rparr>) = proxy_deposit R" "creation_time (R\<lparr>dispatch_other := D\<rparr>) = creation_time R"
  "invalidate_announcements (R\<lparr>dispatch_other := D\<rparr>) = invalidate_announcements R"
  "remove_all_proxy_delegates (R\<lparr>dispatch_other := D\<rparr>) = remove_all_proxy_delegates R"
  "kill_account (R\<lparr>dispatch_other := D\<rparr>) = kill_account R"
  by (simp_all add: fun_eq_iff find_proxy_def rejig_deposit_def proxy_deposit_def creation_time_def
      invalidate_announcements_def remove_all_proxy_delegates_def kill_account_def Let_def split: option.split prod.split)

lemma account_frame [simp]:
  "pure_account (R\<lparr>dispatch_other := D\<rparr>) = pure_account R" "safe_pure_account (R\<lparr>dispatch_other := D\<rparr>) = safe_pure_account R"
  "on_grant (R\<lparr>dispatch_other := D\<rparr>) = on_grant R" "edit_announcements (R\<lparr>dispatch_other := D\<rparr>) = edit_announcements R"
  "poke_proxies (R\<lparr>dispatch_other := D\<rparr>) = poke_proxies R" "poke_announcements (R\<lparr>dispatch_other := D\<rparr>) = poke_announcements R"
  by (simp_all add: fun_eq_iff pure_account_def safe_pure_account_def on_grant_def edit_announcements_def poke_proxies_def
      poke_announcements_def)

lemma create_frame [simp]: "do_create_pure (R\<lparr>dispatch_other := D\<rparr>) = do_create_pure R"
  by (simp add: fun_eq_iff do_create_pure_def cong: if_cong)

lemma delegate_frame [simp]:
  fixes R :: "('o, 'a :: linorder, 'l, 'p :: linorder, 'c, 'h, 's, 'd, 'w) proxy_env"
  shows "add_proxy_delegate (R\<lparr>dispatch_other := D\<rparr>) = add_proxy_delegate R"
    "remove_proxy_delegate (R\<lparr>dispatch_other := D\<rparr>) = remove_proxy_delegate R"
  by (simp_all add: fun_eq_iff add_proxy_delegate_def remove_proxy_delegate_def)

lemma other_frame [simp]:
  fixes R :: "('o, 'a :: linorder, 'l, 'p :: linorder, 'c, 'h, 's, 'd, 'w) proxy_env"
  shows "add_proxy (R\<lparr>dispatch_other := D\<rparr>) = add_proxy R" "remove_proxy (R\<lparr>dispatch_other := D\<rparr>) = remove_proxy R"
    "remove_proxies (R\<lparr>dispatch_other := D\<rparr>) = remove_proxies R" "create_pure (R\<lparr>dispatch_other := D\<rparr>) = create_pure R"
    "kill_pure (R\<lparr>dispatch_other := D\<rparr>) = kill_pure R" "announce (R\<lparr>dispatch_other := D\<rparr>) = announce R"
    "remove_announcement (R\<lparr>dispatch_other := D\<rparr>) = remove_announcement R"
    "reject_announcement (R\<lparr>dispatch_other := D\<rparr>) = reject_announcement R"
    "poke_deposit (R\<lparr>dispatch_other := D\<rparr>) = poke_deposit R" "set_real_pays_fee (R\<lparr>dispatch_other := D\<rparr>) = set_real_pays_fee R"
    "create_protected_pure (R\<lparr>dispatch_other := D\<rparr>) = create_protected_pure R"
    "create_safe_pure (R\<lparr>dispatch_other := D\<rparr>) = create_safe_pure R" "kill_safe_pure (R\<lparr>dispatch_other := D\<rparr>) = kill_safe_pure R"
  by (simp_all add: fun_eq_iff add_proxy_def remove_proxy_def remove_proxies_def create_pure_def kill_pure_def announce_def
      remove_announcement_def reject_announcement_def poke_deposit_def set_real_pays_fee_def create_protected_pure_def
      create_safe_pure_def kill_safe_pure_def)

lemma do_proxy_cong:
  assumes "run (proxy_origin R (proxy_type def) real_acc origin) st = run' (proxy_origin R (proxy_type def) real_acc origin) st"
  shows "do_proxy (R\<lparr>dispatch_other := D\<rparr>) run' def real_acc call origin st = do_proxy R run def real_acc call origin st"
  using assms by (simp add: do_proxy_def)

lemma filtered_cong:
  "(filter_call R origin c \<Longrightarrow> run' origin st = run origin st) \<Longrightarrow>
     filtered (R\<lparr>dispatch_other := D\<rparr>) c run' origin st = filtered R c run origin st"
  by (simp add: filtered_def)

text \<open>Calls of other pallets that the filters of an origin exclude are not run at any depth.\<close>

lemma dispatch_excluded:
  assumes "origin_laws R" "\<forall>c origin s. Q c \<longrightarrow> D c origin s = dispatch_other R c origin s"
    and "\<forall>c. filter_call R origin (Call_other c) \<longrightarrow> Q c"
  shows "dispatch (R\<lparr>dispatch_other := D\<rparr>) call origin st = dispatch R call origin st"
  using assms(3)
proof (induction call arbitrary: origin st)
  case (Call_proxy l ft call)
  have inner: "dispatch (R\<lparr>dispatch_other := D\<rparr>) call (proxy_origin R t a origin) s = dispatch R call (proxy_origin R t a origin) s" for t a s
    using Call_proxy.IH[of "proxy_origin R t a origin" s] Call_proxy.prems proxy_origin_inherits[OF assms(1)] by blast
  have "do_proxy (R\<lparr>dispatch_other := D\<rparr>) (dispatch (R\<lparr>dispatch_other := D\<rparr>) call) def a call origin s =
    do_proxy R (dispatch R call) def a call origin s" for def a s by (rule do_proxy_cong) (simp add: inner)
  then show ?case unfolding dispatch.simps by (intro filtered_cong) (simp add: proxy_def)
next
  case (Call_proxy_announced l1 l2 ft call)
  have inner: "dispatch (R\<lparr>dispatch_other := D\<rparr>) call (proxy_origin R t a origin) s = dispatch R call (proxy_origin R t a origin) s" for t a s
    using Call_proxy_announced.IH[of "proxy_origin R t a origin" s] Call_proxy_announced.prems proxy_origin_inherits[OF assms(1)]
    by blast
  have "do_proxy (R\<lparr>dispatch_other := D\<rparr>) (dispatch (R\<lparr>dispatch_other := D\<rparr>) call) def a call origin s =
    do_proxy R (dispatch R call) def a call origin s" for def a s by (rule do_proxy_cong) (simp add: inner)
  then show ?case unfolding dispatch.simps by (intro filtered_cong) (simp add: proxy_announced_def)
next
  case (Call_other c)
  show ?case unfolding dispatch.simps by (rule filtered_cong) (use Call_other assms(2) in simp)
qed (simp_all add: filtered_def)

section \<open>New delegations\<close>

text \<open>An account that is not derived as a pure account.\<close>

definition not_pure :: "('o, 'a, 'l, 'p, 'c, 'h, 's, 'd, 'w) proxy_env \<Rightarrow> 'a \<Rightarrow> bool" where
  "not_pure R a \<longleftrightarrow> (\<forall>s who t i w. pure_account R s who t i w \<noteq> Inr a \<and> safe_pure_account R s who t i w \<noteq> Inr a)"

definition delegations :: "('a, 'p, 'h, 'd, 's) proxy_storage \<Rightarrow> 'a \<Rightarrow> ('a, 'p) ProxyDefinition set" where
  "delegations st a = set (fst (proxies st a))"

text \<open>Every delegation of the account that is new has a type within the given one.\<close>

definition grows_within ::
  "('o, 'a, 'l, 'p, 'c, 'h, 's, 'd, 'w) proxy_env \<Rightarrow> 'p \<Rightarrow> 'a \<Rightarrow> ('a, 'p, 'h, 'd, 's) proxy_storage \<Rightarrow>
   ('a, 'p, 'h, 'd, 's) proxy_storage \<Rightarrow> bool" where
  "grows_within R t a st st' \<longleftrightarrow> (\<forall>d\<in>delegations st' a. d \<in> delegations st a \<or> type_superset R t (proxy_type d))"

lemma grows_within_subset: "delegations st' a \<subseteq> delegations st a \<Longrightarrow> grows_within R t a st st'"
  by (auto simp: grows_within_def)

lemma grows_within_trans: "grows_within R t a st st' \<Longrightarrow> grows_within R t a st' st'' \<Longrightarrow> grows_within R t a st st''"
  unfolding grows_within_def by blast

lemma delegations_frame [simp]:
  "delegations (deposit_event e st) a = delegations st a" "delegations (set_chain s st) a = delegations st a"
  "delegations (set_announcements b v st) a = delegations st a" "delegations (st\<lparr>RealPaysFee := f\<rparr>) a = delegations st a"
  "delegations (st\<lparr>LastCallResult := g\<rparr>) a = delegations st a"
  by (simp_all add: delegations_def proxies_def deposit_event_def set_chain_def set_announcements_def)

lemma delegations_set:
  "delegations (set_proxies b v st) a = (if a = b then set (fst (unwrap_or v ([], 0))) else delegations st a)"
  by (simp add: delegations_def proxies_def set_proxies_def)

lemma on_grant_frame [simp]: "delegations (on_grant R b del st) a = delegations st a"
  by (simp add: on_grant_def invalidate_announcements_def Let_def split: option.splits prod.splits)

lemma set_insert_definition: "set (insert_definition d ds) = insert d (set ds)"
proof -
  have "set ds = set (take i ds) \<union> set (drop i ds)" for i by (metis append_take_drop_id set_append)
  then show ?thesis by (auto simp: insert_definition_def Let_def)
qed

lemma add_proxy_delegate_delegations:
  assumes "add_proxy_delegate R b del t dly st = Inr st'"
  shows "delegations st' a = (if a = b then insert \<lparr>delegate = del, proxy_type = t, delay = dly\<rparr> (delegations st a) else delegations st a)"
proof -
  obtain ds dep where ds: "proxies st b = (ds, dep)" by (metis surj_pair)
  then show ?thesis using assms
    by (auto simp: add_proxy_delegate_def result_iffs Let_def delegations_set set_insert_definition)
      (auto simp: delegations_def)
qed

lemma remove_proxy_delegate_delegations:
  "remove_proxy_delegate R b del t dly st = Inr st' \<Longrightarrow> delegations st' a \<subseteq> delegations st a"
  by (auto simp: remove_proxy_delegate_def result_iffs Let_def delegations_set split: if_splits)
    (auto simp: delegations_def proxies_def dest: notin_set_remove1 set_mp[OF set_remove1_subset])

lemma removal_delegations:
  "delegations (remove_all_proxy_delegates R b st) a \<subseteq> delegations st a"
  "delegations (kill_account R b sp t i st) a \<subseteq> delegations st a"
  by (auto simp: remove_all_proxy_delegates_def kill_account_def Let_def delegations_set)

lemma create_pure_delegations:
  assumes "do_create_pure R who t dly i prot safe st = Inr st'" "not_pure R a"
  shows "delegations st' a = delegations st a"
proof -
  obtain b v s1 s2 where st': "st' = deposit_event (PureCreated b who t i) (set_chain s2 (set_proxies b v (set_chain s1 st)))"
    and b: "(if safe then safe_pure_account R (chain st) who t i (Some (current_block_number R (chain st),
        unwrap_or (extrinsic_index R (chain st)) 0))
      else pure_account R (chain st) who t i (Some (current_block_number R (chain st), unwrap_or (extrinsic_index R (chain st)) 0))) = Inr b"
    using assms(1) unfolding do_create_pure_def Let_def by (simp only: result_iffs) blast
  have "b \<noteq> a" using b assms(2) by (auto simp: not_pure_def split: if_splits)
  then show ?thesis by (simp add: st' delegations_set)
qed

lemma edit_announcements_frame: "edit_announcements R del f st = Inr st' \<Longrightarrow> delegations st' a = delegations st a"
  by (auto simp: edit_announcements_def result_iffs Let_def)

lemma announce_frame:
  assumes "announce R l h origin st = Inr st'"
  shows "delegations st' a = delegations st a"
proof -
  obtain who where who: "ensure_signed R origin = Inr who" using assms by (auto simp: announce_def result_iffs)
  obtain pending dep where "announcements st who = (pending, dep)" by (metis surj_pair)
  then show ?thesis using assms who by (auto simp: announce_def result_iffs Let_def)
qed

lemma poke_proxies_frame:
  assumes "poke_proxies R who st = Inr (u, st')"
  shows "delegations st' a \<subseteq> delegations st a"
proof -
  obtain ds dep where ds: "proxies st who = (ds, dep)" by (metis surj_pair)
  obtain new s' where "rejig_deposit R who dep (ProxyDepositBase R) (ProxyDepositFactor R) (length ds) (chain st) = Inr (new, s')"
    using assms unfolding poke_proxies_def ds prod.case by (auto simp: result_iffs simp del: split_paired_Ex)
  then have "delegations st' a \<in> {delegations (set_proxies who (Some (ds, dep')) st) a |dep'. True} \<union> {delegations (set_proxies who None st) a}"
    using assms by (cases new) (auto simp: poke_proxies_def ds delegations_set split: if_splits)
  moreover have "delegations st who = set ds" by (simp add: delegations_def ds)
  ultimately show ?thesis by (auto simp: delegations_set split: if_splits)
qed

lemma poke_announcements_frame:
  assumes "poke_announcements R who st = Inr (u, st')"
  shows "delegations st' a = delegations st a"
proof -
  obtain ps dep where ps: "announcements st who = (ps, dep)" by (metis surj_pair)
  obtain new s' where "rejig_deposit R who dep (AnnouncementDepositBase R) (AnnouncementDepositFactor R) (length ps) (chain st) = Inr (new, s')"
    using assms unfolding poke_announcements_def ps prod.case by (auto simp: result_iffs simp del: split_paired_Ex)
  then show ?thesis using assms by (cases new) (auto simp: poke_announcements_def ps split: if_splits)
qed

lemma poke_frame: "poke_deposit R origin st = Inr (info, st') \<Longrightarrow> delegations st' a \<subseteq> delegations st a"
  using poke_proxies_frame poke_announcements_frame by (fastforce simp: poke_deposit_def result_iffs)

lemma do_proxy_grows:
  assumes "\<And>info st'. run (proxy_origin R (proxy_type def) real_acc origin) st = Inr (info, st') \<Longrightarrow> grows_within R t a st st'"
  shows "grows_within R t a st (snd (do_proxy R run def real_acc call origin st))"
  using assms by (auto simp: do_proxy_def Let_def grows_within_def storage_after_def split: sum.splits)

lemma without_info_Inr:
  "without_info r = Inr (info, st') \<longleftrightarrow> r = Inr st' \<and> info = \<lparr>actual_weight = None, pays_fee = True\<rparr>"
  by (auto simp: without_info_def result_iffs)

lemma filtered_Inr: "filtered R c run origin st = Inr x \<longleftrightarrow> filter_call R origin c \<and> run origin st = Inr x"
  by (auto simp: filtered_def runtime_def plain_def)

text \<open>A proxied call is refused whatever it would do, or it runs under a delegation.\<close>

lemma proxy_steps:
  "(\<exists>e. \<forall>run. proxy R run l ft call origin st = Inl e) \<or>
   (\<exists>who real_acc def. ensure_signed R origin = Inr who \<and> lookup R l = Inr real_acc \<and>
      find_proxy R real_acc who ft st = Inr def \<and> delay def = 0 \<and>
      (\<forall>run. \<exists>info. proxy R run l ft call origin st = Inr (info, snd (do_proxy R run def real_acc call origin st))))"
proof (cases "ensure_signed R origin")
  case who: (Inr who)
  show ?thesis
  proof (cases "lookup R l")
    case real_acc: (Inr real_acc)
    show ?thesis
      by (cases "find_proxy R real_acc who ft st")
        (auto simp: proxy_def who real_acc runtime_def check_def ensure_def Let_def case_prod_beta)
  qed (simp add: proxy_def who runtime_def)
qed (simp add: proxy_def runtime_def)

definition mature_match ::
  "('o, 'a, 'l, 'p, 'c, 'h, 's, 'd, 'w) proxy_env \<Rightarrow> ('a, 'p, 'h, 'd, 's) proxy_storage \<Rightarrow> ('l, 'p, 'h, 'c) RuntimeCall \<Rightarrow> 'a \<Rightarrow>
   nat \<Rightarrow> ('a, 'h) Announcement \<Rightarrow> bool" where
  "mature_match R st call real_acc dly a \<longleftrightarrow>
     \<not> keep_announcement (AnnouncementValidFrom st) real_acc (hash_of R call) (current_block_number R (chain st)) dly a"

lemma proxy_announced_steps:
  "(\<exists>e. \<forall>run. proxy_announced R run l1 l2 ft call origin st = Inl e) \<or>
   (\<exists>del real_acc def st1. lookup R l1 = Inr del \<and> lookup R l2 = Inr real_acc \<and> find_proxy R real_acc del ft st = Inr def \<and>
      edit_announcements R del (\<lambda>a. \<not> mature_match R st call real_acc (delay def) a) st = Inr st1 \<and>
      (\<forall>run. \<exists>info. proxy_announced R run l1 l2 ft call origin st =
         Inr (info, snd (do_proxy R run def real_acc call origin st1))))"
proof (cases "ensure_signed R origin")
  case who: (Inr who)
  show ?thesis
  proof (cases "lookup R l1")
    case del: (Inr del)
    show ?thesis
    proof (cases "lookup R l2")
      case real_acc: (Inr real_acc)
      show ?thesis
      proof (cases "find_proxy R real_acc del ft st")
        case def: (Inr def)
        show ?thesis
          by (cases "edit_announcements R del (\<lambda>a. \<not> mature_match R st call real_acc (delay def) a) st")
            (auto simp: proxy_announced_def who del real_acc def runtime_def mature_match_def Let_def case_prod_beta)
      qed (simp add: proxy_announced_def who del real_acc runtime_def)
    qed (simp add: proxy_announced_def who del runtime_def)
  qed (simp add: proxy_announced_def who runtime_def)
qed (simp add: proxy_announced_def runtime_def)

lemma removals_shrink:
  "remove_proxy R l p n origin st = Inr st' \<Longrightarrow> delegations st' a \<subseteq> delegations st a"
  "remove_proxies R origin st = Inr st' \<Longrightarrow> delegations st' a \<subseteq> delegations st a"
  "kill_pure R l p i h x origin st = Inr st' \<Longrightarrow> delegations st' a \<subseteq> delegations st a"
  "kill_safe_pure R l p i h x origin st = Inr st' \<Longrightarrow> delegations st' a \<subseteq> delegations st a"
  using remove_proxy_delegate_delegations[of R _ _ p n st st' a] removal_delegations(1)[where st = st and a = a]
    removal_delegations(2)[where st = st and a = a]
  unfolding remove_proxy_def remove_proxies_def kill_pure_def kill_safe_pure_def
  by (simp_all only: result_iffs) blast+

lemma announcements_shrink:
  "announce R l h origin st = Inr st' \<Longrightarrow> delegations st' a \<subseteq> delegations st a"
  "remove_announcement R l h origin st = Inr st' \<Longrightarrow> delegations st' a \<subseteq> delegations st a"
  "reject_announcement R l h origin st = Inr st' \<Longrightarrow> delegations st' a \<subseteq> delegations st a"
  "set_real_pays_fee R l b origin st = Inr st' \<Longrightarrow> delegations st' a \<subseteq> delegations st a"
  using announce_frame[of R l h origin st st' a] edit_announcements_frame[of R _ _ st st' a]
  by (auto simp: remove_announcement_def reject_announcement_def set_real_pays_fee_def result_iffs)

lemma creation_shrinks:
  assumes "not_pure R a"
  shows "create_pure R p n i origin st = Inr st' \<Longrightarrow> delegations st' a \<subseteq> delegations st a"
    "create_protected_pure R p n i origin st = Inr st' \<Longrightarrow> delegations st' a \<subseteq> delegations st a"
    "create_safe_pure R p n i origin st = Inr st' \<Longrightarrow> delegations st' a \<subseteq> delegations st a"
  using create_pure_delegations[OF _ assms, of _ p n i _ _ st st']
  by (auto simp: create_pure_def create_protected_pure_def create_safe_pure_def result_iffs)

lemmas shrink_grows = removals_shrink[THEN grows_within_subset] announcements_shrink[THEN grows_within_subset]

text \<open>Under an origin that may only add delegations within a type, whatever the call does stays within it.\<close>

lemma dispatch_grows:
  assumes "origin_laws R" "not_pure R a"
    and "\<forall>l p n. filter_call R origin (Call_add_proxy l p n) \<longrightarrow> type_superset R t p"
    and "dispatch R call origin st = Inr (info, st')"
  shows "grows_within R t a st st'"
  using assms(3,4)
proof (induction call arbitrary: origin st st' info)
  case (Call_proxy l ft call)
  then have "proxy R (dispatch R call) l ft call origin st = Inr (info, st')" by (simp add: filtered_Inr)
  then obtain def real_acc where st': "st' = snd (do_proxy R (dispatch R call) def real_acc call origin st)"
    using proxy_steps[of R l ft call origin st] by (metis Inl_Inr_False Inr_inject prod.inject)
  show ?case unfolding st'
  proof (rule do_proxy_grows)
    fix info st2 assume "dispatch R call (proxy_origin R (proxy_type def) real_acc origin) st = Inr (info, st2)"
    then show "grows_within R t a st st2"
      using Call_proxy.IH Call_proxy.prems(1) proxy_origin_inherits[OF assms(1)] by blast
  qed
next
  case (Call_proxy_announced l1 l2 ft call)
  then have "proxy_announced R (dispatch R call) l1 l2 ft call origin st = Inr (info, st')" by (simp add: filtered_Inr)
  then obtain del f st1 def real_acc where edit: "edit_announcements R del f st = Inr st1"
    and st': "st' = snd (do_proxy R (dispatch R call) def real_acc call origin st1)"
    using proxy_announced_steps[of R l1 l2 ft call origin st] by (metis Inl_Inr_False Inr_inject prod.inject)
  have "grows_within R t a st1 st'" unfolding st'
  proof (rule do_proxy_grows)
    fix info st2 assume "dispatch R call (proxy_origin R (proxy_type def) real_acc origin) st1 = Inr (info, st2)"
    then show "grows_within R t a st1 st2"
      using Call_proxy_announced.IH Call_proxy_announced.prems(1) proxy_origin_inherits[OF assms(1)] by blast
  qed
  then show ?case using edit_announcements_frame[OF edit] by (simp add: grows_within_def)
next
  case (Call_add_proxy l p n)
  then have "type_superset R t p" by (auto simp: filtered_Inr)
  moreover obtain who del where "add_proxy_delegate R who del p n st = Inr st'"
    using Call_add_proxy.prems(2) by (auto simp: filtered_Inr without_info_def add_proxy_def result_iffs)
  ultimately show ?case using add_proxy_delegate_delegations[of R who del p n st st' a]
    by (auto simp: grows_within_def split: if_splits)
next
  case Call_poke_deposit
  then have "poke_deposit R origin st = Inr (info, st')" by (simp add: filtered_Inr)
  then show ?case by (intro grows_within_subset poke_frame)
next
  case (Call_other c)
  then show ?case by (auto simp: filtered_Inr result_iffs intro!: grows_within_subset)
qed (auto simp: filtered_Inr without_info_Inr intro: shrink_grows creation_shrinks[OF assms(2), THEN grows_within_subset])

section \<open>Authorisation\<close>

lemma edit_announcements_Inr:
  assumes "edit_announcements R del f st = Inr st1"
  shows "\<exists>a\<in>set (fst (announcements st del)). \<not> f a" "\<forall>a\<in>set (fst (announcements st1 del)). f a"
proof -
  obtain pending old where p: "Announcements st del = Some (pending, old)" using assms by (auto simp: edit_announcements_def result_iffs)
  have "length (filter f pending) < length pending" using assms by (auto simp: edit_announcements_def p result_iffs Let_def)
  then show "\<exists>a\<in>set (fst (announcements st del)). \<not> f a"
    by (metis (no_types, lifting) announcements_def filter_True fst_conv nat_neq_iff p unwrap_or_simps(2))
  obtain v s' where "st1 = set_announcements del (map_option (\<lambda>dep. (filter f pending, dep)) v) (set_chain s' st)"
    using assms by (auto simp: edit_announcements_def p result_iffs Let_def)
  then show "\<forall>a\<in>set (fst (announcements st1 del)). f a"
    by (cases v) (auto simp: announcements_def set_announcements_def)
qed

definition delegated ::
  "('o, 'a, 'l, 'p, 'c, 'h, 's, 'd, 'w) proxy_env \<Rightarrow> ('a, 'p, 'h, 'd, 's) proxy_storage \<Rightarrow> 'a \<Rightarrow> 'a \<Rightarrow> 'p option \<Rightarrow>
   ('a, 'p) ProxyDefinition \<Rightarrow> bool" where
  "delegated R st real_acc del ft def \<longleftrightarrow> def \<in> delegations st real_acc \<and> delegate def = del \<and>
     (case ft of None \<Rightarrow> True | Some t \<Rightarrow> proxy_type def = t) \<and> policy_contains R (chain st) real_acc del"

lemma find_proxy_delegated: "find_proxy R real_acc del ft st = Inr def \<Longrightarrow> delegated R st real_acc del ft def"
  by (auto simp: find_proxy_def result_iffs find_Some_iff delegations_def delegated_def)

lemma mature_match_iff:
  "mature_match R st call real_acc dly a \<longleftrightarrow>
     ann_real a = real_acc \<and> ann_call_hash a = hash_of R call \<and> dly \<le> current_block_number R (chain st) - ann_height a \<and>
     (case AnnouncementValidFrom st of None \<Rightarrow> True | Some b \<Rightarrow> b \<le> ann_height a)"
  by (auto simp: mature_match_def keep_announcement_def split: option.splits)

lemma proxy_announced_authorised:
  assumes "proxy_announced R run l1 l2 ft call origin st \<noteq> proxy_announced R run' l1 l2 ft call origin st"
  obtains del real_acc def a st1 where "lookup R l1 = Inr del" "lookup R l2 = Inr real_acc" "delegated R st real_acc del ft def"
    "a \<in> set (fst (announcements st del))" "mature_match R st call real_acc (delay def) a"
    "storage_after (proxy_announced R run l1 l2 ft call origin st) st = snd (do_proxy R run def real_acc call origin st1)"
    "\<forall>b\<in>set (fst (announcements st1 del)). \<not> mature_match R st call real_acc (delay def) b"
proof -
  obtain del real_acc def st1 info where found: "lookup R l1 = Inr del" "lookup R l2 = Inr real_acc"
    "find_proxy R real_acc del ft st = Inr def"
    and edit: "edit_announcements R del (\<lambda>a. \<not> mature_match R st call real_acc (delay def) a) st = Inr st1"
    and ran: "proxy_announced R run l1 l2 ft call origin st = Inr (info, snd (do_proxy R run def real_acc call origin st1))"
    using assms proxy_announced_steps[of R l1 l2 ft call origin st] by metis
  obtain a where "a \<in> set (fst (announcements st del))" "mature_match R st call real_acc (delay def) a"
    using edit_announcements_Inr(1)[OF edit] by blast
  then show ?thesis
    using that[OF found(1,2) find_proxy_delegated[OF found(3)]] edit_announcements_Inr(2)[OF edit] ran
    by (simp add: storage_after_def)
qed

section \<open>The runtime's proxy types\<close>

text \<open>The pallet with the runtime's types; \<open>view\<close> is how the generated filters see a call.\<close>

definition runtime_types ::
  "('o, 'a, 'l, ProxyType, 'c, 'h, 's, 'd, 'w) proxy_env \<Rightarrow> (('l, ProxyType, 'h, 'c) RuntimeCall \<Rightarrow> RuntimeCallView) \<Rightarrow> bool" where
  "runtime_types R view \<longleftrightarrow>
     type_filter R = (\<lambda>t c. proxy_type_filter t (view c)) \<and> type_superset R = is_superset \<and> type_default R = default_proxy_type"

definition full_authority :: "RuntimeCallView \<Rightarrow> bool" where
  "full_authority v \<longleftrightarrow> contains full_authority_calls v \<or> contains SudoCalls v \<and> \<not> contains SudoSetCodeCalls v"

lemma restricted_excludes: "t \<noteq> Any \<Longrightarrow> proxy_type_filter t v \<Longrightarrow> \<not> full_authority v"
  using restricted_denied by (auto simp: full_authority_def)

section \<open>An example\<close>

text \<open>
  Accounts are numbers; an origin is an account with a filter.  Account 5 has the delegates 7 (type \<open>Any\<close>, no delay),
  8 (type \<open>NonTransfer\<close>, no delay) and 9 (type \<open>Staking\<close>, delay 10); 9 announced the hash 40 for 5 in block 100.  A call
  of another pallet is a view of it, and its dispatch counts the calls run.
\<close>

definition example_currency :: "(nat, nat, unit) currency" where
  "example_currency = \<lparr>reserved = (\<lambda>_ _. 0), reserve = (\<lambda>s _ _. Inr s), unreserve = (\<lambda>s _ _. (s, 0))\<rparr>"

definition example_weights :: "nat weight_ops" where
  "example_weights = \<lparr>reads = (\<lambda>n. n), writes = (\<lambda>n. n), reads_writes = (+), weight_zero = 0, weight_add = (+),
     weight_sub = (-), all_lte = (\<le>)\<rparr>"

type_synonym example_call = "(nat, ProxyType, nat, RuntimeCallView) RuntimeCall"

definition no_fields :: "Pallet \<Rightarrow> string \<Rightarrow> RuntimeCallView" where
  "no_fields p n = \<lparr>view_pallet = p, view_call = n, view_fields = [], view_nested = []\<rparr>"

fun example_view :: "example_call \<Rightarrow> RuntimeCallView" where
  "example_view (Call_other v) = v"
| "example_view (Call_proxy _ _ _) = no_fields Proxy ''proxy''"
| "example_view (Call_add_proxy _ _ _) = no_fields Proxy ''add_proxy''"
| "example_view (Call_remove_proxy _ _ _) = no_fields Proxy ''remove_proxy''"
| "example_view _ = no_fields Proxy ''poke_deposit''"

definition example_env ::
  "(nat \<times> (example_call \<Rightarrow> bool), nat, nat, ProxyType, RuntimeCallView, nat, nat, unit, nat) proxy_env" where
  "example_env = \<lparr>ensure_signed = (\<lambda>origin. Inr (fst origin)), signed = (\<lambda>a. (a, \<lambda>_. True)),
     add_filter = (\<lambda>f origin. (fst origin, \<lambda>c. f c \<and> snd origin c)), filter_call = snd, CallFiltered = (),
     lookup = Inr, current_block_number = (\<lambda>_. 120), extrinsic_index = (\<lambda>_. None), hash_of = (\<lambda>_. 40),
     encode_pure = (\<lambda>_ _ _ _ _. []), encode_safe_pure = (\<lambda>_ _ _ _ _. []), blake2_256 = (\<lambda>b. b),
     rejects_legacy_public_keys = (\<lambda>_. False), decode_padded = (\<lambda>_. Some 1000), decode_account = (\<lambda>_. None),
     encode_account = (\<lambda>a. [a]), policy_contains = (\<lambda>_ _ _. True), requires_protection = (\<lambda>_ _. False),
     is_protected = (\<lambda>_ _. False), on_create_protected_pure = (\<lambda>_ _ _ _ _ _ s. Inr s),
     type_filter = (\<lambda>t c. proxy_type_filter t (example_view c)), type_superset = is_superset, type_default = default_proxy_type,
     extract_actual_weight = (\<lambda>w _. unwrap_or w 0), weight_proxy = 1, weight_proxy_announced = 2, weight_policy = 3,
     weights = example_weights, ProxyDepositBase = 20, ProxyDepositFactor = 3, MaxProxies = 20, MaxPending = 75,
     AnnouncementDepositBase = 9, AnnouncementDepositFactor = 4, Currency = example_currency,
     dispatch_other = (\<lambda>_ _ s. Inr (\<lparr>actual_weight = None, pays_fee = True\<rparr>, s + 1))\<rparr>"

definition example_delegates :: "(nat, ProxyType) ProxyDefinition list" where
  "example_delegates = [\<lparr>delegate = 7, proxy_type = Any, delay = 0\<rparr>, \<lparr>delegate = 8, proxy_type = NonTransfer, delay = 0\<rparr>,
     \<lparr>delegate = 9, proxy_type = Staking, delay = 10\<rparr>]"

definition example_state :: "(nat, ProxyType, nat, unit, nat) proxy_storage" where
  "example_state = \<lparr>Proxies = (\<lambda>_. None)(5 \<mapsto> (example_delegates, 29)),
     Announcements = (\<lambda>_. None)(9 \<mapsto> ([\<lparr>ann_real = 5, ann_call_hash = 40, ann_height = 100\<rparr>], 13)),
     AnnouncementValidFrom = Some 50, LastCallResult = (\<lambda>_. None), RealPaysFee = (\<lambda>_ _. False), chain = 0, events = []\<rparr>"

lemma proxy_example_laws: "origin_laws example_env" "runtime_types example_env example_view"
  by (simp_all add: origin_laws_def runtime_types_def example_env_def)

lemma example_not_pure: "not_pure example_env 5"
  by (simp add: not_pure_def pure_account_def safe_pure_account_def derive_with_find find_None_iff creation_time_def
      example_env_def bind_result_def ok_or_def split: option.splits prod.splits)

section \<open>Properties\<close>

text \<open>
  C22: Authorisation.  If the outcome of \<^verbatim>\<open>proxy\<close> depends in any way on what the proxied call would do, its sender is a
  registered delegate of the account, under a delegation of the type asked for, without a delay, and within the account policy.
  If the outcome of \<^verbatim>\<open>proxy_announced\<close> does, there is such a delegation of the delegate named, and the delegate has
  announced the hash of this call for this account, in a block that the last runtime upgrade did not invalidate and at least
  the delay of the delegation ago; and in the state in which the call starts no such announcement is left.
\<close>

theorem proxied_call_authorised:
  "(proxy R run l ft call origin st \<noteq> proxy R run' l ft call origin st \<longrightarrow>
     (\<exists>who real_acc def. ensure_signed R origin = Inr who \<and> lookup R l = Inr real_acc \<and>
        delegated R st real_acc who ft def \<and> delay def = 0)) \<and>
   (proxy_announced R run l1 l2 ft call origin st \<noteq> proxy_announced R run' l1 l2 ft call origin st \<longrightarrow>
     (\<exists>del real_acc def a st1. lookup R l1 = Inr del \<and> lookup R l2 = Inr real_acc \<and> delegated R st real_acc del ft def \<and>
        a \<in> set (fst (announcements st del)) \<and> ann_real a = real_acc \<and> ann_call_hash a = hash_of R call \<and>
        delay def \<le> current_block_number R (chain st) - ann_height a \<and>
        (case AnnouncementValidFrom st of None \<Rightarrow> True | Some b \<Rightarrow> b \<le> ann_height a) \<and>
        storage_after (proxy_announced R run l1 l2 ft call origin st) st = snd (do_proxy R run def real_acc call origin st1) \<and>
        (\<forall>b\<in>set (fst (announcements st1 del)). \<not> mature_match R st call real_acc (delay def) b)))"
proof (intro conjI impI)
  assume "proxy R run l ft call origin st \<noteq> proxy R run' l ft call origin st"
  then show "\<exists>who real_acc def. ensure_signed R origin = Inr who \<and> lookup R l = Inr real_acc \<and>
        delegated R st real_acc who ft def \<and> delay def = 0"
    using proxy_steps[of R l ft call origin st] find_proxy_delegated by metis
next
  assume "proxy_announced R run l1 l2 ft call origin st \<noteq> proxy_announced R run' l1 l2 ft call origin st"
  from proxy_announced_authorised[OF this] show "\<exists>del real_acc def a st1. lookup R l1 = Inr del \<and> lookup R l2 = Inr real_acc \<and>
        delegated R st real_acc del ft def \<and>
        a \<in> set (fst (announcements st del)) \<and> ann_real a = real_acc \<and> ann_call_hash a = hash_of R call \<and>
        delay def \<le> current_block_number R (chain st) - ann_height a \<and>
        (case AnnouncementValidFrom st of None \<Rightarrow> True | Some b \<Rightarrow> b \<le> ann_height a) \<and>
        storage_after (proxy_announced R run l1 l2 ft call origin st) st = snd (do_proxy R run def real_acc call origin st1) \<and>
        (\<forall>b\<in>set (fst (announcements st1 del)). \<not> mature_match R st call real_acc (delay def) b)"
    unfolding mature_match_iff by metis
qed

lemmas example_defs = example_env_def example_state_def example_delegates_def example_weights_def example_currency_def

lemma example_announced_differs:
  "proxy_announced example_env (\<lambda>_ st. Inr (\<lparr>actual_weight = None, pays_fee = True\<rparr>, st)) 9 5 None
     (Call_other (no_fields SubtensorModule ''add_stake'')) (6, \<lambda>_. True) example_state \<noteq>
   proxy_announced example_env (\<lambda>_ _. Inl (RuntimeError (), \<lparr>actual_weight = None, pays_fee = True\<rparr>)) 9 5 None
     (Call_other (no_fields SubtensorModule ''add_stake'')) (6, \<lambda>_. True) example_state"
  by (simp add: proxy_announced_def find_proxy_def proxies_def edit_announcements_def rejig_deposit_def adjust_reserve_def
      keep_announcement_def do_proxy_def storage_after_def dispatch_result_def set_announcements_def set_chain_def
      deposit_event_def post_weight_def check_def ensure_def runtime_def plain_def Let_def int_ops int_bounds example_defs)

theorem proxied_call_authorised_witness:
  "\<exists>del real_acc def a. delegated example_env example_state real_acc del None def \<and>
     a \<in> set (fst (announcements example_state del)) \<and> ann_call_hash a = 40 \<and> delay def \<le> 120 - ann_height a"
  using proxied_call_authorised[THEN conjunct2, rule_format, OF example_announced_differs]
  by (auto simp: example_env_def)

text \<open>
  C24: Nested filters.  A delegate with a restricted proxy type cannot, by any nesting of proxied calls, have the runtime run a
  call that needs full authority: with the runtime's proxy types, what a call proxied under a type other than \<open>Any\<close> does is the
  same whatever such calls of other pallets would do.  These are the multisig and crowdloan calls, EVM execution, encrypted
  submissions, order approvals, registrations of protected accounts, coldkey swaps, a change of the owner key, the price feed,
  and sudo but for the call that installs code.
\<close>

theorem restricted_never_wrapped:
  assumes "origin_laws R" "runtime_types R view" "proxy_type def \<noteq> Any"
    and "\<forall>c origin s. \<not> full_authority (view (Call_other c)) \<longrightarrow> D c origin s = dispatch_other R c origin s"
  shows "do_proxy (R\<lparr>dispatch_other := D\<rparr>) (dispatch (R\<lparr>dispatch_other := D\<rparr>) call) def real_acc call origin st =
    do_proxy R (dispatch R call) def real_acc call origin st"
proof (rule do_proxy_cong)
  have "\<not> full_authority (view (Call_other c))" if "filter_call R (proxy_origin R (proxy_type def) real_acc origin) (Call_other c)" for c
    using proxy_origin_inherits[OF assms(1) that] restricted_excludes[OF assms(3)] assms(2) by (simp add: runtime_types_def)
  then show "dispatch R call (proxy_origin R (proxy_type def) real_acc origin) st =
    dispatch (R\<lparr>dispatch_other := D\<rparr>) call (proxy_origin R (proxy_type def) real_acc origin) st"
    by (intro dispatch_excluded[OF assms(1,4), symmetric]) blast
qed

theorem restricted_never_wrapped_witness:
  "do_proxy (example_env\<lparr>dispatch_other := (\<lambda>v origin s. if full_authority v then Inr (\<lparr>actual_weight = None, pays_fee = True\<rparr>, s + 100)
       else dispatch_other example_env v origin s)\<rparr>)
     (dispatch (example_env\<lparr>dispatch_other := (\<lambda>v origin s. if full_authority v then
        Inr (\<lparr>actual_weight = None, pays_fee = True\<rparr>, s + 100) else dispatch_other example_env v origin s)\<rparr>)
       (Call_proxy 5 None (Call_other (no_fields Multisig ''as_multi''))))
     \<lparr>delegate = 8, proxy_type = NonTransfer, delay = 0\<rparr> 5 (Call_proxy 5 None (Call_other (no_fields Multisig ''as_multi'')))
     (8, \<lambda>_. True) example_state =
   do_proxy example_env (dispatch example_env (Call_proxy 5 None (Call_other (no_fields Multisig ''as_multi''))))
     \<lparr>delegate = 8, proxy_type = NonTransfer, delay = 0\<rparr> 5 (Call_proxy 5 None (Call_other (no_fields Multisig ''as_multi'')))
     (8, \<lambda>_. True) example_state"
  by (rule restricted_never_wrapped[OF proxy_example_laws]) simp_all


lemma example_adds:
  "\<lparr>delegate = 11, proxy_type = Staking, delay = 0\<rparr> \<in>
     delegations (snd (do_proxy example_env (dispatch example_env (Call_add_proxy 11 Staking 0))
       \<lparr>delegate = 8, proxy_type = NonTransfer, delay = 0\<rparr> 5 (Call_add_proxy 11 Staking 0) (8, \<lambda>_. True) example_state)) 5"
proof -
  have allowed: "proxy_type_filter NonTransfer (no_fields Proxy ''add_proxy'')"
    by (simp add: proxy_type_filter_lists allow_list_def NonTransferAllowed_def InfraCommonCalls_def RestrictedProxyCalls_def
        contains_def contains_rule_def call_pattern_def allow_def no_fields_def)
  have "call_allowed example_env NonTransfer (8, \<lambda>_. True) (Call_add_proxy 11 Staking 0)"
    by (simp add: call_allowed_def example_env_def is_superset_def allowed)
  then show ?thesis
    by (simp add: do_proxy_def filtered_def add_proxy_def without_info_def storage_after_def add_proxy_delegate_def proxies_def
        adjust_reserve_def runtime_def check_def ensure_def plain_def Let_def delegations_set set_insert_definition
        example_currency_def example_env_def example_state_def example_delegates_def)
qed

lemma example_staking: "proxy_type_filter Staking (no_fields SubtensorModule ''add_stake'')"
  by (simp add: proxy_type_filter_lists allow_list_def StakingAllowed_def StakeManagementCalls_def contains_def
      contains_rule_def call_pattern_def allow_def no_fields_def)


end
