(* ===== verification/Order_Types.thy ===== *)
theory Order_Types
  imports Prelude
begin

text \<open>
  The data of the limit order pallet, \<^verbatim>\<open>src/pallets/limit-orders/src/lib.rs\<close>, \<^verbatim>\<open>v2.rs\<close> and \<^verbatim>\<open>authorization.rs\<close>:
  signed orders in their versions, the view every execution path reads, order statuses, approvals and linked outputs; and
  the two kinds of fractions the pallet computes with.

  A byte is a \<open>char\<close>.  A \<^verbatim>\<open>Perbill\<close> is its number of parts per billion.
\<close>

section \<open>Numbers\<close>

type_synonym bytes = string
type_synonym H256 = bytes
type_synonym Perbill = nat

definition ACCURACY :: nat where
  "ACCURACY = 1000000000"

definition mul_floor :: "Perbill \<Rightarrow> nat \<Rightarrow> nat" where
  "mul_floor p x = p * x div ACCURACY"

lemma mul_floor_le: "p \<le> ACCURACY \<Longrightarrow> mul_floor p x \<le> x"
  unfolding mul_floor_def by (metis ACCURACY_def div_le_mono div_mult_self1_is_m mult_le_mono1 zero_less_numeral)

text \<open>
  A \<^verbatim>\<open>U64F64\<close> is its 128 bits, the number times \<open>2 ^ 64\<close>.  A product or a quotient is cut off to the bits it has; the
  saturating operations stop at the largest value, the checked division fails there and at zero.
\<close>

type_synonym U64F64 = nat

definition fx_of :: "nat \<Rightarrow> U64F64" where
  "fx_of n = n * 2 ^ 64"

definition fx_saturating_of :: "nat \<Rightarrow> U64F64" where
  "fx_saturating_of n = min U128_MAX (n * 2 ^ 64)"

definition fx_saturating_mul :: "U64F64 \<Rightarrow> U64F64 \<Rightarrow> U64F64" where
  "fx_saturating_mul a b = min U128_MAX (a * b div 2 ^ 64)"

definition fx_checked_div :: "U64F64 \<Rightarrow> U64F64 \<Rightarrow> U64F64 option" where
  "fx_checked_div a b =
     (if b = 0 then None else if a * 2 ^ 64 div b \<le> U128_MAX then Some (a * 2 ^ 64 div b) else None)"

definition fx_floor :: "U64F64 \<Rightarrow> nat" where
  "fx_floor a = a div 2 ^ 64"

text \<open>The cast \<^verbatim>\<open>x as u64\<close> of a \<^verbatim>\<open>u128\<close>.\<close>

definition as_u64 :: "nat \<Rightarrow> nat" where
  "as_u64 x = x mod 2 ^ 64"

lemma as_u64_le: "as_u64 x \<le> x"
  by (simp add: as_u64_def)

lemma as_u64_exact: "x \<le> U64_MAX \<Longrightarrow> as_u64 x = x"
  by (simp add: as_u64_def U64_MAX_def)

section \<open>Orders\<close>

datatype OrderSide = Buy | Sell

datatype OrderType = LimitBuy | TakeProfit | StopLoss

fun is_buy :: "OrderType \<Rightarrow> bool" where
  "is_buy LimitBuy = True"
| "is_buy TakeProfit = False"
| "is_buy StopLoss = False"

datatype 'a LinkedAsset = Tao | Alpha nat 'a

datatype OrderAmount = Fixed nat | LinkedPercentage H256 Perbill

fun is_linked :: "OrderAmount \<Rightarrow> bool" where
  "is_linked (LinkedPercentage _ _) = True"
| "is_linked (Fixed _) = False"

fun fixed :: "OrderAmount \<Rightarrow> nat option" where
  "fixed (Fixed n) = Some n"
| "fixed (LinkedPercentage _ _) = None"

fun linked :: "OrderAmount \<Rightarrow> (H256 \<times> Perbill) option" where
  "linked (LinkedPercentage provider pct) = Some (provider, pct)"
| "linked (Fixed _) = None"

text \<open>The fields that \<^verbatim>\<open>Order\<close>, \<^verbatim>\<open>OrderV2\<close> and \<^verbatim>\<open>OrderView\<close> have in common, and what each has besides.\<close>

record 'a OrderFields =
  signer :: 'a
  hotkey :: 'a
  netuid :: nat
  order_type :: OrderType
  limit_price :: nat
  expiry :: nat
  fee_rate :: Perbill
  fee_recipient :: 'a
  relayer :: "'a list option"
  max_slippage :: "Perbill option"
  chain_id :: nat
  partial_fills_enabled :: bool

record 'a Order = "'a OrderFields" +
  amount_v1 :: nat

record 'a OrderV2 = "'a OrderFields" +
  amount_v2 :: OrderAmount
  has_linked_order_v2 :: bool

record 'a OrderView = "'a OrderFields" +
  authorization_nonce :: "nat option"
  amount :: OrderAmount
  has_linked_order :: bool

definition from_v1 :: "'a Order \<Rightarrow> 'a OrderView" where
  "from_v1 o1 = \<lparr>signer = signer o1, hotkey = hotkey o1, netuid = netuid o1, order_type = order_type o1,
     limit_price = limit_price o1, expiry = expiry o1, fee_rate = fee_rate o1, fee_recipient = fee_recipient o1,
     relayer = relayer o1, max_slippage = max_slippage o1, chain_id = chain_id o1,
     partial_fills_enabled = partial_fills_enabled o1,
     authorization_nonce = None, amount = Fixed (amount_v1 o1), has_linked_order = False\<rparr>"

definition from_v2 :: "'a OrderV2 \<Rightarrow> 'a OrderView" where
  "from_v2 o2 = \<lparr>signer = signer o2, hotkey = hotkey o2, netuid = netuid o2, order_type = order_type o2,
     limit_price = limit_price o2, expiry = expiry o2, fee_rate = fee_rate o2, fee_recipient = fee_recipient o2,
     relayer = relayer o2, max_slippage = max_slippage o2, chain_id = chain_id o2,
     partial_fills_enabled = partial_fills_enabled o2,
     authorization_nonce = None, amount = amount_v2 o2, has_linked_order = has_linked_order_v2 o2\<rparr>"

definition input_asset :: "'a OrderView \<Rightarrow> 'a LinkedAsset" where
  "input_asset order = (if is_buy (order_type order) then Tao else Alpha (netuid order) (hotkey order))"

definition output_asset :: "'a OrderView \<Rightarrow> 'a LinkedAsset" where
  "output_asset order = (if is_buy (order_type order) then Alpha (netuid order) (hotkey order) else Tao)"

datatype 'a OrderTerms = TermsV1 "'a Order" | TermsV2 "'a OrderV2"

datatype 'a VersionedOrder = V1 "'a Order" | V2 "'a OrderV2" | Authorized nat "'a OrderTerms"

fun versioned :: "'a OrderTerms \<Rightarrow> 'a VersionedOrder" where
  "versioned (TermsV1 o1) = V1 o1"
| "versioned (TermsV2 o2) = V2 o2"

text \<open>\<^verbatim>\<open>Err("OrderAlreadyAuthorized")\<close> is the only error of \<^verbatim>\<open>with_nonce\<close>.\<close>

fun with_nonce :: "'a VersionedOrder \<Rightarrow> nat \<Rightarrow> string + 'a VersionedOrder" where
  "with_nonce (V1 o1) nonce = Inr (Authorized nonce (TermsV1 o1))"
| "with_nonce (V2 o2) nonce = Inr (Authorized nonce (TermsV2 o2))"
| "with_nonce (Authorized _ _) nonce = Inl ''OrderAlreadyAuthorized''"

fun is_authorized :: "'a VersionedOrder \<Rightarrow> bool" where
  "is_authorized (Authorized _ _) = True"
| "is_authorized (V1 _) = False"
| "is_authorized (V2 _) = False"

fun authorized_terms :: "'a VersionedOrder \<Rightarrow> (nat \<times> 'a VersionedOrder) option" where
  "authorized_terms (Authorized nonce terms) = Some (nonce, versioned terms)"
| "authorized_terms (V1 _) = None"
| "authorized_terms (V2 _) = None"

text \<open>The projection of the terms of an authorized order is never itself one of an authorized order.\<close>

fun view_terms :: "'a OrderTerms \<Rightarrow> 'a OrderView" where
  "view_terms (TermsV1 o1) = from_v1 o1"
| "view_terms (TermsV2 o2) = from_v2 o2"

fun view :: "'a VersionedOrder \<Rightarrow> 'a OrderView" where
  "view (V1 o1) = from_v1 o1"
| "view (V2 o2) = from_v2 o2"
| "view (Authorized nonce terms) = (view_terms terms)\<lparr>authorization_nonce := Some nonce\<rparr>"

fun signer_of :: "'a VersionedOrder \<Rightarrow> 'a" where
  "signer_of (V1 o1) = signer o1"
| "signer_of (V2 o2) = signer o2"
| "signer_of (Authorized _ (TermsV1 o1)) = signer o1"
| "signer_of (Authorized _ (TermsV2 o2)) = signer o2"

fun version_tag :: "'a VersionedOrder \<Rightarrow> string" where
  "version_tag (V1 _) = ''v1''"
| "version_tag (V2 _) = ''v2''"
| "version_tag (Authorized _ _) = ''authorized''"

lemma view_versioned: "view (versioned terms) = view_terms terms"
  by (cases terms) auto

lemma signer_view [simp]: "signer (view order) = signer_of order"
  by (cases order rule: signer_of.cases) (auto simp: from_v1_def from_v2_def)

lemma nonce_view: "authorization_nonce (view order) = map_option fst (authorized_terms order)"
  by (cases order) (auto simp: from_v1_def from_v2_def)

lemma authorized_terms_None: "authorized_terms order = None \<longleftrightarrow> \<not> is_authorized order"
  by (cases order) auto

lemma with_nonce_terms:
  "with_nonce order nonce = Inr order' \<Longrightarrow> authorized_terms order' = Some (nonce, order) \<and> is_authorized order'"
  by (cases order) auto

text \<open>The view of the terms of an authorized order differs from the view of the order in the nonce only.\<close>

lemma view_terms_nonce:
  "authorized_terms order = Some (nonce, terms) \<Longrightarrow> view order = (view terms)\<lparr>authorization_nonce := Some nonce\<rparr>"
  by (cases order) (auto simp: view_versioned)

section \<open>Proofs and records of an order\<close>

datatype MultiSignature = MultiEd25519 bytes | MultiSr25519 bytes | MultiEcdsa bytes

datatype OrderSignature = Ed25519 bytes | Sr25519 bytes | Ecdsa bytes | AccountApproved

fun is_authenticated :: "OrderSignature \<Rightarrow> bool" where
  "is_authenticated AccountApproved = True"
| "is_authenticated (Ed25519 _) = False"
| "is_authenticated (Sr25519 _) = False"
| "is_authenticated (Ecdsa _) = False"

text \<open>\<^verbatim>\<open>From<MultiSignature>\<close>, and \<^verbatim>\<open>verify\<close> over the verification of the framework.\<close>

fun of_multi_signature :: "MultiSignature \<Rightarrow> OrderSignature" where
  "of_multi_signature (MultiEd25519 s) = Ed25519 s"
| "of_multi_signature (MultiSr25519 s) = Sr25519 s"
| "of_multi_signature (MultiEcdsa s) = Ecdsa s"

fun verify_signature :: "(MultiSignature \<Rightarrow> bytes \<Rightarrow> 'a \<Rightarrow> bool) \<Rightarrow> OrderSignature \<Rightarrow> bytes \<Rightarrow> 'a \<Rightarrow> bool" where
  "verify_signature verify (Ed25519 s) message who = verify (MultiEd25519 s) message who"
| "verify_signature verify (Sr25519 s) message who = verify (MultiSr25519 s) message who"
| "verify_signature verify (Ecdsa s) message who = verify (MultiEcdsa s) message who"
| "verify_signature verify AccountApproved message who = False"

record 'a SignedOrder =
  order :: "'a VersionedOrder"
  signature :: OrderSignature
  partial_fill :: "nat option"

datatype OrderAuthorization = ByAccountApproval

record 'a AuthorizedOrder =
  ao_nonce :: nat
  ao_order :: "'a VersionedOrder"
  ao_authorization :: OrderAuthorization
  ao_partial_fill :: "nat option"

text \<open>\<^verbatim>\<open>TryFrom<AuthorizedOrder> for SignedOrder\<close>.\<close>

definition signed_of_authorized :: "'a AuthorizedOrder \<Rightarrow> string + 'a SignedOrder" where
  "signed_of_authorized a =
     bind_result (with_nonce (ao_order a) (ao_nonce a)) (\<lambda>o'.
     Inr \<lparr>order = o', signature = (case ao_authorization a of ByAccountApproval \<Rightarrow> AccountApproved),
          partial_fill = ao_partial_fill a\<rparr>)"

datatype OrderStatus = Fulfilled | PartiallyFilled nat | Cancelled

definition terminal :: "OrderStatus option \<Rightarrow> bool" where
  "terminal status \<longleftrightarrow> status = Some Fulfilled \<or> status = Some Cancelled"

record OrderApproval =
  ap_id :: H256
  commitment :: bytes
  ap_expiry :: nat
  status :: "OrderStatus option"

record AccountOrderApprovals =
  highest_nonce :: "nat option"
  approvals :: "(nat \<times> OrderApproval) list"

record 'a LinkedOutput =
  lo_signer :: 'a
  asset :: "'a LinkedAsset"
  total :: nat
  expires_at :: nat

text \<open>An order of a batch after validation: what it puts in, what is left after the fee, and its limits.\<close>

record 'a OrderEntry =
  order_id :: H256
  e_nonce :: "nat option"
  e_signer :: 'a
  e_hotkey :: 'a
  side :: OrderType
  gross :: nat
  order_amount :: nat
  net :: nat
  e_fee_rate :: Perbill
  e_fee_recipient :: 'a
  effective_swap_limit :: nat
  e_partial_fill :: "nat option"
  e_has_linked_order :: bool
  provider :: "H256 option"

datatype Error =
    InvalidSignature
  | OrderAlreadyProcessed
  | OrderWasCancelled
  | OrderExpired
  | PriceConditionNotMet
  | Unauthorized
  | SwapReturnedZero
  | RootNetUidNotAllowed
  | OrderNetUidMismatch
  | LimitOrdersDisabled
  | RelayerMissMatch
  | PartialFillsNotEnabled
  | IncorrectPartialFillAmount
  | RelayerRequiredForPartialFill
  | ChainIdMismatch
  | PalletHotkeyNotRegistered
  | ArithmeticOverflow
  | DuplicateOrderInBatch
  | ZeroShareInBatch
  | NoLinkedOutput
  | LinkedOutputSignerMismatch
  | LinkedOutputAssetMismatch
  | LinkedOutputExpired
  | LinkedAmountResolvedToZero
  | PartialFillNotSupportedForLinkedAmount
  | PartialFillNotSupportedForProvider
  | LinkedOutputNotPrunable
  | OrderSignerFrozen
  | OrderNonceUsed
  | OrderNotApproved
  | OrderBatchTooLarge
  | InvalidAuthorizationMode
  | TooManyApprovedOrders
  | OrderAccountMissing

end
