(* ===== verification/Order_Rendering.thy ===== *)
theory Order_Rendering
  imports Order_Types
begin

text \<open>
  The text of an order that a hardware wallet shows and signs, \<^verbatim>\<open>render_order\<close> of
  \<^verbatim>\<open>src/pallets/limit-orders/src/lib.rs\<close> and \<^verbatim>\<open>OrderAmount::render\<close> of \<^verbatim>\<open>v2.rs\<close>, and that it determines the order.
  The address format of accounts (SS58) is an argument.
\<close>

section \<open>Formatting\<close>

text \<open>The standard formats: decimal numbers, lower-case hexadecimal bytes, truth values.\<close>

definition digit :: "nat \<Rightarrow> char" where
  "digit n = char_of (48 + n)"

fun decimal :: "nat \<Rightarrow> string" where
  "decimal n = (if n < 10 then [digit n] else decimal (n div 10) @ [digit (n mod 10)])"

declare decimal.simps [simp del]

definition hex_digit :: "nat \<Rightarrow> char" where
  "hex_digit n = (if n < 10 then char_of (48 + n) else char_of (87 + n))"

definition hex_display :: "bytes \<Rightarrow> string" where
  "hex_display bs = concat (map (\<lambda>c. [hex_digit (of_char c div 16), hex_digit (of_char c mod 16)]) bs)"

definition show_bool :: "bool \<Rightarrow> string" where
  "show_bool b = (if b then ''true'' else ''false'')"

section \<open>The message\<close>

definition LEDGER_MAX_SIGN_SIZE :: nat where
  "LEDGER_MAX_SIGN_SIZE = 256"

definition wrap_bytes :: "bytes \<Rightarrow> bytes" where
  "wrap_bytes payload = ''<Bytes>'' @ payload @ ''</Bytes>''"

fun render_amount :: "OrderAmount \<Rightarrow> string" where
  "render_amount (Fixed n) = decimal n"
| "render_amount (LinkedPercentage p pct) = decimal pct @ '' ppb of order 0x'' @ hex_display p @ '' output''"

fun label :: "OrderType \<Rightarrow> string" where
  "label LimitBuy = ''Limit buy''"
| "label TakeProfit = ''Take-profit''"
| "label StopLoss = ''Stop-loss''"

fun price_word :: "OrderType \<Rightarrow> string" where
  "price_word LimitBuy = ''limit price''"
| "price_word TakeProfit = ''trigger price''"
| "price_word StopLoss = ''trigger price''"

fun render_accounts :: "('a \<Rightarrow> string) \<Rightarrow> 'a list \<Rightarrow> string" where
  "render_accounts ss58 [] = []"
| "render_accounts ss58 [r] = ss58 r"
| "render_accounts ss58 (r # rs) = ss58 r @ ''+'' @ render_accounts ss58 rs"

definition render_relayer :: "('a \<Rightarrow> string) \<Rightarrow> 'a list option \<Rightarrow> string" where
  "render_relayer ss58 who =
     (case who of None \<Rightarrow> ''none'' | Some rs \<Rightarrow> if rs = [] then ''[]'' else render_accounts ss58 rs)"

definition render_slippage :: "Perbill option \<Rightarrow> string" where
  "render_slippage p = (case p of None \<Rightarrow> ''none'' | Some n \<Rightarrow> decimal n)"

fun render_tail :: "'a VersionedOrder \<Rightarrow> string" where
  "render_tail (V1 _) = []"
| "render_tail (V2 o2) = '', has-linked-order '' @ show_bool (has_linked_order_v2 o2)"
| "render_tail (Authorized nonce terms) =
     '', nonce '' @ decimal nonce @ '', has-linked-order '' @ show_bool (has_linked_order (view (Authorized nonce terms)))"

definition render_order :: "('a \<Rightarrow> string) \<Rightarrow> 'a VersionedOrder \<Rightarrow> bytes" where
  "render_order ss58 ord =
     (let o' = view ord
      in ''TAO.com order '' @ version_tag ord @ '': '' @ label (order_type o') @ '' '' @ render_amount (amount o') @
         '' on subnet '' @ decimal (netuid o') @ '', '' @ price_word (order_type o') @ '' '' @ decimal (limit_price o') @
         '', expiry '' @ decimal (expiry o') @ '', hotkey '' @ ss58 (hotkey o') @
         '', fee '' @ decimal (fee_rate o') @ '' to '' @ ss58 (fee_recipient o') @
         '', relayer '' @ render_relayer ss58 (relayer o') @
         '', max slippage '' @ render_slippage (max_slippage o') @ '', chain '' @ decimal (chain_id o') @
         '', partial fills '' @ show_bool (partial_fills_enabled o') @ '', signer '' @ ss58 (signer o') @ render_tail ord)"

section \<open>The message determines the order\<close>

subsection \<open>Numbers and bytes\<close>

definition digits :: "char set" where
  "digits = {c. 48 \<le> (of_char c :: nat) \<and> of_char c \<le> (57 :: nat)}"

definition hex_digits :: "char set" where
  "hex_digits = {c. 48 \<le> (of_char c :: nat) \<and> of_char c \<le> (57 :: nat) \<or> 97 \<le> (of_char c :: nat) \<and> of_char c \<le> (102 :: nat)}"

lemma of_char_digit: "n < 10 \<Longrightarrow> of_char (digit n) = (48 + n :: nat)"
  by (simp add: digit_def)

lemma of_char_hex_digit: "n < 16 \<Longrightarrow> of_char (hex_digit n) = (if n < 10 then 48 + n else 87 + n :: nat)"
  by (simp add: hex_digit_def)

lemma digit_mem: "n < 10 \<Longrightarrow> digit n \<in> digits"
  by (simp add: digits_def of_char_digit)

lemma digit_inj: "m < 10 \<Longrightarrow> n < 10 \<Longrightarrow> digit m = digit n \<Longrightarrow> m = n"
  by (metis add_left_cancel of_char_digit)

lemma decimal_digits: "set (decimal n) \<subseteq> digits"
proof (induction n rule: decimal.induct)
  case (1 n)
  then show ?case
    by (subst decimal.simps) (auto simp: digit_mem)
qed

lemma decimal_nonempty: "decimal n \<noteq> []"
  by (subst decimal.simps) simp

lemma decimal_inj: "decimal m = decimal n \<Longrightarrow> m = n"
proof (induction m arbitrary: n rule: decimal.induct)
  case (1 m)
  have big: "decimal k = decimal (k div 10) @ [digit (k mod 10)]" if "\<not> k < 10" for k
    using that by (subst decimal.simps) simp
  have small: "decimal k = [digit k]" if "k < 10" for k
    using that by (subst decimal.simps) simp
  show ?case
  proof (cases "m < 10")
    case True
    then have "n < 10"
      using "1.prems" small[of m] big[of n] decimal_nonempty[of "n div 10"] by (cases "n < 10") auto
    then show ?thesis using True "1.prems" small digit_inj by fastforce
  next
    case False
    then have n: "\<not> n < 10"
      using "1.prems" small[of n] big[of m] decimal_nonempty[of "m div 10"] by (cases "n < 10") auto
    then have "decimal (m div 10) = decimal (n div 10)" "digit (m mod 10) = digit (n mod 10)"
      using "1.prems" False big[of m] big[of n] by simp_all
    then have "m div 10 = n div 10" "m mod 10 = n mod 10"
      using "1.IH"[OF False] digit_inj by simp_all
    then show ?thesis by (metis div_mult_mod_eq)
  qed
qed

lemma hex_digit_mem: "n < 16 \<Longrightarrow> hex_digit n \<in> hex_digits"
  by (simp add: hex_digits_def of_char_hex_digit)

lemma hex_digit_inj: "m < 16 \<Longrightarrow> n < 16 \<Longrightarrow> hex_digit m = hex_digit n \<Longrightarrow> m = n"
proof -
  assume "m < 16" "n < 16" "hex_digit m = hex_digit n"
  then have "(if m < 10 then 48 + m else 87 + m) = (if n < 10 then 48 + n else 87 + n)"
    by (metis of_char_hex_digit)
  then show "m = n" by (auto split: if_splits)
qed

lemma byte_halves: "of_char (c :: char) div 16 < (16 :: nat)" "of_char (c :: char) mod 16 < (16 :: nat)"
proof -
  have "of_char c < (256 :: nat)" by simp
  then show "of_char c div 16 < (16 :: nat)" by linarith
qed simp

lemma hex_display_digits: "set (hex_display bs) \<subseteq> hex_digits"
  using byte_halves hex_digit_mem by (auto simp: hex_display_def)

lemma hex_display_inj: "hex_display bs = hex_display cs \<Longrightarrow> bs = cs"
proof (induction bs arbitrary: cs)
  case Nil
  then show ?case by (cases cs) (auto simp: hex_display_def)
next
  case (Cons b bs)
  then obtain c cs' where cs: "cs = c # cs'" by (cases cs) (auto simp: hex_display_def)
  have "of_char b div 16 = (of_char c div 16 :: nat)" "of_char b mod 16 = (of_char c mod 16 :: nat)"
    using Cons.prems hex_digit_inj byte_halves unfolding cs by (simp_all add: hex_display_def)
  then have "of_char b = (of_char c :: nat)" by (metis div_mult_mod_eq)
  then have "b = c" by simp
  then show ?case using Cons unfolding cs by (simp add: hex_display_def)
qed

subsection \<open>Fields\<close>

lemma split_until:
  assumes "\<forall>c\<in>set xs. P c" "\<forall>c\<in>set ys. P c" "\<not> P z" "\<not> P w" "xs @ z # zs = ys @ w # ws"
  shows "xs = ys \<and> z = w \<and> zs = ws"
  using assms
proof (induction xs arbitrary: ys)
  case Nil
  then show ?case by (cases ys) auto
next
  case (Cons x xs)
  then show ?case by (cases ys) auto
qed

text \<open>A field without the separator, and what follows it.\<close>

definition field :: "char \<Rightarrow> string \<Rightarrow> bool" where
  "field sep xs \<longleftrightarrow> sep \<notin> set xs"

lemma field_split: "field sep xs \<Longrightarrow> field sep ys \<Longrightarrow> xs @ sep # zs = ys @ sep # ws \<longleftrightarrow> xs = ys \<and> zs = ws"
  using split_until[of xs "\<lambda>c. c \<noteq> sep" ys sep sep zs ws] by (auto simp: field_def)

definition base58 :: "char set" where
  "base58 = set ''123456789ABCDEFGHJKLMNPQRSTUVWXYZabcdefghijkmnopqrstuvwxyz''"

text \<open>
  What the message relies on of the address format: addresses of different accounts differ, consist of base 58 digits, and
  encode at least the 32 bytes of an account, a prefix byte and a checksum of two bytes, one digit or more for each byte.
\<close>

definition ss58_laws :: "('a \<Rightarrow> string) \<Rightarrow> bool" where
  "ss58_laws ss58 \<longleftrightarrow> inj ss58 \<and> (\<forall>a. set (ss58 a) \<subseteq> base58 \<and> 35 \<le> length (ss58 a))"

lemma field_decimal: "sep \<notin> digits \<Longrightarrow> field sep (decimal n)"
  using decimal_digits by (auto simp: field_def)

lemma field_hex: "sep \<notin> hex_digits \<Longrightarrow> field sep (hex_display bs)"
  using hex_display_digits by (auto simp: field_def)

lemma field_ss58: "ss58_laws ss58 \<Longrightarrow> sep \<notin> base58 \<Longrightarrow> field sep (ss58 a)"
  by (auto simp: field_def ss58_laws_def)

lemma field_append: "field sep (xs @ ys) \<longleftrightarrow> field sep xs \<and> field sep ys"
  by (auto simp: field_def)

lemma field_render_accounts:
  "ss58_laws ss58 \<Longrightarrow> sep \<notin> base58 \<Longrightarrow> sep \<noteq> CHR ''+'' \<Longrightarrow> field sep (render_accounts ss58 rs)"
  by (induction ss58 rs rule: render_accounts.induct) (auto simp: field_ss58 field_append, auto simp: field_def)

lemma render_accounts_inj:
  assumes "ss58_laws ss58" "rs \<noteq> []" "qs \<noteq> []" "render_accounts ss58 rs = render_accounts ss58 qs"
  shows "rs = qs"
  using assms(2-)
proof (induction rs arbitrary: qs)
  case (Cons r rs)
  obtain q qs' where qs: "qs = q # qs'" using Cons.prems by (cases qs) auto
  have f: "field CHR ''+'' (ss58 a)" for a by (rule field_ss58[OF assms(1)]) (simp add: base58_def)
  have cons: "render_accounts ss58 (a # as) = ss58 a @ CHR ''+'' # render_accounts ss58 as" if "as \<noteq> []" for a as
    using that by (cases as) auto
  have inj: "ss58 a = ss58 b \<Longrightarrow> a = b" for a b using assms(1) by (auto simp: ss58_laws_def inj_def)
  have plus: False if "ss58 a = xs @ CHR ''+'' # ys" for a xs ys
  proof -
    have "CHR ''+'' \<in> set (ss58 a)" unfolding that by simp
    then show False using f[of a] by (simp add: field_def)
  qed
  show ?case
  proof (cases "rs = []")
    case True
    have "qs' = []"
      using Cons.prems(3) cons[of qs' q] True plus[of r "ss58 q" "render_accounts ss58 qs'"] by (auto simp: qs)
    then show ?thesis using Cons.prems(3) True inj by (simp add: qs)
  next
    case False
    have "qs' \<noteq> []"
      using Cons.prems(3) cons[OF False, of r] plus[of q "ss58 r" "render_accounts ss58 rs"] by (auto simp: qs)
    then show ?thesis
      using Cons.prems(3) cons[OF False, of r] cons[of qs' q] field_split[OF f f] Cons.IH[OF False, of qs'] inj
      by (simp add: qs)
  qed
qed simp

lemma render_accounts_long:
  assumes "ss58_laws ss58" "rs \<noteq> []"
  shows "35 \<le> length (render_accounts ss58 rs)"
  using assms by (induction ss58 rs rule: render_accounts.induct) (auto simp: ss58_laws_def intro: trans_le_add1)

lemma render_relayer_inj:
  assumes laws: "ss58_laws ss58" and eq: "render_relayer ss58 r = render_relayer ss58 q"
  shows "r = q"
proof -
  have long: "render_accounts ss58 rs \<noteq> ''none'' \<and> render_accounts ss58 rs \<noteq> ''[]''" if "rs \<noteq> []" for rs
    using render_accounts_long[OF laws that] by (auto simp: numeral_eq_Suc)
  show ?thesis
    using eq long render_accounts_inj[OF laws] by (auto simp: render_relayer_def split: option.splits if_splits)
qed

lemma field_render_relayer: "ss58_laws ss58 \<Longrightarrow> field CHR '','' (render_relayer ss58 r)"
  by (auto simp: render_relayer_def field_render_accounts base58_def split: option.splits) (auto simp: field_def)

lemma render_slippage_inj: "render_slippage p = render_slippage q \<Longrightarrow> p = q"
proof -
  have "decimal n \<noteq> ''none''" for n
    using decimal_digits[of n] by (auto simp: digits_def)
  then show "render_slippage p = render_slippage q \<Longrightarrow> p = q"
    using decimal_inj by (fastforce simp: render_slippage_def split: option.splits)
qed

lemma field_render_slippage: "field CHR '','' (render_slippage p)"
  by (auto simp: render_slippage_def field_decimal digits_def split: option.splits) (simp add: field_def)

lemma show_bool_inj: "show_bool b = show_bool c \<longleftrightarrow> b = c"
  by (simp add: show_bool_def)

lemma field_show_bool: "field CHR '','' (show_bool b)"
  by (simp add: field_def show_bool_def)

lemma render_amount_split:
  assumes "render_amount a @ '' on subnet '' @ xs = render_amount b @ '' on subnet '' @ ys"
  shows "a = b \<and> xs = ys"
proof -
  have d: "field CHR '' '' (decimal n)" for n by (rule field_decimal) (simp add: digits_def)
  have h: "field CHR '' '' (hex_display bs)" for bs by (rule field_hex) (simp add: hex_digits_def)
  show ?thesis
    using assms by (cases a; cases b) (auto simp: field_split[OF d d] field_split[OF h h] dest: decimal_inj hex_display_inj)
qed

lemma label_split: "label a @ '' '' @ xs = label b @ '' '' @ ys \<Longrightarrow> a = b \<and> xs = ys"
  by (cases a; cases b) simp_all

lemma split_end:
  assumes "field sep xs" "field sep ys" "zs = [] \<or> hd zs = sep" "ws = [] \<or> hd ws = sep" "xs @ zs = ys @ ws"
  shows "xs = ys \<and> zs = ws"
proof -
  have "takeWhile (\<lambda>c. c \<noteq> sep) (us @ vs) = us" if "field sep us" "vs = [] \<or> hd vs = sep" for us vs
    using that by (cases vs) (auto simp: field_def takeWhile_tail takeWhile_eq_all_conv intro!: takeWhile_append2[THEN trans])
  then have "xs = ys" using assms by metis
  then show ?thesis using assms(5) by simp
qed

subsection \<open>Messages\<close>

text \<open>The part of the message up to the maximal slippage, and the rest.\<close>

lemma first_fields:
  assumes laws: "ss58_laws ss58"
    and eq: "render_amount a @ '' on subnet '' @ decimal n @ '', '' @ price_word k @ '' '' @ decimal l @
         '', expiry '' @ decimal e @ '', hotkey '' @ ss58 h @ '', fee '' @ decimal f @ '' to '' @ ss58 r @ '','' @ xs =
       render_amount a' @ '' on subnet '' @ decimal n' @ '', '' @ price_word k @ '' '' @ decimal l' @
         '', expiry '' @ decimal e' @ '', hotkey '' @ ss58 h' @ '', fee '' @ decimal f' @ '' to '' @ ss58 r' @ '','' @ ys"
  shows "a = a' \<and> n = n' \<and> l = l' \<and> e = e' \<and> h = h' \<and> f = f' \<and> r = r' \<and> xs = ys"
proof -
  have c: "field CHR '','' (decimal m)" and b: "field CHR '' '' (decimal m)" for m
    by (rule field_decimal, simp add: digits_def)+
  have s: "field CHR '','' (ss58 m)" for m by (rule field_ss58[OF laws]) (simp add: base58_def)
  have inj: "ss58 u = ss58 v \<Longrightarrow> u = v" for u v using laws by (auto simp: ss58_laws_def inj_def)
  show ?thesis
    using render_amount_split[OF eq] by (auto simp: field_split[OF c c] field_split[OF b b] field_split[OF s s] dest: decimal_inj inj)
qed

lemma last_fields:
  assumes laws: "ss58_laws ss58"
    and tails: "xs = [] \<or> hd xs = CHR '',''" "ys = [] \<or> hd ys = CHR '',''"
    and eq: "'' relayer '' @ render_relayer ss58 r @ '', max slippage '' @ render_slippage m @ '', chain '' @ decimal c @
         '', partial fills '' @ show_bool p @ '', signer '' @ ss58 s @ xs =
       '' relayer '' @ render_relayer ss58 r' @ '', max slippage '' @ render_slippage m' @ '', chain '' @ decimal c' @
         '', partial fills '' @ show_bool p' @ '', signer '' @ ss58 s' @ ys"
  shows "r = r' \<and> m = m' \<and> c = c' \<and> p = p' \<and> s = s' \<and> xs = ys"
proof -
  have d: "field CHR '','' (decimal n)" for n by (rule field_decimal) (simp add: digits_def)
  have a: "field CHR '','' (ss58 n)" for n by (rule field_ss58[OF laws]) (simp add: base58_def)
  note relayers = field_split[OF field_render_relayer field_render_relayer, OF laws laws]
  note splits = relayers field_split[OF field_render_slippage field_render_slippage] field_split[OF d d]
    field_split[OF field_show_bool field_show_bool] show_bool_inj
  have inj: "ss58 u = ss58 v \<Longrightarrow> u = v" for u v using laws by (auto simp: ss58_laws_def inj_def)
  show ?thesis
    using eq by (auto simp: splits dest: render_relayer_inj[OF laws] render_slippage_inj decimal_inj inj split_end[OF a a tails])
qed

lemma tail_start: "render_tail ord = [] \<or> hd (render_tail ord) = CHR '',''"
  by (cases ord) auto

lemma tail_inj:
  "version_tag o1 = version_tag o2 \<Longrightarrow> render_tail o1 = render_tail o2 \<Longrightarrow>
     authorization_nonce (view o1) = authorization_nonce (view o2) \<and> has_linked_order (view o1) = has_linked_order (view o2)"
proof -
  have d: "field CHR '','' (decimal n)" for n by (rule field_decimal) (simp add: digits_def)
  show "version_tag o1 = version_tag o2 \<Longrightarrow> render_tail o1 = render_tail o2 \<Longrightarrow>
     authorization_nonce (view o1) = authorization_nonce (view o2) \<and> has_linked_order (view o1) = has_linked_order (view o2)"
    by (cases o1; cases o2)
      (auto simp: from_v1_def from_v2_def show_bool_inj field_split[OF d d] dest: decimal_inj)
qed

lemma view_inj: "\<not> is_authorized o1 \<Longrightarrow> version_tag o1 = version_tag o2 \<Longrightarrow> view o1 = view o2 \<Longrightarrow> o1 = o2"
  by (cases o1; cases o2) (auto simp: from_v1_def from_v2_def)


text \<open>The law of the address format holds for a format that spells accounts in unary.\<close>

definition unary_ss58 :: "nat \<Rightarrow> string" where
  "unary_ss58 a = replicate (35 + a) CHR ''1''"

lemma unary_ss58_laws: "ss58_laws unary_ss58"
  by (auto simp: ss58_laws_def unary_ss58_def inj_def base58_def replicate_eq_replicate)

definition ex_v1 :: "nat Order" where
  "ex_v1 = \<lparr>signer = 1, hotkey = 2, netuid = 3, order_type = LimitBuy, limit_price = 500, expiry = 90, fee_rate = 7,
     fee_recipient = 4, relayer = None, max_slippage = None, chain_id = 945, partial_fills_enabled = False, amount_v1 = 1000\<rparr>"

definition ex_v2 :: "nat OrderV2" where
  "ex_v2 = \<lparr>signer = 1, hotkey = 2, netuid = 3, order_type = LimitBuy, limit_price = 500, expiry = 90, fee_rate = 7,
     fee_recipient = 4, relayer = None, max_slippage = None, chain_id = 945, partial_fills_enabled = False,
     amount_v2 = Fixed 1000, has_linked_order_v2 = False\<rparr>"

lemma ex_same_text: "render_order unary_ss58 (Authorized 5 (TermsV1 ex_v1)) = render_order unary_ss58 (Authorized 5 (TermsV2 ex_v2))"
  by (simp add: render_order_def ex_v1_def ex_v2_def from_v1_def from_v2_def)


end
