(* ===== verification/Limit_Orders.thy ===== *)
theory Limit_Orders
  imports Order_Rendering Reserves BTree_Map
begin

text \<open>
  The limit order pallet, \<^verbatim>\<open>src/pallets/limit-orders/src/lib.rs\<close> and \<^verbatim>\<open>authorization.rs\<close>: approval, validation and
  execution of signed orders, one by one and in netted batches.

  The pallet is generic in its \<^verbatim>\<open>SwapInterface\<close> (\<^verbatim>\<open>src/primitives/swap-interface\<close>), the time, the account filters and the
  chain id; with the encodings, hashes and the signature check of the framework they are the record \<open>orders_env\<close>.  Its
  operations act on the rest of the chain, of type \<open>'s\<close>.  An operation that moves assets also returns the accounts that the
  system removed while it ran: the pallet is the \<^verbatim>\<open>OnKilledAccount\<close> handler of the runtime.  A failed call has no new
  storage, since every dispatch and every \<^verbatim>\<open>#[transactional]\<close> function is rolled back.
\<close>

section \<open>Storage and environment\<close>

type_synonym 'd DispatchError = "(Error, 'd) dispatch_error"

datatype ('a, 'd) Event =
    OrderExecuted H256 'a nat OrderType nat nat
  | OrderSkipped H256 "'d DispatchError"
  | OrderCancelled H256 'a
  | GroupExecutionSummary nat OrderSide nat nat nat
  | LimitOrdersPalletStatusChanged bool
  | LinkedOutputRecorded H256 'a "'a LinkedAsset" nat nat
  | LinkedOutputConsumed H256 H256 nat nat
  | LinkedOutputPruned H256 nat
  | OrderApproved H256 'a nat

record ('a, 's, 'd) orders_storage =
  Orders :: "H256 \<Rightarrow> OrderStatus option"
  ApprovedOrders :: "'a \<Rightarrow> AccountOrderApprovals option"
  LimitOrdersEnabled :: bool
  LinkedOutputs :: "H256 \<Rightarrow> 'a LinkedOutput option"
  HasMigrationRun :: "bytes \<Rightarrow> bool"
  chain :: 's
  events :: "('a, 'd) Event list"

record ('o, 'a, 's, 'd) orders_env =
  ensure_signed :: "'o \<Rightarrow> 'd + 'a"
  ensure_root :: "'o \<Rightarrow> 'd + unit"
  buy_alpha :: "'s \<Rightarrow> 'a \<Rightarrow> 'a \<Rightarrow> nat \<Rightarrow> nat \<Rightarrow> nat \<Rightarrow> bool \<Rightarrow> 'd + nat \<times> 's \<times> 'a list"
  sell_alpha :: "'s \<Rightarrow> 'a \<Rightarrow> 'a \<Rightarrow> nat \<Rightarrow> nat \<Rightarrow> nat \<Rightarrow> bool \<Rightarrow> 'd + nat \<times> 's \<times> 'a list"
  current_alpha_price :: "'s \<Rightarrow> nat \<Rightarrow> U64F64"
  transfer_tao :: "'s \<Rightarrow> 'a \<Rightarrow> 'a \<Rightarrow> nat \<Rightarrow> 'd + 's \<times> 'a list"
  transfer_staked_alpha :: "'s \<Rightarrow> 'a \<Rightarrow> 'a \<Rightarrow> 'a \<Rightarrow> 'a \<Rightarrow> nat \<Rightarrow> nat \<Rightarrow> bool \<Rightarrow> bool \<Rightarrow> 'd + 's \<times> 'a list"
  register_pallet_hotkey :: "'s \<Rightarrow> 'a \<Rightarrow> 'a \<Rightarrow> ('d + unit) \<times> 's"
  pallet_hotkey_registered :: "'s \<Rightarrow> 'a \<Rightarrow> 'a \<Rightarrow> bool"
  OrderSignerFilter :: "'s \<Rightarrow> 'a \<Rightarrow> bool"
  AuthenticatedOrderSignerFilter :: "'s \<Rightarrow> 'a \<Rightarrow> bool"
  now_ms :: "'s \<Rightarrow> nat"
  providers :: "'s \<Rightarrow> 'a \<Rightarrow> nat"
  sufficients :: "'s \<Rightarrow> 'a \<Rightarrow> nat"
  ChainId :: "'s \<Rightarrow> nat"
  MaxOrdersPerBatch :: nat
  LinkedOutputTtl :: nat
  pallet_account :: 'a
  PalletHotkey :: 'a
  genesis_hash :: H256
  encode_order :: "'a VersionedOrder \<Rightarrow> bytes"
  encode_terms :: "H256 \<times> 'a \<times> nat \<times> 'a VersionedOrder \<Rightarrow> bytes"
  blake2_256 :: "bytes \<Rightarrow> H256"
  shake256_64 :: "bytes list \<Rightarrow> bytes"
  verify :: "MultiSignature \<Rightarrow> bytes \<Rightarrow> 'a \<Rightarrow> bool"
  to_ss58check :: "'a \<Rightarrow> string"

definition deposit_event :: "('a, 'd) Event \<Rightarrow> ('a, 's, 'd) orders_storage \<Rightarrow> ('a, 's, 'd) orders_storage" where
  "deposit_event e st = st\<lparr>events := events st @ [e]\<rparr>"

text \<open>One bounded value per account; removing the account removes it.\<close>

definition on_killed_account :: "'a \<Rightarrow> ('a, 's, 'd) orders_storage \<Rightarrow> ('a, 's, 'd) orders_storage" where
  "on_killed_account who st = st\<lparr>ApprovedOrders := (ApprovedOrders st)(who := None)\<rparr>"

text \<open>An operation of the interface, with the removed accounts reported to the pallet.\<close>

definition effect ::
  "'d + 's \<times> 'a list \<Rightarrow> ('a, 's, 'd) orders_storage \<Rightarrow> 'd DispatchError + ('a, 's, 'd) orders_storage" where
  "effect r st = bind_result (runtime r) (\<lambda>(s, killed). Inr (fold on_killed_account killed (st\<lparr>chain := s\<rparr>)))"

definition effect_value ::
  "'d + nat \<times> 's \<times> 'a list \<Rightarrow> ('a, 's, 'd) orders_storage \<Rightarrow> 'd DispatchError + nat \<times> ('a, 's, 'd) orders_storage" where
  "effect_value r st =
     bind_result (runtime r) (\<lambda>(x, s, killed). Inr (x, fold on_killed_account killed (st\<lparr>chain := s\<rparr>)))"

section \<open>Order ids and approvals\<close>

definition ORDER_ID_DOMAIN :: bytes where
  "ORDER_ID_DOMAIN = ''bittensor/ms/v2/order-id''"

definition MaxAuthorizedOrders :: nat where
  "MaxAuthorizedOrders = 8"

definition MaxPendingOrders :: nat where
  "MaxPendingOrders = 8"

definition derive_authorized_order_id :: "('o, 'a, 's, 'd) orders_env \<Rightarrow> nat \<Rightarrow> 'a VersionedOrder \<Rightarrow> H256" where
  "derive_authorized_order_id E nonce terms =
     blake2_256 E (ORDER_ID_DOMAIN @ encode_terms E (genesis_hash E, signer_of terms, nonce, terms))"

definition order_approval_commitment :: "('o, 'a, 's, 'd) orders_env \<Rightarrow> nat \<Rightarrow> 'a VersionedOrder \<Rightarrow> bytes" where
  "order_approval_commitment E nonce terms =
     shake256_64 E [''bittensor/ms/v2/order-approval'', encode_terms E (genesis_hash E, signer_of terms, nonce, terms)]"

definition derive_order_id :: "('o, 'a, 's, 'd) orders_env \<Rightarrow> 'a VersionedOrder \<Rightarrow> H256" where
  "derive_order_id E ord =
     (case authorized_terms ord of
        Some (nonce, terms) \<Rightarrow> derive_authorized_order_id E nonce terms
      | None \<Rightarrow> blake2_256 E (encode_order E ord))"

definition approved_order :: "('a, 's, 'd) orders_storage \<Rightarrow> 'a \<Rightarrow> nat \<Rightarrow> OrderApproval option" where
  "approved_order st owner nonce =
     (case ApprovedOrders st owner of None \<Rightarrow> None | Some state \<Rightarrow> btree_get (approvals state) nonce)"

definition order_status :: "('a, 's, 'd) orders_storage \<Rightarrow> 'a \<Rightarrow> nat option \<Rightarrow> H256 \<Rightarrow> OrderStatus option" where
  "order_status st owner nonce i =
     (case nonce of
        Some n \<Rightarrow> (case approved_order st owner n of
            None \<Rightarrow> None
          | Some approval \<Rightarrow> if ap_id approval = i then status approval else None)
      | None \<Rightarrow> Orders st i)"

definition set_order_status ::
  "'a \<Rightarrow> nat option \<Rightarrow> H256 \<Rightarrow> OrderStatus \<Rightarrow> ('a, 's, 'd) orders_storage \<Rightarrow> ('a, 's, 'd) orders_storage" where
  "set_order_status owner nonce i s st =
     (case nonce of
        Some n \<Rightarrow> (case ApprovedOrders st owner of
            None \<Rightarrow> st
          | Some state \<Rightarrow> (case btree_get (approvals state) n of
              None \<Rightarrow> st
            | Some approval \<Rightarrow>
                if ap_id approval = i
                then st\<lparr>ApprovedOrders := (ApprovedOrders st)(owner \<mapsto>
                       state\<lparr>approvals := btree_insert n (approval\<lparr>status := Some s\<rparr>) (approvals state)\<rparr>)\<rparr>
                else st))
      | None \<Rightarrow> st\<lparr>Orders := (Orders st)(i \<mapsto> s)\<rparr>)"

text \<open>The mutation of the owner's record inside \<^verbatim>\<open>approve_order\<close>: renew an approval, or add one under a new nonce.\<close>

definition renew_approval ::
  "H256 \<Rightarrow> bytes \<Rightarrow> nat \<Rightarrow> OrderApproval \<Rightarrow> AccountOrderApprovals \<Rightarrow> 'd DispatchError + AccountOrderApprovals" where
  "renew_approval i c nonce existing state =
     bind_result (check (ap_id existing = i) OrderNonceUsed) (\<lambda>_.
     bind_result (check (\<not> terminal (status existing)) OrderAlreadyProcessed) (\<lambda>_.
     Inr (state\<lparr>approvals := btree_insert nonce (existing\<lparr>commitment := c\<rparr>) (approvals state)\<rparr>)))"

definition try_insert_approval ::
  "nat \<Rightarrow> OrderApproval \<Rightarrow> (nat \<times> OrderApproval) list \<Rightarrow> (nat \<times> OrderApproval) list option" where
  "try_insert_approval nonce approval m =
     (if length m < MaxPendingOrders \<or> contains_key m nonce then Some (btree_insert nonce approval m) else None)"

definition add_approval ::
  "H256 \<Rightarrow> bytes \<Rightarrow> nat \<Rightarrow> nat \<Rightarrow> nat \<Rightarrow> AccountOrderApprovals \<Rightarrow> 'd DispatchError + AccountOrderApprovals" where
  "add_approval i c nonce expires now state =
     bind_result (check (case highest_nonce state of None \<Rightarrow> True | Some highest \<Rightarrow> nonce > highest) OrderNonceUsed) (\<lambda>_.
     bind_result (ok_or (try_insert_approval nonce \<lparr>ap_id = i, commitment = c, ap_expiry = expires, status = None\<rparr>
         (filter (\<lambda>(_, a). now \<le> ap_expiry a \<and> \<not> terminal (status a)) (approvals state)))
       (ModuleError TooManyApprovedOrders)) (\<lambda>m.
     Inr (state\<lparr>approvals := m, highest_nonce := Some nonce\<rparr>)))"

definition approve_order ::
  "('o, 'a, 's, 'd) orders_env \<Rightarrow> 'a \<Rightarrow> nat \<Rightarrow> 'a VersionedOrder \<Rightarrow> ('a, 's, 'd) orders_storage \<Rightarrow>
   'd DispatchError + H256 \<times> ('a, 's, 'd) orders_storage" where
  "approve_order E owner nonce terms st =
     bind_result (check (providers E (chain st) owner > 0 \<or> sufficients E (chain st) owner > 0) OrderAccountMissing) (\<lambda>_.
     let i = derive_authorized_order_id E nonce terms;
         expires = expiry (view terms);
         now = now_ms E (chain st);
         state = (case ApprovedOrders st owner of None \<Rightarrow> \<lparr>highest_nonce = None, approvals = []\<rparr> | Some state \<Rightarrow> state)
     in bind_result (check (now \<le> expires) OrderExpired) (\<lambda>_.
        bind_result (case btree_get (approvals state) nonce of
             Some existing \<Rightarrow> renew_approval i (order_approval_commitment E nonce terms) nonce existing state
           | None \<Rightarrow> add_approval i (order_approval_commitment E nonce terms) nonce expires now state) (\<lambda>state'.
        Inr (i, st\<lparr>ApprovedOrders := (ApprovedOrders st)(owner \<mapsto> state')\<rparr>))))"

definition cancel_authenticated_order ::
  "('o, 'a, 's, 'd) orders_env \<Rightarrow> 'a \<Rightarrow> nat \<Rightarrow> 'a VersionedOrder \<Rightarrow> ('a, 's, 'd) orders_storage \<Rightarrow>
   'd DispatchError + ('a, 's, 'd) orders_storage" where
  "cancel_authenticated_order E who nonce terms st =
     (let i = derive_authorized_order_id E nonce terms
      in bind_result
           (case ApprovedOrders st who of
              None \<Rightarrow> Inr st
            | Some state \<Rightarrow> (case btree_get (approvals state) nonce of
                None \<Rightarrow> Inr st
              | Some approval \<Rightarrow>
                  bind_result (check (ap_id approval = i) OrderNonceUsed) (\<lambda>_.
                  bind_result (check (\<not> terminal (status approval)) OrderAlreadyProcessed) (\<lambda>_.
                  Inr (st\<lparr>ApprovedOrders := (ApprovedOrders st)(who \<mapsto>
                         state\<lparr>approvals := btree_insert nonce (approval\<lparr>status := Some Cancelled\<rparr>) (approvals state)\<rparr>)\<rparr>)))))
           (\<lambda>st'. Inr (deposit_event (OrderCancelled i who) st')))"

definition authenticated_order :: "'a SignedOrder \<Rightarrow> 'd DispatchError + 'a AuthorizedOrder option" where
  "authenticated_order signed =
     (case authorized_terms (order signed) of
        None \<Rightarrow> bind_result (check (\<not> is_authenticated (signature signed)) InvalidAuthorizationMode) (\<lambda>_. Inr None)
      | Some (nonce, terms) \<Rightarrow>
          bind_result (case signature signed of
               AccountApproved \<Rightarrow> Inr ByAccountApproval
             | _ \<Rightarrow> Inl (ModuleError InvalidAuthorizationMode)) (\<lambda>authorization.
          Inr (Some \<lparr>ao_nonce = nonce, ao_order = terms, ao_authorization = authorization,
                     ao_partial_fill = partial_fill signed\<rparr>)))"

definition uses_approval :: "'a SignedOrder \<Rightarrow> bool" where
  "uses_approval signed \<longleftrightarrow> is_authorized (order signed) \<or> is_authenticated (signature signed)"

definition check_authorized_batch_bound :: "'a SignedOrder list \<Rightarrow> 'd DispatchError + unit" where
  "check_authorized_batch_bound orders =
     check (length (filter uses_approval orders) \<le> MaxAuthorizedOrders) OrderBatchTooLarge"

text \<open>The weights of the two execution calls, over the benchmarked functions for plain and for authenticated orders.\<close>

definition execute_orders_weight :: "(nat \<Rightarrow> 'w) \<Rightarrow> (nat \<Rightarrow> nat \<Rightarrow> 'w) \<Rightarrow> 'a SignedOrder list \<Rightarrow> 'w" where
  "execute_orders_weight execute_plain execute_authenticated orders =
     (let count = length (filter uses_approval orders)
      in if count = 0 then execute_plain (length orders)
         else execute_authenticated (max (length orders) 8) count)"

definition execute_batched_orders_weight :: "(nat \<Rightarrow> 'w) \<Rightarrow> (nat \<Rightarrow> nat \<Rightarrow> 'w) \<Rightarrow> 'a SignedOrder list \<Rightarrow> 'w" where
  "execute_batched_orders_weight execute_plain execute_authenticated orders =
     (let count = length (filter uses_approval orders)
      in if count = 0 then execute_plain (length orders)
         else execute_authenticated (max (length orders) 8) count)"

section \<open>Signatures\<close>

fun curve_signature :: "OrderSignature \<Rightarrow> bool" where
  "curve_signature (Sr25519 _) = True"
| "curve_signature (Ed25519 _) = True"
| "curve_signature (Ecdsa _) = False"
| "curve_signature AccountApproved = False"

definition verify_order :: "('o, 'a, 's, 'd) orders_env \<Rightarrow> 'a SignedOrder \<Rightarrow> bool" where
  "verify_order E signed \<longleftrightarrow> curve_signature (signature signed) \<and>
     verify_signature (verify E) (signature signed) (encode_order E (order signed)) (signer_of (order signed))"

definition verify_wrapped :: "('o, 'a, 's, 'd) orders_env \<Rightarrow> 'a SignedOrder \<Rightarrow> H256 \<Rightarrow> bool" where
  "verify_wrapped E signed i \<longleftrightarrow> curve_signature (signature signed) \<and>
     verify_signature (verify E) (signature signed) (wrap_bytes i) (signer_of (order signed))"

definition verify_readable :: "('o, 'a, 's, 'd) orders_env \<Rightarrow> 'a SignedOrder \<Rightarrow> bool" where
  "verify_readable E signed \<longleftrightarrow>
     (let payload = wrap_bytes (render_order (to_ss58check E) (order signed));
          signed_bytes = (if length payload > LEDGER_MAX_SIGN_SIZE then blake2_256 E payload else payload)
      in curve_signature (signature signed) \<and>
         verify_signature (verify E) (signature signed) signed_bytes (signer_of (order signed)))"

section \<open>Validation\<close>

definition compute_effective_swap_limit :: "bool \<Rightarrow> nat \<Rightarrow> Perbill option \<Rightarrow> nat" where
  "compute_effective_swap_limit buys limit slippage =
     (case slippage of
        None \<Rightarrow> if buys then U64_MAX else 0
      | Some p \<Rightarrow>
          (let delta = mul_floor p limit
           in if buys then saturating_add U64_MAX limit delta else saturating_sub limit delta))"

definition resolve_amount ::
  "('a, 's, 'd) orders_storage \<Rightarrow> 'a OrderView \<Rightarrow> nat \<Rightarrow> 'd DispatchError + nat \<times> H256 option" where
  "resolve_amount st ord now =
     (case linked (amount ord) of
        None \<Rightarrow> Inr (unwrap_or (fixed (amount ord)) 0, None)
      | Some (p, pct) \<Rightarrow>
          bind_result (ok_or (LinkedOutputs st p) (ModuleError NoLinkedOutput)) (\<lambda>entry.
          bind_result (check (lo_signer entry = signer ord) LinkedOutputSignerMismatch) (\<lambda>_.
          bind_result (check (asset entry = input_asset ord) LinkedOutputAssetMismatch) (\<lambda>_.
          bind_result (check (now \<le> expires_at entry) LinkedOutputExpired) (\<lambda>_.
          let resolved = mul_floor pct (total entry)
          in bind_result (check (resolved > 0) LinkedAmountResolvedToZero) (\<lambda>_.
             Inr (resolved, Some p)))))))"

definition price_met :: "OrderType \<Rightarrow> nat \<Rightarrow> nat \<Rightarrow> bool" where
  "price_met kind scaled_price limit =
     (case kind of TakeProfit \<Rightarrow> scaled_price \<ge> limit | StopLoss \<Rightarrow> scaled_price \<le> limit | LimitBuy \<Rightarrow> scaled_price \<le> limit)"

definition check_fill ::
  "'a OrderView \<Rightarrow> OrderStatus option \<Rightarrow> nat option \<Rightarrow> nat \<Rightarrow> 'd DispatchError + unit" where
  "check_fill ord ord_status pf resolved =
     (case pf of
        Some fill \<Rightarrow>
          bind_result (check (\<not> is_linked (amount ord)) PartialFillNotSupportedForLinkedAmount) (\<lambda>_.
          bind_result (check (\<not> has_linked_order ord) PartialFillNotSupportedForProvider) (\<lambda>_.
          bind_result (check (relayer ord \<noteq> None) RelayerRequiredForPartialFill) (\<lambda>_.
          bind_result (check (partial_fills_enabled ord) PartialFillsNotEnabled) (\<lambda>_.
          let max_fill = (case ord_status of
                Some (PartiallyFilled already_filled) \<Rightarrow> saturating_sub resolved already_filled
              | _ \<Rightarrow> resolved)
          in check (fill > 0 \<and> fill \<le> max_fill) IncorrectPartialFillAmount))))
      | None \<Rightarrow> check (case ord_status of Some (PartiallyFilled _) \<Rightarrow> False | _ \<Rightarrow> True) IncorrectPartialFillAmount)"

definition validate_order_execution ::
  "('a, 's, 'd) orders_storage \<Rightarrow> 'a OrderView \<Rightarrow> nat option \<Rightarrow> H256 \<Rightarrow> nat \<Rightarrow> U64F64 \<Rightarrow> 'a \<Rightarrow>
   'd DispatchError + nat \<times> H256 option" where
  "validate_order_execution st ord pf i now current_price who =
     (let ord_status = order_status st (signer ord) (authorization_nonce ord) i;
          scaled_price = fx_floor (fx_saturating_mul current_price (fx_of 1000000000))
      in bind_result (check (ord_status \<noteq> Some Fulfilled) OrderAlreadyProcessed) (\<lambda>_.
         bind_result (check (ord_status \<noteq> Some Cancelled) OrderWasCancelled) (\<lambda>_.
         bind_result (check (now \<le> expiry ord) OrderExpired) (\<lambda>_.
         bind_result (check (price_met (order_type ord) scaled_price (limit_price ord)) PriceConditionNotMet) (\<lambda>_.
         bind_result (check (case relayer ord of None \<Rightarrow> True | Some forced \<Rightarrow> who \<in> set forced) RelayerMissMatch) (\<lambda>_.
         bind_result (resolve_amount st ord now) (\<lambda>(resolved, prov).
         bind_result (check_fill ord ord_status pf resolved) (\<lambda>_.
         Inr (resolved, prov)))))))))"

definition validate_authorized_order ::
  "('o, 'a, 's, 'd) orders_env \<Rightarrow> ('a, 's, 'd) orders_storage \<Rightarrow> 'a AuthorizedOrder \<Rightarrow> 'a OrderView \<Rightarrow> H256 \<Rightarrow> nat \<Rightarrow>
   U64F64 \<Rightarrow> 'a \<Rightarrow> 'd DispatchError + nat \<times> H256 option" where
  "validate_authorized_order E st signed ord i now price who =
     bind_result (check (netuid ord \<noteq> 0) RootNetUidNotAllowed) (\<lambda>_.
     bind_result (check (AuthenticatedOrderSignerFilter E (chain st) (signer ord)) OrderSignerFrozen) (\<lambda>_.
     bind_result (check (chain_id ord = ChainId E (chain st)) ChainIdMismatch) (\<lambda>_.
     bind_result (ok_or (approved_order st (signer ord) (ao_nonce signed)) (ModuleError OrderNotApproved)) (\<lambda>approval.
     bind_result (check (ap_id approval = i) OrderNonceUsed) (\<lambda>_.
     bind_result (validate_order_execution st ord (ao_partial_fill signed) i now price who) (\<lambda>(resolved, prov).
     bind_result (case ao_authorization signed of
          ByAccountApproval \<Rightarrow>
            check (commitment approval = order_approval_commitment E (ao_nonce signed) (ao_order signed)) OrderNotApproved)
       (\<lambda>_. Inr (resolved, prov))))))))"

definition is_order_valid ::
  "('o, 'a, 's, 'd) orders_env \<Rightarrow> ('a, 's, 'd) orders_storage \<Rightarrow> 'a SignedOrder \<Rightarrow> H256 \<Rightarrow> nat \<Rightarrow> U64F64 \<Rightarrow> 'a \<Rightarrow>
   'd DispatchError + nat \<times> H256 option" where
  "is_order_valid E st signed i now current_price who =
     bind_result (authenticated_order signed) (\<lambda>authenticated.
     case authenticated of
       Some a \<Rightarrow> validate_authorized_order E st a (view (order signed)) i now current_price who
     | None \<Rightarrow>
         (let ord = view (order signed)
          in bind_result (check (netuid ord \<noteq> 0) RootNetUidNotAllowed) (\<lambda>_.
             bind_result (check (OrderSignerFilter E (chain st) (signer ord)) OrderSignerFrozen) (\<lambda>_.
             bind_result (check (chain_id ord = ChainId E (chain st)) ChainIdMismatch) (\<lambda>_.
             bind_result (check (verify_order E signed \<or> verify_wrapped E signed i \<or> verify_readable E signed)
               InvalidSignature) (\<lambda>_.
             validate_order_execution st ord (partial_fill signed) i now current_price who))))))"

section \<open>Execution of one order\<close>

definition forward_fee ::
  "('o, 'a, 's, 'd) orders_env \<Rightarrow> 'a \<Rightarrow> 'a \<Rightarrow> nat \<Rightarrow> ('a, 's, 'd) orders_storage \<Rightarrow>
   'd DispatchError + ('a, 's, 'd) orders_storage" where
  "forward_fee E from recipient fee_tao st =
     (if fee_tao = 0 then Inr st else effect (transfer_tao E (chain st) from recipient fee_tao) st)"

definition consume_linked_output ::
  "H256 \<Rightarrow> H256 \<Rightarrow> nat \<Rightarrow> ('a, 's, 'd) orders_storage \<Rightarrow> 'd DispatchError + ('a, 's, 'd) orders_storage" where
  "consume_linked_output p consumer drawn st =
     bind_result (ok_or (LinkedOutputs st p) (ModuleError NoLinkedOutput)) (\<lambda>entry.
     Inr (deposit_event (LinkedOutputConsumed p consumer drawn (saturating_sub (total entry) drawn))
       (st\<lparr>LinkedOutputs := (LinkedOutputs st)(p := None)\<rparr>)))"

definition consume_if_linked ::
  "H256 option \<Rightarrow> H256 \<Rightarrow> nat \<Rightarrow> ('a, 's, 'd) orders_storage \<Rightarrow> 'd DispatchError + ('a, 's, 'd) orders_storage" where
  "consume_if_linked prov consumer drawn st =
     (case prov of None \<Rightarrow> Inr st | Some p \<Rightarrow> consume_linked_output p consumer drawn st)"

definition record_linked_output ::
  "('o, 'a, 's, 'd) orders_env \<Rightarrow> H256 \<Rightarrow> 'a \<Rightarrow> 'a LinkedAsset \<Rightarrow> bool \<Rightarrow> nat \<Rightarrow> ('a, 's, 'd) orders_storage \<Rightarrow>
   ('a, 's, 'd) orders_storage" where
  "record_linked_output E i owner produced flagged amount_out st =
     (if \<not> flagged \<or> amount_out = 0 then st
      else let expires = saturating_add U64_MAX (now_ms E (chain st)) (LinkedOutputTtl E)
           in deposit_event (LinkedOutputRecorded i owner produced amount_out expires)
                (st\<lparr>LinkedOutputs := (LinkedOutputs st)(i \<mapsto>
                   \<lparr>lo_signer = owner, asset = produced, total = amount_out, expires_at = expires\<rparr>)\<rparr>))"

definition compute_order_status ::
  "('a, 's, 'd) orders_storage \<Rightarrow> 'a \<Rightarrow> nat option \<Rightarrow> H256 \<Rightarrow> nat option \<Rightarrow> nat \<Rightarrow> OrderStatus" where
  "compute_order_status st owner nonce i fill_amount full =
     (case fill_amount of
        None \<Rightarrow> Fulfilled
      | Some fill \<Rightarrow>
          (let already_filled = (case order_status st owner nonce i of Some (PartiallyFilled n) \<Rightarrow> n | _ \<Rightarrow> 0);
               new_total = saturating_add U64_MAX already_filled fill
           in if new_total \<ge> full then Fulfilled else PartiallyFilled new_total))"

text \<open>The swap of an order, with its fee taken from the input of a buy or from the output of a sell.\<close>

definition trade ::
  "('o, 'a, 's, 'd) orders_env \<Rightarrow> 'a OrderView \<Rightarrow> nat \<Rightarrow> ('a, 's, 'd) orders_storage \<Rightarrow>
   'd DispatchError + nat \<times> nat \<times> ('a, 's, 'd) orders_storage" where
  "trade E ord fill st =
     (let limit = compute_effective_swap_limit (is_buy (order_type ord)) (limit_price ord) (max_slippage ord)
      in if is_buy (order_type ord) then
           let fee_tao = mul_floor (fee_rate ord) fill;
               tao_after_fee = saturating_sub fill fee_tao
           in bind_result (effect_value
                (buy_alpha E (chain st) (signer ord) (hotkey ord) (netuid ord) tao_after_fee limit True) st) (\<lambda>(alpha_out, st1).
              bind_result (forward_fee E (signer ord) (fee_recipient ord) fee_tao st1) (\<lambda>st2.
              Inr (tao_after_fee, alpha_out, st2)))
         else
           bind_result (effect_value
             (sell_alpha E (chain st) (signer ord) (hotkey ord) (netuid ord) fill limit True) st) (\<lambda>(tao_out, st1).
           let fee_tao = mul_floor (fee_rate ord) tao_out
           in bind_result (forward_fee E (signer ord) (fee_recipient ord) fee_tao st1) (\<lambda>st2.
              Inr (fill, saturating_sub tao_out fee_tao, st2))))"

definition execute_validated_order ::
  "('o, 'a, 's, 'd) orders_env \<Rightarrow> 'a OrderView \<Rightarrow> nat option \<Rightarrow> H256 \<Rightarrow> nat \<Rightarrow> H256 option \<Rightarrow> ('a, 's, 'd) orders_storage \<Rightarrow>
   'd DispatchError + ('a, 's, 'd) orders_storage" where
  "execute_validated_order E ord pf i resolved prov st =
     bind_result (trade E ord (unwrap_or pf resolved) st) (\<lambda>(amount_in, amount_out, st1).
     bind_result (consume_if_linked prov i resolved st1) (\<lambda>st2.
     let new_status = compute_order_status st2 (signer ord) (authorization_nonce ord) i pf resolved;
         st3 = set_order_status (signer ord) (authorization_nonce ord) i new_status st2;
         st4 = record_linked_output E i (signer ord) (output_asset ord) (has_linked_order ord) amount_out st3
     in Inr (deposit_event (OrderExecuted i (signer ord) (netuid ord) (order_type ord) amount_in amount_out) st4)))"

definition try_execute_authorized_order ::
  "('o, 'a, 's, 'd) orders_env \<Rightarrow> 'a AuthorizedOrder \<Rightarrow> H256 \<Rightarrow> 'a \<Rightarrow> ('a, 's, 'd) orders_storage \<Rightarrow>
   'd DispatchError + ('a, 's, 'd) orders_storage" where
  "try_execute_authorized_order E signed i who st =
     (let ord = (view (ao_order signed))\<lparr>authorization_nonce := Some (ao_nonce signed)\<rparr>;
          now = now_ms E (chain st);
          price = current_alpha_price E (chain st) (netuid ord)
      in bind_result (validate_authorized_order E st signed ord i now price who) (\<lambda>(resolved, prov).
         execute_validated_order E ord (ao_partial_fill signed) i resolved prov st))"

definition try_execute_order ::
  "('o, 'a, 's, 'd) orders_env \<Rightarrow> 'a SignedOrder \<Rightarrow> H256 \<Rightarrow> 'a \<Rightarrow> ('a, 's, 'd) orders_storage \<Rightarrow>
   'd DispatchError + ('a, 's, 'd) orders_storage" where
  "try_execute_order E signed i who st =
     bind_result (authenticated_order signed) (\<lambda>authenticated.
     case authenticated of
       Some a \<Rightarrow> try_execute_authorized_order E a i who st
     | None \<Rightarrow>
         (let ord = view (order signed);
              now = now_ms E (chain st);
              current_price = current_alpha_price E (chain st) (netuid ord)
          in bind_result (is_order_valid E st signed i now current_price who) (\<lambda>(resolved, prov).
             execute_validated_order E ord (partial_fill signed) i resolved prov st)))"

section \<open>Batches\<close>

definition classify_order :: "'a OrderView \<Rightarrow> nat option \<Rightarrow> H256 \<Rightarrow> nat \<Rightarrow> H256 option \<Rightarrow> 'a OrderEntry" where
  "classify_order ord pf i resolved prov =
     (let amount_in = unwrap_or pf resolved
      in \<lparr>order_id = i, e_nonce = authorization_nonce ord, e_signer = signer ord, e_hotkey = hotkey ord,
          side = order_type ord, gross = amount_in, order_amount = resolved,
          net = (if is_buy (order_type ord) then saturating_sub amount_in (mul_floor (fee_rate ord) amount_in) else amount_in),
          e_fee_rate = fee_rate ord, e_fee_recipient = fee_recipient ord,
          effective_swap_limit =
            compute_effective_swap_limit (is_buy (order_type ord)) (limit_price ord) (max_slippage ord),
          e_partial_fill = pf, e_has_linked_order = has_linked_order ord, provider = prov\<rparr>)"

text \<open>
  The body of the validation loop that \<^verbatim>\<open>validate_and_classify\<close> and \<^verbatim>\<open>do_execute_authenticated_batch\<close> share: the ids and the
  providers seen so far, and the classified entry.
\<close>

definition validate_entry ::
  "('o, 'a, 's, 'd) orders_env \<Rightarrow> ('a, 's, 'd) orders_storage \<Rightarrow> nat \<Rightarrow> nat \<Rightarrow> U64F64 \<Rightarrow> 'a \<Rightarrow> 'a SignedOrder \<Rightarrow>
   H256 list \<times> H256 list \<Rightarrow> 'd DispatchError + 'a OrderEntry \<times> H256 list \<times> H256 list" where
  "validate_entry E st batch_netuid now price who signed seen =
     (case seen of (seen_ids, seen_providers) \<Rightarrow>
      let i = derive_order_id E (order signed); ord = view (order signed)
      in bind_result (check (i \<notin> set seen_ids) DuplicateOrderInBatch) (\<lambda>_.
         bind_result (check (netuid ord = batch_netuid) OrderNetUidMismatch) (\<lambda>_.
         bind_result (is_order_valid E st signed i now price who) (\<lambda>(resolved, prov).
         bind_result (check (case prov of None \<Rightarrow> True | Some p \<Rightarrow> p \<notin> set seen_providers) NoLinkedOutput) (\<lambda>_.
         Inr (classify_order ord (partial_fill signed) i resolved prov,
              i # seen_ids, (case prov of None \<Rightarrow> seen_providers | Some p \<Rightarrow> p # seen_providers)))))))"

text \<open>\<^verbatim>\<open>BoundedVec::try_push\<close>.\<close>

definition try_push :: "nat \<Rightarrow> 'x list \<Rightarrow> 'x \<Rightarrow> 'x list option" where
  "try_push bound xs x = (if length xs < bound then Some (xs @ [x]) else None)"

definition validate_and_classify ::
  "('o, 'a, 's, 'd) orders_env \<Rightarrow> ('a, 's, 'd) orders_storage \<Rightarrow> nat \<Rightarrow> 'a SignedOrder list \<Rightarrow> nat \<Rightarrow> U64F64 \<Rightarrow> 'a \<Rightarrow>
   'd DispatchError + 'a OrderEntry list \<times> 'a OrderEntry list" where
  "validate_and_classify E st batch_netuid orders now price who =
     bind_result (fold_result (\<lambda>signed (buys, sells, seen).
         bind_result (validate_entry E st batch_netuid now price who signed seen) (\<lambda>(entry, seen').
         Inr (if is_buy (side entry)
              then (unwrap_or (try_push (MaxOrdersPerBatch E) buys entry) buys, sells, seen')
              else (buys, unwrap_or (try_push (MaxOrdersPerBatch E) sells entry) sells, seen'))))
       orders ([], [], [], []))
     (\<lambda>(buys, sells, _). Inr (buys, sells))"

definition collect_assets ::
  "('o, 'a, 's, 'd) orders_env \<Rightarrow> nat \<Rightarrow> 'a OrderEntry list \<Rightarrow> 'a OrderEntry list \<Rightarrow> ('a, 's, 'd) orders_storage \<Rightarrow>
   'd DispatchError + ('a, 's, 'd) orders_storage" where
  "collect_assets E batch_netuid buys sells st =
     bind_result (fold_result (\<lambda>e st. effect (transfer_tao E (chain st) (e_signer e) (pallet_account E) (gross e)) st) buys st)
       (fold_result (\<lambda>e st. effect (transfer_staked_alpha E (chain st) (e_signer e) (e_hotkey e) (pallet_account E)
          (PalletHotkey E) batch_netuid (gross e) True False) st) sells)"

text \<open>Conversions at a price; the price zero buys nothing.\<close>

definition tao_to_alpha :: "nat \<Rightarrow> U64F64 \<Rightarrow> 'd DispatchError + nat" where
  "tao_to_alpha tao price =
     (if price = fx_of 0 then Inr 0
      else ok_or (map_option fx_floor (fx_checked_div (fx_saturating_of tao) price)) (ModuleError ArithmeticOverflow))"

definition alpha_to_tao :: "nat \<Rightarrow> U64F64 \<Rightarrow> nat" where
  "alpha_to_tao alpha price = fx_floor (fx_saturating_mul price (fx_saturating_of alpha))"

definition net_pool_swap ::
  "('o, 'a, 's, 'd) orders_env \<Rightarrow> nat \<Rightarrow> nat \<Rightarrow> nat \<Rightarrow> U64F64 \<Rightarrow> nat \<Rightarrow> nat \<Rightarrow> ('a, 's, 'd) orders_storage \<Rightarrow>
   'd DispatchError + OrderSide \<times> nat \<times> ('a, 's, 'd) orders_storage" where
  "net_pool_swap E total_buy_net total_sell_net total_sell_tao_equiv price batch_netuid price_limit st =
     (if total_buy_net \<ge> total_sell_tao_equiv then
        let net_tao = as_u64 (saturating_sub total_buy_net total_sell_tao_equiv)
        in if net_tao > 0 then
             bind_result (effect_value (buy_alpha E (chain st) (pallet_account E) (PalletHotkey E) batch_netuid net_tao
               price_limit False) st) (\<lambda>(out, st').
             bind_result (check (out > 0) SwapReturnedZero) (\<lambda>_. Inr (Buy, out, st')))
           else Inr (Buy, 0, st)
      else
        bind_result (tao_to_alpha total_buy_net price) (\<lambda>total_buy_alpha_equiv.
        let net_alpha = as_u64 (saturating_sub total_sell_net total_buy_alpha_equiv)
        in if net_alpha > 0 then
             bind_result (effect_value (sell_alpha E (chain st) (pallet_account E) (PalletHotkey E) batch_netuid net_alpha
               price_limit False) st) (\<lambda>(out, st').
             bind_result (check (out > 0) SwapReturnedZero) (\<lambda>_. Inr (Sell, out, st')))
           else Inr (Sell, 0, st)))"

text \<open>The bookkeeping that follows the payment of an entry, the same on both sides of a batch.\<close>

definition close_entry ::
  "('o, 'a, 's, 'd) orders_env \<Rightarrow> nat \<Rightarrow> 'a LinkedAsset \<Rightarrow> nat \<Rightarrow> 'a OrderEntry \<Rightarrow> ('a, 's, 'd) orders_storage \<Rightarrow>
   'd DispatchError + ('a, 's, 'd) orders_storage" where
  "close_entry E batch_netuid produced paid e st =
     (let new_status = compute_order_status st (e_signer e) (e_nonce e) (order_id e) (e_partial_fill e) (order_amount e);
          st1 = set_order_status (e_signer e) (e_nonce e) (order_id e) new_status st
      in bind_result (consume_if_linked (provider e) (order_id e) (order_amount e) st1) (\<lambda>st2.
         let st3 = record_linked_output E (order_id e) (e_signer e) produced (e_has_linked_order e) paid st2
         in Inr (deposit_event (OrderExecuted (order_id e) (e_signer e) batch_netuid (side e) (gross e) paid) st3)))"

definition alpha_share :: "nat \<Rightarrow> nat \<Rightarrow> 'a OrderEntry \<Rightarrow> nat" where
  "alpha_share total_alpha total_buy_net e =
     (if total_buy_net > 0
      then as_u64 (unwrap_or (checked_div (saturating_mul U128_MAX total_alpha (net e)) total_buy_net) 0)
      else 0)"

definition pay_buyer ::
  "('o, 'a, 's, 'd) orders_env \<Rightarrow> nat \<Rightarrow> nat \<Rightarrow> nat \<Rightarrow> 'a OrderEntry \<Rightarrow> ('a, 's, 'd) orders_storage \<Rightarrow>
   'd DispatchError + ('a, 's, 'd) orders_storage" where
  "pay_buyer E batch_netuid total_alpha total_buy_net e st =
     (let share = alpha_share total_alpha total_buy_net e
      in bind_result (check (share > 0) ZeroShareInBatch) (\<lambda>_.
         bind_result (check (effective_swap_limit e = U64_MAX \<or>
             saturating_mul U128_MAX (net e) 1000000000 \<le> saturating_mul U128_MAX share (effective_swap_limit e))
           PriceConditionNotMet) (\<lambda>_.
         bind_result (effect (transfer_staked_alpha E (chain st) (pallet_account E) (PalletHotkey E) (e_signer e) (e_hotkey e)
           batch_netuid share False True) st) (\<lambda>st1.
         close_entry E batch_netuid (Alpha batch_netuid (e_hotkey e)) share e st1))))"

definition distribute_alpha_pro_rata ::
  "('o, 'a, 's, 'd) orders_env \<Rightarrow> 'a OrderEntry list \<Rightarrow> nat \<Rightarrow> nat \<Rightarrow> nat \<Rightarrow> OrderSide \<Rightarrow> U64F64 \<Rightarrow> nat \<Rightarrow>
   ('a, 's, 'd) orders_storage \<Rightarrow> 'd DispatchError + ('a, 's, 'd) orders_storage" where
  "distribute_alpha_pro_rata E buys actual_out total_buy_net total_sell_net net_side price batch_netuid st =
     bind_result (case net_side of
          Buy \<Rightarrow> Inr (saturating_add U128_MAX actual_out total_sell_net)
        | Sell \<Rightarrow> tao_to_alpha total_buy_net price) (\<lambda>total_alpha.
     fold_result (pay_buyer E batch_netuid total_alpha total_buy_net) buys st)"

text \<open>One entry per recipient: the first one with the recipient grows, or a new one is pushed.\<close>

fun add_fee :: "'a \<Rightarrow> nat \<Rightarrow> ('a \<times> nat) list \<Rightarrow> ('a \<times> nat) list" where
  "add_fee recipient fee [] = [(recipient, fee)]"
| "add_fee recipient fee ((r, x) # fees) =
     (if r = recipient then (r, saturating_add U64_MAX x fee) # fees else (r, x) # add_fee recipient fee fees)"

definition tao_share :: "nat \<Rightarrow> nat \<Rightarrow> U64F64 \<Rightarrow> 'a OrderEntry \<Rightarrow> nat" where
  "tao_share total_tao total_sell_tao_equiv price e =
     (if total_sell_tao_equiv > 0
      then as_u64 (unwrap_or
        (checked_div (saturating_mul U128_MAX total_tao (alpha_to_tao (net e) price)) total_sell_tao_equiv) 0)
      else 0)"

definition pay_seller ::
  "('o, 'a, 's, 'd) orders_env \<Rightarrow> nat \<Rightarrow> nat \<Rightarrow> nat \<Rightarrow> U64F64 \<Rightarrow> 'a OrderEntry \<Rightarrow>
   ('a \<times> nat) list \<times> ('a, 's, 'd) orders_storage \<Rightarrow> 'd DispatchError + ('a \<times> nat) list \<times> ('a, 's, 'd) orders_storage" where
  "pay_seller E batch_netuid total_tao total_sell_tao_equiv price e acc =
     (case acc of (sell_fees, st) \<Rightarrow>
      let gross_share = tao_share total_tao total_sell_tao_equiv price e;
          fee = mul_floor (e_fee_rate e) gross_share;
          net_share = saturating_sub gross_share fee
      in bind_result (check (net_share > 0) ZeroShareInBatch) (\<lambda>_.
         bind_result (check (saturating_mul U128_MAX gross_share 1000000000 \<ge>
             saturating_mul U128_MAX (net e) (effective_swap_limit e)) PriceConditionNotMet) (\<lambda>_.
         let sell_fees' = (if fee > 0 then add_fee (e_fee_recipient e) fee sell_fees else sell_fees)
         in bind_result (effect (transfer_tao E (chain st) (pallet_account E) (e_signer e) net_share) st) (\<lambda>st1.
            bind_result (close_entry E batch_netuid Tao net_share e st1) (\<lambda>st2.
            Inr (sell_fees', st2))))))"

definition distribute_tao_pro_rata ::
  "('o, 'a, 's, 'd) orders_env \<Rightarrow> 'a OrderEntry list \<Rightarrow> nat \<Rightarrow> nat \<Rightarrow> nat \<Rightarrow> OrderSide \<Rightarrow> U64F64 \<Rightarrow> nat \<Rightarrow>
   ('a, 's, 'd) orders_storage \<Rightarrow> 'd DispatchError + ('a \<times> nat) list \<times> ('a, 's, 'd) orders_storage" where
  "distribute_tao_pro_rata E sells actual_out total_buy_net total_sell_tao_equiv net_side price batch_netuid st =
     (let total_tao = (case net_side of
            Sell \<Rightarrow> saturating_add U128_MAX actual_out total_buy_net
          | Buy \<Rightarrow> total_sell_tao_equiv)
      in fold_result (pay_seller E batch_netuid total_tao total_sell_tao_equiv price) sells ([], st))"

definition buy_fees :: "'a OrderEntry list \<Rightarrow> ('a \<times> nat) list \<Rightarrow> ('a \<times> nat) list" where
  "buy_fees buys fees =
     fold (\<lambda>e fees. let fee = saturating_sub (gross e) (net e)
                    in if fee > 0 then add_fee (e_fee_recipient e) fee fees else fees) buys fees"

definition collect_fees ::
  "('o, 'a, 's, 'd) orders_env \<Rightarrow> 'a OrderEntry list \<Rightarrow> ('a \<times> nat) list \<Rightarrow> ('a, 's, 'd) orders_storage \<Rightarrow>
   'd DispatchError + ('a, 's, 'd) orders_storage" where
  "collect_fees E buys sell_fees st =
     fold_result (\<lambda>(recipient, x) st. forward_fee E (pallet_account E) recipient x st) (buy_fees buys sell_fees) st"

definition net_amount_for_event :: "OrderSide \<Rightarrow> nat \<Rightarrow> nat \<Rightarrow> nat \<Rightarrow> U64F64 \<Rightarrow> 'd DispatchError + nat" where
  "net_amount_for_event net_side total_buy_net total_sell_net total_sell_tao_equiv price =
     (case net_side of
        Buy \<Rightarrow> Inr (as_u64 (saturating_sub total_buy_net total_sell_tao_equiv))
      | Sell \<Rightarrow> bind_result (tao_to_alpha total_buy_net price) (\<lambda>equiv.
          Inr (saturating_sub (as_u64 total_sell_net) (as_u64 equiv))))"

definition min_limit :: "'a OrderEntry list \<Rightarrow> nat" where
  "min_limit es = (case map effective_swap_limit es of [] \<Rightarrow> U64_MAX | x # xs \<Rightarrow> fold min xs x)"

definition max_limit :: "'a OrderEntry list \<Rightarrow> nat" where
  "max_limit es = (case map effective_swap_limit es of [] \<Rightarrow> 0 | x # xs \<Rightarrow> fold max xs x)"

definition spot_within_limits :: "U64F64 \<Rightarrow> 'a OrderEntry list \<Rightarrow> 'a OrderEntry list \<Rightarrow> bool" where
  "spot_within_limits price buys sells \<longleftrightarrow>
     (let scaled_price = fx_saturating_mul price (fx_of 1000000000)
      in list_all (\<lambda>e. effective_swap_limit e = U64_MAX \<or> scaled_price \<le> fx_of (effective_swap_limit e)) buys \<and>
         list_all (\<lambda>e. scaled_price \<ge> fx_of (effective_swap_limit e)) sells)"

definition execute_classified_batch ::
  "('o, 'a, 's, 'd) orders_env \<Rightarrow> nat \<Rightarrow> U64F64 \<Rightarrow> 'a OrderEntry list \<Rightarrow> 'a OrderEntry list \<Rightarrow> ('a, 's, 'd) orders_storage \<Rightarrow>
   'd DispatchError + ('a, 's, 'd) orders_storage" where
  "execute_classified_batch E batch_netuid price buys sells st =
     (let executed_count = (length buys + length sells) mod 2 ^ 32
      in if executed_count = 0 then Inr st
         else
           bind_result (check (spot_within_limits price buys sells) PriceConditionNotMet) (\<lambda>_.
           let total_buy_net = sum_list (map net buys);
               total_sell_net = sum_list (map net sells);
               total_sell_tao_equiv = alpha_to_tao total_sell_net price
           in bind_result (collect_assets E batch_netuid buys sells st) (\<lambda>st1.
              let pool_price_limit = (if total_buy_net \<ge> total_sell_tao_equiv then min_limit buys else max_limit sells)
              in bind_result (net_pool_swap E total_buy_net total_sell_net total_sell_tao_equiv price batch_netuid
                   pool_price_limit st1) (\<lambda>(net_side, actual_out, st2).
                 bind_result (distribute_alpha_pro_rata E buys actual_out total_buy_net total_sell_net net_side price
                   batch_netuid st2) (\<lambda>st3.
                 bind_result (distribute_tao_pro_rata E sells actual_out total_buy_net total_sell_tao_equiv net_side price
                   batch_netuid st3) (\<lambda>(sell_fees, st4).
                 bind_result (collect_fees E buys sell_fees st4) (\<lambda>st5.
                 bind_result (net_amount_for_event net_side total_buy_net total_sell_net total_sell_tao_equiv price)
                   (\<lambda>net_amount.
                 Inr (deposit_event (GroupExecutionSummary batch_netuid net_side net_amount (as_u64 actual_out)
                   executed_count) st5)))))))))"

definition do_execute_authenticated_batch ::
  "('o, 'a, 's, 'd) orders_env \<Rightarrow> nat \<Rightarrow> 'a SignedOrder list \<Rightarrow> 'a \<Rightarrow> ('a, 's, 'd) orders_storage \<Rightarrow>
   'd DispatchError + ('a, 's, 'd) orders_storage" where
  "do_execute_authenticated_batch E batch_netuid orders who st =
     bind_result (check (batch_netuid \<noteq> 0) RootNetUidNotAllowed) (\<lambda>_.
     bind_result (check (length orders \<le> MaxOrdersPerBatch E) OrderBatchTooLarge) (\<lambda>_.
     let now = now_ms E (chain st);
         price = current_alpha_price E (chain st) batch_netuid
     in bind_result (fold_result (\<lambda>signed (buys, sells, seen).
            bind_result (validate_entry E st batch_netuid now price who signed seen) (\<lambda>(entry, seen').
            if is_buy (side entry)
            then bind_result (ok_or (try_push (MaxOrdersPerBatch E) buys entry) (ModuleError OrderBatchTooLarge)) (\<lambda>buys'.
                 Inr (buys', sells, seen'))
            else bind_result (ok_or (try_push (MaxOrdersPerBatch E) sells entry) (ModuleError OrderBatchTooLarge)) (\<lambda>sells'.
                 Inr (buys, sells', seen'))))
          orders ([], [], [], [])) (\<lambda>(buys, sells, _).
        execute_classified_batch E batch_netuid price buys sells st)))"

definition do_execute_batched_orders ::
  "('o, 'a, 's, 'd) orders_env \<Rightarrow> nat \<Rightarrow> 'a SignedOrder list \<Rightarrow> 'a \<Rightarrow> ('a, 's, 'd) orders_storage \<Rightarrow>
   'd DispatchError + ('a, 's, 'd) orders_storage" where
  "do_execute_batched_orders E batch_netuid orders who st =
     (if list_ex uses_approval orders then do_execute_authenticated_batch E batch_netuid orders who st
      else
        bind_result (check (batch_netuid \<noteq> 0) RootNetUidNotAllowed) (\<lambda>_.
        let now = now_ms E (chain st);
            price = current_alpha_price E (chain st) batch_netuid
        in bind_result (validate_and_classify E st batch_netuid orders now price who) (\<lambda>(valid_buys, valid_sells).
           execute_classified_batch E batch_netuid price valid_buys valid_sells st)))"

section \<open>Dispatchables\<close>

definition execute_orders ::
  "('o, 'a, 's, 'd) orders_env \<Rightarrow> 'o \<Rightarrow> 'a SignedOrder list \<Rightarrow> bool \<Rightarrow> ('a, 's, 'd) orders_storage \<Rightarrow>
   'd DispatchError + ('a, 's, 'd) orders_storage" where
  "execute_orders E origin orders should_fail st =
     bind_result (runtime (ensure_signed E origin)) (\<lambda>who.
     bind_result (check (LimitOrdersEnabled st) LimitOrdersDisabled) (\<lambda>_.
     bind_result (check_authorized_batch_bound orders) (\<lambda>_.
     fold_result (\<lambda>signed st.
       let i = derive_order_id E (order signed)
       in case try_execute_order E signed i who st of
            Inr st' \<Rightarrow> Inr st'
          | Inl reason \<Rightarrow> if should_fail then Inl reason else Inr (deposit_event (OrderSkipped i reason) st)) orders st)))"

definition execute_batched_orders ::
  "('o, 'a, 's, 'd) orders_env \<Rightarrow> 'o \<Rightarrow> nat \<Rightarrow> 'a SignedOrder list \<Rightarrow> ('a, 's, 'd) orders_storage \<Rightarrow>
   'd DispatchError + ('a, 's, 'd) orders_storage" where
  "execute_batched_orders E origin batch_netuid orders st =
     bind_result (runtime (ensure_signed E origin)) (\<lambda>who.
     bind_result (check (LimitOrdersEnabled st) LimitOrdersDisabled) (\<lambda>_.
     bind_result (check_authorized_batch_bound orders) (\<lambda>_.
     do_execute_batched_orders E batch_netuid orders who st)))"

definition cancel_order ::
  "('o, 'a, 's, 'd) orders_env \<Rightarrow> 'o \<Rightarrow> 'a VersionedOrder \<Rightarrow> ('a, 's, 'd) orders_storage \<Rightarrow>
   'd DispatchError + ('a, 's, 'd) orders_storage" where
  "cancel_order E origin ord st =
     bind_result (runtime (ensure_signed E origin)) (\<lambda>who.
     bind_result (check (signer_of ord = who) Unauthorized) (\<lambda>_.
     case authorized_terms ord of
       Some (nonce, terms) \<Rightarrow> cancel_authenticated_order E who nonce terms st
     | None \<Rightarrow>
         (let i = derive_order_id E ord
          in bind_result (check (Orders st i = None) OrderAlreadyProcessed) (\<lambda>_.
             Inr (deposit_event (OrderCancelled i who) (st\<lparr>Orders := (Orders st)(i \<mapsto> Cancelled)\<rparr>))))))"

definition set_pallet_status ::
  "('o, 'a, 's, 'd) orders_env \<Rightarrow> 'o \<Rightarrow> bool \<Rightarrow> ('a, 's, 'd) orders_storage \<Rightarrow>
   'd DispatchError + ('a, 's, 'd) orders_storage" where
  "set_pallet_status E origin enabled st =
     bind_result (runtime (ensure_root E origin)) (\<lambda>_.
     bind_result (if enabled
                  then check (pallet_hotkey_registered E (chain st) (pallet_account E) (PalletHotkey E)) PalletHotkeyNotRegistered
                  else Inr ()) (\<lambda>_.
     Inr (deposit_event (LimitOrdersPalletStatusChanged enabled) (st\<lparr>LimitOrdersEnabled := enabled\<rparr>))))"

definition prune_linked_output ::
  "('o, 'a, 's, 'd) orders_env \<Rightarrow> 'o \<Rightarrow> H256 \<Rightarrow> ('a, 's, 'd) orders_storage \<Rightarrow>
   'd DispatchError + ('a, 's, 'd) orders_storage" where
  "prune_linked_output E origin i st =
     bind_result (runtime (ensure_signed E origin)) (\<lambda>who.
     bind_result (ok_or (LinkedOutputs st i) (ModuleError NoLinkedOutput)) (\<lambda>entry.
     bind_result (check (lo_signer entry = who \<or> now_ms E (chain st) > expires_at entry) LinkedOutputNotPrunable) (\<lambda>_.
     Inr (deposit_event (LinkedOutputPruned i (total entry))
       (st\<lparr>LinkedOutputs := (LinkedOutputs st)(i := None)\<rparr>)))))"

definition authorize_order ::
  "('o, 'a, 's, 'd) orders_env \<Rightarrow> 'o \<Rightarrow> 'a VersionedOrder \<Rightarrow> ('a, 's, 'd) orders_storage \<Rightarrow>
   'd DispatchError + ('a, 's, 'd) orders_storage" where
  "authorize_order E origin ord st =
     bind_result (runtime (ensure_signed E origin)) (\<lambda>who.
     bind_result (check (signer_of ord = who) Unauthorized) (\<lambda>_.
     bind_result (ok_or (authorized_terms ord) (ModuleError InvalidAuthorizationMode)) (\<lambda>(nonce, terms).
     bind_result (check (LimitOrdersEnabled st) LimitOrdersDisabled) (\<lambda>_.
     bind_result (check (AuthenticatedOrderSignerFilter E (chain st) who) OrderSignerFrozen) (\<lambda>_.
     bind_result (approve_order E who nonce terms st) (\<lambda>(i, st').
     Inr (deposit_event (OrderApproved i who nonce) st')))))))"

section \<open>Genesis and the migration\<close>

definition build_genesis :: "('o, 'a, 's, 'd) orders_env \<Rightarrow> ('a, 's, 'd) orders_storage \<Rightarrow> ('a, 's, 'd) orders_storage" where
  "build_genesis E st =
     st\<lparr>chain := snd (register_pallet_hotkey E (chain st) (pallet_account E) (PalletHotkey E)), LimitOrdersEnabled := True\<rparr>"

definition migration_key :: bytes where
  "migration_key = ''migrate_register_pallet_hotkey''"

definition migrate_register_pallet_hotkey ::
  "('o, 'a, 's, 'd) orders_env \<Rightarrow> 'w weight_ops \<Rightarrow> ('a, 's, 'd) orders_storage \<Rightarrow> 'w \<times> ('a, 's, 'd) orders_storage" where
  "migrate_register_pallet_hotkey E W st =
     (let weight = reads W 1
      in if HasMigrationRun st migration_key then (weight, st)
         else
           let weight1 = weight_add W weight (reads W 1);
               (weight2, st1) =
                 (if \<not> pallet_hotkey_registered E (chain st) (pallet_account E) (PalletHotkey E)
                  then (weight_add W weight1 (writes W 3),
                        st\<lparr>chain := snd (register_pallet_hotkey E (chain st) (pallet_account E) (PalletHotkey E))\<rparr>)
                  else (weight1, st))
           in (weight_add W weight2 (writes W 1),
               st1\<lparr>HasMigrationRun := (HasMigrationRun st1)(migration_key := True)\<rparr>))"

definition on_runtime_upgrade ::
  "('o, 'a, 's, 'd) orders_env \<Rightarrow> 'w weight_ops \<Rightarrow> ('a, 's, 'd) orders_storage \<Rightarrow> 'w \<times> ('a, 's, 'd) orders_storage" where
  "on_runtime_upgrade E W st =
     (case migrate_register_pallet_hotkey E W st of (w, st') \<Rightarrow> (weight_add W (weight_zero W) w, st'))"

section \<open>Runs\<close>

text \<open>
  A chain with the pallet: a call succeeds, or something else happens around it and may remove accounts.  The list holds the
  orders submitted for execution; its length is within the bound of the call's argument type.
\<close>

inductive orders_step ::
  "('o, 'a, 's, 'd) orders_env \<Rightarrow> 'w weight_ops \<Rightarrow> ('a, 's, 'd) orders_storage \<Rightarrow> 'a VersionedOrder list \<Rightarrow>
   ('a, 's, 'd) orders_storage \<Rightarrow> bool"
  for E W where
  executed: "length orders \<le> MaxOrdersPerBatch E \<Longrightarrow> execute_orders E origin orders should_fail st = Inr st' \<Longrightarrow>
     orders_step E W st (map order orders) st'"
| batched: "length orders \<le> MaxOrdersPerBatch E \<Longrightarrow> execute_batched_orders E origin batch_netuid orders st = Inr st' \<Longrightarrow>
     orders_step E W st (map order orders) st'"
| cancelled: "cancel_order E origin ord st = Inr st' \<Longrightarrow> orders_step E W st [] st'"
| status_set: "set_pallet_status E origin enabled st = Inr st' \<Longrightarrow> orders_step E W st [] st'"
| pruned: "prune_linked_output E origin i st = Inr st' \<Longrightarrow> orders_step E W st [] st'"
| authorized: "authorize_order E origin ord st = Inr st' \<Longrightarrow> orders_step E W st [] st'"
| upgraded: "on_runtime_upgrade E W st = (w, st') \<Longrightarrow> orders_step E W st [] st'"
| elsewhere: "orders_step E W st [] (fold on_killed_account killed (st\<lparr>chain := s\<rparr>))"

inductive orders_run ::
  "('o, 'a, 's, 'd) orders_env \<Rightarrow> 'w weight_ops \<Rightarrow> ('a, 's, 'd) orders_storage \<Rightarrow> 'a VersionedOrder list \<Rightarrow>
   ('a, 's, 'd) orders_storage \<Rightarrow> bool"
  for E W where
  start: "orders_run E W st [] st"
| more: "orders_run E W st os st' \<Longrightarrow> orders_step E W st' os' st'' \<Longrightarrow> orders_run E W st (os @ os') st''"

end
