(* ===== verification/Order_Execution.thy ===== *)
theory Order_Execution
  imports Limit_Orders
begin

text \<open>
  How the execution of limit orders is built from primitive steps: operations of the swap interface, updates of an order's
  status, draws and records of linked outputs, and events.  An invariant of these steps, stated as an interface, is an
  invariant of both execution calls; and the two ways to validate orders come down to one.
\<close>

section \<open>Effects on the rest of the chain\<close>

lemma killed_frame [simp]:
  "Orders (fold on_killed_account killed st) = Orders st"
  "LinkedOutputs (fold on_killed_account killed st) = LinkedOutputs st"
  "LimitOrdersEnabled (fold on_killed_account killed st) = LimitOrdersEnabled st"
  "events (fold on_killed_account killed st) = events st"
  "chain (fold on_killed_account killed st) = chain st"
  "ApprovedOrders (fold on_killed_account killed st) = (\<lambda>a. if a \<in> set killed then None else ApprovedOrders st a)"
  by (induction killed arbitrary: st) (auto simp: on_killed_account_def)

lemma effect_Inr [result_iffs]:
  "effect r st = Inr st' \<longleftrightarrow> (\<exists>s killed. r = Inr (s, killed) \<and> st' = fold on_killed_account killed (st\<lparr>chain := s\<rparr>))"
  by (auto simp: effect_def result_iffs)

lemma effect_value_Inr [result_iffs]:
  "effect_value r st = Inr (x, st') \<longleftrightarrow>
     (\<exists>s killed. r = Inr (x, s, killed) \<and> st' = fold on_killed_account killed (st\<lparr>chain := s\<rparr>))"
  by (auto simp: effect_value_def result_iffs)

lemma deposit_event_frame [simp]:
  "Orders (deposit_event e st) = Orders st" "ApprovedOrders (deposit_event e st) = ApprovedOrders st"
  "LinkedOutputs (deposit_event e st) = LinkedOutputs st" "chain (deposit_event e st) = chain st"
  "LimitOrdersEnabled (deposit_event e st) = LimitOrdersEnabled st" "events (deposit_event e st) = events st @ [e]"
  by (simp_all add: deposit_event_def)

lemma set_order_status_frame [simp]:
  "Orders (set_order_status owner nonce i s st) = (case nonce of None \<Rightarrow> (Orders st)(i \<mapsto> s) | Some _ \<Rightarrow> Orders st)"
  "LinkedOutputs (set_order_status owner nonce i s st) = LinkedOutputs st"
  "LimitOrdersEnabled (set_order_status owner nonce i s st) = LimitOrdersEnabled st"
  "events (set_order_status owner nonce i s st) = events st"
  "chain (set_order_status owner nonce i s st) = chain st"
  by (auto simp: set_order_status_def split: option.splits)

lemma record_linked_output_frame [simp]:
  "Orders (record_linked_output E i owner a f x st) = Orders st"
  "ApprovedOrders (record_linked_output E i owner a f x st) = ApprovedOrders st"
  "LimitOrdersEnabled (record_linked_output E i owner a f x st) = LimitOrdersEnabled st"
  "chain (record_linked_output E i owner a f x st) = chain st"
  by (simp_all add: record_linked_output_def Let_def)

lemma consume_frame:
  assumes "consume_linked_output p c x st = Inr st'"
  shows "Orders st' = Orders st" "ApprovedOrders st' = ApprovedOrders st" "chain st' = chain st"
    "LimitOrdersEnabled st' = LimitOrdersEnabled st"
  using assms by (auto simp: consume_linked_output_def result_iffs)

section \<open>One way to execute an order\<close>

lemma authenticated_order_cases:
  assumes "authenticated_order signed = Inr authenticated"
  obtains "authenticated = None" "\<not> is_authorized (order signed)" "\<not> is_authenticated (signature signed)"
  | nonce terms where "authorized_terms (order signed) = Some (nonce, terms)" "signature signed = AccountApproved"
      "authenticated = Some \<lparr>ao_nonce = nonce, ao_order = terms, ao_authorization = ByAccountApproval,
         ao_partial_fill = partial_fill signed\<rparr>"
  using assms by (cases "authorized_terms (order signed)"; cases "signature signed")
    (auto simp: authenticated_order_def result_iffs authorized_terms_None)

text \<open>What a valid order has passed, with a signature or with an approval.\<close>

lemma plain_order_valid:
  fixes E :: "('o, 'a, 's, 'd) orders_env"
  assumes "is_order_valid E st signed i now p who = Inr r" "\<not> is_authorized (order signed)"
  shows "(verify_order E signed \<or> verify_wrapped E signed i \<or> verify_readable E signed) \<and>
    OrderSignerFilter E (chain st) (signer_of (order signed)) \<and> netuid (view (order signed)) \<noteq> 0 \<and>
    validate_order_execution st (view (order signed)) (partial_fill signed) i now p who = Inr r"
proof -
  obtain a where a: "authenticated_order signed = (Inr a :: 'd DispatchError + _)"
    using assms(1) by (auto simp: is_order_valid_def bind_result_Inr_iff)
  then have "a = None" using assms(2) by (cases rule: authenticated_order_cases) (auto simp flip: authorized_terms_None)
  then show ?thesis using assms(1) a by (auto simp: is_order_valid_def Let_def result_iffs)
qed

lemma approved_order_valid:
  fixes E :: "('o, 'a, 's, 'd) orders_env"
  assumes "is_order_valid E st signed i now p who = Inr r" "authorized_terms (order signed) = Some (nonce, terms)"
  obtains ap where "signature signed = AccountApproved" "approved_order st (signer_of (order signed)) nonce = Some ap"
    "ap_id ap = i" "commitment ap = order_approval_commitment E nonce terms"
    "AuthenticatedOrderSignerFilter E (chain st) (signer_of (order signed))" "netuid (view (order signed)) \<noteq> 0"
    "validate_order_execution st (view (order signed)) (partial_fill signed) i now p who = Inr r"
proof -
  obtain a where a: "authenticated_order signed = (Inr a :: 'd DispatchError + _)"
    using assms(1) by (auto simp: is_order_valid_def bind_result_Inr_iff)
  then have "signature signed = AccountApproved \<and> a = Some \<lparr>ao_nonce = nonce, ao_order = terms,
      ao_authorization = ByAccountApproval, ao_partial_fill = partial_fill signed\<rparr>"
    using assms(2) by (cases rule: authenticated_order_cases) (auto simp flip: authorized_terms_None)
  then show thesis using assms(1) a that
    by (auto simp: is_order_valid_def validate_authorized_order_def result_iffs)
qed

text \<open>Plain and account-approved orders are executed alike: a check of validity, then the execution of the same view.\<close>

lemma try_execute_order_eq:
  fixes E :: "('o, 'a, 's, 'd) orders_env"
  shows "try_execute_order E signed i who st =
     bind_result (is_order_valid E st signed i (now_ms E (chain st))
       (current_alpha_price E (chain st) (netuid (view (order signed)))) who) (\<lambda>(resolved, prov).
     execute_validated_order E (view (order signed)) (partial_fill signed) i resolved prov st)"
proof (cases "authenticated_order signed :: 'd DispatchError + 'a AuthorizedOrder option")
  case (Inl e)
  then show ?thesis by (simp add: try_execute_order_def is_order_valid_def)
next
  case (Inr authenticated)
  then show ?thesis
  proof (cases rule: authenticated_order_cases)
    case 1
    then show ?thesis using Inr by (simp add: try_execute_order_def Let_def)
  next
    case (2 nonce terms)
    then have "view (order signed) = (view terms)\<lparr>authorization_nonce := Some nonce\<rparr>" by (simp add: view_terms_nonce)
    then show ?thesis
      using Inr 2 by (simp add: try_execute_order_def try_execute_authorized_order_def is_order_valid_def Let_def)
  qed
qed

section \<open>One way to validate a batch\<close>

definition validated ::
  "('o, 'a, 's, 'd) orders_env \<Rightarrow> ('a, 's, 'd) orders_storage \<Rightarrow> nat \<Rightarrow> 'a \<Rightarrow> 'a SignedOrder \<Rightarrow> 'a OrderEntry \<Rightarrow> bool" where
  "validated E st n who signed e \<longleftrightarrow>
     (\<exists>resolved prov. is_order_valid E st signed (derive_order_id E (order signed)) (now_ms E (chain st))
          (current_alpha_price E (chain st) n) who = Inr (resolved, prov) \<and>
        netuid (view (order signed)) = n \<and>
        e = classify_order (view (order signed)) (partial_fill signed) (derive_order_id E (order signed)) resolved prov)"

lemma classify_order_fields [simp]:
  "order_id (classify_order ord pf i r p) = i" "e_signer (classify_order ord pf i r p) = signer ord"
  "e_hotkey (classify_order ord pf i r p) = hotkey ord" "side (classify_order ord pf i r p) = order_type ord"
  "e_nonce (classify_order ord pf i r p) = authorization_nonce ord" "gross (classify_order ord pf i r p) = unwrap_or pf r"
  "order_amount (classify_order ord pf i r p) = r" "e_partial_fill (classify_order ord pf i r p) = pf"
  "provider (classify_order ord pf i r p) = p" "e_has_linked_order (classify_order ord pf i r p) = has_linked_order ord"
  "e_fee_rate (classify_order ord pf i r p) = fee_rate ord" "e_fee_recipient (classify_order ord pf i r p) = fee_recipient ord"
  "effective_swap_limit (classify_order ord pf i r p) =
     compute_effective_swap_limit (is_buy (order_type ord)) (limit_price ord) (max_slippage ord)"
  "net (classify_order ord pf i r p) = (if is_buy (order_type ord)
     then unwrap_or pf r - mul_floor (fee_rate ord) (unwrap_or pf r) else unwrap_or pf r)"
  by (simp_all add: classify_order_def Let_def)

lemma validate_entry_Inr:
  assumes "validate_entry E st n (now_ms E (chain st)) (current_alpha_price E (chain st) n) who signed (ids, provs) =
    Inr (e, seen')"
  shows "validated E st n who signed e \<and> order_id e \<notin> set ids \<and> fst seen' = order_id e # ids"
  using assms by (auto simp: validate_entry_def Let_def validated_def result_iffs)

lemma validation_loop:
  fixes E :: "('o, 'a, 's, 'd) orders_env"
  assumes step: "\<And>signed buys sells seen. length buys + length sells < MaxOrdersPerBatch E \<Longrightarrow>
      step signed (buys, sells, seen) =
        bind_result (validate_entry E st n (now_ms E (chain st)) (current_alpha_price E (chain st) n) who signed seen)
          (\<lambda>(e, seen'). Inr (if is_buy (side e) then (buys @ [e], sells, seen') else (buys, sells @ [e], seen')))"
    and "length buys + length sells + length orders \<le> MaxOrdersPerBatch E"
    and "fold_result step orders (buys, sells, ids, provs) = Inr (buys', sells', seen')"
  shows "\<exists>es. list_all2 (validated E st n who) orders es \<and> distinct (map order_id es) \<and>
      set (map order_id es) \<inter> set ids = {} \<and>
      buys' = buys @ filter (\<lambda>e. is_buy (side e)) es \<and> sells' = sells @ filter (\<lambda>e. \<not> is_buy (side e)) es"
  using assms(2,3)
proof (induction orders arbitrary: buys sells ids provs)
  case (Cons signed orders)
  let ?v = "validate_entry E st n (now_ms E (chain st)) (current_alpha_price E (chain st) n) who signed (ids, provs)"
  obtain acc where acc: "step signed (buys, sells, ids, provs) = Inr acc"
    and rest: "fold_result step orders acc = Inr (buys', sells', seen')"
    using Cons.prems(2) by (auto simp: bind_result_Inr_iff)
  have "step signed (buys, sells, ids, provs) =
      bind_result ?v (\<lambda>(e, s1). Inr (if is_buy (side e) then (buys @ [e], sells, s1) else (buys, sells @ [e], s1)))"
    using step[of buys sells signed "(ids, provs)"] Cons.prems(1) by simp
  then obtain e s1 where v: "?v = Inr (e, s1)"
    and a: "acc = (if is_buy (side e) then (buys @ [e], sells, s1) else (buys, sells @ [e], s1))"
    using acc by (cases ?v) auto
  obtain provs1 where s1: "s1 = (order_id e # ids, provs1)"
    using validate_entry_Inr[OF v] by (cases s1) auto
  obtain es where "list_all2 (validated E st n who) orders es" "distinct (map order_id es)"
    "set (map order_id es) \<inter> set (order_id e # ids) = {}"
    "buys' = (if is_buy (side e) then buys @ [e] else buys) @ filter (\<lambda>e. is_buy (side e)) es"
    "sells' = (if is_buy (side e) then sells else sells @ [e]) @ filter (\<lambda>e. \<not> is_buy (side e)) es"
    using Cons.IH[of "buys @ [e]" sells "order_id e # ids" provs1] Cons.IH[of buys "sells @ [e]" "order_id e # ids" provs1]
      Cons.prems(1) rest by (cases "is_buy (side e)") (simp_all add: a s1, blast+)
  then show ?case using validate_entry_Inr[OF v] by (intro exI[of _ "e # es"]) (auto split: if_splits)
qed simp

lemma batch_validated:
  assumes "do_execute_batched_orders E n orders who st = Inr st'" "length orders \<le> MaxOrdersPerBatch E"
  obtains es where "list_all2 (validated E st n who) orders es" "distinct (map order_id es)" "n \<noteq> 0"
    "execute_classified_batch E n (current_alpha_price E (chain st) n)
       (filter (\<lambda>e. is_buy (side e)) es) (filter (\<lambda>e. \<not> is_buy (side e)) es) st = Inr st'"
proof -
  let ?step1 = "\<lambda>signed (buys, sells, seen).
      bind_result (validate_entry E st n (now_ms E (chain st)) (current_alpha_price E (chain st) n) who signed seen) (\<lambda>(entry, seen').
      Inr (if is_buy (side entry)
           then (unwrap_or (try_push (MaxOrdersPerBatch E) buys entry) buys, sells, seen')
           else (buys, unwrap_or (try_push (MaxOrdersPerBatch E) sells entry) sells, seen')))"
  let ?step2 = "\<lambda>signed (buys, sells, seen).
      bind_result (validate_entry E st n (now_ms E (chain st)) (current_alpha_price E (chain st) n) who signed seen) (\<lambda>(entry, seen').
      if is_buy (side entry)
      then bind_result (ok_or (try_push (MaxOrdersPerBatch E) buys entry) (ModuleError OrderBatchTooLarge)) (\<lambda>buys'.
           Inr (buys', sells, seen'))
      else bind_result (ok_or (try_push (MaxOrdersPerBatch E) sells entry) (ModuleError OrderBatchTooLarge)) (\<lambda>sells'.
           Inr (buys, sells', seen')))"
  have steps: "?step1 signed (buys, sells, seen) = ?step2 signed (buys, sells, seen)"
    "?step2 signed (buys, sells, seen) =
        bind_result (validate_entry E st n (now_ms E (chain st)) (current_alpha_price E (chain st) n) who signed seen)
          (\<lambda>(e, seen'). Inr (if is_buy (side e) then (buys @ [e], sells, seen') else (buys, sells @ [e], seen')))"
    if "length buys + length sells < MaxOrdersPerBatch E" for signed buys sells seen
    using that by (auto simp: try_push_def bind_result_def split: sum.splits)
  obtain buys sells seen step where n: "n \<noteq> 0"
    and step: "\<And>signed buys sells seen. length buys + length sells < MaxOrdersPerBatch E \<Longrightarrow>
      step signed (buys, sells, seen) =
        bind_result (validate_entry E st n (now_ms E (chain st)) (current_alpha_price E (chain st) n) who signed seen)
          (\<lambda>(e, seen'). Inr (if is_buy (side e) then (buys @ [e], sells, seen') else (buys, sells @ [e], seen')))"
    and loop: "fold_result step orders ([], [], [], []) = Inr (buys, sells, seen)"
    and run: "execute_classified_batch E n (current_alpha_price E (chain st) n) buys sells st = Inr st'"
  proof (cases "list_ex uses_approval orders")
    case True
    then obtain buys sells seen where "n \<noteq> 0" "fold_result ?step2 orders ([], [], [], []) = Inr (buys, sells, seen)"
      "execute_classified_batch E n (current_alpha_price E (chain st) n) buys sells st = Inr st'"
      using assms(1) by (auto simp: do_execute_batched_orders_def do_execute_authenticated_batch_def Let_def
          bind_result_Inr_iff[of "check _ _"] check_Inr_iff bind_result_Inr_iff[of "fold_result _ _ _"])
    then show thesis using that[of ?step2] steps(2) by blast
  next
    case False
    then obtain buys sells seen where "n \<noteq> 0" "fold_result ?step1 orders ([], [], [], []) = Inr (buys, sells, seen)"
      "execute_classified_batch E n (current_alpha_price E (chain st) n) buys sells st = Inr st'"
      using assms(1) by (auto simp: do_execute_batched_orders_def validate_and_classify_def Let_def
          bind_result_Inr_iff[of "check _ _"] check_Inr_iff bind_result_Inr_iff[of "fold_result _ _ _"]
          bind_result_Inr_iff[of "bind_result _ _"])
    then show thesis using that[of ?step1, OF _ trans[OF steps]] by blast
  qed
  have "length ([] :: 'b OrderEntry list) + length ([] :: 'b OrderEntry list) + length orders \<le> MaxOrdersPerBatch E"
    using assms(2) by simp
  from validation_loop[OF step this loop] show thesis using that n run by auto
qed

section \<open>The stages of a batch\<close>

definition batch_tao :: "OrderSide \<Rightarrow> nat \<Rightarrow> nat \<Rightarrow> nat \<Rightarrow> nat" where
  "batch_tao d x b q = (case d of Sell \<Rightarrow> saturating_add U128_MAX x b | Buy \<Rightarrow> q)"

lemma classified_batch_cases [consumes 1, case_names nothing settled]:
  fixes E :: "('o, 'a, 's, 'd) orders_env"
  assumes "execute_classified_batch E n p buys sells st = Inr st'"
  obtains "(length buys + length sells) mod 2 ^ 32 = 0" "st' = st"
  | st1 d x st2 ta st3 fees st4 st5 y where
    "(length buys + length sells) mod 2 ^ 32 > 0"
    "spot_within_limits p buys sells"
    "collect_assets E n buys sells st = Inr st1"
    "net_pool_swap E (sum_list (map net buys)) (sum_list (map net sells)) (alpha_to_tao (sum_list (map net sells)) p) p n
       (if sum_list (map net buys) \<ge> alpha_to_tao (sum_list (map net sells)) p then min_limit buys else max_limit sells)
       st1 = Inr (d, x, st2)"
    "(case d of Buy \<Rightarrow> Inr (saturating_add U128_MAX x (sum_list (map net sells)))
       | Sell \<Rightarrow> tao_to_alpha (sum_list (map net buys)) p) = (Inr ta :: 'd DispatchError + nat)"
    "fold_result (pay_buyer E n ta (sum_list (map net buys))) buys st2 = Inr st3"
    "fold_result (pay_seller E n (batch_tao d x (sum_list (map net buys)) (alpha_to_tao (sum_list (map net sells)) p))
       (alpha_to_tao (sum_list (map net sells)) p) p) sells ([], st3) = Inr (fees, st4)"
    "collect_fees E buys fees st4 = Inr st5"
    "net_amount_for_event d (sum_list (map net buys)) (sum_list (map net sells))
       (alpha_to_tao (sum_list (map net sells)) p) p = (Inr y :: 'd DispatchError + nat)"
    "st' = deposit_event (GroupExecutionSummary n d y (as_u64 x) ((length buys + length sells) mod 2 ^ 32)) st5"
proof (cases "(length buys + length sells) mod 2 ^ 32 = 0")
  case True
  then show thesis using assms that(1) by (simp add: execute_classified_batch_def)
next
  case False
  let ?b = "sum_list (map net buys)" and ?s = "sum_list (map net sells)"
  let ?q = "alpha_to_tao ?s p"
  from assms False obtain st1 where 1: "spot_within_limits p buys sells" "collect_assets E n buys sells st = Inr st1"
    and r1: "bind_result (net_pool_swap E ?b ?s ?q p n (if ?b \<ge> ?q then min_limit buys else max_limit sells) st1)
      (\<lambda>(d, x, st2).
         bind_result (distribute_alpha_pro_rata E buys x ?b ?s d p n st2) (\<lambda>st3.
         bind_result (distribute_tao_pro_rata E sells x ?b ?q d p n st3) (\<lambda>(fees, st4).
         bind_result (collect_fees E buys fees st4) (\<lambda>st5.
         bind_result (net_amount_for_event d ?b ?s ?q p) (\<lambda>y.
         Inr (deposit_event (GroupExecutionSummary n d y (as_u64 x) ((length buys + length sells) mod 2 ^ 32)) st5)))))) =
      Inr st'"
    unfolding execute_classified_batch_def Let_def by (auto simp: bind_result_Inr_iff[of "check _ _"]
        check_Inr_iff bind_result_Inr_iff[of "collect_assets _ _ _ _ _"])
  from r1 obtain d x st2 where 2: "net_pool_swap E ?b ?s ?q p n (if ?b \<ge> ?q then min_limit buys else max_limit sells) st1 =
        Inr (d, x, st2)"
    and r2: "bind_result (distribute_alpha_pro_rata E buys x ?b ?s d p n st2) (\<lambda>st3.
         bind_result (distribute_tao_pro_rata E sells x ?b ?q d p n st3) (\<lambda>(fees, st4).
         bind_result (collect_fees E buys fees st4) (\<lambda>st5.
         bind_result (net_amount_for_event d ?b ?s ?q p) (\<lambda>y.
         Inr (deposit_event (GroupExecutionSummary n d y (as_u64 x) ((length buys + length sells) mod 2 ^ 32)) st5))))) =
      Inr st'"
    by (auto simp: bind_result_Inr_iff[of "net_pool_swap _ _ _ _ _ _ _ _"])
  from r2 obtain st3 fees st4 st5 y where
    3: "distribute_alpha_pro_rata E buys x ?b ?s d p n st2 = Inr st3"
    and 4: "distribute_tao_pro_rata E sells x ?b ?q d p n st3 = Inr (fees, st4)"
    and 5: "collect_fees E buys fees st4 = Inr st5" "net_amount_for_event d ?b ?s ?q p = (Inr y :: 'd DispatchError + nat)"
      "st' = deposit_event (GroupExecutionSummary n d y (as_u64 x) ((length buys + length sells) mod 2 ^ 32)) st5"
    by (auto simp: bind_result_Inr_iff)
  from 3 obtain ta where "(case d of Buy \<Rightarrow> Inr (saturating_add U128_MAX x ?s) | Sell \<Rightarrow> tao_to_alpha ?b p) =
      (Inr ta :: 'd DispatchError + nat)" "fold_result (pay_buyer E n ta ?b) buys st2 = Inr st3"
    unfolding distribute_alpha_pro_rata_def bind_result_Inr_iff by blast
  moreover have "fold_result (pay_seller E n (batch_tao d x ?b ?q) ?q p) sells ([], st3) = Inr (fees, st4)"
    using 4 by (simp add: distribute_tao_pro_rata_def batch_tao_def)
  ultimately show thesis using that(2) False 1 2 5 by blast
qed

section \<open>Invariants of execution\<close>

text \<open>
  Two interfaces.  In the first, \<open>P\<close> is kept by the operations of the swap interface that take assets from accounts in \<open>D\<close>
  only; in the second also by the bookkeeping of the pallet.
\<close>

locale asset_invariant =
  fixes E :: "('o, 'a, 's, 'd) orders_env" and D :: "'a set" and P :: "('a, 's, 'd) orders_storage \<Rightarrow> bool"
  assumes inv_buy: "\<And>st who h n x l v y st'. P st \<Longrightarrow> who \<in> D \<Longrightarrow>
      effect_value (buy_alpha E (chain st) who h n x l v) st = Inr (y, st') \<Longrightarrow> P st'"
    and inv_sell: "\<And>st who h n x l v y st'. P st \<Longrightarrow> who \<in> D \<Longrightarrow>
      effect_value (sell_alpha E (chain st) who h n x l v) st = Inr (y, st') \<Longrightarrow> P st'"
    and inv_tao: "\<And>st who to x st'. P st \<Longrightarrow> who \<in> D \<Longrightarrow>
      effect (transfer_tao E (chain st) who to x) st = Inr st' \<Longrightarrow> P st'"
    and inv_alpha: "\<And>st who h to h' n x u v st'. P st \<Longrightarrow> who \<in> D \<Longrightarrow>
      effect (transfer_staked_alpha E (chain st) who h to h' n x u v) st = Inr st' \<Longrightarrow> P st'"
    and inv_pallet: "pallet_account E \<in> D"
begin

lemma forward_fee_inv: "P st \<Longrightarrow> who \<in> D \<Longrightarrow> forward_fee E who r x st = Inr st' \<Longrightarrow> P st'"
  by (auto simp: forward_fee_def split: if_splits intro: inv_tao)

lemma trade_inv:
  assumes "P st" "signer ord \<in> D" "trade E ord fill st = Inr (x, y, st')"
  shows "P st'"
proof (cases "is_buy (order_type ord)")
  case True
  then obtain a st1 where "effect_value (buy_alpha E (chain st) (signer ord) (hotkey ord) (netuid ord)
        (fill - mul_floor (fee_rate ord) fill)
        (compute_effective_swap_limit True (limit_price ord) (max_slippage ord)) True) st = Inr (a, st1)"
    "forward_fee E (signer ord) (fee_recipient ord) (mul_floor (fee_rate ord) fill) st1 = Inr st'"
    using assms(3) by (auto simp: trade_def Let_def bind_result_Inr_iff)
  then show ?thesis using assms inv_buy forward_fee_inv by blast
next
  case False
  then obtain a st1 where "effect_value (sell_alpha E (chain st) (signer ord) (hotkey ord) (netuid ord) fill
        (compute_effective_swap_limit False (limit_price ord) (max_slippage ord)) True) st = Inr (a, st1)"
    "forward_fee E (signer ord) (fee_recipient ord) (mul_floor (fee_rate ord) a) st1 = Inr st'"
    using assms(3) by (auto simp: trade_def Let_def bind_result_Inr_iff)
  then show ?thesis using assms inv_sell forward_fee_inv by blast
qed

lemma collect_assets_inv:
  assumes "P st" "\<forall>e\<in>set buys \<union> set sells. e_signer e \<in> D" "collect_assets E n buys sells st = Inr st'"
  shows "P st'"
proof -
  obtain st1 where 1: "fold_result (\<lambda>e st. effect (transfer_tao E (chain st) (e_signer e) (pallet_account E) (gross e)) st)
      buys st = Inr st1"
    and 2: "fold_result (\<lambda>e st. effect (transfer_staked_alpha E (chain st) (e_signer e) (e_hotkey e) (pallet_account E)
      (PalletHotkey E) n (gross e) True False) st) sells st1 = Inr st'"
    using assms(3) by (auto simp: collect_assets_def bind_result_Inr_iff)
  have "P st1" by (rule fold_result_inv[OF 1, of P, OF assms(1)]) (use assms(2) inv_tao in blast)
  then show ?thesis by (rule fold_result_inv[OF 2, of P]) (use assms(2) inv_alpha in blast)
qed

lemma net_pool_swap_inv:
  assumes "P st" "net_pool_swap E b s q p n l st = Inr (d, x, st')"
  shows "P st'"
proof -
  consider "st' = st"
    | y z where "effect_value (buy_alpha E (chain st) (pallet_account E) (PalletHotkey E) n y l False) st = Inr (z, st')"
    | y z where "effect_value (sell_alpha E (chain st) (pallet_account E) (PalletHotkey E) n y l False) st = Inr (z, st')"
    using assms(2) by (auto simp: net_pool_swap_def Let_def bind_result_Inr_iff split: if_splits)
  then show ?thesis using assms(1) inv_pallet by cases (blast intro: inv_buy inv_sell)+
qed

lemma collect_fees_inv:
  assumes "P st" "collect_fees E buys fees st = Inr st'"
  shows "P st'"
proof -
  have "P s'" if "P s" "(case x of (r, y) \<Rightarrow> forward_fee E (pallet_account E) r y) s = Inr s'" for x s s'
    using that forward_fee_inv inv_pallet by (cases x) auto
  then show ?thesis using assms fold_result_inv[where I = P] unfolding collect_fees_def by blast
qed

end

locale execution_invariant = asset_invariant +
  assumes inv_status: "\<And>st owner nonce i s. P st \<Longrightarrow> P (set_order_status owner nonce i s st)"
    and inv_consume: "\<And>st p c x st'. P st \<Longrightarrow> consume_linked_output p c x st = Inr st' \<Longrightarrow> P st'"
    and inv_record: "\<And>st i owner a f x. P st \<Longrightarrow> P (record_linked_output E i owner a f x st)"
    and inv_executed: "\<And>st i who n k x y. P st \<Longrightarrow> P (deposit_event (OrderExecuted i who n k x y) st)"
    and inv_skipped: "\<And>st i reason. P st \<Longrightarrow> P (deposit_event (OrderSkipped i reason) st)"
    and inv_summary: "\<And>st n d x y c. P st \<Longrightarrow> P (deposit_event (GroupExecutionSummary n d x y c) st)"
begin

lemma consume_if_linked_inv: "P st \<Longrightarrow> consume_if_linked prov c x st = Inr st' \<Longrightarrow> P st'"
  by (auto simp: consume_if_linked_def split: option.splits intro: inv_consume)

lemma execute_validated_inv:
  assumes "P st" "signer ord \<in> D" "execute_validated_order E ord pf i resolved prov st = Inr st'"
  shows "P st'"
proof -
  obtain x y st1 st2 where "trade E ord (unwrap_or pf resolved) st = Inr (x, y, st1)"
    "consume_if_linked prov i resolved st1 = Inr st2"
    "st' = deposit_event (OrderExecuted i (signer ord) (netuid ord) (order_type ord) x y)
       (record_linked_output E i (signer ord) (output_asset ord) (has_linked_order ord) y
         (set_order_status (signer ord) (authorization_nonce ord) i
           (compute_order_status st2 (signer ord) (authorization_nonce ord) i pf resolved) st2))"
    using assms(3) by (auto simp: execute_validated_order_def Let_def bind_result_Inr_iff)
  then show ?thesis
    using assms trade_inv consume_if_linked_inv inv_status inv_record inv_executed by metis
qed

lemma close_entry_inv:
  assumes "P st" "close_entry E n produced paid e st = Inr st'"
  shows "P st'"
  using assms by (auto simp: close_entry_def Let_def bind_result_Inr_iff
      intro!: inv_executed inv_record dest: consume_if_linked_inv[OF inv_status])

lemma pay_buyer_inv:
  assumes "P st" "pay_buyer E n t b e st = Inr st'"
  shows "P st'"
proof -
  obtain st1 where "effect (transfer_staked_alpha E (chain st) (pallet_account E) (PalletHotkey E) (e_signer e) (e_hotkey e)
      n (alpha_share t b e) False True) st = Inr st1"
    "close_entry E n (Alpha n (e_hotkey e)) (alpha_share t b e) e st1 = Inr st'"
    using assms(2) by (auto simp: pay_buyer_def Let_def bind_result_Inr_iff)
  then show ?thesis using assms(1) inv_pallet inv_alpha close_entry_inv by blast
qed

lemma pay_seller_inv:
  assumes "P (snd acc)" "pay_seller E n t b p e acc = Inr acc'"
  shows "P (snd acc')"
proof -
  obtain fees st where acc: "acc = (fees, st)" by (cases acc)
  obtain x st1 where "effect (transfer_tao E (chain st) (pallet_account E) (e_signer e) x) st = Inr st1"
    "close_entry E n Tao x e st1 = Inr (snd acc')"
    using assms(2) unfolding acc by (auto simp: pay_seller_def Let_def bind_result_Inr_iff)
  moreover have "P st" using assms(1) by (simp add: acc)
  ultimately show ?thesis using inv_pallet inv_tao close_entry_inv by blast
qed

lemma classified_batch_inv:
  assumes "P st" "\<forall>e\<in>set buys \<union> set sells. e_signer e \<in> D" "execute_classified_batch E n p buys sells st = Inr st'"
  shows "P st'"
  using assms(3)
proof (cases rule: classified_batch_cases)
  case nothing
  then show ?thesis using assms by simp
next
  case (settled st1 d x st2 ta st3 fees st4 st5 y)
  have "P st2" using net_pool_swap_inv[OF collect_assets_inv[OF assms(1,2) settled(3)] settled(4)] .
  then have "P st3" by (rule fold_result_inv[OF settled(6), of P]) (rule pay_buyer_inv)
  then have "P st4"
    using fold_result_inv[OF settled(7), of "\<lambda>acc. P (snd acc)"] pay_seller_inv by auto
  then show ?thesis using settled(10) collect_fees_inv[OF _ settled(8)] inv_summary by auto
qed

text \<open>Both calls keep the invariant when the signers of the orders they find valid are in \<open>D\<close>.\<close>

lemma execute_orders_inv:
  assumes "P st" "execute_orders E origin orders should_fail st = Inr st'"
    and "\<And>signed st now p who r. signed \<in> set orders \<Longrightarrow> P st \<Longrightarrow> 
      is_order_valid E st signed (derive_order_id E (order signed)) now p who = Inr r \<Longrightarrow> signer_of (order signed) \<in> D"
  shows "P st'"
proof -
  obtain who where loop: "fold_result (\<lambda>signed st.
       let i = derive_order_id E (order signed)
       in case try_execute_order E signed i who st of
            Inr st' \<Rightarrow> Inr st'
          | Inl reason \<Rightarrow> if should_fail then Inl reason else Inr (deposit_event (OrderSkipped i reason) st)) orders st = Inr st'"
    using assms(2) by (auto simp: execute_orders_def bind_result_Inr_iff)
  have one: "P s'" if "signed \<in> set orders" "P s" "try_execute_order E signed (derive_order_id E (order signed)) who s = Inr s'"
    for signed s s'
  proof -
    note this_order = that
    obtain r q where "is_order_valid E s signed (derive_order_id E (order signed)) (now_ms E (chain s))
        (current_alpha_price E (chain s) (netuid (view (order signed)))) who = Inr (r, q)"
      "execute_validated_order E (view (order signed)) (partial_fill signed) (derive_order_id E (order signed)) r q s = Inr s'"
      using this_order(3) unfolding try_execute_order_eq by (auto simp: bind_result_Inr_iff)
    then show ?thesis using assms(3)[OF that(1,2)] execute_validated_inv[OF that(2)] by (metis signer_view)
  qed
  show ?thesis
    by (rule fold_result_inv[OF loop, of P, OF assms(1)])
      (auto simp: Let_def one inv_skipped split: sum.splits if_splits)
qed

lemma batched_orders_inv:
  assumes "P st" "execute_batched_orders E origin n orders st = Inr st'" "length orders \<le> MaxOrdersPerBatch E"
    and "\<And>signed now p who r. signed \<in> set orders \<Longrightarrow> 
      is_order_valid E st signed (derive_order_id E (order signed)) now p who = Inr r \<Longrightarrow> signer_of (order signed) \<in> D"
  shows "P st'"
proof -
  obtain who where "do_execute_batched_orders E n orders who st = Inr st'"
    using assms(2) by (auto simp: execute_batched_orders_def bind_result_Inr_iff)
  then obtain es where es: "list_all2 (validated E st n who) orders es"
    and run: "execute_classified_batch E n (current_alpha_price E (chain st) n)
       (filter (\<lambda>e. is_buy (side e)) es) (filter (\<lambda>e. \<not> is_buy (side e)) es) st = Inr st'"
    by (rule batch_validated[OF _ assms(3)])
  have "e_signer e \<in> D" if e: "e \<in> set es" for e
  proof -
    obtain k where "k < length es" "es ! k = e" using e by (auto simp: in_set_conv_nth)
    then have "orders ! k \<in> set orders" "validated E st n who (orders ! k) e"
      using es by (auto simp: list_all2_conv_all_nth)
    then show ?thesis using assms(4) by (auto simp: validated_def)
  qed
  then show ?thesis using classified_batch_inv[OF assms(1) _ run] by auto
qed

end

text \<open>What moves assets leaves the pallet's own records, but for approvals of removed accounts.\<close>

definition same_books :: "('a, 's, 'd) orders_storage \<Rightarrow> ('a, 's, 'd) orders_storage \<Rightarrow> bool" where
  "same_books st st' \<longleftrightarrow> Orders st' = Orders st \<and> LinkedOutputs st' = LinkedOutputs st \<and> events st' = events st \<and>
     LimitOrdersEnabled st' = LimitOrdersEnabled st \<and>
     (\<forall>a. ApprovedOrders st' a = None \<or> ApprovedOrders st' a = ApprovedOrders st a)"

interpretation books: asset_invariant E UNIV "same_books st" for E st
  by unfold_locales (auto simp: same_books_def result_iffs, blast+)

lemma same_books_refl: "same_books st st"
  by (simp add: same_books_def)

end
