(* ===== verification/Order_Safety.thy ===== *)
theory Order_Safety
  imports Order_Execution
begin

text \<open>
  What a signer can rely on: orders are filled at most up to their amount, only on the signer's authority, approvals are
  bounded and carry their nonce, and a linked output is used at most once.
\<close>

section \<open>Approvals\<close>

definition approval_of :: "('o, 'a, 's, 'd) orders_env \<Rightarrow> 'a \<Rightarrow> nat \<Rightarrow> OrderApproval \<Rightarrow> bool" where
  "approval_of E owner nonce ap \<longleftrightarrow> (\<exists>terms. signer_of terms = owner \<and>
     ap_id ap = derive_authorized_order_id E nonce terms \<and> commitment ap = order_approval_commitment E nonce terms)"

definition account_ok :: "('o, 'a, 's, 'd) orders_env \<Rightarrow> 'a \<Rightarrow> AccountOrderApprovals \<Rightarrow> bool" where
  "account_ok E owner r \<longleftrightarrow> btree_ok (approvals r) \<and> length (approvals r) \<le> MaxPendingOrders \<and>
     (\<forall>(nonce, ap) \<in> set (approvals r). approval_of E owner nonce ap \<and>
        (\<exists>h. highest_nonce r = Some h \<and> nonce \<le> h))"

definition approvals_ok :: "('o, 'a, 's, 'd) orders_env \<Rightarrow> ('a, 's, 'd) orders_storage \<Rightarrow> bool" where
  "approvals_ok E st \<longleftrightarrow> (\<forall>owner r. ApprovedOrders st owner = Some r \<longrightarrow> account_ok E owner r)"

lemma length_btree_insert:
  "btree_ok m \<Longrightarrow> length (btree_insert k v m) = (if contains_key m k then length m else Suc (length m))"
proof (induction k v m rule: btree_insert.induct)
  case (2 k v j w m)
  then show ?case by (auto simp: btree_ok_def contains_key_def btree_get_def map_of_eq_None_iff dest!: map_of_SomeD)
qed (simp add: contains_key_def btree_get_def)

lemma btree_insert_mem: "btree_ok m \<Longrightarrow> x \<in> set (btree_insert k v m) \<Longrightarrow> x = (k, v) \<or> x \<in> set m \<and> fst x \<noteq> k"
  using btree_mem[OF btree_insert_ok, of m "fst x" "snd x" k v] btree_mem[of m "fst x" "snd x"]
  by (cases x) (auto simp: btree_get_insert split: if_splits)

text \<open>Changing an approval under its nonce, without touching what it approves.\<close>

lemma account_ok_change:
  assumes "account_ok E owner r" "btree_get (approvals r) nonce = Some ap" "approval_of E owner nonce ap'"
  shows "account_ok E owner (r\<lparr>approvals := btree_insert nonce ap' (approvals r)\<rparr>)"
proof -
  have ok: "btree_ok (approvals r)" using assms(1) by (simp add: account_ok_def)
  have mem: "(nonce, ap) \<in> set (approvals r)" using assms(2) btree_mem[OF ok] by blast
  have "contains_key (approvals r) nonce" using assms(2) by (simp add: contains_key_def)
  then have "length (btree_insert nonce ap' (approvals r)) = length (approvals r)" by (simp add: length_btree_insert[OF ok])
  moreover have "approval_of E owner k a \<and> (\<exists>h. highest_nonce r = Some h \<and> k \<le> h)"
    if "(k, a) \<in> set (btree_insert nonce ap' (approvals r))" for k a
    using btree_insert_mem[OF ok that] assms(1,3) mem by (auto simp: account_ok_def)
  ultimately show ?thesis using assms(1) btree_insert_ok[OF ok] by (auto simp: account_ok_def)
qed

lemma account_ok_filter:
  assumes "account_ok E owner r"
  shows "btree_ok (filter f (approvals r)) \<and> length (filter f (approvals r)) \<le> MaxPendingOrders"
proof -
  have "sorted_wrt (<) (map fst (filter f m))" if "sorted_wrt (<) (map fst m)" for m :: "(nat \<times> OrderApproval) list"
    using that by (induction m) auto
  then show ?thesis
    using assms le_trans[OF length_filter_le[of f "approvals r"]] by (auto simp: account_ok_def btree_ok_def)
qed

lemma account_ok_add:
  assumes r: "account_ok E owner r" and new: "btree_get (approvals r) nonce = None"
    and add: "add_approval i c nonce expires now r = Inr r'"
    and ap: "\<And>ap. ap_id ap = i \<Longrightarrow> commitment ap = c \<Longrightarrow> approval_of E owner nonce ap"
  shows "account_ok E owner r'"
proof -
  let ?m = "filter (\<lambda>(_, a). now \<le> ap_expiry a \<and> \<not> terminal (status a)) (approvals r)"
  let ?ap = "\<lparr>ap_id = i, commitment = c, ap_expiry = expires, status = None\<rparr>"
  obtain m where m: "try_insert_approval nonce ?ap ?m = Some m"
    and r': "r' = r\<lparr>approvals := m, highest_nonce := Some nonce\<rparr>"
    and high: "case highest_nonce r of None \<Rightarrow> True | Some h \<Rightarrow> nonce > h"
    using add by (auto simp: add_approval_def result_iffs)
  have ok: "btree_ok ?m" using account_ok_filter[OF r] by blast
  have "\<not> contains_key ?m nonce"
  proof
    assume "contains_key ?m nonce"
    then obtain a where "(nonce, a) \<in> set (approvals r)"
      using btree_mem[OF ok] by (auto simp: contains_key_def)
    then show False using new r btree_mem[of "approvals r" nonce a] by (auto simp: account_ok_def)
  qed
  then have eq: "m = btree_insert nonce ?ap ?m" and len: "length m \<le> MaxPendingOrders"
    using m length_btree_insert[OF ok, of nonce ?ap] by (auto simp: try_insert_approval_def split: if_splits)
  have "approval_of E owner k a \<and> k \<le> nonce" if "(k, a) \<in> set m" for k a
    using btree_insert_mem[OF ok that[unfolded eq]] r high ap[of ?ap] by (auto simp: account_ok_def split: option.splits)
  then show ?thesis unfolding r' using btree_insert_ok[OF ok] eq len by (auto simp: account_ok_def)
qed

lemma approvals_ok_status: "approvals_ok E st \<Longrightarrow> approvals_ok E (set_order_status owner nonce i s st)"
proof -
  assume ok: "approvals_ok E st"
  have "approval_of E owner n (ap\<lparr>status := Some s\<rparr>)" if "ApprovedOrders st owner = Some r" "btree_get (approvals r) n = Some ap" for n r ap
  proof -
    have "account_ok E owner r" using ok that by (simp add: approvals_ok_def)
    then have "approval_of E owner n ap" using that btree_mem[of "approvals r" n ap] by (auto simp: account_ok_def)
    then show ?thesis by (simp add: approval_of_def)
  qed
  then show "approvals_ok E (set_order_status owner nonce i s st)"
    using ok account_ok_change by (fastforce simp: approvals_ok_def set_order_status_def split: option.splits if_splits)
qed

lemma approvals_ok_moved: "approvals_ok E st \<Longrightarrow> approvals_ok E (fold on_killed_account killed (st\<lparr>chain := s\<rparr>))"
  by (auto simp: approvals_ok_def)

interpretation approvals: execution_invariant E UNIV "approvals_ok E" for E
proof
  fix st :: "('b, 'c, 'd) orders_storage" and owner nonce i s
  show "approvals_ok E st \<Longrightarrow> approvals_ok E (set_order_status owner nonce i s st)" by (rule approvals_ok_status)
qed (auto simp: result_iffs consume_frame approvals_ok_def split: if_splits)

lemma approvals_ok_approve:
  assumes "approvals_ok E st" "approve_order E (signer_of terms) nonce terms st = Inr (i, st')"
  shows "approvals_ok E st'"
proof -
  let ?o = "signer_of terms" and ?c = "order_approval_commitment E nonce terms"
  let ?i = "derive_authorized_order_id E nonce terms"
  define r where "r = (case ApprovedOrders st ?o of None \<Rightarrow> \<lparr>highest_nonce = None, approvals = []\<rparr> | Some r \<Rightarrow> r)"
  have r: "account_ok E ?o r"
    using assms(1) by (auto simp: r_def approvals_ok_def account_ok_def split: option.splits)
  have new: "approval_of E ?o nonce ap" if "ap_id ap = ?i" "commitment ap = ?c" for ap
    using that by (auto simp: approval_of_def)
  obtain r' where r': "(case btree_get (approvals r) nonce of
        Some existing \<Rightarrow> renew_approval ?i ?c nonce existing r
      | None \<Rightarrow> add_approval ?i ?c nonce (expiry (view terms)) (now_ms E (chain st)) r) = (Inr r' :: 'd DispatchError + _)"
    and st': "st' = st\<lparr>ApprovedOrders := (ApprovedOrders st)(?o \<mapsto> r')\<rparr>"
    using assms(2) by (auto simp: approve_order_def Let_def result_iffs r_def[symmetric])
  have "account_ok E ?o r'"
    using r' account_ok_add[OF r] account_ok_change[OF r] new
    by (fastforce simp: renew_approval_def result_iffs split: option.splits)
  then show ?thesis using assms(1) by (auto simp: st' approvals_ok_def)
qed

lemma approvals_ok_step:
  assumes "orders_step E W st os st'" "approvals_ok E st"
  shows "approvals_ok E st'"
  using assms
proof (cases rule: orders_step.cases)
  case (executed orders origin should_fail)
  show ?thesis by (rule approvals.execute_orders_inv[OF assms(2) executed(3)]) simp
next
  case (batched orders origin n)
  show ?thesis by (rule approvals.batched_orders_inv[OF assms(2) batched(3,2)]) simp
next
  case (cancelled origin ord)
  have change: "account_ok E owner (r\<lparr>approvals := btree_insert n (ap\<lparr>status := s\<rparr>) (approvals r)\<rparr>)"
    if "ApprovedOrders st owner = Some r" "btree_get (approvals r) n = Some ap" for owner r n ap s
  proof -
    have r: "account_ok E owner r" using assms(2) that by (simp add: approvals_ok_def)
    then have "approval_of E owner n ap" using that btree_mem[of "approvals r" n ap] by (auto simp: account_ok_def)
    then show ?thesis using account_ok_change[OF r that(2)] by (simp add: approval_of_def)
  qed
  show ?thesis
    using cancelled(2) assms(2) change
    by (auto simp: cancel_order_def cancel_authenticated_order_def Let_def result_iffs approvals_ok_def
        split: option.splits if_splits)
next
  case (authorized origin ord)
  then obtain nonce terms i st1 where "authorized_terms ord = Some (nonce, terms)"
    "approve_order E (signer_of ord) nonce terms st = Inr (i, st1)" "ApprovedOrders st' = ApprovedOrders st1"
    by (auto simp: authorize_order_def result_iffs)
  moreover from this have "signer_of ord = signer_of terms"
    by (cases ord rule: signer_of.cases) auto
  ultimately show ?thesis using approvals_ok_approve[OF assms(2)] by (auto simp: approvals_ok_def)
next
  case (upgraded w)
  then show ?thesis using assms(2)
    by (auto simp: on_runtime_upgrade_def migrate_register_pallet_hotkey_def Let_def approvals_ok_def split: if_splits)
qed (auto simp: set_pallet_status_def prune_linked_output_def result_iffs approvals_ok_def split: if_splits)

lemma approvals_ok_run: "orders_run E W st os st' \<Longrightarrow> approvals_ok E st \<Longrightarrow> approvals_ok E st'"
  by (induction rule: orders_run.induct) (auto intro: approvals_ok_step)

section \<open>Linked outputs\<close>

fun uses_output :: "H256 \<Rightarrow> ('a, 'd) Event \<Rightarrow> bool" where
  "uses_output p (LinkedOutputConsumed q _ _ _) = (q = p)"
| "uses_output p (LinkedOutputPruned q _) = (q = p)"
| "uses_output p _ = False"

fun records_output :: "H256 \<Rightarrow> ('a, 'd) Event \<Rightarrow> bool" where
  "records_output p (LinkedOutputRecorded q _ _ _ _) = (q = p)"
| "records_output p _ = False"

definition linked_at :: "('a, 's, 'd) orders_storage \<Rightarrow> H256 \<Rightarrow> bool" where
  "linked_at st p \<longleftrightarrow> length (filter (uses_output p) (events st)) + (if LinkedOutputs st p = None then 0 else 1)
     \<le> length (filter (records_output p) (events st))"

definition linked_ok :: "('a, 's, 'd) orders_storage \<Rightarrow> bool" where
  "linked_ok st \<longleftrightarrow> (\<forall>p. linked_at st p)"

lemma linked_ok_frame [simp]:
  "linked_ok (fold on_killed_account killed st) = linked_ok st" "linked_ok (st\<lparr>chain := s\<rparr>) = linked_ok st"
  "linked_ok (set_order_status owner nonce i new st) = linked_ok st" "linked_ok (st\<lparr>Orders := m\<rparr>) = linked_ok st"
  "linked_ok (st\<lparr>ApprovedOrders := m'\<rparr>) = linked_ok st" "linked_ok (st\<lparr>LimitOrdersEnabled := b\<rparr>) = linked_ok st"
  "linked_ok (st\<lparr>HasMigrationRun := r\<rparr>) = linked_ok st"
  by (simp_all add: linked_ok_def linked_at_def)

lemma linked_ok_event [simp]:
  "\<forall>p. \<not> uses_output p e \<and> \<not> records_output p e \<Longrightarrow> linked_ok (deposit_event e st) = linked_ok st"
  by (simp add: linked_ok_def linked_at_def)

lemma linked_at_consume: "consume_linked_output p c x st = Inr st' \<Longrightarrow> linked_at st q \<Longrightarrow> linked_at st' q"
  by (auto simp: consume_linked_output_def result_iffs linked_at_def split: if_splits)

lemma linked_at_record: "linked_at st q \<Longrightarrow> linked_at (record_linked_output E i owner a f x st) q"
  by (auto simp: record_linked_output_def Let_def linked_at_def split: if_splits)

lemma linked_at_prune: "prune_linked_output E origin i st = Inr st' \<Longrightarrow> linked_at st q \<Longrightarrow> linked_at st' q"
  by (auto simp: prune_linked_output_def result_iffs linked_at_def split: if_splits)

interpretation linked: execution_invariant E UNIV linked_ok for E
proof
  fix st st' :: "('b, 'c, 'd) orders_storage" and p c x
  show "linked_ok st \<Longrightarrow> consume_linked_output p c x st = Inr st' \<Longrightarrow> linked_ok st'"
    by (auto simp: linked_ok_def linked_at_consume)
next
  fix st :: "('b, 'c, 'd) orders_storage" and i owner a f x
  show "linked_ok st \<Longrightarrow> linked_ok (record_linked_output E i owner a f x st)" by (auto simp: linked_ok_def linked_at_record)
qed (auto simp: result_iffs)

lemma linked_ok_step:
  assumes "orders_step E W st os st'" "linked_ok st"
  shows "linked_ok st'"
  using assms
proof (cases rule: orders_step.cases)
  case (executed orders origin should_fail)
  show ?thesis by (rule linked.execute_orders_inv[OF assms(2) executed(3)]) simp
next
  case (batched orders origin n)
  show ?thesis by (rule linked.batched_orders_inv[OF assms(2) batched(3,2)]) simp
next
  case (pruned origin i)
  then show ?thesis using assms(2) linked_at_prune[OF pruned(2)] by (simp add: linked_ok_def)
next
  case (cancelled origin ord)
  then show ?thesis using assms(2)
    by (auto simp: cancel_order_def cancel_authenticated_order_def Let_def result_iffs split: option.splits)
next
  case (authorized origin ord)
  then show ?thesis using assms(2)
    by (auto simp: authorize_order_def approve_order_def Let_def result_iffs)
next
  case (upgraded w)
  then show ?thesis using assms(2)
    by (auto simp: on_runtime_upgrade_def migrate_register_pallet_hotkey_def Let_def split: if_splits)
qed (auto simp: set_pallet_status_def result_iffs)

lemma linked_ok_run: "orders_run E W st os st' \<Longrightarrow> linked_ok st \<Longrightarrow> linked_ok st'"
  by (induction rule: orders_run.induct) (auto intro: linked_ok_step)

section \<open>Fills\<close>

text \<open>The inputs with which an order was executed, by the events of the pallet.\<close>

fun fills_of :: "H256 \<Rightarrow> ('a, 'd) Event list \<Rightarrow> nat list" where
  "fills_of i [] = []"
| "fills_of i (OrderExecuted j _ _ _ x _ # es) = (if j = i then x # fills_of i es else fills_of i es)"
| "fills_of i (_ # es) = fills_of i es"

lemma fills_of_append [simp]: "fills_of i (es @ es') = fills_of i es @ fills_of i es'"
  by (induction i es rule: fills_of.induct) auto

definition next_status :: "OrderStatus option \<Rightarrow> nat option \<Rightarrow> nat \<Rightarrow> OrderStatus" where
  "next_status s pf full =
     (case pf of
        None \<Rightarrow> Fulfilled
      | Some fill \<Rightarrow>
          (let already_filled = (case s of Some (PartiallyFilled n) \<Rightarrow> n | _ \<Rightarrow> 0);
               new_total = saturating_add U64_MAX already_filled fill
           in if new_total \<ge> full then Fulfilled else PartiallyFilled new_total))"

lemma compute_order_status_plain: "compute_order_status st owner None i pf full = next_status (Orders st i) pf full"
  by (cases pf) (simp_all add: compute_order_status_def next_status_def order_status_def)

text \<open>What the fills of an order may add up to, and the status that goes with it.\<close>

fun fits_amount :: "OrderAmount \<Rightarrow> nat list \<Rightarrow> bool" where
  "fits_amount (Fixed A) fs = (sum_list fs \<le> A)"
| "fits_amount (LinkedPercentage _ _) fs = (length fs \<le> 1)"

definition fills_ok :: "OrderAmount \<Rightarrow> OrderStatus option \<Rightarrow> nat list \<Rightarrow> bool" where
  "fills_ok a s fs =
     (case s of
        None \<Rightarrow> fs = []
      | Some (PartiallyFilled k) \<Rightarrow> (\<exists>A. a = Fixed A \<and> sum_list fs \<le> k \<and> k < A)
      | Some _ \<Rightarrow> fits_amount a fs)"

text \<open>A fill that the validation lets through.\<close>

definition fill_allowed :: "OrderAmount \<Rightarrow> OrderStatus option \<Rightarrow> nat option \<Rightarrow> nat \<Rightarrow> bool" where
  "fill_allowed a s pf full \<longleftrightarrow> \<not> terminal s \<and> (\<forall>A. a = Fixed A \<longrightarrow> full = A) \<and>
     (case pf of
        None \<Rightarrow> s = None
      | Some f \<Rightarrow> \<not> is_linked a \<and> f \<le> (case s of Some (PartiallyFilled k) \<Rightarrow> full - k | _ \<Rightarrow> full))"

lemma fills_ok_next:
  assumes ok: "fills_ok a s fs" and allowed: "fill_allowed a s pf full" and x: "x \<le> unwrap_or pf full"
    and bound: "\<forall>A. a = Fixed A \<longrightarrow> A \<le> U64_MAX"
  shows "fills_ok a (Some (next_status s pf full)) (fs @ [x])"
proof (cases pf)
  case None
  then have "s = None" "fs = []" using ok allowed by (auto simp: fill_allowed_def fills_ok_def)
  then show ?thesis using None x allowed by (cases a) (auto simp: next_status_def fills_ok_def fill_allowed_def)
next
  case (Some f)
  then obtain A where a: "a = Fixed A" "full = A" "A \<le> U64_MAX"
    using allowed bound by (cases a) (auto simp: fill_allowed_def)
  show ?thesis
  proof (cases s)
    case None
    then show ?thesis using a Some x ok allowed
      by (auto simp: next_status_def fills_ok_def fill_allowed_def saturating_add_def Let_def)
  next
    case (Some t)
    then obtain k where "t = PartiallyFilled k" using allowed by (cases t) (auto simp: fill_allowed_def terminal_def)
    then show ?thesis using a \<open>pf = Some f\<close> Some x ok allowed
      by (auto simp: next_status_def fills_ok_def fill_allowed_def saturating_add_def Let_def)
  qed
qed

lemma valid_fill_allowed:
  fixes E :: "('o, 'a, 's, 'd) orders_env"
  assumes valid: "is_order_valid E st signed i now p who = Inr (resolved, prov)" "\<not> is_authorized (order signed)"
  shows "fill_allowed (amount (view (order signed))) (Orders st i) (partial_fill signed) resolved"
proof -
  let ?o = "view (order signed)"
  have nonce: "authorization_nonce ?o = None"
    using valid(2) by (simp add: nonce_view flip: authorized_terms_None)
  have v: "validate_order_execution st ?o (partial_fill signed) i now p who = Inr (resolved, prov)"
    using plain_order_valid[OF valid] by blast
  then have nt: "\<not> terminal (Orders st i)"
    by (auto simp: validate_order_execution_def Let_def result_iffs order_status_def nonce terminal_def)
  have r: "resolve_amount st ?o now = Inr (resolved, prov)" 
    "check_fill ?o (Orders st i) (partial_fill signed) resolved = (Inr () :: 'd DispatchError + unit)"
    using v by (auto simp: validate_order_execution_def Let_def result_iffs order_status_def nonce)
  have full: "resolved = A" if "amount ?o = Fixed A" for A using r(1) that by (simp add: resolve_amount_def)
  show ?thesis
    using r(2) nt full
    by (auto simp: fill_allowed_def check_fill_def result_iffs Let_def terminal_def split: option.splits OrderStatus.splits)
qed

text \<open>What the execution of one order enters in the books.\<close>

definition booked ::
  "nat option \<Rightarrow> H256 \<Rightarrow> nat option \<Rightarrow> nat \<Rightarrow> ('a, 's, 'd) orders_storage \<Rightarrow> ('a, 's, 'd) orders_storage \<Rightarrow> bool" where
  "booked nonce j pf full st st' \<longleftrightarrow>
     Orders st' = (case nonce of None \<Rightarrow> (Orders st)(j \<mapsto> next_status (Orders st j) pf full) | Some _ \<Rightarrow> Orders st) \<and>
     (\<exists>x \<le> unwrap_or pf full. \<forall>i. fills_of i (events st') = fills_of i (events st) @ (if i = j then [x] else []))"

lemma consume_fills: "consume_if_linked prov c x st = Inr st' \<Longrightarrow> Orders st' = Orders st \<and> fills_of i (events st') = fills_of i (events st)"
  by (auto simp: consume_if_linked_def consume_linked_output_def result_iffs split: option.splits)

lemma record_fills [simp]: "fills_of i (events (record_linked_output E j owner a f x st)) = fills_of i (events st)"
  by (simp add: record_linked_output_def Let_def)

lemma trade_books:
  assumes "trade E ord fill st = Inr (x, y, st')"
  shows "same_books st st' \<and> x \<le> fill"
proof -
  have "same_books st st'" by (rule books.trade_inv[OF same_books_refl UNIV_I assms])
  moreover have "x \<le> fill" using assms by (auto simp: trade_def Let_def result_iffs split: if_splits)
  ultimately show ?thesis ..
qed

lemma execute_validated_booked:
  assumes "execute_validated_order E ord pf j resolved prov st = Inr st'"
  shows "booked (authorization_nonce ord) j pf resolved st st'"
proof -
  obtain x y st1 st2 where t: "trade E ord (unwrap_or pf resolved) st = Inr (x, y, st1)"
    and c: "consume_if_linked prov j resolved st1 = Inr st2"
    and st': "st' = deposit_event (OrderExecuted j (signer ord) (netuid ord) (order_type ord) x y)
       (record_linked_output E j (signer ord) (output_asset ord) (has_linked_order ord) y
         (set_order_status (signer ord) (authorization_nonce ord) j
           (compute_order_status st2 (signer ord) (authorization_nonce ord) j pf resolved) st2))"
    using assms by (auto simp: execute_validated_order_def Let_def bind_result_Inr_iff)
  have "Orders st2 = Orders st" "fills_of i (events st2) = fills_of i (events st)" for i
    using trade_books[OF t] consume_fills[OF c] by (auto simp: same_books_def)
  then show ?thesis
    using trade_books[OF t] unfolding booked_def st'
    by (auto simp: compute_order_status_plain split: option.splits intro!: exI[of _ x])
qed

lemma close_entry_booked:
  assumes "close_entry E n produced paid e st = Inr st'" "gross e = unwrap_or (e_partial_fill e) (order_amount e)"
  shows "booked (e_nonce e) (order_id e) (e_partial_fill e) (order_amount e) st st'"
proof -
  obtain st2 where c: "consume_if_linked (provider e) (order_id e) (order_amount e)
       (set_order_status (e_signer e) (e_nonce e) (order_id e)
         (compute_order_status st (e_signer e) (e_nonce e) (order_id e) (e_partial_fill e) (order_amount e)) st) = Inr st2"
    and st': "st' = deposit_event (OrderExecuted (order_id e) (e_signer e) n (side e) (gross e) paid)
       (record_linked_output E (order_id e) (e_signer e) produced (e_has_linked_order e) paid st2)"
    using assms(1) by (auto simp: close_entry_def Let_def bind_result_Inr_iff)
  show ?thesis
    using consume_fills[OF c] assms(2) unfolding booked_def st'
    by (auto simp: compute_order_status_plain split: option.splits intro!: exI[of _ "gross e"])
qed

lemma same_books_booked: "same_books st st1 \<Longrightarrow> booked nonce j pf full st1 st' \<Longrightarrow> booked nonce j pf full st st'"
  by (cases nonce) (simp_all add: same_books_def booked_def)

text \<open>
  A relation between the status and the fills of an order that allowed fills and cancellation keep; and that it is kept for
  the order with the id \<open>i\<close> by the execution of any order.
\<close>

definition fill_law :: "OrderAmount \<Rightarrow> (OrderStatus option \<Rightarrow> nat list \<Rightarrow> bool) \<Rightarrow> bool" where
  "fill_law a Q \<longleftrightarrow>
     (\<forall>s fs pf full x. Q s fs \<longrightarrow> fill_allowed a s pf full \<longrightarrow> x \<le> unwrap_or pf full \<longrightarrow>
        Q (Some (next_status s pf full)) (fs @ [x])) \<and>
     (\<forall>fs. Q None fs \<longrightarrow> Q (Some Cancelled) fs)"

lemma fill_law_amount:
  assumes "\<forall>A. a = Fixed A \<longrightarrow> A \<le> U64_MAX"
  shows "fill_law a (fills_ok a)"
proof -
  have "fills_ok a None fs \<Longrightarrow> fills_ok a (Some Cancelled) fs" for fs by (cases a) (simp_all add: fills_ok_def)
  then show ?thesis using fills_ok_next[OF _ _ _ assms] by (simp add: fill_law_def)
qed

lemma fill_law_final: "terminal s \<Longrightarrow> fill_law a (\<lambda>t gs. t = s \<and> gs = fs)"
  by (auto simp: fill_law_def fill_allowed_def terminal_def)

definition books_of :: "(OrderStatus option \<Rightarrow> nat list \<Rightarrow> bool) \<Rightarrow> H256 \<Rightarrow> ('a, 's, 'd) orders_storage \<Rightarrow> bool" where
  "books_of Q i st \<longleftrightarrow> Q (Orders st i) (fills_of i (events st))"

lemma books_of_same: "same_books st st' \<Longrightarrow> books_of Q i st \<Longrightarrow> books_of Q i st'"
  by (simp add: books_of_def same_books_def)

lemma books_of_booked:
  assumes "booked nonce j pf full st st'" "books_of Q i st" "fill_law a Q"
    "j = i \<Longrightarrow> nonce = None \<and> fill_allowed a (Orders st i) pf full"
  shows "books_of Q i st'"
proof (cases "j = i")
  case True
  then have "nonce = None" "fill_allowed a (Orders st i) pf full" using assms(4) by auto
  then show ?thesis using assms(1-3) True unfolding books_of_def booked_def fill_law_def by fastforce
next
  case False
  then show ?thesis using assms(1,2) by (auto simp: books_of_def booked_def split: option.splits)
qed

lemma pay_buyer_booked:
  assumes "pay_buyer E n t b e st = Inr st'" "gross e = unwrap_or (e_partial_fill e) (order_amount e)"
  shows "booked (e_nonce e) (order_id e) (e_partial_fill e) (order_amount e) st st'"
proof -
  obtain st1 where m: "effect (transfer_staked_alpha E (chain st) (pallet_account E) (PalletHotkey E) (e_signer e) (e_hotkey e)
      n (alpha_share t b e) False True) st = Inr st1"
    and c: "close_entry E n (Alpha n (e_hotkey e)) (alpha_share t b e) e st1 = Inr st'"
    using assms(1) by (auto simp: pay_buyer_def Let_def bind_result_Inr_iff)
  show ?thesis
    by (rule same_books_booked[OF books.inv_alpha[OF same_books_refl UNIV_I m] close_entry_booked[OF c assms(2)]])
qed

lemma pay_seller_booked:
  assumes "pay_seller E n t b p e acc = Inr acc'" "gross e = unwrap_or (e_partial_fill e) (order_amount e)"
  shows "booked (e_nonce e) (order_id e) (e_partial_fill e) (order_amount e) (snd acc) (snd acc')"
proof -
  obtain fees st where acc: "acc = (fees, st)" by (cases acc)
  obtain x st1 where m: "effect (transfer_tao E (chain st) (pallet_account E) (e_signer e) x) st = Inr st1"
    and c: "close_entry E n Tao x e st1 = Inr (snd acc')"
    using assms(1) unfolding acc by (auto simp: pay_seller_def Let_def bind_result_Inr_iff)
  show ?thesis
    using same_books_booked[OF books.inv_tao[OF same_books_refl UNIV_I m] close_entry_booked[OF c assms(2)]]
    by (simp add: acc)
qed

text \<open>The entry of the tracked order in a batch, if it has one, allows its fill until it is paid.\<close>

definition entry_allowed :: "OrderAmount \<Rightarrow> H256 \<Rightarrow> ('a, 's, 'd) orders_storage \<Rightarrow> 'a OrderEntry \<Rightarrow> bool" where
  "entry_allowed a i st e \<longleftrightarrow> gross e = unwrap_or (e_partial_fill e) (order_amount e) \<and>
     (order_id e = i \<longrightarrow> e_nonce e = None \<and> fill_allowed a (Orders st i) (e_partial_fill e) (order_amount e))"

lemma entry_allowed_booked:
  assumes "booked (e_nonce e) (order_id e) pf full st st'" "order_id e' \<noteq> order_id e" "entry_allowed a i st e'"
  shows "entry_allowed a i st' e'"
  using assms by (auto simp: entry_allowed_def booked_def split: option.splits)

lemma payments_booked:
  assumes "fold_result pay es acc = Inr acc'"
    and pay: "\<And>e acc acc'. pay e acc = Inr acc' \<Longrightarrow> gross e = unwrap_or (e_partial_fill e) (order_amount e) \<Longrightarrow>
      booked (e_nonce e) (order_id e) (e_partial_fill e) (order_amount e) (proj acc) (proj acc')"
    and "distinct (map order_id (es @ rest))" "\<forall>e\<in>set (es @ rest). entry_allowed a i (proj acc) e"
    and "books_of Q i (proj acc)" "fill_law a Q"
  shows "books_of Q i (proj acc') \<and> (\<forall>e\<in>set rest. entry_allowed a i (proj acc') e)"
  using assms(1,3-5)
proof (induction es arbitrary: acc)
  case (Cons e es)
  obtain acc1 where one: "pay e acc = Inr acc1" and more: "fold_result pay es acc1 = Inr acc'"
    using Cons.prems(1) by (auto simp: bind_result_Inr_iff)
  have e: "entry_allowed a i (proj acc) e" using Cons.prems(3) by simp
  have b: "booked (e_nonce e) (order_id e) (e_partial_fill e) (order_amount e) (proj acc) (proj acc1)"
    using pay[OF one] e by (simp add: entry_allowed_def)
  have "books_of Q i (proj acc1)"
    using books_of_booked[OF b Cons.prems(4) assms(6)] e by (auto simp: entry_allowed_def)
  moreover have "entry_allowed a i (proj acc1) e'" if "e' \<in> set (es @ rest)" for e'
  proof (rule entry_allowed_booked[OF b])
    show "order_id e' \<noteq> order_id e" using Cons.prems(2) that by (auto simp: image_iff)
    show "entry_allowed a i (proj acc) e'" using Cons.prems(3) that by simp
  qed
  ultimately show ?case using Cons.IH[OF more] Cons.prems(2) by simp
qed auto

lemma classified_batch_books:
  assumes "execute_classified_batch E n p buys sells st = Inr st'" "books_of Q i st"
    and ids: "distinct (map order_id (buys @ sells))" and allowed: "\<forall>e\<in>set (buys @ sells). entry_allowed a i st e"
    and bound: "fill_law a Q"
  shows "books_of Q i st'"
  using assms(1)
proof (cases rule: classified_batch_cases)
  case nothing
  then show ?thesis using assms(2) by simp
next
  case (settled st1 d x st2 ta st3 fees st4 st5 y)
  have "same_books st st2"
    by (rule books.net_pool_swap_inv[OF books.collect_assets_inv[OF same_books_refl _ settled(3)] settled(4)]) simp
  then have 2: "books_of Q i st2" "\<forall>e\<in>set (buys @ sells). entry_allowed a i st2 e"
    using assms(2) allowed by (simp_all add: books_of_def entry_allowed_def same_books_def)
  have 3: "books_of Q i st3 \<and> (\<forall>e\<in>set sells. entry_allowed a i st3 e)"
    using payments_booked[where proj = "\<lambda>x. x", OF settled(6) pay_buyer_booked ids 2(2,1) bound] by simp
  have "books_of Q i (snd (fees, st4)) \<and> (\<forall>e\<in>set []. entry_allowed a i (snd (fees, st4)) e)"
    by (rule payments_booked[where proj = snd, OF settled(7) _ _ _ _ bound], erule (1) pay_seller_booked)
      (use ids 3 in auto)
  then have "books_of Q i st4" by simp
  moreover have "same_books st4 st5" by (rule books.collect_fees_inv[OF same_books_refl settled(8)])
  ultimately have "books_of Q i st5" by (rule books_of_same[rotated])
  then show ?thesis by (simp add: settled(10) books_of_def)
qed

text \<open>The order that is tracked: no other order submitted has its id.\<close>

definition sole_with_id :: "('o, 'a, 's, 'd) orders_env \<Rightarrow> 'a VersionedOrder \<Rightarrow> 'a VersionedOrder list \<Rightarrow> bool" where
  "sole_with_id E ord submitted \<longleftrightarrow> (\<forall>ord'\<in>set submitted. derive_order_id E ord' = derive_order_id E ord \<longrightarrow> ord' = ord)"

lemma try_execute_books:
  assumes "try_execute_order E signed (derive_order_id E (order signed)) who st = Inr st'"
    and "books_of Q (derive_order_id E ord) st" "\<not> is_authorized ord" "sole_with_id E ord [order signed]"
    and "fill_law (amount (view ord)) Q"
  shows "books_of Q (derive_order_id E ord) st'"
proof -
  obtain r q where v: "is_order_valid E st signed (derive_order_id E (order signed)) (now_ms E (chain st))
        (current_alpha_price E (chain st) (netuid (view (order signed)))) who = Inr (r, q)"
    and x: "execute_validated_order E (view (order signed)) (partial_fill signed) (derive_order_id E (order signed)) r q st = Inr st'"
    using assms(1) unfolding try_execute_order_eq by (auto simp: bind_result_Inr_iff)
  show ?thesis
  proof (rule books_of_booked[OF execute_validated_booked[OF x] assms(2,5)])
    assume "derive_order_id E (order signed) = derive_order_id E ord"
    then have "order signed = ord" using assms(4) by (simp add: sole_with_id_def)
    then show "authorization_nonce (view (order signed)) = None \<and>
        fill_allowed (amount (view ord)) (Orders st (derive_order_id E ord)) (partial_fill signed) r"
      using valid_fill_allowed[OF v] assms(3) by (simp add: nonce_view flip: authorized_terms_None)
  qed
qed

lemma cancel_books:
  assumes "cancel_order E origin ord st = Inr st'" "books_of Q i st" "fill_law a Q"
  shows "books_of Q i st'"
proof -
  have "fills_of i (events st') = fills_of i (events st) \<and>
      (Orders st' i = Orders st i \<or> Orders st i = None \<and> Orders st' i = Some Cancelled)"
    using assms(1) by (auto simp: cancel_order_def cancel_authenticated_order_def Let_def result_iffs split: option.splits if_splits)
  then show ?thesis using assms(2,3) by (auto simp: books_of_def fill_law_def)
qed

lemma books_step:
  assumes "orders_step E W st os st'" "books_of Q (derive_order_id E ord) st" "\<not> is_authorized ord"
    and sole: "sole_with_id E ord os" and bound: "fill_law (amount (view ord)) Q"
  shows "books_of Q (derive_order_id E ord) st'"
  using assms(1)
proof (cases rule: orders_step.cases)
  case (executed orders origin should_fail)
  let ?b = "books_of Q (derive_order_id E ord)"
  obtain who where loop: "fold_result (\<lambda>signed st.
       let i = derive_order_id E (order signed)
       in case try_execute_order E signed i who st of
            Inr st' \<Rightarrow> Inr st'
          | Inl reason \<Rightarrow> if should_fail then Inl reason else Inr (deposit_event (OrderSkipped i reason) st)) orders st = Inr st'"
    using executed(3) by (auto simp: execute_orders_def bind_result_Inr_iff)
  have "sole_with_id E ord [order signed]" if "signed \<in> set orders" for signed
    using sole that by (auto simp: sole_with_id_def executed(1))
  then have "?b s'" if "signed \<in> set orders" "?b s" "try_execute_order E signed (derive_order_id E (order signed)) who s = Inr s'"
    for signed s s'
    using that try_execute_books[OF that(3,2) assms(3) _ bound] by blast
  then show ?thesis
    by (intro fold_result_inv[OF loop, of ?b, OF assms(2)])
      (auto simp: Let_def books_of_def split: sum.splits if_splits)
next
  case (batched orders origin n)
  obtain who where "do_execute_batched_orders E n orders who st = Inr st'"
    using batched(3) by (auto simp: execute_batched_orders_def bind_result_Inr_iff)
  then obtain es where es: "list_all2 (validated E st n who) orders es" and ids: "distinct (map order_id es)"
    and run: "execute_classified_batch E n (current_alpha_price E (chain st) n)
       (filter (\<lambda>e. is_buy (side e)) es) (filter (\<lambda>e. \<not> is_buy (side e)) es) st = Inr st'"
    by (rule batch_validated[OF _ batched(2)])
  have allowed: "entry_allowed (amount (view ord)) (derive_order_id E ord) st e" if e: "e \<in> set es" for e
  proof -
    obtain signed where s: "signed \<in> set orders" "validated E st n who signed e"
      using es e by (metis in_set_conv_nth list_all2_conv_all_nth)
    have "order signed = ord" if "derive_order_id E (order signed) = derive_order_id E ord"
      using sole s(1) that by (auto simp: sole_with_id_def batched(1))
    then show ?thesis
      using s(2) valid_fill_allowed[of E st signed] assms(3)
      by (auto simp: validated_def entry_allowed_def nonce_view authorized_terms_None[symmetric])
  qed
  have "distinct (map order_id (filter (\<lambda>e. is_buy (side e)) es @ filter (\<lambda>e. \<not> is_buy (side e)) es))"
    using ids by (auto simp: distinct_map distinct_filter intro: inj_on_subset dest: inj_onD)
  then show ?thesis
    using classified_batch_books[OF run assms(2) _ _ bound] allowed by auto
next
  case (cancelled origin ord')
  show ?thesis by (rule cancel_books[OF cancelled(2) assms(2) bound])
next
  case (authorized origin ord')
  then show ?thesis using assms(2)
    by (auto simp: authorize_order_def approve_order_def Let_def result_iffs books_of_def)
next
  case (upgraded w)
  then show ?thesis using assms(2)
    by (auto simp: on_runtime_upgrade_def migrate_register_pallet_hotkey_def Let_def books_of_def split: if_splits)
qed (use assms(2) in \<open>auto simp: set_pallet_status_def prune_linked_output_def result_iffs books_of_def\<close>)

lemma books_run:
  assumes "orders_run E W st os st'" "books_of Q (derive_order_id E ord) st" "\<not> is_authorized ord"
    "sole_with_id E ord os" "fill_law (amount (view ord)) Q"
  shows "books_of Q (derive_order_id E ord) st'"
  using assms
proof (induction rule: orders_run.induct)
  case (more st os st' os' st'')
  then have "sole_with_id E ord os" "sole_with_id E ord os'" by (auto simp: sole_with_id_def)
  then show ?case using more books_step by blast
qed simp

section \<open>Authority\<close>

text \<open>
  An order with its signer's authority: a signature of the signer over the encoded order, over its wrapped id or over its
  readable text, or an approval on record under its nonce with its id and its commitment.
\<close>

definition authentic :: "('o, 'a, 's, 'd) orders_env \<Rightarrow> ('a, 's, 'd) orders_storage \<Rightarrow> 'a SignedOrder \<Rightarrow> bool" where
  "authentic E st signed =
     (case authorized_terms (order signed) of
        None \<Rightarrow> verify_order E signed \<or> verify_wrapped E signed (derive_order_id E (order signed)) \<or> verify_readable E signed
      | Some (nonce, terms) \<Rightarrow> signature signed = AccountApproved \<and>
          (case approved_order st (signer_of (order signed)) nonce of
             None \<Rightarrow> False
           | Some ap \<Rightarrow> ap_id ap = derive_order_id E (order signed) \<and>
               commitment ap = order_approval_commitment E nonce terms))"

lemma valid_authentic:
  assumes "is_order_valid E st signed (derive_order_id E (order signed)) now p who = Inr r"
  shows "authentic E st signed"
proof (cases "authorized_terms (order signed)")
  case None
  then show ?thesis
    using plain_order_valid[OF assms] authorized_terms_None[of "order signed"] by (simp add: authentic_def)
next
  case (Some nt)
  then obtain nonce terms where nt: "authorized_terms (order signed) = Some (nonce, terms)" by (cases nt) auto
  show ?thesis by (rule approved_order_valid[OF assms nt]) (simp add: authentic_def nt)
qed

text \<open>During a call approvals may disappear or change their status; none appears.\<close>

definition approvals_from :: "('a, 's, 'd) orders_storage \<Rightarrow> ('a, 's, 'd) orders_storage \<Rightarrow> bool" where
  "approvals_from st0 st \<longleftrightarrow> (\<forall>owner n ap. approved_order st owner n = Some ap \<longrightarrow>
     (\<exists>ap0. approved_order st0 owner n = Some ap0 \<and> ap_id ap0 = ap_id ap \<and> commitment ap0 = commitment ap))"

lemma approvals_from_frame [simp]:
  "approvals_from st0 (deposit_event e st) = approvals_from st0 st"
  "approvals_from st0 (record_linked_output E i owner a f x st) = approvals_from st0 st"
  by (simp_all add: approvals_from_def approved_order_def)

lemma approvals_from_less:
  "approvals_from st0 st \<Longrightarrow> (\<And>a. ApprovedOrders st' a = None \<or> ApprovedOrders st' a = ApprovedOrders st a) \<Longrightarrow> approvals_from st0 st'"
  unfolding approvals_from_def approved_order_def by (metis option.case(1) option.distinct(1))

lemma approved_order_status:
  assumes "approved_order (set_order_status owner nonce i s st) a n = Some ap"
  shows "\<exists>ap1. approved_order st a n = Some ap1 \<and> ap_id ap1 = ap_id ap \<and> commitment ap1 = commitment ap"
  using assms by (auto simp: set_order_status_def approved_order_def btree_get_insert split: option.splits if_splits)

lemma approvals_from_status: "approvals_from st0 st \<Longrightarrow> approvals_from st0 (set_order_status owner nonce i s st)"
  unfolding approvals_from_def using approved_order_status by metis

lemma authentic_from:
  assumes "authentic E st signed" "approvals_from st0 st"
  shows "authentic E st0 signed"
proof (cases "authorized_terms (order signed)")
  case (Some nt)
  then obtain nonce terms where nt: "authorized_terms (order signed) = Some (nonce, terms)" by (cases nt) auto
  then obtain ap where "approved_order st (signer_of (order signed)) nonce = Some ap" "signature signed = AccountApproved"
    "ap_id ap = derive_order_id E (order signed)" "commitment ap = order_approval_commitment E nonce terms"
    using assms(1) by (auto simp: authentic_def split: option.splits)
  moreover obtain ap0 where "approved_order st0 (signer_of (order signed)) nonce = Some ap0" "ap_id ap0 = ap_id ap"
    "commitment ap0 = commitment ap"
    using assms(2) calculation(1) unfolding approvals_from_def by blast
  ultimately show ?thesis by (simp add: authentic_def nt)
qed (use assms(1) in \<open>simp add: authentic_def\<close>)

section \<open>A chain to try the pallet on\<close>

text \<open>
  One alpha costs half a TAO, swaps have no fee and no price impact, the signature \<open>''ok''\<close> verifies, and accounts are
  numbers.  The state of the chain is the time.
\<close>

definition ex_env :: "(nat option, nat, nat, string) orders_env" where
  "ex_env = \<lparr>
     ensure_signed = (\<lambda>origin. ok_or origin ''BadOrigin''),
     ensure_root = (\<lambda>origin. ensure (origin = None) ''BadOrigin''),
     buy_alpha = (\<lambda>s who h n x l v. Inr (2 * x, s, [])),
     sell_alpha = (\<lambda>s who h n x l v. Inr (x div 2, s, [])),
     current_alpha_price = (\<lambda>s n. 2 ^ 63),
     transfer_tao = (\<lambda>s a b x. Inr (s, [])),
     transfer_staked_alpha = (\<lambda>s a h b h' n x u v. Inr (s, [])),
     register_pallet_hotkey = (\<lambda>s a h. (Inr (), s)),
     pallet_hotkey_registered = (\<lambda>s a h. True),
     OrderSignerFilter = (\<lambda>s a. True),
     AuthenticatedOrderSignerFilter = (\<lambda>s a. True),
     now_ms = (\<lambda>s. s),
     providers = (\<lambda>s a. 1),
     sufficients = (\<lambda>s a. 0),
     ChainId = (\<lambda>s. 945),
     MaxOrdersPerBatch = 100,
     LinkedOutputTtl = 1000,
     pallet_account = 99,
     PalletHotkey = 98,
     genesis_hash = [],
     encode_order = (\<lambda>ord. version_tag ord @ [if is_buy (order_type (view ord)) then CHR ''b'' else CHR ''s'']),
     encode_terms = (\<lambda>(g, a, n, t). replicate n CHR ''n''),
     blake2_256 = (\<lambda>bs. bs),
     shake256_64 = concat,
     verify = (\<lambda>sig msg a. sig = MultiSr25519 ''ok''),
     to_ss58check = unary_ss58\<rparr>"

definition ex_weights :: "nat weight_ops" where
  "ex_weights = \<lparr>reads = id, writes = id, reads_writes = (+), weight_zero = 0, weight_add = (+), weight_sub = (-), all_lte = (\<le>)\<rparr>"

definition ex_start :: "(nat, nat, string) orders_storage" where
  "ex_start = \<lparr>Orders = (\<lambda>_. None), ApprovedOrders = (\<lambda>_. None), LimitOrdersEnabled = True, LinkedOutputs = (\<lambda>_. None),
     HasMigrationRun = (\<lambda>_. False), chain = 10, events = []\<rparr>"

definition ex_buy :: "nat VersionedOrder" where
  "ex_buy = V1 \<lparr>signer = 1, hotkey = 2, netuid = 3, order_type = LimitBuy, limit_price = 600000000, expiry = 90, fee_rate = 0,
     fee_recipient = 4, relayer = Some [7], max_slippage = None, chain_id = 945, partial_fills_enabled = True, amount_v1 = 1000\<rparr>"

definition ex_fill :: "nat \<Rightarrow> nat SignedOrder" where
  "ex_fill n = \<lparr>order = ex_buy, signature = Sr25519 ''ok'', partial_fill = Some n\<rparr>"

definition ex_filled :: "(nat, nat, string) orders_storage" where
  "ex_filled = ex_start\<lparr>Orders := (\<lambda>_. None)(''v1b'' \<mapsto> PartiallyFilled 400),
     events := [OrderExecuted ''v1b'' 1 3 LimitBuy 400 800]\<rparr>"

definition ex_closed :: "(nat, nat, string) orders_storage" where
  "ex_closed = ex_start\<lparr>Orders := (\<lambda>_. None)(''v1b'' \<mapsto> Fulfilled),
     events := [OrderExecuted ''v1b'' 1 3 LimitBuy 400 800, OrderExecuted ''v1b'' 1 3 LimitBuy 600 1200]\<rparr>"

lemma ex_id: "derive_order_id ex_env ex_buy = ''v1b''"
  by (simp add: derive_order_id_def ex_env_def ex_buy_def from_v1_def)

lemmas ex_run_simps = Let_def derive_order_id_def try_execute_order_eq is_order_valid_def authenticated_order_def validate_order_execution_def
  order_status_def resolve_amount_def check_fill_def check_def ensure_def price_met_def fx_floor_def fx_saturating_mul_def
  fx_of_def U128_MAX_def verify_order_def execute_validated_order_def trade_def effect_def effect_value_def runtime_def
  forward_fee_def mul_floor_def consume_if_linked_def compute_order_status_def set_order_status_def
  record_linked_output_def deposit_event_def saturating_add_def U64_MAX_def

lemma ex_first_fill: "execute_orders ex_env (Some 7) [ex_fill 400] True ex_start = Inr ex_filled"
  by (simp add: execute_orders_def check_authorized_batch_bound_def uses_approval_def ex_run_simps ex_fill_def
      ex_buy_def ex_env_def ex_start_def ex_filled_def from_v1_def)

lemma ex_second_fill: "execute_orders ex_env (Some 7) [ex_fill 600] True ex_filled = Inr ex_closed"
  by (simp add: execute_orders_def check_authorized_batch_bound_def uses_approval_def ex_run_simps ex_fill_def
      ex_buy_def ex_env_def ex_start_def ex_filled_def ex_closed_def from_v1_def)

section \<open>Properties\<close>


lemma ex_run_filled: "orders_run ex_env ex_weights ex_start [ex_buy] ex_filled"
  using orders_run.more[OF orders_run.start orders_step.executed[OF _ ex_first_fill]] by (simp add: ex_env_def ex_fill_def)

lemma ex_run_closed: "orders_run ex_env ex_weights ex_filled [ex_buy] ex_closed"
  using orders_run.more[OF orders_run.start orders_step.executed[OF _ ex_second_fill]] by (simp add: ex_env_def ex_fill_def)


text \<open>
  C30: In every reachable state an account has at most eight approvals, under distinct nonces in ascending order that do not
  exceed its highest nonce, and each approval is the commitment to terms whose signer is the account itself.
\<close>

theorem approvals_sound:
  assumes "orders_run E W st os st'" "ApprovedOrders st = (\<lambda>_. None)" "ApprovedOrders st' owner = Some r"
  shows "length (approvals r) \<le> 8 \<and> sorted_wrt (<) (map fst (approvals r)) \<and>
    (\<forall>nonce ap. approved_order st' owner nonce = Some ap \<longrightarrow>
      (\<exists>highest terms. highest_nonce r = Some highest \<and> nonce \<le> highest \<and> signer_of terms = owner \<and>
        ap_id ap = derive_authorized_order_id E nonce terms \<and> commitment ap = order_approval_commitment E nonce terms))"
proof -
  have "approvals_ok E st" using assms(2) by (simp add: approvals_ok_def)
  then have r: "account_ok E owner r" using approvals_ok_run[OF assms(1)] assms(3) by (simp add: approvals_ok_def)
  have "approval_of E owner nonce ap \<and> (\<exists>h. highest_nonce r = Some h \<and> nonce \<le> h)"
    if "approved_order st' owner nonce = Some ap" for nonce ap
    using that r btree_mem[of "approvals r" nonce ap] assms(3) by (auto simp: approved_order_def account_ok_def)
  then show ?thesis using r by (fastforce simp: account_ok_def btree_ok_def MaxPendingOrders_def approval_of_def)
qed

definition ex_authorized :: "nat VersionedOrder" where
  "ex_authorized = Authorized 0 (TermsV1 ex_v1)"

definition ex_account :: AccountOrderApprovals where
  "ex_account = \<lparr>highest_nonce = Some 0, approvals = [(0, \<lparr>ap_id = ORDER_ID_DOMAIN,
     commitment = ''bittensor/ms/v2/order-approval'', ap_expiry = 90, status = None\<rparr>)]\<rparr>"

definition ex_approved :: "(nat, nat, string) orders_storage" where
  "ex_approved = ex_start\<lparr>ApprovedOrders := (\<lambda>_. None)(1 \<mapsto> ex_account),
     events := [OrderApproved ORDER_ID_DOMAIN 1 0]\<rparr>"

lemma ex_authorize: "authorize_order ex_env (Some 1) ex_authorized ex_start = Inr ex_approved"
  by (simp add: authorize_order_def approve_order_def add_approval_def try_insert_approval_def contains_key_def btree_get_def
      derive_authorized_order_id_def order_approval_commitment_def MaxPendingOrders_def
      ex_run_simps ex_env_def ex_authorized_def ex_v1_def ex_start_def ex_approved_def ex_account_def from_v1_def)

theorem approvals_sound_witness: "length (approvals ex_account) \<le> 8 \<and> sorted_wrt (<) (map fst (approvals ex_account))"
  using approvals_sound[where W = ex_weights and owner = 1,
      OF orders_run.more[OF orders_run.start orders_step.authorized[OF ex_authorize]]]
  by (simp add: ex_start_def ex_approved_def)

text \<open>
  C28: A linked output is used at most once for each time it was recorded: the draws and prunings under an order id never
  outnumber the records under it.
\<close>

theorem linked_output_single_use:
  assumes "orders_run E W st os st'" "LinkedOutputs st = (\<lambda>_. None)" "events st = []"
  shows "length (filter (uses_output p) (events st')) \<le> length (filter (records_output p) (events st'))"
proof -
  have "linked_ok st" using assms(2,3) by (simp add: linked_ok_def linked_at_def)
  then have "linked_at st' p" using linked_ok_run[OF assms(1)] by (simp add: linked_ok_def)
  then show ?thesis by (simp add: linked_at_def)
qed

definition ex_provider :: "nat SignedOrder" where
  "ex_provider = \<lparr>order = V2 \<lparr>signer = 1, hotkey = 2, netuid = 3, order_type = LimitBuy, limit_price = 600000000, expiry = 90,
     fee_rate = 0, fee_recipient = 4, relayer = None, max_slippage = None, chain_id = 945, partial_fills_enabled = False,
     amount_v2 = Fixed 400, has_linked_order_v2 = True\<rparr>, signature = Sr25519 ''ok'', partial_fill = None\<rparr>"

definition ex_consumer :: "nat SignedOrder" where
  "ex_consumer = \<lparr>order = V2 \<lparr>signer = 1, hotkey = 2, netuid = 3, order_type = TakeProfit, limit_price = 400000000, expiry = 90,
     fee_rate = 0, fee_recipient = 4, relayer = None, max_slippage = None, chain_id = 945, partial_fills_enabled = False,
     amount_v2 = LinkedPercentage ''v2b'' 500000000, has_linked_order_v2 = False\<rparr>, signature = Sr25519 ''ok'', partial_fill = None\<rparr>"

definition ex_drawn :: "(nat, nat, string) orders_storage" where
  "ex_drawn = ex_start\<lparr>Orders := (\<lambda>_. None)(''v2b'' \<mapsto> Fulfilled, ''v2s'' \<mapsto> Fulfilled),
     events := [LinkedOutputRecorded ''v2b'' 1 (Alpha 3 2) 800 1010, OrderExecuted ''v2b'' 1 3 LimitBuy 400 800,
       LinkedOutputConsumed ''v2b'' ''v2s'' 400 400, OrderExecuted ''v2s'' 1 3 TakeProfit 400 200]\<rparr>"

lemma ex_linked_pair: "execute_orders ex_env (Some 7) [ex_provider, ex_consumer] True ex_start = Inr ex_drawn"
  by (simp add: execute_orders_def check_authorized_batch_bound_def uses_approval_def MaxAuthorizedOrders_def ex_run_simps
      consume_linked_output_def input_asset_def output_asset_def ACCURACY_def ex_provider_def ex_consumer_def ex_env_def
      ex_start_def ex_drawn_def from_v2_def fun_upd_twist)

theorem linked_output_single_use_witness:
  "length (filter (uses_output ''v2b'') (events ex_drawn)) \<le> length (filter (records_output ''v2b'') (events ex_drawn))"
proof -
  have "length [ex_provider, ex_consumer] \<le> MaxOrdersPerBatch ex_env" by (simp add: ex_env_def)
  from orders_run.more[OF orders_run.start orders_step.executed[OF this ex_linked_pair]] show ?thesis
    by (rule linked_output_single_use[where W = ex_weights]) (simp_all add: ex_start_def)
qed



end
