(* ===== verification/Order_Settlement.thy ===== *)
theory Order_Settlement
  imports Order_Safety
begin

text \<open>
  The assets that the execution of limit orders moves: each successful call takes the chain from its old to its new state by
  a list of operations of the swap interface.  Only signers with authority are debited; a batch pays out no more than it
  takes in; every order of a batch is paid once, within its price limit.
\<close>

section \<open>Moves\<close>

text \<open>
  \<open>PaidTao from to tao\<close>, \<open>MovedAlpha from hotkey to hotkey netuid alpha\<close>, \<open>Bought who hotkey netuid tao alpha\<close> and
  \<open>Sold who hotkey netuid alpha tao\<close>: the four operations of the swap interface that move assets, with their results.
\<close>

datatype 'a move =
    PaidTao 'a 'a nat
  | MovedAlpha 'a 'a 'a 'a nat nat
  | Bought 'a 'a nat nat nat
  | Sold 'a 'a nat nat nat

fun perform :: "('o, 'a, 's, 'd) orders_env \<Rightarrow> 'a move \<Rightarrow> 's \<Rightarrow> 's \<Rightarrow> bool" where
  "perform E (PaidTao a b x) s s' = (\<exists>killed. transfer_tao E s a b x = Inr (s', killed))"
| "perform E (MovedAlpha a h b h' n x) s s' = (\<exists>u v killed. transfer_staked_alpha E s a h b h' n x u v = Inr (s', killed))"
| "perform E (Bought a h n x y) s s' = (\<exists>l v killed. buy_alpha E s a h n x l v = Inr (y, s', killed))"
| "perform E (Sold a h n x y) s s' = (\<exists>l v killed. sell_alpha E s a h n x l v = Inr (y, s', killed))"

fun performs :: "('o, 'a, 's, 'd) orders_env \<Rightarrow> 'a move list \<Rightarrow> 's \<Rightarrow> 's \<Rightarrow> bool" where
  "performs E [] s s' = (s' = s)"
| "performs E (m # ms) s s' = (\<exists>s1. perform E m s s1 \<and> performs E ms s1 s')"

fun debited :: "'a move \<Rightarrow> 'a" where
  "debited (PaidTao a _ _) = a"
| "debited (MovedAlpha a _ _ _ _ _) = a"
| "debited (Bought a _ _ _ _) = a"
| "debited (Sold a _ _ _ _) = a"

lemma performs_append: "performs E (ms @ ms') s s' \<longleftrightarrow> (\<exists>s1. performs E ms s s1 \<and> performs E ms' s1 s')"
  by (induction ms arbitrary: s) auto

lemma performs_trans: "performs E ms s s1 \<Longrightarrow> performs E ms' s1 s' \<Longrightarrow> performs E (ms @ ms') s s'"
  by (auto simp: performs_append)

lemma performs_snoc: "performs E ms s s1 \<Longrightarrow> perform E m s1 s' \<Longrightarrow> performs E (ms @ [m]) s s'"
  by (auto simp: performs_append)

text \<open>All moves so far debit accounts of \<open>D\<close>.\<close>

definition moved_by :: "('o, 'a, 's, 'd) orders_env \<Rightarrow> 'a set \<Rightarrow> 's \<Rightarrow> ('a, 's, 'd) orders_storage \<Rightarrow> bool" where
  "moved_by E D s st \<longleftrightarrow> (\<exists>ms. performs E ms s (chain st) \<and> debited ` set ms \<subseteq> D)"

lemma moved_by_more:
  assumes "moved_by E D s st" "perform E m (chain st) (chain st')" "debited m \<in> D"
  shows "moved_by E D s st'"
proof -
  obtain ms where ms: "performs E ms s (chain st)" "debited ` set ms \<subseteq> D" using assms(1) by (auto simp: moved_by_def)
  show ?thesis unfolding moved_by_def
    using performs_snoc[OF ms(1) assms(2)] ms(2) assms(3) by (intro exI[of _ "ms @ [m]"]) auto
qed

lemma moved_by_frame: "chain st' = chain st \<Longrightarrow> moved_by E D s st' = moved_by E D s st"
  by (simp add: moved_by_def)

interpretation moves: execution_invariant E "insert (pallet_account E) D"
  "\<lambda>st. moved_by E (insert (pallet_account E) D) s st \<and> approvals_from st0 st" for E D s st0
proof (unfold_locales, goal_cases)
  case (1 st who h n x l v y st')
  then obtain s' killed where b: "buy_alpha E (chain st) who h n x l v = Inr (y, s', killed)"
    and st': "st' = fold on_killed_account killed (st\<lparr>chain := s'\<rparr>)" by (auto simp: effect_value_Inr)
  have "perform E (Bought who h n x y) (chain st) (chain st')" using b by (auto simp: st')
  moreover have "approvals_from st0 st'" using 1(1) approvals_from_less[of st0 st st'] by (auto simp: st')
  ultimately show ?case using 1(1,2) moved_by_more by fastforce
next
  case (2 st who h n x l v y st')
  then obtain s' killed where b: "sell_alpha E (chain st) who h n x l v = Inr (y, s', killed)"
    and st': "st' = fold on_killed_account killed (st\<lparr>chain := s'\<rparr>)" by (auto simp: effect_value_Inr)
  have "perform E (Sold who h n x y) (chain st) (chain st')" using b by (auto simp: st')
  moreover have "approvals_from st0 st'" using 2(1) approvals_from_less[of st0 st st'] by (auto simp: st')
  ultimately show ?case using 2(1,2) moved_by_more by fastforce
next
  case (3 st who to x st')
  then obtain s' killed where b: "transfer_tao E (chain st) who to x = Inr (s', killed)"
    and st': "st' = fold on_killed_account killed (st\<lparr>chain := s'\<rparr>)" by (auto simp: effect_Inr)
  have "perform E (PaidTao who to x) (chain st) (chain st')" using b by (auto simp: st')
  moreover have "approvals_from st0 st'" using 3(1) approvals_from_less[of st0 st st'] by (auto simp: st')
  ultimately show ?case using 3(1,2) moved_by_more by fastforce
next
  case (4 st who h to h' n x u v st')
  then obtain s' killed where b: "transfer_staked_alpha E (chain st) who h to h' n x u v = Inr (s', killed)"
    and st': "st' = fold on_killed_account killed (st\<lparr>chain := s'\<rparr>)" by (auto simp: effect_Inr)
  have "perform E (MovedAlpha who h to h' n x) (chain st) (chain st')" using b by (auto simp: st')
  moreover have "approvals_from st0 st'" using 4(1) approvals_from_less[of st0 st st'] by (auto simp: st')
  ultimately show ?case using 4(1,2) moved_by_more by fastforce
next
  case (7 st p c x st')
  then show ?case using consume_frame[OF 7(2)] by (simp add: moved_by_def approvals_from_def approved_order_def)
qed (simp_all add: moved_by_def approvals_from_status)

lemma calls_moved_by:
  assumes "length orders \<le> MaxOrdersPerBatch E"
    and "execute_orders E origin orders should_fail st = Inr st' \<or> execute_batched_orders E origin n orders st = Inr st'"
  shows "moved_by E (insert (pallet_account E) {signer_of (order signed) | signed. signed \<in> set orders \<and> authentic E st signed})
      (chain st) st'"
proof -
  let ?D = "{signer_of (order signed) | signed. signed \<in> set orders \<and> authentic E st signed}"
  let ?P = "\<lambda>s. moved_by E (insert (pallet_account E) ?D) (chain st) s \<and> approvals_from st s"
  have start: "?P st" by (auto simp: moved_by_def approvals_from_def intro: exI[of _ "[]"])
  have "?P st'"
  proof (cases "execute_orders E origin orders should_fail st = Inr st'")
    case True
    show ?thesis
    proof (rule moves.execute_orders_inv[OF start True])
      fix signed s now p who r
      assume o: "signed \<in> set orders" and s: "?P s"
        and v: "is_order_valid E s signed (derive_order_id E (order signed)) now p who = Inr r"
      have "authentic E st signed" by (rule authentic_from[OF valid_authentic[OF v] conjunct2[OF s]])
      with o show "signer_of (order signed) \<in> insert (pallet_account E) ?D" by blast
    qed
  next
    case False
    then have run: "execute_batched_orders E origin n orders st = Inr st'" using assms(2) by blast
    show ?thesis
    proof (rule moves.batched_orders_inv[OF start run assms(1)])
      fix signed now p who r
      assume o: "signed \<in> set orders" and v: "is_order_valid E st signed (derive_order_id E (order signed)) now p who = Inr r"
      from o valid_authentic[OF v] show "signer_of (order signed) \<in> insert (pallet_account E) ?D" by blast
    qed
  qed
  then show ?thesis ..
qed

section \<open>What a batch takes in and pays out\<close>

text \<open>TAO and alpha that reach and leave an account; a payment to itself counts on both sides.\<close>

fun tao_in :: "'a \<Rightarrow> 'a move list \<Rightarrow> nat" where
  "tao_in a [] = 0"
| "tao_in a (PaidTao _ b x # ms) = (if b = a then x else 0) + tao_in a ms"
| "tao_in a (Sold b _ _ _ y # ms) = (if b = a then y else 0) + tao_in a ms"
| "tao_in a (MovedAlpha _ _ _ _ _ _ # ms) = tao_in a ms"
| "tao_in a (Bought _ _ _ _ _ # ms) = tao_in a ms"

fun tao_out :: "'a \<Rightarrow> 'a move list \<Rightarrow> nat" where
  "tao_out a [] = 0"
| "tao_out a (PaidTao b _ x # ms) = (if b = a then x else 0) + tao_out a ms"
| "tao_out a (Bought b _ _ x _ # ms) = (if b = a then x else 0) + tao_out a ms"
| "tao_out a (MovedAlpha _ _ _ _ _ _ # ms) = tao_out a ms"
| "tao_out a (Sold _ _ _ _ _ # ms) = tao_out a ms"

fun alpha_received :: "'a \<Rightarrow> 'a \<Rightarrow> nat \<Rightarrow> 'a move list \<Rightarrow> nat" where
  "alpha_received a h n [] = 0"
| "alpha_received a h n (MovedAlpha _ _ b k m x # ms) = (if b = a \<and> k = h \<and> m = n then x else 0) + alpha_received a h n ms"
| "alpha_received a h n (PaidTao _ _ _ # ms) = alpha_received a h n ms"
| "alpha_received a h n (Bought _ _ _ _ _ # ms) = alpha_received a h n ms"
| "alpha_received a h n (Sold _ _ _ _ _ # ms) = alpha_received a h n ms"

fun alpha_bought :: "'a \<Rightarrow> 'a \<Rightarrow> nat \<Rightarrow> 'a move list \<Rightarrow> nat" where
  "alpha_bought a h n [] = 0"
| "alpha_bought a h n (Bought b k m _ y # ms) = (if b = a \<and> k = h \<and> m = n then y else 0) + alpha_bought a h n ms"
| "alpha_bought a h n (MovedAlpha _ _ _ _ _ _ # ms) = alpha_bought a h n ms"
| "alpha_bought a h n (PaidTao _ _ _ # ms) = alpha_bought a h n ms"
| "alpha_bought a h n (Sold _ _ _ _ _ # ms) = alpha_bought a h n ms"

fun alpha_out :: "'a \<Rightarrow> 'a move list \<Rightarrow> nat" where
  "alpha_out a [] = 0"
| "alpha_out a (MovedAlpha b _ _ _ _ x # ms) = (if b = a then x else 0) + alpha_out a ms"
| "alpha_out a (Sold b _ _ x _ # ms) = (if b = a then x else 0) + alpha_out a ms"
| "alpha_out a (PaidTao _ _ _ # ms) = alpha_out a ms"
| "alpha_out a (Bought _ _ _ _ _ # ms) = alpha_out a ms"

lemma flows_append [simp]:
  "tao_in a (ms @ ms') = tao_in a ms + tao_in a ms'" "tao_out a (ms @ ms') = tao_out a ms + tao_out a ms'"
  "alpha_received a h n (ms @ ms') = alpha_received a h n ms + alpha_received a h n ms'"
  "alpha_bought a h n (ms @ ms') = alpha_bought a h n ms + alpha_bought a h n ms'"
  "alpha_out a (ms @ ms') = alpha_out a ms + alpha_out a ms'"
proof -
  show "tao_in a (ms @ ms') = tao_in a ms + tao_in a ms'" by (induction a ms rule: tao_in.induct) auto
  show "tao_out a (ms @ ms') = tao_out a ms + tao_out a ms'" by (induction a ms rule: tao_out.induct) auto
  show "alpha_received a h n (ms @ ms') = alpha_received a h n ms + alpha_received a h n ms'"
    by (induction a h n ms rule: alpha_received.induct) auto
  show "alpha_bought a h n (ms @ ms') = alpha_bought a h n ms + alpha_bought a h n ms'"
    by (induction a h n ms rule: alpha_bought.induct) auto
  show "alpha_out a (ms @ ms') = alpha_out a ms + alpha_out a ms'" by (induction a ms rule: alpha_out.induct) auto
qed

subsection \<open>The moves of each stage\<close>

definition tao_collected :: "'a \<Rightarrow> 'a OrderEntry list \<Rightarrow> 'a move list" where
  "tao_collected P buys = map (\<lambda>e. PaidTao (e_signer e) P (gross e)) buys"

definition alpha_collected :: "'a \<Rightarrow> 'a \<Rightarrow> nat \<Rightarrow> 'a OrderEntry list \<Rightarrow> 'a move list" where
  "alpha_collected P h n sells = map (\<lambda>e. MovedAlpha (e_signer e) (e_hotkey e) P h n (gross e)) sells"

definition alpha_paid :: "'a \<Rightarrow> 'a \<Rightarrow> nat \<Rightarrow> ('a OrderEntry \<Rightarrow> nat) \<Rightarrow> 'a OrderEntry list \<Rightarrow> 'a move list" where
  "alpha_paid P h n share buys = map (\<lambda>e. MovedAlpha P h (e_signer e) (e_hotkey e) n (share e)) buys"

definition tao_paid :: "'a \<Rightarrow> ('a OrderEntry \<Rightarrow> nat) \<Rightarrow> 'a OrderEntry list \<Rightarrow> 'a move list" where
  "tao_paid P share sells = map (\<lambda>e. PaidTao P (e_signer e) (share e)) sells"

definition fees_paid :: "'a \<Rightarrow> ('a \<times> nat) list \<Rightarrow> 'a move list" where
  "fees_paid P fees = map (\<lambda>(r, x). PaidTao P r x) (filter (\<lambda>(r, x). x > 0) fees)"

lemma fold_performs:
  assumes "fold_result f xs s = Inr s'"
    and "\<And>x s s'. x \<in> set xs \<Longrightarrow> f x s = Inr s' \<Longrightarrow> performs E (m x) (g s) (g s')"
  shows "performs E (concat (map m xs)) (g s) (g s')"
  using assms by (induction xs arbitrary: s) (fastforce simp: bind_result_Inr_iff performs_append)+

lemma effect_performs: "effect (transfer_tao E (chain st) a b x) st = Inr st' \<Longrightarrow> performs E [PaidTao a b x] (chain st) (chain st')"
  "effect (transfer_staked_alpha E (chain st) a h b h' n x u v) st = Inr st' \<Longrightarrow>
     performs E [MovedAlpha a h b h' n x] (chain st) (chain st')"
  by (fastforce simp: effect_Inr)+

lemma fold_performs_map:
  assumes "fold_result f xs s = Inr s'"
    and "\<And>x s s'. x \<in> set xs \<Longrightarrow> f x s = Inr s' \<Longrightarrow> performs E [m x] (g s) (g s')"
  shows "performs E (map m xs) (g s) (g s')"
proof -
  have "performs E (concat (map (\<lambda>x. [m x]) xs)) (g s) (g s')" by (rule fold_performs[OF assms])
  moreover have "concat (map (\<lambda>x. [m x]) xs) = map m xs" by (induction xs) auto
  ultimately show ?thesis by simp
qed

lemma collect_assets_performs:
  assumes "collect_assets E n buys sells st = Inr st'"
  shows "performs E (tao_collected (pallet_account E) buys @ alpha_collected (pallet_account E) (PalletHotkey E) n sells)
      (chain st) (chain st')"
proof -
  obtain st1 where 1: "fold_result (\<lambda>e st. effect (transfer_tao E (chain st) (e_signer e) (pallet_account E) (gross e)) st)
      buys st = Inr st1"
    and 2: "fold_result (\<lambda>e st. effect (transfer_staked_alpha E (chain st) (e_signer e) (e_hotkey e) (pallet_account E)
      (PalletHotkey E) n (gross e) True False) st) sells st1 = Inr st'"
    using assms by (auto simp: collect_assets_def bind_result_Inr_iff)
  have "performs E (tao_collected (pallet_account E) buys) (chain st) (chain st1)"
    unfolding tao_collected_def by (rule fold_performs_map[OF 1]) (rule effect_performs)
  moreover have "performs E (alpha_collected (pallet_account E) (PalletHotkey E) n sells) (chain st1) (chain st')"
    unfolding alpha_collected_def by (rule fold_performs_map[OF 2]) (rule effect_performs)
  ultimately show ?thesis by (auto simp: performs_append)
qed

lemma close_entry_chain: "close_entry E n produced paid e st = Inr st' \<Longrightarrow> chain st' = chain st"
  by (auto simp: close_entry_def Let_def bind_result_Inr_iff consume_if_linked_def consume_frame split: option.splits
      dest: consume_frame(3))

lemma pay_buyers_performs:
  assumes "fold_result (pay_buyer E n t b) buys st = Inr st'"
  shows "performs E (alpha_paid (pallet_account E) (PalletHotkey E) n (alpha_share t b) buys) (chain st) (chain st')"
  unfolding alpha_paid_def
proof (rule fold_performs_map[OF assms])
  fix e s s'
  assume "pay_buyer E n t b e s = Inr s'"
  then obtain s1 where "effect (transfer_staked_alpha E (chain s) (pallet_account E) (PalletHotkey E) (e_signer e) (e_hotkey e)
      n (alpha_share t b e) False True) s = Inr s1" "chain s' = chain s1"
    by (auto simp: pay_buyer_def Let_def bind_result_Inr_iff dest: close_entry_chain)
  then show "performs E [MovedAlpha (pallet_account E) (PalletHotkey E) (e_signer e) (e_hotkey e) n (alpha_share t b e)]
      (chain s) (chain s')"
    using effect_performs(2) by metis
qed

definition net_payout :: "nat \<Rightarrow> nat \<Rightarrow> U64F64 \<Rightarrow> 'a OrderEntry \<Rightarrow> nat" where
  "net_payout t q p e = tao_share t q p e - mul_floor (e_fee_rate e) (tao_share t q p e)"

lemma pay_sellers_performs:
  fixes E :: "('o, 'a, 's, 'd) orders_env"
  assumes "fold_result (pay_seller E n t q p) sells (fees, st) = Inr (fees', st')"
  shows "performs E (tao_paid (pallet_account E) (net_payout t q p) sells) (chain st) (chain st')"
proof -
  have "performs E (map (\<lambda>e. PaidTao (pallet_account E) (e_signer e) (net_payout t q p e)) sells)
      (chain (snd (fees, st))) (chain (snd (fees', st')))"
  proof (rule fold_performs_map[OF assms])
    fix e and s s' :: "('a \<times> nat) list \<times> ('a, 's, 'd) orders_storage"
    assume pay: "pay_seller E n t q p e s = Inr s'"
    obtain f st0 where s: "s = (f, st0)" by (cases s)
    obtain s1 where "effect (transfer_tao E (chain st0) (pallet_account E) (e_signer e) (net_payout t q p e)) st0 = Inr s1"
      "chain (snd s') = chain s1"
      using pay unfolding s
      by (auto simp: pay_seller_def Let_def bind_result_Inr_iff net_payout_def dest: close_entry_chain)
    then show "performs E [PaidTao (pallet_account E) (e_signer e) (net_payout t q p e)] (chain (snd s)) (chain (snd s'))"
      using effect_performs(1) s by (metis snd_conv)
  qed
  then show ?thesis by (simp add: tao_paid_def)
qed

lemma collect_fees_performs:
  fixes E :: "('o, 'a, 's, 'd) orders_env"
  assumes "collect_fees E buys fees st = Inr st'"
  shows "performs E (fees_paid (pallet_account E) (buy_fees buys fees)) (chain st) (chain st')"
proof -
  have "performs E (concat (map (\<lambda>(r, x). if x > 0 then [PaidTao (pallet_account E) r x] else []) (buy_fees buys fees)))
      (chain st) (chain st')"
    using assms unfolding collect_fees_def
    by (rule fold_performs) (auto simp: forward_fee_def effect_Inr split: if_splits)
  moreover have "concat (map (\<lambda>(r, x). if x > 0 then [PaidTao P r x] else []) fs) = fees_paid P fs" for P :: 'a and fs
    by (induction fs) (auto simp: fees_paid_def)
  ultimately show ?thesis by simp
qed

lemma net_pool_swap_performs:
  fixes E :: "('o, 'a, 's, 'd) orders_env"
  assumes "net_pool_swap E b s q p n l st = Inr (d, y, st')"
  obtains "d = Buy" "b \<ge> q" "y = 0" "performs E [] (chain st) (chain st')"
  | x where "d = Buy" "b \<ge> q" "x \<le> b - q" "performs E [Bought (pallet_account E) (PalletHotkey E) n x y] (chain st) (chain st')"
  | B where "d = Sell" "b < q" "tao_to_alpha b p = (Inr B :: 'd DispatchError + nat)" "y = 0" "performs E [] (chain st) (chain st')"
  | B x where "d = Sell" "b < q" "tao_to_alpha b p = (Inr B :: 'd DispatchError + nat)" "x \<le> s - B"
      "performs E [Sold (pallet_account E) (PalletHotkey E) n x y] (chain st) (chain st')"
proof (cases "b \<ge> q")
  case True
  show thesis
  proof (cases "as_u64 (b - q) > 0")
    case pos: True
    then have "d = Buy" "performs E [Bought (pallet_account E) (PalletHotkey E) n (as_u64 (b - q)) y] (chain st) (chain st')"
      using assms True by (fastforce simp: net_pool_swap_def Let_def result_iffs)+
    then show thesis using that(2) True as_u64_le by blast
  next
    case False
    then show thesis using assms True that(1) by (simp add: net_pool_swap_def Let_def)
  qed
next
  case False
  then obtain B where B: "tao_to_alpha b p = (Inr B :: 'd DispatchError + nat)"
    using assms by (auto simp: net_pool_swap_def bind_result_Inr_iff)
  show thesis
  proof (cases "as_u64 (s - B) > 0")
    case True
    then have "d = Sell" "performs E [Sold (pallet_account E) (PalletHotkey E) n (as_u64 (s - B)) y] (chain st) (chain st')"
      using assms False B by (fastforce simp: net_pool_swap_def Let_def result_iffs)+
    then show thesis using that(4) False B as_u64_le by (metis not_le)
  next
    case zero: False
    then show thesis using assms False B that(3) by (simp add: net_pool_swap_def Let_def)
  qed
qed

lemma flows_of_buys [simp]:
  "tao_in P (tao_collected P buys) = sum_list (map gross buys)" "tao_in P (alpha_paid P h n f buys) = 0"
  "alpha_received P h n (tao_collected P buys) = 0" "alpha_bought P h n (tao_collected P buys) = 0"
  "alpha_bought P h n (alpha_paid P h n f buys) = 0" "alpha_out P (tao_collected P buys) = 0"
  "alpha_out P (alpha_paid P h n f buys) = sum_list (map f buys)" "tao_out P (alpha_paid P h n f buys) = 0"
  unfolding tao_collected_def alpha_paid_def by (induction buys; simp)+

lemma flows_of_sells [simp]:
  "tao_in P (alpha_collected P h n sells) = 0" "tao_out P (alpha_collected P h n sells) = 0"
  "alpha_received P h n (alpha_collected P h n sells) = sum_list (map gross sells)"
  "alpha_received P h n (tao_paid P f sells) = 0" "alpha_bought P h n (alpha_collected P h n sells) = 0"
  "alpha_bought P h n (tao_paid P f sells) = 0" "alpha_out P (tao_paid P f sells) = 0"
  "tao_out P (tao_paid P f sells) = sum_list (map f sells)"
  unfolding alpha_collected_def tao_paid_def by (induction sells; simp)+

lemma flows_of_fees [simp]:
  "alpha_received P h n (fees_paid P fees) = 0" "alpha_bought P h n (fees_paid P fees) = 0"
  "alpha_out P (fees_paid P fees) = 0" "tao_out P (fees_paid P fees) = sum_list (map snd fees)"
  unfolding fees_paid_def by (induction fees; auto)+

lemma flows_of_others:
  assumes "\<forall>e \<in> set es. e_signer e \<noteq> P"
  shows "tao_out P (tao_collected P es) = 0" "alpha_out P (alpha_collected P h n es) = 0"
    "alpha_received P h n (alpha_paid P h n f es) = 0"
  using assms unfolding tao_collected_def alpha_collected_def alpha_paid_def by (induction es; simp)+

subsection \<open>Shares never exceed the pot\<close>

lemma pro_rata_sum: "sum_list (map (\<lambda>e. (T :: nat) * f e div D) es) * D \<le> T * sum_list (map f es)"
proof (induction es)
  case (Cons e es)
  have "T * f e div D * D \<le> T * f e" by simp
  from add_mono[OF this Cons] show ?case by (simp only: list.map sum_list.Cons add_mult_distrib add_mult_distrib2)
qed simp

lemma pro_rata_le:
  assumes "sum_list (map f es) \<le> (D :: nat)" "\<And>e. e \<in> set es \<Longrightarrow> g e \<le> T * f e div D"
  shows "sum_list (map g es) \<le> (T :: nat)"
proof (cases "D = 0")
  case True
  have "g e = 0" if "e \<in> set es" for e using assms(2)[OF that] by (simp add: True)
  then have "map g es = map (\<lambda>_. 0) es" by simp
  then show ?thesis by (metis sum_list_0 le0)
next
  case False
  have "sum_list (map (\<lambda>e. T * f e div D) es) * D \<le> T * D"
    using pro_rata_sum[of T f D es] assms(1) by (meson le_trans mult_le_mono2)
  then have "sum_list (map (\<lambda>e. T * f e div D) es) \<le> T" using False by simp
  moreover have "sum_list (map g es) \<le> sum_list (map (\<lambda>e. T * f e div D) es)" by (rule sum_list_mono) (rule assms(2))
  ultimately show ?thesis by simp
qed

lemma alpha_share_le: "alpha_share t b e \<le> t * net e div b"
  by (auto simp: alpha_share_def checked_div_def saturating_mul_def intro!: order_trans[OF as_u64_le] div_le_mono)

lemma tao_share_le: "tao_share t q p e \<le> t * alpha_to_tao (net e) p div q"
  by (auto simp: tao_share_def checked_div_def saturating_mul_def intro!: order_trans[OF as_u64_le] div_le_mono)

lemma alpha_shares_le: "sum_list (map (alpha_share t (sum_list (map net buys))) buys) \<le> t"
  by (rule pro_rata_le[OF order_refl]) (rule alpha_share_le)

lemma alpha_to_tao_le: "alpha_to_tao a p \<le> p * a div 2 ^ 64"
proof -
  have "p * min U128_MAX (a * 2 ^ 64) div 2 ^ 64 \<le> p * (a * 2 ^ 64) div 2 ^ 64" by (intro div_le_mono mult_le_mono2) simp
  also have "\<dots> = p * a" by simp
  finally show ?thesis
    unfolding alpha_to_tao_def fx_floor_def fx_saturating_mul_def fx_saturating_of_def by (intro div_le_mono) linarith
qed

lemma alpha_to_tao_exact:
  assumes "a \<le> U64_MAX" "p * a < 2 ^ 128"
  shows "alpha_to_tao a p = p * a div 2 ^ 64"
proof -
  have "a * 2 ^ 64 \<le> U128_MAX" using assms(1) by (simp add: U64_MAX_def U128_MAX_def)
  moreover have "p * (a * 2 ^ 64) div 2 ^ 64 = p * a" by simp
  moreover have "p * a \<le> U128_MAX" using assms(2) by (simp add: U128_MAX_def)
  ultimately show ?thesis
    by (simp add: alpha_to_tao_def fx_floor_def fx_saturating_mul_def fx_saturating_of_def min_absorb2)
qed

lemma div_sum: "sum_list (map (\<lambda>e. f e div (k :: nat)) es) \<le> sum_list (map f es) div k"
proof (induction es)
  case (Cons e es)
  have "f e div k + sum_list (map f es) div k \<le> (f e + sum_list (map f es)) div k"
    unfolding div_add1_eq[of "f e"] by simp
  then show ?case using Cons by simp
qed simp

lemma equivalents_le:
  assumes "sum_list (map net sells) \<le> U64_MAX" "p * sum_list (map net sells) < 2 ^ 128"
  shows "sum_list (map (\<lambda>e. alpha_to_tao (net e) p) sells) \<le> alpha_to_tao (sum_list (map net sells)) p"
proof -
  have "sum_list (map (\<lambda>e. alpha_to_tao (net e) p) sells) \<le> sum_list (map (\<lambda>e. p * net e div 2 ^ 64) sells)"
    by (rule sum_list_mono) (rule alpha_to_tao_le)
  also have "\<dots> \<le> sum_list (map (\<lambda>e. p * net e) sells) div 2 ^ 64" by (rule div_sum)
  also have "\<dots> = alpha_to_tao (sum_list (map net sells)) p" by (simp add: alpha_to_tao_exact[OF assms] sum_list_const_mult)
  finally show ?thesis .
qed

lemma tao_shares_le:
  assumes "sum_list (map net sells) \<le> U64_MAX" "p * sum_list (map net sells) < 2 ^ 128"
  shows "sum_list (map (tao_share t (alpha_to_tao (sum_list (map net sells)) p) p) sells) \<le> t"
  by (rule pro_rata_le[OF equivalents_le[OF assms]]) (rule tao_share_le)

text \<open>Where the sells outweigh the buys, the alpha the buyers are owed is part of what the sellers brought.\<close>

lemma buyers_alpha_le:
  assumes "tao_to_alpha b p = (Inr B :: 'd DispatchError + nat)" "b < alpha_to_tao s p"
  shows "B \<le> s"
proof -
  have ps: "b * 2 ^ 64 \<le> p * s"
  proof -
    have "b * 2 ^ 64 \<le> p * s div 2 ^ 64 * 2 ^ 64" using assms(2) alpha_to_tao_le[of s p] by (intro mult_le_mono1) linarith
    also have "\<dots> \<le> p * s" by simp
    finally show ?thesis .
  qed
  have p: "p > 0" using ps assms(2) by (cases p) (auto simp: alpha_to_tao_def fx_floor_def fx_saturating_mul_def)
  have "B \<le> min U128_MAX (b * 2 ^ 64) * 2 ^ 64 div p div 2 ^ 64"
    using assms(1) p
    by (auto simp: tao_to_alpha_def fx_of_def fx_checked_div_def fx_floor_def fx_saturating_of_def ok_or_def split: if_splits option.splits)
  also have "\<dots> \<le> (b * 2 ^ 64) * 2 ^ 64 div p div 2 ^ 64" by (intro div_le_mono mult_le_mono1) simp
  also have "\<dots> = b * 2 ^ 64 div p" 
    by (simp add: div_mult2_eq[symmetric] mult.commute[of p] mult.commute[of b])
  also have "\<dots> \<le> p * s div p" by (rule div_le_mono) (rule ps)
  finally show ?thesis using p by simp
qed

lemma add_fee_sum: "sum_list (map snd (add_fee r x fees)) \<le> x + sum_list (map snd fees)"
  by (induction r x fees rule: add_fee.induct) (auto simp: saturating_add_def)

lemma buy_fees_sum: "sum_list (map snd (buy_fees buys fees)) \<le> sum_list (map snd fees) + sum_list (map (\<lambda>e. gross e - net e) buys)"
proof (induction buys arbitrary: fees)
  case (Cons e es)
  show ?case using Cons[of "if gross e - net e > 0 then add_fee (e_fee_recipient e) (gross e - net e) fees else fees"]
      add_fee_sum[of "e_fee_recipient e" "gross e - net e" fees]
    by (auto simp: buy_fees_def Let_def split: if_splits)
qed (simp add: buy_fees_def)

lemma seller_payouts:
  fixes E :: "('o, 'a, 's, 'd) orders_env"
  assumes "fold_result (pay_seller E n t q p) sells (fees, st) = Inr (fees', st')"
  shows "sum_list (map snd fees') + sum_list (map (net_payout t q p) sells) \<le>
    sum_list (map snd fees) + sum_list (map (tao_share t q p) sells)"
  using assms
proof (induction sells arbitrary: fees st)
  case (Cons e es)
  let ?s = "tao_share t q p e" and ?f = "mul_floor (e_fee_rate e) (tao_share t q p e)"
  let ?fees = "if ?f > 0 then add_fee (e_fee_recipient e) ?f fees else fees"
  obtain st1 where pay: "?f < ?s" and rest: "fold_result (pay_seller E n t q p) es (?fees, st1) = Inr (fees', st')"
    using Cons.prems by (auto simp: pay_seller_def[of _ _ _ _ _ e] Let_def bind_result_Inr_iff check_Inr_iff)
  have "sum_list (map snd ?fees) \<le> ?f + sum_list (map snd fees)" using add_fee_sum[of _ ?f fees] by simp
  moreover have "net_payout t q p e + ?f = ?s" using pay by (simp add: net_payout_def)
  ultimately show ?case using Cons.IH[OF rest] by simp
qed simp

lemma swap_flows:
  fixes E :: "('o, 'a, 's, 'd) orders_env"
  assumes "net_pool_swap E b s (alpha_to_tao s p) p n l st = Inr (d, y, st')"
    and "(case d of Buy \<Rightarrow> Inr (saturating_add U128_MAX y s) | Sell \<Rightarrow> tao_to_alpha b p) = (Inr ta :: 'd DispatchError + nat)"
  obtains ms where "performs E ms (chain st) (chain st')"
    "alpha_out (pallet_account E) ms + ta \<le> s + alpha_bought (pallet_account E) (PalletHotkey E) n ms"
    "tao_out (pallet_account E) ms + batch_tao d y b (alpha_to_tao s p) \<le> b + tao_in (pallet_account E) ms"
    "alpha_received (pallet_account E) (PalletHotkey E) n ms = 0"
  using assms(1)
proof (cases rule: net_pool_swap_performs)
  case 1
  show thesis by (rule that[of "[]"]) (use 1 assms(2) in \<open>auto simp: saturating_add_def batch_tao_def\<close>)
next
  case (2 x)
  show thesis by (rule that[OF 2(4)]) (use 2(1-3) assms(2) in \<open>auto simp: saturating_add_def batch_tao_def\<close>)
next
  case (3 B)
  then have "ta = B" "B \<le> s" using assms(2) buyers_alpha_le by auto
  then show thesis by (intro that[of "[]"]) (use 3 in \<open>auto simp: saturating_add_def batch_tao_def\<close>)
next
  case (4 B x)
  then have "ta = B" "B \<le> s" using assms(2) buyers_alpha_le by auto
  then show thesis by (intro that[OF 4(5)]) (use 4(1-4) in \<open>auto simp: saturating_add_def batch_tao_def\<close>)
qed

lemma classified_batch_solvent:
  fixes E :: "('o, 'a, 's, 'd) orders_env"
  assumes run: "execute_classified_batch E n p buys sells st = Inr st'"
    and few: "length buys + length sells < 2 ^ 32"
    and others: "\<forall>e \<in> set buys \<union> set sells. e_signer e \<noteq> pallet_account E"
    and nets: "\<forall>e \<in> set buys. net e \<le> gross e" "\<forall>e \<in> set sells. net e = gross e"
  shows "\<exists>ms. performs E ms (chain st) (chain st') \<and>
    alpha_received (pallet_account E) (PalletHotkey E) n ms = sum_list (map net sells) \<and>
    alpha_out (pallet_account E) ms \<le> sum_list (map net sells) + alpha_bought (pallet_account E) (PalletHotkey E) n ms \<and>
    (sum_list (map net sells) \<le> U64_MAX \<longrightarrow> p * sum_list (map net sells) < 2 ^ 128 \<longrightarrow>
      tao_out (pallet_account E) ms \<le> tao_in (pallet_account E) ms)"
  using run
proof (cases rule: classified_batch_cases)
  case nothing
  then show ?thesis using few by (intro exI[of _ "[]"]) simp
next
  case (settled st1 d y st2 ta st3 fees st4 st5 z)
  let ?P = "pallet_account E" and ?h = "PalletHotkey E"
  let ?b = "sum_list (map net buys)" and ?s = "sum_list (map net sells)"
  let ?q = "alpha_to_tao ?s p"
  let ?t = "batch_tao d y ?b ?q"
  obtain ms where ms: "performs E ms (chain st1) (chain st2)" "alpha_out ?P ms + ta \<le> ?s + alpha_bought ?P ?h n ms"
    "tao_out ?P ms + ?t \<le> ?b + tao_in ?P ms" "alpha_received ?P ?h n ms = 0"
    using swap_flows[OF settled(4,5)] by blast
  let ?collect = "tao_collected ?P buys @ alpha_collected ?P ?h n sells"
  let ?pay = "alpha_paid ?P ?h n (alpha_share ta ?b) buys @ tao_paid ?P (net_payout ?t ?q p) sells @
    fees_paid ?P (buy_fees buys fees)"
  have s: "sum_list (map gross sells) = ?s" using nets(2) by (metis (no_types, lifting) map_cong)
  have b: "sum_list (map gross buys) = ?b + sum_list (map (\<lambda>e. gross e - net e) buys)"
    using nets(1) by (induction buys) auto
  have collect: "performs E ?collect (chain st) (chain st1)" by (rule collect_assets_performs[OF settled(3)])
  have pay: "performs E ?pay (chain st2) (chain st')"
    using pay_buyers_performs[OF settled(6)] pay_sellers_performs[OF settled(7)] collect_fees_performs[OF settled(8)]
    by (auto simp: performs_append settled(10))
  have all: "performs E (?collect @ ms @ ?pay) (chain st) (chain st')"
    by (rule performs_trans[OF collect performs_trans[OF ms(1) pay]])
  have received: "alpha_received ?P ?h n (?collect @ ms @ ?pay) = ?s" using others by (simp add: flows_of_others s ms(4))
  have alpha: "alpha_out ?P (?collect @ ms @ ?pay) \<le> ?s + alpha_bought ?P ?h n (?collect @ ms @ ?pay)"
    using others ms(2) alpha_shares_le[of ta buys] by (simp add: flows_of_others)
  have tao: "tao_out ?P (?collect @ ms @ ?pay) \<le> tao_in ?P (?collect @ ms @ ?pay)" if "?s \<le> U64_MAX" "p * ?s < 2 ^ 128"
    using others ms(3) tao_shares_le[OF that, of ?t] seller_payouts[OF settled(7)] buy_fees_sum[of buys fees]
    by (simp add: flows_of_others b)
  show ?thesis using all alpha tao received by (intro exI[of _ "?collect @ ms @ ?pay"]) simp
qed

lemma validated_nets:
  assumes "validated E st n who signed e"
  shows "net e \<le> gross e" "\<not> is_buy (side e) \<Longrightarrow> net e = gross e" "e_signer e = signer_of (order signed)"
  using assms by (auto simp: validated_def)

lemma batch_entries:
  assumes "execute_batched_orders E origin n orders st = Inr st'" "length orders \<le> MaxOrdersPerBatch E"
  obtains who es where "ensure_signed E origin = Inr who"
    "list_all2 (validated E st n who) orders es" "distinct (map order_id es)"
    "execute_classified_batch E n (current_alpha_price E (chain st) n)
       (filter (\<lambda>e. is_buy (side e)) es) (filter (\<lambda>e. \<not> is_buy (side e)) es) st = Inr st'"
proof -
  obtain who where who: "ensure_signed E origin = Inr who"
    and run: "do_execute_batched_orders E n orders who st = Inr st'"
    using assms(1) by (auto simp: execute_batched_orders_def result_iffs)
  show thesis by (rule batch_validated[OF run assms(2)]) (rule that[OF who])
qed

lemma list_all2_sourced: "list_all2 R xs ys \<Longrightarrow> y \<in> set ys \<Longrightarrow> \<exists>x\<in>set xs. R x y"
  by (induction rule: list_all2_induct) auto

lemma list_all2_targeted: "list_all2 R xs ys \<Longrightarrow> x \<in> set xs \<Longrightarrow> \<exists>y\<in>set ys. R x y"
  by (induction rule: list_all2_induct) auto

text \<open>The alpha that the sell orders of a batch offer.\<close>

definition offered :: "('o, 'a, 's, 'd) orders_env \<Rightarrow> ('a, 's, 'd) orders_storage \<Rightarrow> nat \<Rightarrow> 'a \<Rightarrow> 'a SignedOrder list \<Rightarrow> nat" where
  "offered E st n who orders = sum_list (map (\<lambda>signed.
     if is_buy (order_type (view (order signed))) then 0
     else case is_order_valid E st signed (derive_order_id E (order signed)) (now_ms E (chain st))
         (current_alpha_price E (chain st) n) who of
       Inl _ \<Rightarrow> 0
     | Inr (full, _) \<Rightarrow> unwrap_or (partial_fill signed) full) orders)"

lemma offered_entries:
  assumes "list_all2 (validated E st n who) orders es"
  shows "sum_list (map net (filter (\<lambda>e. \<not> is_buy (side e)) es)) = offered E st n who orders"
  using assms by (induction rule: list_all2_induct) (auto simp: offered_def validated_def)

section \<open>Every order of a batch is executed once, within its limit\<close>

text \<open>The executions of the order \<open>j\<close> among the events.\<close>

fun executes :: "H256 \<Rightarrow> ('a, 'd) Event \<Rightarrow> bool" where
  "executes j (OrderExecuted i _ _ _ _ _) = (i = j)"
| "executes j _ = False"

abbreviation executions :: "H256 \<Rightarrow> ('a, 's, 'd) orders_storage \<Rightarrow> ('a, 'd) Event list" where
  "executions j st \<equiv> filter (executes j) (events st)"

text \<open>What a payment must satisfy: the buyer's input after the fee, and the seller's output before it, are within the limit.\<close>

definition fair_buy :: "nat \<Rightarrow> nat \<Rightarrow> nat \<Rightarrow> bool" where
  "fair_buy limit spent paid \<longleftrightarrow> paid > 0 \<and> (limit = U64_MAX \<or> spent * 1000000000 \<le> paid * limit)"

definition fair_sell :: "Perbill \<Rightarrow> nat \<Rightarrow> nat \<Rightarrow> nat \<Rightarrow> bool" where
  "fair_sell rate limit sold paid \<longleftrightarrow> paid > 0 \<and> (\<exists>g. paid = g - mul_floor rate g \<and> sold * limit \<le> g * 1000000000)"

definition execution :: "nat \<Rightarrow> 'a OrderEntry \<Rightarrow> nat \<Rightarrow> ('a, 'd) Event" where
  "execution n e paid = OrderExecuted (order_id e) (e_signer e) n (side e) (gross e) paid"

lemma effect_events: "effect r st = Inr st' \<Longrightarrow> events st' = events st"
  by (auto simp: effect_Inr)

lemma close_entry_executes:
  assumes "close_entry E n produced paid e st = Inr st'"
  shows "executions j st' = executions j st @ (if j = order_id e then [execution n e paid] else [])"
  using assms
  by (auto simp: close_entry_def Let_def bind_result_Inr_iff consume_if_linked_def consume_linked_output_def
      record_linked_output_def execution_def result_iffs split: option.splits)

lemma share_u64: "alpha_share t b e \<le> U64_MAX" "tao_share t q p e \<le> U64_MAX"
proof -
  have "as_u64 x \<le> U64_MAX" for x by (simp add: as_u64_def U64_MAX_def)
  then show "alpha_share t b e \<le> U64_MAX" "tao_share t q p e \<le> U64_MAX" by (simp_all add: alpha_share_def tao_share_def)
qed

lemma saturated_le:
  assumes "saturating_mul U128_MAX a b \<le> saturating_mul U128_MAX c d" "c \<le> U64_MAX" "d \<le> U64_MAX"
  shows "a * b \<le> c * d"
proof -
  have "c * d \<le> U64_MAX * U64_MAX" using assms(2,3) by (rule mult_le_mono)
  then have "c * d < U128_MAX" by (simp add: U64_MAX_def U128_MAX_def)
  then show ?thesis using assms(1) by (auto simp: saturating_mul_def min_def split: if_splits)
qed

lemma pay_buyer_executes:
  assumes "pay_buyer E n t b e st = Inr st'"
  shows "executions j st' = executions j st @ (if j = order_id e then [execution n e (alpha_share t b e)] else [])"
    "effective_swap_limit e \<le> U64_MAX \<Longrightarrow> fair_buy (effective_swap_limit e) (net e) (alpha_share t b e)"
proof -
  obtain st1 where e: "alpha_share t b e > 0" "effective_swap_limit e = U64_MAX \<or>
      saturating_mul U128_MAX (net e) 1000000000 \<le> saturating_mul U128_MAX (alpha_share t b e) (effective_swap_limit e)"
    and st1: "effect (transfer_staked_alpha E (chain st) (pallet_account E) (PalletHotkey E) (e_signer e) (e_hotkey e)
        n (alpha_share t b e) False True) st = Inr st1"
    and close: "close_entry E n (Alpha n (e_hotkey e)) (alpha_share t b e) e st1 = Inr st'"
    using assms by (auto simp: pay_buyer_def Let_def bind_result_Inr_iff check_Inr_iff)
  show "executions j st' = executions j st @ (if j = order_id e then [execution n e (alpha_share t b e)] else [])"
    using close_entry_executes[OF close] effect_events[OF st1] by simp
  show "fair_buy (effective_swap_limit e) (net e) (alpha_share t b e)" if "effective_swap_limit e \<le> U64_MAX"
    using e saturated_le[OF _ share_u64(1) that, of "net e" 1000000000 t b e] unfolding fair_buy_def by blast
qed

lemma pay_seller_executes:
  assumes "pay_seller E n t q p e acc = Inr acc'"
  shows "executions j (snd acc') = executions j (snd acc) @ (if j = order_id e then [execution n e (net_payout t q p e)] else [])"
    "fair_sell (e_fee_rate e) (effective_swap_limit e) (net e) (net_payout t q p e)"
proof -
  obtain fees st where acc: "acc = (fees, st)" by (cases acc)
  obtain st1 where e: "net_payout t q p e > 0"
      "saturating_mul U128_MAX (net e) (effective_swap_limit e) \<le> saturating_mul U128_MAX (tao_share t q p e) 1000000000"
    and st1: "effect (transfer_tao E (chain st) (pallet_account E) (e_signer e) (net_payout t q p e)) st = Inr st1"
    and close: "close_entry E n Tao (net_payout t q p e) e st1 = Inr (snd acc')"
    using assms unfolding acc by (auto simp: pay_seller_def Let_def bind_result_Inr_iff check_Inr_iff net_payout_def)
  show "executions j (snd acc') = executions j (snd acc) @ (if j = order_id e then [execution n e (net_payout t q p e)] else [])"
    using close_entry_executes[OF close] effect_events[OF st1] by (simp add: acc)
  have "net e * effective_swap_limit e \<le> tao_share t q p e * 1000000000"
    by (rule saturated_le[OF e(2) share_u64(2)]) (simp add: U64_MAX_def)
  then show "fair_sell (e_fee_rate e) (effective_swap_limit e) (net e) (net_payout t q p e)"
    using e(1) by (auto simp: fair_sell_def net_payout_def)
qed

lemma payments_execute:
  assumes "fold_result pay es acc = Inr acc'"
    and "\<And>e acc acc' j. pay e acc = Inr acc' \<Longrightarrow>
      executions j (proj acc') = executions j (proj acc) @ (if j = order_id e then [ev e] else [])"
    and "\<And>e acc acc'. e \<in> set es \<Longrightarrow> pay e acc = Inr acc' \<Longrightarrow> good e"
    and "distinct (map order_id es)"
  shows "(\<forall>e\<in>set es. good e \<and> executions (order_id e) (proj acc') = executions (order_id e) (proj acc) @ [ev e]) \<and>
    (\<forall>j. j \<notin> order_id ` set es \<longrightarrow> executions j (proj acc') = executions j (proj acc))"
  using assms(1,3,4)
proof (induction es arbitrary: acc)
  case (Cons e es)
  obtain acc1 where one: "pay e acc = Inr acc1" and more: "fold_result pay es acc1 = Inr acc'"
    using Cons.prems(1) by (auto simp: bind_result_Inr_iff)
  have good: "good e" by (rule Cons.prems(2)[OF _ one]) simp
  have step: "executions j (proj acc1) = executions j (proj acc) @ (if j = order_id e then [ev e] else [])" for j
    by (rule assms(2)[OF one])
  have ih: "(\<forall>e\<in>set es. good e \<and> executions (order_id e) (proj acc') = executions (order_id e) (proj acc1) @ [ev e]) \<and>
    (\<forall>j. j \<notin> order_id ` set es \<longrightarrow> executions j (proj acc') = executions j (proj acc1))"
    using Cons.prems(3) by (intro Cons.IH[OF more Cons.prems(2)]) auto
  have fresh: "order_id e \<notin> order_id ` set es" using Cons.prems(3) by simp
  then show ?case using ih good step by auto
qed simp

lemma swap_events:
  fixes E :: "('o, 'a, 's, 'd) orders_env"
  assumes "collect_assets E n buys sells st = Inr st1" "net_pool_swap E b s q p n l st1 = Inr (d, y, st2)"
  shows "events st2 = events st"
proof -
  have "same_books st st1" by (rule books.collect_assets_inv[OF same_books_refl _ assms(1)]) simp
  then have "same_books st st2" by (rule books.net_pool_swap_inv[OF _ assms(2)])
  then show ?thesis by (simp add: same_books_def)
qed

lemma classified_batch_fair:
  fixes E :: "('o, 'a, 's, 'd) orders_env"
  assumes run: "execute_classified_batch E n p buys sells st = Inr st'"
    and few: "length buys + length sells < 2 ^ 32" and ids: "distinct (map order_id (buys @ sells))"
    and limits: "\<forall>e \<in> set buys. effective_swap_limit e \<le> U64_MAX"
  shows "(\<forall>e \<in> set buys. \<exists>paid. fair_buy (effective_swap_limit e) (net e) paid \<and>
      executions (order_id e) st' = executions (order_id e) st @ [execution n e paid]) \<and>
    (\<forall>e \<in> set sells. \<exists>paid. fair_sell (e_fee_rate e) (effective_swap_limit e) (net e) paid \<and>
      executions (order_id e) st' = executions (order_id e) st @ [execution n e paid])"
  using run
proof (cases rule: classified_batch_cases)
  case nothing
  then show ?thesis using few by simp
next
  case (settled st1 d y st2 ta st3 fees st4 st5 z)
  let ?b = "sum_list (map net buys)" and ?q = "alpha_to_tao (sum_list (map net sells)) p"
  let ?t = "batch_tao d y ?b ?q"
  have start: "events st2 = events st" by (rule swap_events[OF settled(3,4)])
  have buys: "(\<forall>e\<in>set buys. fair_buy (effective_swap_limit e) (net e) (alpha_share ta ?b e) \<and>
      executions (order_id e) st3 = executions (order_id e) st2 @ [execution n e (alpha_share ta ?b e)]) \<and>
    (\<forall>j. j \<notin> order_id ` set buys \<longrightarrow> executions j st3 = executions j st2)"
  proof (rule payments_execute[where proj = "\<lambda>x. x", OF settled(6)])
    show "fair_buy (effective_swap_limit e) (net e) (alpha_share ta ?b e)"
      if "e \<in> set buys" "pay_buyer E n ta ?b e st0 = Inr st0'" for e st0 st0'
      using pay_buyer_executes(2)[OF that(2)] that(1) limits by blast
    show "executions j st0' = executions j st0 @ (if j = order_id e then [execution n e (alpha_share ta ?b e)] else [])"
      if "pay_buyer E n ta ?b e st0 = Inr st0'" for e st0 st0' j
      by (rule pay_buyer_executes(1)[OF that])
  qed (use ids in simp)
  have sells: "(\<forall>e\<in>set sells. fair_sell (e_fee_rate e) (effective_swap_limit e) (net e) (net_payout ?t ?q p e) \<and>
      executions (order_id e) st4 = executions (order_id e) st3 @ [execution n e (net_payout ?t ?q p e)]) \<and>
    (\<forall>j. j \<notin> order_id ` set sells \<longrightarrow> executions j st4 = executions j st3)"
  proof (rule payments_execute[where proj = snd, OF settled(7), simplified snd_conv])
    show "fair_sell (e_fee_rate e) (effective_swap_limit e) (net e) (net_payout ?t ?q p e)"
      if "pay_seller E n ?t ?q p e acc = Inr acc'" for e acc acc'
      by (rule pay_seller_executes(2)[OF that])
    show "executions j (snd acc') = executions j (snd acc) @ (if j = order_id e then [execution n e (net_payout ?t ?q p e)] else [])"
      if "pay_seller E n ?t ?q p e acc = Inr acc'" for e acc acc' j
      by (rule pay_seller_executes(1)[OF that])
  qed (use ids in simp)
  have "same_books st4 st5" by (rule books.collect_fees_inv[OF same_books_refl settled(8)])
  then have final: "executions j st' = executions j st4" for j by (simp add: settled(10) same_books_def deposit_event_def)
  have apart: "order_id e \<notin> order_id ` set sells" if "e \<in> set buys" for e using ids that by auto
  have apart': "order_id e \<notin> order_id ` set buys" if "e \<in> set sells" for e using ids that by auto
  show ?thesis using buys sells apart apart' by (auto simp: final start)
qed

section \<open>Properties\<close>

text \<open>
  C6: Whoever submits orders, alone or in a batch, only the pallet's account and the signers of submitted orders that are
  authentic (signed by their signer, or approved by the account beforehand) have assets taken: the call changes the chain by a
  sequence of operations of the swap interface, and each one debits one of these accounts.
\<close>

theorem debits_authorised:
  assumes "length orders \<le> MaxOrdersPerBatch E"
    and "execute_orders E origin orders should_fail st = Inr st' \<or> execute_batched_orders E origin n orders st = Inr st'"
  shows "\<exists>ms. performs E ms (chain st) (chain st') \<and>
    (\<forall>m\<in>set ms. debited m = pallet_account E \<or>
      (\<exists>signed\<in>set orders. authentic E st signed \<and> debited m = signer_of (order signed)))"
proof -
  let ?D = "insert (pallet_account E) {signer_of (order signed) | signed. signed \<in> set orders \<and> authentic E st signed}"
  obtain ms where ms: "performs E ms (chain st) (chain st')" "debited ` set ms \<subseteq> ?D"
    using calls_moved_by[OF assms] unfolding moved_by_def by blast
  have "debited m = pallet_account E \<or> (\<exists>signed\<in>set orders. authentic E st signed \<and> debited m = signer_of (order signed))"
    if "m \<in> set ms" for m using ms(2) that by blast
  then show ?thesis using ms(1) by blast
qed

definition ex_sell :: "nat VersionedOrder" where
  "ex_sell = V1 \<lparr>signer = 5, hotkey = 6, netuid = 3, order_type = TakeProfit, limit_price = 400000000, expiry = 90,
     fee_rate = 10000000, fee_recipient = 4, relayer = None, max_slippage = Some 100000000, chain_id = 945,
     partial_fills_enabled = False, amount_v1 = 800\<rparr>"

definition ex_batch :: "nat SignedOrder list" where
  "ex_batch = [\<lparr>order = ex_buy, signature = Sr25519 ''ok'', partial_fill = None\<rparr>,
     \<lparr>order = ex_sell, signature = Sr25519 ''ok'', partial_fill = None\<rparr>]"

definition ex_batched :: "(nat, nat, string) orders_storage" where
  "ex_batched = ex_start\<lparr>Orders := (\<lambda>_. None)(''v1b'' \<mapsto> Fulfilled, ''v1s'' \<mapsto> Fulfilled),
     events := [OrderExecuted ''v1b'' 1 3 LimitBuy 1000 2000, OrderExecuted ''v1s'' 5 3 TakeProfit 800 396,
       GroupExecutionSummary 3 Buy 600 1200 2]\<rparr>"

definition ex_buyer :: "nat OrderEntry" where
  "ex_buyer = \<lparr>order_id = ''v1b'', e_nonce = None, e_signer = 1, e_hotkey = 2, side = LimitBuy, gross = 1000, order_amount = 1000,
     net = 1000, e_fee_rate = 0, e_fee_recipient = 4, effective_swap_limit = U64_MAX, e_partial_fill = None,
     e_has_linked_order = False, provider = None\<rparr>"

definition ex_seller :: "nat OrderEntry" where
  "ex_seller = \<lparr>order_id = ''v1s'', e_nonce = None, e_signer = 5, e_hotkey = 6, side = TakeProfit, gross = 800, order_amount = 800,
     net = 800, e_fee_rate = 10000000, e_fee_recipient = 4, effective_swap_limit = 360000000, e_partial_fill = None,
     e_has_linked_order = False, provider = None\<rparr>"

definition ex_bought :: "(nat, nat, string) orders_storage" where
  "ex_bought = ex_start\<lparr>Orders := (\<lambda>_. None)(''v1b'' \<mapsto> Fulfilled),
     events := [OrderExecuted ''v1b'' 1 3 LimitBuy 1000 2000]\<rparr>"

definition ex_sold :: "(nat, nat, string) orders_storage" where
  "ex_sold = ex_start\<lparr>Orders := (\<lambda>_. None)(''v1b'' \<mapsto> Fulfilled, ''v1s'' \<mapsto> Fulfilled),
     events := [OrderExecuted ''v1b'' 1 3 LimitBuy 1000 2000, OrderExecuted ''v1s'' 5 3 TakeProfit 800 396]\<rparr>"

lemma ex_validated: "validate_and_classify ex_env ex_start 3 ex_batch 10 (2 ^ 63) 7 = Inr ([ex_buyer], [ex_seller])"
  by (simp add: validate_and_classify_def validate_entry_def try_push_def classify_order_def compute_effective_swap_limit_def
      ex_run_simps ex_batch_def ex_buy_def ex_sell_def ex_env_def ex_start_def from_v1_def ex_buyer_def ex_seller_def ACCURACY_def)

lemma ex_env_fields [simp]:
  "buy_alpha ex_env s who h n x l v = Inr (2 * x, s, [])" "transfer_tao ex_env s who to x = Inr (s, [])"
  "transfer_staked_alpha ex_env s who h to k n x u v = Inr (s, [])" "pallet_account ex_env = 99" "PalletHotkey ex_env = 98"
  "now_ms ex_env s = s" "current_alpha_price ex_env s n = 2 ^ 63" "MaxOrdersPerBatch ex_env = 100"
  "ensure_signed ex_env (Some who) = Inr who"
  by (simp_all add: ex_env_def)

lemma ex_pay_buyer: "pay_buyer ex_env 3 2000 1000 ex_buyer ex_start = Inr ex_bought"
  by (simp add: pay_buyer_def alpha_share_def close_entry_def ex_run_simps ex_buyer_def ex_start_def ex_bought_def as_u64_def
      saturating_mul_def checked_div_def)

lemma ex_price: "alpha_to_tao 800 (2 ^ 63) = 400"
  by (simp add: alpha_to_tao_def fx_floor_def fx_saturating_mul_def fx_saturating_of_def U128_MAX_def)

lemma ex_share: "tao_share 400 400 (2 ^ 63) ex_seller = 400"
  using ex_price by (simp add: tao_share_def ex_seller_def as_u64_def saturating_mul_def checked_div_def U128_MAX_def)

lemma ex_pay_seller: "pay_seller ex_env 3 400 400 (2 ^ 63) ex_seller ([], ex_bought) = Inr ([(4, 4)], ex_sold)"
  unfolding pay_seller_def ex_share
  by (simp add: close_entry_def ex_run_simps ex_seller_def ex_start_def ex_bought_def ex_sold_def saturating_mul_def ACCURACY_def)

lemma ex_settled: "execute_classified_batch ex_env 3 (2 ^ 63) [ex_buyer] [ex_seller] ex_start = Inr ex_batched"
proof -
  have nets: "net ex_buyer = 1000" "net ex_seller = 800" "gross ex_buyer = 1000" by (simp_all add: ex_buyer_def ex_seller_def)
  have spot: "spot_within_limits (2 ^ 63) [ex_buyer] [ex_seller]"
    by (simp add: spot_within_limits_def ex_buyer_def ex_seller_def fx_saturating_mul_def fx_of_def U128_MAX_def)
  have collect: "collect_assets ex_env 3 [ex_buyer] [ex_seller] ex_start = Inr ex_start"
    by (simp add: collect_assets_def effect_def runtime_def ex_start_def)
  have swap: "net_pool_swap ex_env 1000 800 400 (2 ^ 63) 3 l ex_start = Inr (Buy, 1200, ex_start)" for l
    by (simp add: net_pool_swap_def effect_value_def runtime_def as_u64_def check_def ensure_def ex_start_def)
  have "distribute_alpha_pro_rata ex_env [ex_buyer] 1200 1000 800 Buy (2 ^ 63) 3 ex_start = Inr ex_bought"
    using ex_pay_buyer by (simp add: distribute_alpha_pro_rata_def saturating_add_def U128_MAX_def)
  moreover have "distribute_tao_pro_rata ex_env [ex_seller] 1200 1000 400 Buy (2 ^ 63) 3 ex_bought = Inr ([(4, 4)], ex_sold)"
    using ex_pay_seller by (simp add: distribute_tao_pro_rata_def)
  moreover have "collect_fees ex_env [ex_buyer] [(4, 4)] ex_sold = Inr ex_sold"
    by (simp add: collect_fees_def buy_fees_def nets forward_fee_def effect_def runtime_def ex_start_def ex_sold_def)
  ultimately show ?thesis unfolding execute_classified_batch_def
    using spot collect swap ex_price
    by (simp add: nets check_def ensure_def net_amount_for_event_def as_u64_def deposit_event_def ex_sold_def ex_batched_def ex_start_def)
qed

lemma ex_batch_runs: "execute_batched_orders ex_env (Some 7) 3 ex_batch ex_start = Inr ex_batched"
proof -
  have start: "LimitOrdersEnabled ex_start" "chain ex_start = 10" by (simp_all add: ex_start_def)
  have plain: "\<not> list_ex uses_approval ex_batch" "filter uses_approval ex_batch = []"
    by (simp_all add: ex_batch_def uses_approval_def ex_buy_def ex_sell_def)
  have "do_execute_batched_orders ex_env 3 ex_batch 7 ex_start = Inr ex_batched"
    unfolding do_execute_batched_orders_def using ex_validated ex_settled plain start
    by (simp add: Let_def check_def ensure_def)
  then show ?thesis unfolding execute_batched_orders_def using plain start
    by (simp add: check_authorized_batch_bound_def Let_def check_def ensure_def runtime_def)
qed

theorem debits_authorised_witness:
  "\<exists>ms. performs ex_env ms (chain ex_start) (chain ex_batched) \<and> debited ` set ms \<subseteq> {99, 1, 5}"
proof -
  have "length ex_batch \<le> MaxOrdersPerBatch ex_env" by (simp add: ex_batch_def ex_env_def)
  from debits_authorised[OF this disjI2, OF ex_batch_runs] obtain ms where
    ms: "performs ex_env ms (chain ex_start) (chain ex_batched)"
    and debits: "\<forall>m\<in>set ms. debited m = pallet_account ex_env \<or>
      (\<exists>signed\<in>set ex_batch. authentic ex_env ex_start signed \<and> debited m = signer_of (order signed))" by blast
  have "debited m \<in> {99, 1, 5}" if "m \<in> set ms" for m
    using debits that by (auto simp: ex_env_def ex_batch_def ex_buy_def ex_sell_def)
  then show ?thesis using ms by blast
qed

text \<open>
  C3: A batch never spends what the pallet's account already held: in the moves of a successful batch signed by others, the
  pallet's position receives the alpha that the sell orders offer, the alpha that leaves it is at most this alpha and what the
  batch buys from the pool, and, as long as the offered alpha and its worth fit in 64 bits, the TAO that leaves the account
  for the swap, the sellers and the fees is at most the TAO that reaches it.
\<close>

theorem batch_solvent:
  assumes "length orders \<le> MaxOrdersPerBatch E" "length orders < 2 ^ 32" "execute_batched_orders E origin n orders st = Inr st'"
    and "ensure_signed E origin = Inr who" "\<forall>signed\<in>set orders. signer_of (order signed) \<noteq> pallet_account E"
  shows "\<exists>ms. performs E ms (chain st) (chain st') \<and>
    alpha_received (pallet_account E) (PalletHotkey E) n ms = offered E st n who orders \<and>
    alpha_out (pallet_account E) ms \<le> offered E st n who orders + alpha_bought (pallet_account E) (PalletHotkey E) n ms \<and>
    (offered E st n who orders \<le> U64_MAX \<longrightarrow> current_alpha_price E (chain st) n * offered E st n who orders < 2 ^ 128 \<longrightarrow>
      tao_out (pallet_account E) ms \<le> tao_in (pallet_account E) ms)"
  using assms(3,1)
proof (rule batch_entries)
  fix who' es
  assume who': "ensure_signed E origin = Inr who'" and es': "list_all2 (validated E st n who') orders es"
    and run: "execute_classified_batch E n (current_alpha_price E (chain st) n)
       (filter (\<lambda>e. is_buy (side e)) es) (filter (\<lambda>e. \<not> is_buy (side e)) es) st = Inr st'"
  have es: "list_all2 (validated E st n who) orders es" using es' who' assms(4) by simp
  have "net e \<le> gross e \<and> (\<not> is_buy (side e) \<longrightarrow> net e = gross e) \<and> e_signer e \<noteq> pallet_account E" if "e \<in> set es" for e
    using list_all2_sourced[OF es that] validated_nets assms(5) by metis
  then show ?thesis unfolding offered_entries[OF es, symmetric]
    using assms(2) list_all2_lengthD[OF es] by (intro classified_batch_solvent[OF run]) (auto simp: sum_length_filter_compl)
qed

theorem batch_solvent_witness:
  "offered ex_env ex_start 3 7 ex_batch = 800 \<and>
   (\<exists>ms. performs ex_env ms (chain ex_start) (chain ex_batched) \<and> alpha_received 99 98 3 ms = 800 \<and>
     alpha_out 99 ms \<le> 800 + alpha_bought 99 98 3 ms \<and> tao_out 99 ms \<le> tao_in 99 ms)"
proof -
  have offer: "offered ex_env ex_start 3 7 ex_batch = 800"
    by (simp add: offered_def ex_run_simps ex_batch_def ex_buy_def ex_sell_def ex_env_def ex_start_def from_v1_def)
  have "length ex_batch \<le> MaxOrdersPerBatch ex_env" "length ex_batch < 2 ^ 32" "ensure_signed ex_env (Some 7) = Inr 7"
    "\<forall>signed\<in>set ex_batch. signer_of (order signed) \<noteq> pallet_account ex_env"
    by (simp_all add: ex_batch_def ex_env_def ex_buy_def ex_sell_def)
  from batch_solvent[OF this(1,2) ex_batch_runs this(3,4)] show ?thesis
    unfolding offer by (simp add: U64_MAX_def ex_env_def)
qed



end
