(* ===== verification/Spec2Isabelle.thy ===== *)
theory Spec2Isabelle
  imports Alpha_Store Crowdloan Child_Families Tempo_Migration Multisig_Quorum Proxy_Delegation Order_Settlement
begin

text \<open>
  A verification development for the subtensor runtime: the accounting, delegation and scheduling cores of the chain and
  the pallets that decide who may act for whom, translated from the Rust sources under \<^verbatim>\<open>src/\<close>, with the theorems that
  make them correct.

  \<^bold>\<open>Parts of the program.\<close>  The chain is a Substrate runtime (\<^verbatim>\<open>src/runtime\<close>) assembled from pallets
  (\<^verbatim>\<open>src/pallets\<close>) and libraries (\<^verbatim>\<open>src/primitives\<close>, \<^verbatim>\<open>src/common\<close>).  Stake is kept per hotkey and subnet in
  share pools; hotkeys delegate stake weight to child hotkeys; every subnet runs epochs on a schedule and splits its emission
  among mechanisms; crowdloans collect funds; multisig and proxy accounts act for others under the filters of the runtime;
  relayers execute limit orders that accounts signed or approved beforehand.

  \<^bold>\<open>Theories.\<close>
  \<^item> \<open>Prelude\<close>: checked and saturating integer operations at their widths, results, weights, and the lemmas the components
    share.  \<open>BTree_Map\<close>: the ordered maps of the standard library.  \<open>Reserves\<close>: the part of the currency that the multisig
    and proxy pallets use, dispatch information, deposits recorded item by item.
  \<^item> \<open>Safe_Float\<close>, \<open>Share_Pool\<close>: \<^verbatim>\<open>src/primitives/share-pool/src/lib.rs\<close>, the decimal floating point type and the
    pool over an abstract storage.  The storage is an interface with laws, interpreted in \<open>Alpha_Store\<close>.
  \<^item> \<open>Total_Alpha_Staked\<close>: \<^verbatim>\<open>migrations/migrate_total_alpha_staked.rs\<close> and the live updates of the total, as
    interleaved steps.  \<open>Alpha_Store\<close>: the stake rows of \<^verbatim>\<open>staking/stake_utils.rs\<close> and the operations on positions.
  \<^item> \<open>Crowdloan\<close>: \<^verbatim>\<open>src/pallets/crowdloan/src/lib.rs\<close>, all dispatchables.
  \<^item> \<open>Rate_Limiting\<close>: \<^verbatim>\<open>utils/rate_limiting.rs\<close>.  \<open>Child_Keys\<close> (definitions) and \<open>Child_Families\<close> (lemmas):
    \<^verbatim>\<open>staking/set_children.rs\<close>, \<^verbatim>\<open>staking/auto_parent.rs\<close> and their use in the hotkey swap.
  \<^item> \<open>Epoch_Schedule\<close> (definitions) and \<open>Epoch_Progress\<close> (lemmas): \<^verbatim>\<open>coinbase/tempo_control.rs\<close>, the scheduling half of
    \<^verbatim>\<open>coinbase/run_coinbase.rs\<close>, the accessors of \<^verbatim>\<open>utils/misc.rs\<close> and the epoch numbers of \<^verbatim>\<open>subnets/weights.rs\<close>.
    \<open>Mechanisms\<close>: \<^verbatim>\<open>subnets/mechanism.rs\<close>.  \<open>Tempo_Migration\<close>: \<^verbatim>\<open>migrations/migrate_dynamic_tempo.rs\<close>.
  \<^item> \<open>Safe_Accounts\<close>: \<^verbatim>\<open>src/primitives/hashed/src/safe.rs\<close>.  \<open>Multisig\<close> (definitions) and \<open>Multisig_Quorum\<close> (lemmas):
    \<^verbatim>\<open>src/pallets/multisig\<close>.
  \<^item> \<open>Order_Types\<close> (the data of \<^verbatim>\<open>src/pallets/limit-orders/src/lib.rs\<close>, \<^verbatim>\<open>v2.rs\<close>, \<^verbatim>\<open>authorization.rs\<close>), \<open>Order_Rendering\<close> (the text
    of an order that a hardware wallet shows) and \<open>Limit_Orders\<close> (all dispatchables, hooks and the migration, as steps) model the
    limit orders; \<open>Order_Execution\<close> has the interface lemmas of an execution, as locales over what the asset operations and the
    bookkeeping keep; \<open>Order_Safety\<close> has the invariants of the books and \<open>Order_Settlement\<close> the movements of assets.
  \<^item> \<open>Proxy\<close>: \<^verbatim>\<open>src/pallets/proxy/src/lib.rs\<close>.  \<open>Proxy_Filters\<close>: the proxy types of \<^verbatim>\<open>src/common/src/proxy.rs\<close>, the
    call groups and allow-lists of \<^verbatim>\<open>src/runtime/src/proxy_filters\<close> and the macro behind them.  \<open>Proxy_Delegation\<close>: the
    two put together.

  \<^bold>\<open>Conventions.\<close>  Storage is a record with a field per storage item; the storage of the subtensor pallet grows by record
  extension from \<open>Rate_Limiting\<close> over \<open>Child_Keys\<close> and \<open>Epoch_Schedule\<close> to \<open>Mechanisms\<close>.  A dispatchable is a function from
  the storage to an error or the new storage: the framework rolls the storage back when a call fails.  What the framework,
  other pallets and generated code provide (origins, balances, hashes, encodings, weights, the order of storage iteration) is
  a record of functions, an argument of the model; the laws that the code relies on are named predicates (\<open>runtime_laws\<close>,
  \<open>currency_laws\<close>, \<open>multisig_laws\<close>, \<open>origin_laws\<close>, \<open>ss58_laws\<close> and so on), and each has an instance in the example of its theory.  Integers are natural numbers
  or integers with their bounds written out; plain operators that wrap in a release build are taken modulo their width.

  \<^bold>\<open>What is shown.\<close>
  \<^item> Stake: quotes never exceed the total, deposits and withdrawals are exact, closed pools stay closed, the per-subnet total is
    the sum over what has been counted at every moment of its backfill, and the backfill ends.
  \<^item> \<open>SafeFloat\<close>: normalization ends and loses only downwards, the direction of every rounding, comparison and conversion.
  \<^item> Crowdloans: what is raised is what is contributed and held, withdrawals and refunds are exact, only the creator
    finalizes, and a finalized crowdloan does not change.
  \<^item> Childkeys: parents and children agree in every reachable state, without self-loops, two-cycles or overfull
    proportions; storing relations refines the replacement of a star of edges; the swap renames; takes and rates are limited.
  \<^item> Epochs: a due epoch is served within as many blocks as there are subnets, the forecast of deferrals agrees with the
    drain away from the edge of the safety net (and a reachable state on that edge where it does not), splits of an emission
    lose nothing, the migration keeps the schedule.
  \<^item> Multisig: a call runs only with a quorum of distinct signatories, also when calls nest; the reserves are exactly the
    deposits on record; the open operations are well-formed.
  \<^item> Proxies: a proxied call needs a delegation and, after a delay, an announcement; nesting proxies neither reaches calls that
    need full authority nor yields delegations beyond the delegate's own; the metadata says what the filter does.

  \<^item> Limit orders: an order is never executed beyond its amount, nor after a terminal status; only signers with a signature or
    an approval are debited; a batch executes each of its orders once, within its price limit, and never spends what the
    pallet's account held before; linked outputs are used once; approvals are bounded; the readable text of an order
    determines it; and a partially filled order cannot be cancelled.

  \<^bold>\<open>Bounds and fuel.\<close>  No definition uses fuel: all loops are structural recursions over lists or calls, or have a termination
  proof.  A batch of orders is taken to have fewer than 2 to the 32 of them where its counter of 32 bits matters.  Dispatch of
  nested calls recurses over the call.  A call of another pallet is opaque: where it carries calls of the
  multisig or proxy pallet itself (a batch, say), these are not part of the model's recursion.

  \<^bold>\<open>Not modelled.\<close>  The epoch computation itself (\<^verbatim>\<open>epoch/\<close>), the emission flow of the coinbase, the staking extrinsics and
  the swap pallet they trade on, registration, weights and serving, leasing, root claims, the EVM, the hashed accounts, the
  admin calls, the node, the precompiles, the chain extension, the SDKs, vendored code and tooling.  They are listed with the
  reason in the manifest of the development.  Weights of calls and benchmarks are modelled only as the arithmetic that the
  code does on them.
\<close>

end
